(* ===== verification/Prelude.thy ===== *)
theory Prelude
  imports Main "HOL-Library.Word"
begin

text \<open>
  What every other theory of the development shares: the machine integers of the source, the
  result and poll values of Rust, the combinators that stand for \<open>?\<close>, \<open>map\<close> and
  \<open>collect\<close> on results, and the driver of an unbounded \<open>loop\<close>.
\<close>

subsection \<open>Machine integers\<close>

type_synonym u8 = "8 word"
type_synonym u16 = "16 word"
type_synonym u64 = "64 word"
type_synonym usize = "64 word"

subsection \<open>Results: \<open>Inl\<close> is \<open>Err\<close>, \<open>Inr\<close> is \<open>Ok\<close>\<close>

named_theorems res_simps \<open>rewriting of the result combinators\<close>

definition res_bind :: "'e + 'a \<Rightarrow> ('a \<Rightarrow> 'e + 'b) \<Rightarrow> 'e + 'b" where
  "res_bind r f = (case r of Inl e \<Rightarrow> Inl e | Inr a \<Rightarrow> f a)"

definition res_map :: "('a \<Rightarrow> 'b) \<Rightarrow> 'e + 'a \<Rightarrow> 'e + 'b" where
  "res_map f r = res_bind r (\<lambda>a. Inr (f a))"

definition is_ok :: "'e + 'a \<Rightarrow> bool" where
  "is_ok r = (case r of Inl _ \<Rightarrow> False | Inr _ \<Rightarrow> True)"

lemma res_bind_simps [simp, res_simps]:
  "res_bind (Inl e) f = Inl e"
  "res_bind (Inr a) f = f a"
  by (simp_all add: res_bind_def)

lemma res_map_simps [simp, res_simps]:
  "res_map g (Inl e) = Inl e"
  "res_map g (Inr a) = Inr (g a)"
  by (simp_all add: res_map_def)

lemma is_ok_simps [simp]:
  "is_ok (Inl e) = False"
  "is_ok (Inr a) = True"
  by (simp_all add: is_ok_def)

lemma res_bind_eq_Inr [res_simps]: "res_bind r f = Inr b \<longleftrightarrow> (\<exists>a. r = Inr a \<and> f a = Inr b)"
  by (cases r) auto

lemma res_bind_eq_Inl [res_simps]: "res_bind r f = Inl e \<longleftrightarrow> r = Inl e \<or> (\<exists>a. r = Inr a \<and> f a = Inl e)"
  by (cases r) auto

lemma res_map_eq_Inr [res_simps]: "res_map g r = Inr b \<longleftrightarrow> (\<exists>a. r = Inr a \<and> b = g a)"
  by (cases r) auto

lemma res_map_eq_Inl [simp]: "res_map g r = Inl e \<longleftrightarrow> r = Inl e"
  by (cases r) auto

lemma res_map_id [simp]: "res_map (\<lambda>v. v) r = r"
  by (cases r) auto

lemma res_map_map [simp]: "res_map f (res_map g r) = res_map (\<lambda>v. f (g v)) r"
  by (cases r) auto

lemma res_map_bind: "res_map f (res_bind r g) = res_bind r (\<lambda>a. res_map f (g a))"
  by (cases r) auto

lemma res_map_cong: "r = r' \<Longrightarrow> (\<And>a. r' = Inr a \<Longrightarrow> f a = g a) \<Longrightarrow> res_map f r = res_map g r'"
  by (cases r') auto

lemma res_bind_cong [fundef_cong]:
  "r = r' \<Longrightarrow> (\<And>a. r' = Inr a \<Longrightarrow> f a = g a) \<Longrightarrow> res_bind r f = res_bind r' g"
  by (cases r') auto

text \<open>\<open>iter.collect::<Result<Vec<_>, _>>()\<close>: the first error wins, nothing after it is looked at.\<close>

fun collect_res :: "('e + 'a) list \<Rightarrow> 'e + 'a list" where
  "collect_res [] = Inr []"
| "collect_res (r # rs) = res_bind r (\<lambda>a. res_bind (collect_res rs) (\<lambda>as. Inr (a # as)))"

lemma collect_res_Inr: "collect_res rs = Inr xs \<longleftrightarrow> rs = map Inr xs"
proof (induction rs arbitrary: xs)
  case (Cons r rs)
  then show ?case
    by (cases r; cases xs) (auto simp: res_bind_eq_Inr)
qed auto

lemma collect_res_map_Inr [simp]: "collect_res (map (\<lambda>x. Inr (f x)) xs) = Inr (map f xs)"
  by (induction xs) auto

lemma collect_res_Inl: "collect_res rs = Inl e \<longleftrightarrow> (\<exists>xs ys. rs = map Inr xs @ Inl e # ys)"
proof (induction rs)
  case (Cons r rs)
  show ?case
  proof (cases r)
    case (Inl a)
    then show ?thesis by (auto simp: Cons_eq_append_conv)
  next
    case (Inr a)
    have "(\<exists>xs ys. Inr a # rs = map Inr xs @ Inl e # ys) \<longleftrightarrow> (\<exists>xs ys. rs = map Inr xs @ Inl e # ys)"
      by (auto simp: Cons_eq_append_conv Cons_eq_map_conv intro: exI [of _ "_ # _"])
    with Inr Cons show ?thesis by (auto simp: res_bind_eq_Inl res_bind_eq_Inr)
  qed
qed auto

lemma collect_res_length: "collect_res rs = Inr xs \<Longrightarrow> length xs = length rs"
  by (auto simp: collect_res_Inr)

subsection \<open>Polling\<close>

datatype 'a poll = Ready 'a | Pending

subsection \<open>\<open>loop\<close>\<close>

text \<open>
  One iteration of a \<open>loop\<close> either returns (\<open>Inl\<close>) or goes round again with a new state
  (\<open>Inr\<close>). \<open>loop_run\<close> iterates it; \<open>None\<close> is a loop that never returns.
\<close>

partial_function (option) loop_run :: "('s \<Rightarrow> 'r + 's) \<Rightarrow> 's \<Rightarrow> 'r option" where
  "loop_run f s = (case f s of Inl r \<Rightarrow> Some r | Inr s' \<Rightarrow> loop_run f s')"

lemma loop_run_return: "f s = Inl r \<Longrightarrow> loop_run f s = Some r"
  by (simp add: loop_run.simps)

lemma loop_run_again: "f s = Inr s' \<Longrightarrow> loop_run f s = loop_run f s'"
  by (simp add: loop_run.simps [of f s])

text \<open>A loop returns when a measure decreases on every iteration that does not return.\<close>

lemma loop_run_terminates:
  fixes m :: "'s \<Rightarrow> nat"
  assumes inv: "P s" and keep: "\<And>s s'. P s \<Longrightarrow> f s = Inr s' \<Longrightarrow> P s' \<and> m s' < m s"
  shows "\<exists>r s'. loop_run f s = Some r \<and> P s' \<and> f s' = Inl r"
  using inv
proof (induction "m s" arbitrary: s rule: less_induct)
  case less
  show ?case
  proof (cases "f s")
    case (Inl r)
    with less.prems show ?thesis by (auto intro: loop_run_return)
  next
    case (Inr t)
    with less.prems keep have "P t" "m t < m s" by auto
    with less.hyps obtain r s' where "loop_run f t = Some r" "P s'" "f s' = Inl r" by blast
    with Inr show ?thesis by (auto simp: loop_run_again)
  qed
qed

text \<open>What a loop that returns has kept: partial correctness.\<close>

lemma loop_run_invariant:
  assumes ret: "loop_run f s = Some r" and start: "P s"
    and keep: "\<And>s s'. P s \<Longrightarrow> f s = Inr s' \<Longrightarrow> P s'"
    and stop: "\<And>s r. P s \<Longrightarrow> f s = Inl r \<Longrightarrow> R r"
  shows "R r"
proof -
  have "f' = f \<longrightarrow> P s \<longrightarrow> R r" if "loop_run f' s = Some r" for f' s r
  proof (rule loop_run.raw_induct [where P = "\<lambda>f' s r. f' = f \<longrightarrow> P s \<longrightarrow> R r", OF _ that])
    fix loop f' s r
    assume IH: "\<And>f' s r. loop f' s = Some r \<Longrightarrow> f' = f \<longrightarrow> P s \<longrightarrow> R r"
      and step: "(case f' s of Inl r \<Rightarrow> Some r | Inr s' \<Rightarrow> loop f' s') = Some r"
    show "f' = f \<longrightarrow> P s \<longrightarrow> R r"
    proof (intro impI)
      assume "f' = f" "P s"
      with step IH keep stop show "R r" by (cases "f s") auto
    qed
  qed
  with ret start show ?thesis by blast
qed

text \<open>A loop that can always go round again never returns.\<close>

lemma loop_run_diverges:
  assumes start: "P s" and again: "\<And>s. P s \<Longrightarrow> \<exists>s'. f s = Inr s' \<and> P s'"
  shows "loop_run f s = None"
proof (cases "loop_run f s")
  case (Some r)
  then have False
  proof (rule loop_run_invariant [where P = P])
    show "P s'" if "P s" "f s = Inr s'" for s s' using again [OF that(1)] that(2) by auto
    show False if "P s" "f s = Inl r" for s r using again [OF that(1)] that(2) by auto
  qed (rule start)
  then show ?thesis ..
qed

subsection \<open>Step relations\<close>

lemma rtranclp_two: "R a b \<Longrightarrow> R b c \<Longrightarrow> R\<^sup>*\<^sup>* a c"
  by (rule converse_rtranclp_into_rtranclp, assumption, rule r_into_rtranclp)

subsection \<open>Lists\<close>

lemma filter_fst_neq_id: "i \<notin> fst ` set xs \<Longrightarrow> filter (\<lambda>p. fst p \<noteq> i) xs = xs"
  by (induction xs) auto

text \<open>A split of a range.\<close>

lemma upt_split:
  assumes "[0..<n] = xs @ k # ys"
  shows "xs = [0..<k]" and "k < n"
proof -
  have "k \<in> set [0..<n]" using assms by (metis in_set_conv_decomp)
  then show "k < n" by simp
  have len: "length xs < n" using arg_cong [OF assms, of length] by simp
  have "k = [0..<n] ! length xs" by (simp only: assms nth_append_length)
  with len have "k = length xs" by simp
  moreover have "xs = take (length xs) [0..<n]" by (simp add: assms)
  ultimately show "xs = [0..<k]" using len by (simp add: take_upt)
qed

text \<open>A \<open>BTreeMap\<close> as an association list kept in the order of its keys.\<close>

fun bt_insert :: "'k :: linorder \<Rightarrow> 'v \<Rightarrow> ('k \<times> 'v) list \<Rightarrow> ('k \<times> 'v) list" where
  "bt_insert k v [] = [(k, v)]"
| "bt_insert k v ((k', v') # m) =
     (if k < k' then (k, v) # (k', v') # m else if k = k' then (k, v) # m else (k', v') # bt_insert k v m)"

definition bt_remove :: "'k :: linorder \<Rightarrow> ('k \<times> 'v) list \<Rightarrow> ('k \<times> 'v) list" where
  "bt_remove k m = filter (\<lambda>(k', _). k' \<noteq> k) m"

definition bt_extend :: "('k :: linorder \<times> 'v) list \<Rightarrow> ('k \<times> 'v) list \<Rightarrow> ('k \<times> 'v) list" where
  "bt_extend m other = fold (\<lambda>(k, v). bt_insert k v) other m"

abbreviation bt_keys :: "('k \<times> 'v) list \<Rightarrow> 'k set" where
  "bt_keys m \<equiv> fst ` set m"

lemma map_of_bt_insert [simp]: "map_of (bt_insert k v m) = (map_of m)(k \<mapsto> v)"
  by (induction k v m rule: bt_insert.induct) auto

lemma bt_insert_keys [simp]: "bt_keys (bt_insert k v m) = insert k (bt_keys m)"
  by (induction k v m rule: bt_insert.induct) auto

lemma bt_insert_sorted:
  "sorted_wrt (<) (map fst m) \<Longrightarrow> sorted_wrt (<) (map fst (bt_insert k v m))"
proof (induction k v m rule: bt_insert.induct)
  case (2 k v k' v' m)
  then show ?case by (auto simp: set_map [symmetric] simp del: set_map) (auto simp: bt_insert_keys [symmetric])
qed simp

lemma bt_extend_keys [simp]: "bt_keys (bt_extend m other) = bt_keys m \<union> bt_keys other"
proof (induction other arbitrary: m)
  case (Cons x other)
  show ?case using Cons [of "bt_insert (fst x) (snd x) m"] by (simp add: bt_extend_def case_prod_beta)
qed (simp add: bt_extend_def)

lemma bt_extend_sorted:
  "sorted_wrt (<) (map fst m) \<Longrightarrow> sorted_wrt (<) (map fst (bt_extend m other))"
  by (induction other arbitrary: m) (auto simp: bt_extend_def bt_insert_sorted)

end
