(* ===== verification/HashSet.thy ===== *)
theory HashSet
  imports Prelude
begin

unbundle bit_operations_syntax

text \<open>
  The set of item hashes behind a unique channel (\<open>lib/channel/src/hash_set.rs\<close>): the pass-through
  hasher, the writer that feeds serialised bytes to a hasher, and the set's operations. The JSON
  serialiser, the \<open>ahash\<close> hasher and the \<open>dashmap\<close> set are third-party code: they are the
  fields of \<open>hash_ext\<close>, arguments of every operation.
\<close>

subsection \<open>The code outside the repository\<close>

record ('a, 'h, 'd) hash_ext =
  to_writer :: "'a \<Rightarrow> u8 list list"      \<comment> \<open>the buffers \<open>serde_json::to_writer\<close> writes for a value\<close>
  hasher_write :: "'h \<Rightarrow> u8 list \<Rightarrow> 'h"  \<comment> \<open>\<open>ahash\<close>'s \<open>Hasher::write\<close>\<close>
  hasher_finish :: "'h \<Rightarrow> u64"
  ds_empty :: 'd                        \<comment> \<open>\<open>DashSet<u64, _>\<close>\<close>
  ds_insert :: "'d \<Rightarrow> u64 \<Rightarrow> bool \<times> 'd"
  ds_remove :: "'d \<Rightarrow> u64 \<Rightarrow> 'd"

subsection \<open>The pass-through hasher\<close>

text \<open>
  \<open>bytes.try_into()\<close> succeeds on exactly eight bytes; \<open>from_ne_bytes\<close> on a little-endian machine
  reads the least significant byte first. Any other length leaves the state alone.
\<close>

type_synonym pass_through_hasher = u64

definition from_ne_bytes :: "u8 list \<Rightarrow> u64" where
  "from_ne_bytes bs = foldr (\<lambda>b acc. ucast b OR push_bit 8 acc) bs 0"

definition to_ne_bytes :: "u64 \<Rightarrow> u8 list" where
  "to_ne_bytes w = map (\<lambda>i. ucast (drop_bit (8 * i) w)) [0..<8]"

definition pth_default :: pass_through_hasher where
  "pth_default = 0"

definition pth_write :: "pass_through_hasher \<Rightarrow> u8 list \<Rightarrow> pass_through_hasher" where
  "pth_write h bs = (if length bs = 8 then from_ne_bytes bs else h)"

definition pth_finish :: "pass_through_hasher \<Rightarrow> u64" where
  "pth_finish h = h"

lemma length_to_ne_bytes [simp]: "length (to_ne_bytes w) = 8"
  by (simp add: to_ne_bytes_def)

lemma bit_from_ne_bytes:
  "n < 64 \<Longrightarrow> length bs \<le> 8 \<Longrightarrow> bit (from_ne_bytes bs) n \<longleftrightarrow> n div 8 < length bs \<and> bit (bs ! (n div 8)) (n mod 8)"
proof (induction bs arbitrary: n)
  case Nil
  then show ?case by (simp add: from_ne_bytes_def)
next
  case (Cons b bs)
  have step: "from_ne_bytes (b # bs) = ucast b OR push_bit 8 (from_ne_bytes bs)"
    by (simp add: from_ne_bytes_def)
  show ?case
  proof (cases "n < 8")
    case True
    then show ?thesis using Cons.prems by (simp add: step bit_simps)
  next
    case False
    then have n: "(n - 8) div 8 = n div 8 - 1" "(n - 8) mod 8 = n mod 8" "0 < n div 8"
      by (auto simp: le_div_geq le_mod_geq)
    have l: "n div 8 - 1 < length bs \<longleftrightarrow> n div 8 < Suc (length bs)"
      using n(3) by (cases "n div 8") auto
    have "\<not> bit b n" using False by (auto dest: bit_imp_le_length)
    then show ?thesis
      using False Cons.prems Cons.IH [of "n - 8"] n l
      by (simp add: step bit_simps nth_Cons')
  qed
qed

lemma from_to_ne_bytes [simp]: "from_ne_bytes (to_ne_bytes w) = w"
proof (rule bit_word_eqI)
  fix n assume "n < LENGTH(64)"
  then have "n div 8 < 8" "n < 64" by auto
  then show "bit (from_ne_bytes (to_ne_bytes w)) n \<longleftrightarrow> bit w n"
    by (simp add: bit_from_ne_bytes) (simp add: to_ne_bytes_def bit_simps)
qed

subsection \<open>The hash set\<close>

record ('h, 'd) hash_set =
  hs_hasher :: 'h       \<comment> \<open>what \<open>self.hasher.build_hasher()\<close> returns; the \<open>RandomState\<close> is fixed\<close>
  hs_inner :: 'd

definition hs_new :: "('a, 'h, 'd, 'z) hash_ext_scheme \<Rightarrow> 'h \<Rightarrow> ('h, 'd) hash_set" where
  "hs_new E h = \<lparr>hs_hasher = h, hs_inner = ds_empty E\<rparr>"

text \<open>\<open>HashHelper::write\<close> passes each buffer to the hasher and never fails.\<close>

definition hash_helper_write :: "('a, 'h, 'd, 'z) hash_ext_scheme \<Rightarrow> 'h \<Rightarrow> u8 list \<Rightarrow> 'h \<times> nat" where
  "hash_helper_write E h buf = (hasher_write E h buf, length buf)"

definition get_hash :: "('a, 'h, 'd, 'z) hash_ext_scheme \<Rightarrow> ('h, 'd) hash_set \<Rightarrow> 'a \<Rightarrow> u64" where
  "get_hash E s x =
     hasher_finish E (fold (\<lambda>buf h. fst (hash_helper_write E h buf)) (to_writer E x) (hs_hasher s))"

definition hs_insert ::
    "('a, 'h, 'd, 'z) hash_ext_scheme \<Rightarrow> ('h, 'd) hash_set \<Rightarrow> 'a \<Rightarrow> bool \<times> ('h, 'd) hash_set" where
  "hs_insert E s x =
     (let hash = get_hash E s x; (new, d) = ds_insert E (hs_inner s) hash
      in (new, s\<lparr>hs_inner := d\<rparr>))"

definition hs_remove ::
    "('a, 'h, 'd, 'z) hash_ext_scheme \<Rightarrow> ('h, 'd) hash_set \<Rightarrow> 'a \<Rightarrow> ('h, 'd) hash_set" where
  "hs_remove E s x =
     (let hash = get_hash E s x in s\<lparr>hs_inner := ds_remove E (hs_inner s) hash\<rparr>)"

subsection \<open>The contract of a fingerprint set\<close>

text \<open>
  What the channel relies on: a set of fingerprints, an insert that says whether the fingerprint
  was new, a remove, and a fingerprint function that neither operation changes.
\<close>

locale fingerprint_set =
  fixes ins :: "'s \<Rightarrow> 'a \<Rightarrow> bool \<times> 's"
    and rem :: "'s \<Rightarrow> 'a \<Rightarrow> 's"
    and fp :: "'s \<Rightarrow> 'a \<Rightarrow> u64"
    and fps :: "'s \<Rightarrow> u64 set"
  assumes ins_new: "fst (ins s x) \<longleftrightarrow> fp s x \<notin> fps s"
    and ins_fps: "fps (snd (ins s x)) = insert (fp s x) (fps s)"
    and rem_fps: "fps (rem s x) = fps s - {fp s x}"
    and ins_fp: "fp (snd (ins s x)) = fp s"
    and rem_fp: "fp (rem s x) = fp s"
begin

lemma ins_again: "fst (ins (snd (ins s x)) x) = False"
  by (simp add: ins_new ins_fps ins_fp)

lemma ins_after_rem: "fst (ins (rem s x) x) = True"
  by (simp add: ins_new rem_fps rem_fp)

lemma rem_ins_new: "fst (ins s x) \<Longrightarrow> fps (rem (snd (ins s x)) x) = fps s"
  by (auto simp: ins_new rem_fps ins_fps ins_fp)

end

text \<open>The documented behaviour of \<open>DashSet\<close>: a set of words.\<close>

locale dash_set =
  fixes E :: "('a, 'h, 'd, 'z) hash_ext_scheme" and dset :: "'d \<Rightarrow> u64 set"
  assumes ds_empty: "dset (ds_empty E) = {}"
    and ds_insert: "fst (ds_insert E d w) \<longleftrightarrow> w \<notin> dset d" "dset (snd (ds_insert E d w)) = insert w (dset d)"
    and ds_remove: "dset (ds_remove E d w) = dset d - {w}"
begin

lemma hs_insert_fst: "fst (hs_insert E s x) \<longleftrightarrow> get_hash E s x \<notin> dset (hs_inner s)"
  by (simp add: hs_insert_def Let_def case_prod_beta ds_insert)

lemma hs_insert_snd:
  "dset (hs_inner (snd (hs_insert E s x))) = insert (get_hash E s x) (dset (hs_inner s))"
  "hs_hasher (snd (hs_insert E s x)) = hs_hasher s"
  by (simp_all add: hs_insert_def Let_def case_prod_beta ds_insert)

lemma hs_remove_inner:
  "dset (hs_inner (hs_remove E s x)) = dset (hs_inner s) - {get_hash E s x}"
  "hs_hasher (hs_remove E s x) = hs_hasher s"
  by (simp_all add: hs_remove_def Let_def ds_remove)

end

text \<open>A hash set over a \<open>DashSet\<close> that keeps its contract is a fingerprint set.\<close>

sublocale dash_set \<subseteq> hs: fingerprint_set "hs_insert E" "hs_remove E" "get_hash E" "\<lambda>s. dset (hs_inner s)"
  by unfold_locales
    (auto simp: hs_insert_fst hs_insert_snd hs_remove_inner get_hash_def fun_eq_iff)

subsection \<open>A reference environment\<close>

text \<open>
  A concrete choice of the third-party parts, for the witnesses: the hasher keeps the last
  buffer as a number, the set is a list of words.
\<close>

definition ref_hash_ext :: "(u64, u64, u64 list) hash_ext" where
  "ref_hash_ext = \<lparr>
     to_writer = (\<lambda>w. [to_ne_bytes w]),
     hasher_write = pth_write,
     hasher_finish = pth_finish,
     ds_empty = [],
     ds_insert = (\<lambda>d w. (w \<notin> set d, List.insert w d)),
     ds_remove = (\<lambda>d w. removeAll w d)\<rparr>"

interpretation ref_hash: dash_set ref_hash_ext set
  by unfold_locales (auto simp: ref_hash_ext_def)

end
