(* ===== verification/Channel.thy ===== *)
theory Channel
  imports HashSet
begin

text \<open>
  The provider channel (\<open>lib/channel/src/lib.rs\<close>): an unbounded queue with a soft limit, an optional
  set of item fingerprints, three events and three handle counts, and the handles that poll it.
  The queue (\<open>concurrent_queue\<close>) and the events (\<open>event_listener\<close>) are third-party code: the fields of
  \<open>chan_ext\<close>. Every operation here runs without interruption; \<open>ChannelSystem\<close> splits the one that
  other threads can interrupt harmfully. Counters are machine words that wrap as the release build's
  do; the queue's length and the limit count items in memory and are natural numbers.
\<close>

subsection \<open>The code outside the repository\<close>

record ('a, 'h, 'd, 'q, 'ev) chan_ext = "('a, 'h, 'd) hash_ext" +
  q_unbounded :: 'q                           \<comment> \<open>\<open>ConcurrentQueue::unbounded()\<close>\<close>
  q_push :: "'q \<Rightarrow> 'a \<Rightarrow> 'q"
  q_pop :: "'q \<Rightarrow> ('a \<times> 'q) option"
  q_len :: "'q \<Rightarrow> nat"
  ev_new :: 'ev                               \<comment> \<open>\<open>Event::new()\<close>\<close>
  ev_notify :: "'ev \<Rightarrow> usize \<Rightarrow> 'ev"
  ev_listen :: "'ev \<Rightarrow> nat \<times> 'ev"     \<comment> \<open>a new \<open>EventListener\<close>, named by a number\<close>
  ev_poll :: "'ev \<Rightarrow> nat \<Rightarrow> bool \<times> 'ev"     \<comment> \<open>\<open>True\<close> is \<open>Poll::Ready(())\<close>\<close>
  ev_drop :: "'ev \<Rightarrow> nat \<Rightarrow> 'ev"         \<comment> \<open>dropping an \<open>EventListener\<close> that has not fired\<close>

subsection \<open>Limits and channels\<close>

datatype limit = Dynamic nat | Static nat

definition limit_dynamic :: "nat \<Rightarrow> limit" where
  "limit_dynamic n = Dynamic n"

definition limit_statik :: "nat \<Rightarrow> limit" where
  "limit_statik n = Static n"

fun limit_get :: "limit \<Rightarrow> nat" where
  "limit_get (Dynamic a) = a"
| "limit_get (Static n) = n"

record ('h, 'd, 'q, 'ev) channel =
  ch_name :: string
  has_maxed :: bool
  ch_limit :: limit
  on_demand_events :: 'ev
  receiver_events :: 'ev
  sender_events :: 'ev
  queue :: 'q
  on_demand_count :: usize
  receiver_count :: usize
  sender_count :: usize
  unique :: "('h, 'd) hash_set option"

text \<open>\<open>h\<close> is the hasher the random state of a new hash set builds.\<close>

definition channel_new ::
    "('a, 'h, 'd, 'q, 'ev) chan_ext \<Rightarrow> 'h \<Rightarrow> limit \<Rightarrow> bool \<Rightarrow> string \<Rightarrow> ('h, 'd, 'q, 'ev) channel" where
  "channel_new E h limit uniq name =
     \<lparr>ch_name = name, has_maxed = False, ch_limit = limit,
      on_demand_events = ev_new E, receiver_events = ev_new E, sender_events = ev_new E,
      queue = q_unbounded E,
      on_demand_count = 1, receiver_count = 1, sender_count = 1,
      unique = (if uniq then Some (hs_new E h) else None)\<rparr>"

subsection \<open>Notifications and counts\<close>

definition usize_max :: usize where
  "usize_max = - 1"

definition chan_len :: "('a, 'h, 'd, 'q, 'ev) chan_ext \<Rightarrow> ('h, 'd, 'q, 'ev) channel \<Rightarrow> nat" where
  "chan_len E c = q_len E (queue c)"

definition chan_limit :: "('h, 'd, 'q, 'ev) channel \<Rightarrow> nat" where
  "chan_limit c = limit_get (ch_limit c)"

definition notify_on_demand ::
    "('a, 'h, 'd, 'q, 'ev) chan_ext \<Rightarrow> ('h, 'd, 'q, 'ev) channel \<Rightarrow> ('h, 'd, 'q, 'ev) channel" where
  "notify_on_demand E c = c\<lparr>on_demand_events := ev_notify E (on_demand_events c) 1\<rparr>"

definition notify_sender ::
    "('a, 'h, 'd, 'q, 'ev) chan_ext \<Rightarrow> ('h, 'd, 'q, 'ev) channel \<Rightarrow> ('h, 'd, 'q, 'ev) channel" where
  "notify_sender E c = c\<lparr>sender_events := ev_notify E (sender_events c) 1\<rparr>"

definition notify_all_senders ::
    "('a, 'h, 'd, 'q, 'ev) chan_ext \<Rightarrow> ('h, 'd, 'q, 'ev) channel \<Rightarrow> ('h, 'd, 'q, 'ev) channel" where
  "notify_all_senders E c = c\<lparr>sender_events := ev_notify E (sender_events c) usize_max\<rparr>"

definition notify_receiver ::
    "('a, 'h, 'd, 'q, 'ev) chan_ext \<Rightarrow> ('h, 'd, 'q, 'ev) channel \<Rightarrow> ('h, 'd, 'q, 'ev) channel" where
  "notify_receiver E c = c\<lparr>receiver_events := ev_notify E (receiver_events c) 1\<rparr>"

definition notify_all_receivers ::
    "('a, 'h, 'd, 'q, 'ev) chan_ext \<Rightarrow> ('h, 'd, 'q, 'ev) channel \<Rightarrow> ('h, 'd, 'q, 'ev) channel" where
  "notify_all_receivers E c = c\<lparr>receiver_events := ev_notify E (receiver_events c) usize_max\<rparr>"

definition on_demand_listen ::
    "('a, 'h, 'd, 'q, 'ev) chan_ext \<Rightarrow> ('h, 'd, 'q, 'ev) channel \<Rightarrow> nat \<times> ('h, 'd, 'q, 'ev) channel" where
  "on_demand_listen E c =
     (let (i, ev) = ev_listen E (on_demand_events c) in (i, c\<lparr>on_demand_events := ev\<rparr>))"

definition sender_listen ::
    "('a, 'h, 'd, 'q, 'ev) chan_ext \<Rightarrow> ('h, 'd, 'q, 'ev) channel \<Rightarrow> nat \<times> ('h, 'd, 'q, 'ev) channel" where
  "sender_listen E c =
     (let (i, ev) = ev_listen E (sender_events c) in (i, c\<lparr>sender_events := ev\<rparr>))"

definition receiver_listen ::
    "('a, 'h, 'd, 'q, 'ev) chan_ext \<Rightarrow> ('h, 'd, 'q, 'ev) channel \<Rightarrow> nat \<times> ('h, 'd, 'q, 'ev) channel" where
  "receiver_listen E c =
     (let (i, ev) = ev_listen E (receiver_events c) in (i, c\<lparr>receiver_events := ev\<rparr>))"

text \<open>\<open>fetch_add(1) + 1\<close> and \<open>fetch_sub(1) - 1\<close>: the new count and the stored count, both wrapping.\<close>

definition increment_on_demand_count :: "('h, 'd, 'q, 'ev) channel \<Rightarrow> usize \<times> ('h, 'd, 'q, 'ev) channel" where
  "increment_on_demand_count c =
     (on_demand_count c + 1, c\<lparr>on_demand_count := on_demand_count c + 1\<rparr>)"

definition decrement_on_demand_count :: "('h, 'd, 'q, 'ev) channel \<Rightarrow> usize \<times> ('h, 'd, 'q, 'ev) channel" where
  "decrement_on_demand_count c =
     (on_demand_count c - 1, c\<lparr>on_demand_count := on_demand_count c - 1\<rparr>)"

definition increment_sender_count :: "('h, 'd, 'q, 'ev) channel \<Rightarrow> usize \<times> ('h, 'd, 'q, 'ev) channel" where
  "increment_sender_count c = (sender_count c + 1, c\<lparr>sender_count := sender_count c + 1\<rparr>)"

definition decrement_sender_count :: "('h, 'd, 'q, 'ev) channel \<Rightarrow> usize \<times> ('h, 'd, 'q, 'ev) channel" where
  "decrement_sender_count c = (sender_count c - 1, c\<lparr>sender_count := sender_count c - 1\<rparr>)"

definition increment_receiver_count :: "('h, 'd, 'q, 'ev) channel \<Rightarrow> usize \<times> ('h, 'd, 'q, 'ev) channel" where
  "increment_receiver_count c = (receiver_count c + 1, c\<lparr>receiver_count := receiver_count c + 1\<rparr>)"

definition decrement_receiver_count :: "('h, 'd, 'q, 'ev) channel \<Rightarrow> usize \<times> ('h, 'd, 'q, 'ev) channel" where
  "decrement_receiver_count c = (receiver_count c - 1, c\<lparr>receiver_count := receiver_count c - 1\<rparr>)"

subsection \<open>Sending and receiving\<close>

definition chan_send ::
    "('a, 'h, 'd, 'q, 'ev) chan_ext \<Rightarrow> ('h, 'd, 'q, 'ev) channel \<Rightarrow> 'a \<Rightarrow> ('h, 'd, 'q, 'ev) channel" where
  "chan_send E c item =
     (let (should_send, c1) =
        (case unique c of
           None \<Rightarrow> (True, c)
         | Some s \<Rightarrow> (let (b, s') = hs_insert E s item in (b, c\<lparr>unique := Some s'\<rparr>)))
      in if should_send
         then notify_receiver E (c1\<lparr>queue := q_push E (queue c1) item\<rparr>)
         else c1)"

definition chan_recv ::
    "('a, 'h, 'd, 'q, 'ev) chan_ext \<Rightarrow> ('h, 'd, 'q, 'ev) channel \<Rightarrow> 'a option \<times> ('h, 'd, 'q, 'ev) channel" where
  "chan_recv E c =
     (case q_pop E (queue c) of
        Some (item, q) \<Rightarrow>
          (let c1 = c\<lparr>queue := q\<rparr>;
               c2 = (case unique c1 of
                       Some s \<Rightarrow> c1\<lparr>unique := Some (hs_remove E s item)\<rparr>
                     | None \<Rightarrow> c1);
               inner_len = chan_len E c2;
               limit = chan_limit c2;
               c3 = (if inner_len = 0
                     then (case ch_limit c2 of
                             Dynamic a \<Rightarrow>
                               if has_maxed c2 then c2\<lparr>has_maxed := False, ch_limit := Dynamic (a + 1)\<rparr> else c2
                           | Static _ \<Rightarrow> c2)
                     else if limit = inner_len + 1 then c2\<lparr>has_maxed := True\<rparr>
                     else c2);
               c4 = (if inner_len < limit then notify_sender E c3 else c3)
           in (Some item, c4))
      | None \<Rightarrow> (None, notify_on_demand E c))"

subsection \<open>Senders\<close>

datatype 'a send_state = Closed 'a | Full 'a | Success

fun is_success :: "'a send_state \<Rightarrow> bool" where
  "is_success Success = True"
| "is_success _ = False"

definition no_receivers :: "('h, 'd, 'q, 'ev) channel \<Rightarrow> bool" where
  "no_receivers c \<longleftrightarrow> receiver_count c = 0"

definition force_send ::
    "('a, 'h, 'd, 'q, 'ev) chan_ext \<Rightarrow> ('h, 'd, 'q, 'ev) channel \<Rightarrow> 'a \<Rightarrow> ('h, 'd, 'q, 'ev) channel" where
  "force_send E c item = chan_send E c item"

definition try_send ::
    "('a, 'h, 'd, 'q, 'ev) chan_ext \<Rightarrow> ('h, 'd, 'q, 'ev) channel \<Rightarrow> 'a \<Rightarrow>
     'a send_state \<times> ('h, 'd, 'q, 'ev) channel" where
  "try_send E c item =
     (if no_receivers c then (Closed item, c)
      else if chan_len E c < chan_limit c then (Success, force_send E c item)
      else if no_receivers c then (Closed item, c)
      else (Full item, c))"

text \<open>A handle owns an optional listener. Setting it to \<open>None\<close> drops the listener.\<close>

type_synonym listener = "nat option"

definition drop_listener ::
    "('a, 'h, 'd, 'q, 'ev) chan_ext \<Rightarrow> 'ev \<Rightarrow> listener \<Rightarrow> 'ev" where
  "drop_listener E ev l = (case l of None \<Rightarrow> ev | Some i \<Rightarrow> ev_drop E ev i)"

definition sender_clone :: "('h, 'd, 'q, 'ev) channel \<Rightarrow> listener \<times> ('h, 'd, 'q, 'ev) channel" where
  "sender_clone c = (None, snd (increment_sender_count c))"

definition sender_drop ::
    "('a, 'h, 'd, 'q, 'ev) chan_ext \<Rightarrow> ('h, 'd, 'q, 'ev) channel \<Rightarrow> listener \<Rightarrow> ('h, 'd, 'q, 'ev) channel" where
  "sender_drop E c l =
     (let (count, c1) = decrement_sender_count c;
          c2 = (if count = 0 then notify_all_receivers E c1 else c1)
      in c2\<lparr>sender_events := drop_listener E (sender_events c2) l\<rparr>)"

text \<open>\<open>ChannelClosed\<close> carries an optional wrapped error; two are equal when neither has one.\<close>

datatype 'x channel_closed = ChannelClosed (closed_inner: "'x option")

definition channel_closed_eq :: "'x channel_closed \<Rightarrow> 'x channel_closed \<Rightarrow> bool" where
  "channel_closed_eq l r \<longleftrightarrow> closed_inner l = None \<and> closed_inner r = None"

definition channel_closed_new :: "'x channel_closed" where
  "channel_closed_new = ChannelClosed None"

definition channel_closed_wrapped :: "'x \<Rightarrow> 'x channel_closed" where
  "channel_closed_wrapped e = ChannelClosed (Some e)"

definition inner_cast :: "('x \<Rightarrow> 'y option) \<Rightarrow> 'x channel_closed \<Rightarrow> 'y option" where
  "inner_cast downcast e = Option.bind (closed_inner e) downcast"

text \<open>
  One iteration of the loop of \<open>Sink::poll_ready\<close>: the state is the channel and the sender's
  listener, the result what the poll returns with the new state.
\<close>

type_synonym ('h, 'd, 'q, 'ev) handle = "('h, 'd, 'q, 'ev) channel \<times> listener"

definition poll_ready_room ::
    "('a, 'h, 'd, 'q, 'ev) chan_ext \<Rightarrow> ('h, 'd, 'q, 'ev) handle \<Rightarrow>
     ((unit channel_closed + unit) poll \<times> ('h, 'd, 'q, 'ev) handle) + ('h, 'd, 'q, 'ev) handle" where
  "poll_ready_room E = (\<lambda>(c, l).
     if chan_len E c < chan_limit c
     then Inl (Ready (Inr ()), c\<lparr>sender_events := drop_listener E (sender_events c) l\<rparr>, None)
     else if l = None then (let (i, c') = sender_listen E c in Inr (c', Some i))
     else Inr (c, l))"

definition poll_ready_iter ::
    "('a, 'h, 'd, 'q, 'ev) chan_ext \<Rightarrow> ('h, 'd, 'q, 'ev) handle \<Rightarrow>
     ((unit channel_closed + unit) poll \<times> ('h, 'd, 'q, 'ev) handle) + ('h, 'd, 'q, 'ev) handle" where
  "poll_ready_iter E = (\<lambda>(c, l).
     if no_receivers c
     then Inl (Ready (Inl channel_closed_new),
               c\<lparr>sender_events := drop_listener E (sender_events c) l\<rparr>, None)
     else (case l of
             Some i \<Rightarrow>
               (let (ready, ev) = ev_poll E (sender_events c) i; c' = c\<lparr>sender_events := ev\<rparr>
                in if ready then poll_ready_room E (c', None) else Inl (Pending, c', Some i))
           | None \<Rightarrow> poll_ready_room E (c, None)))"

definition poll_ready ::
    "('a, 'h, 'd, 'q, 'ev) chan_ext \<Rightarrow> ('h, 'd, 'q, 'ev) handle \<Rightarrow>
     ((unit channel_closed + unit) poll \<times> ('h, 'd, 'q, 'ev) handle) option" where
  "poll_ready E s = loop_run (poll_ready_iter E) s"

definition start_send ::
    "('a, 'h, 'd, 'q, 'ev) chan_ext \<Rightarrow> ('h, 'd, 'q, 'ev) handle \<Rightarrow> 'a \<Rightarrow>
     (unit channel_closed + unit) \<times> ('h, 'd, 'q, 'ev) handle" where
  "start_send E s item = (Inr (), force_send E (fst s) item, snd s)"

definition poll_flush :: "('h, 'd, 'q, 'ev) handle \<Rightarrow> (unit channel_closed + unit) poll" where
  "poll_flush s = Ready (Inr ())"

definition poll_close :: "('h, 'd, 'q, 'ev) handle \<Rightarrow> (unit channel_closed + unit) poll" where
  "poll_close s = Ready (Inr ())"

subsection \<open>Receivers\<close>

definition receiver_clone :: "('h, 'd, 'q, 'ev) channel \<Rightarrow> listener \<times> ('h, 'd, 'q, 'ev) channel" where
  "receiver_clone c = (None, snd (increment_receiver_count c))"

definition receiver_drop ::
    "('a, 'h, 'd, 'q, 'ev) chan_ext \<Rightarrow> ('h, 'd, 'q, 'ev) channel \<Rightarrow> listener \<Rightarrow> ('h, 'd, 'q, 'ev) channel" where
  "receiver_drop E c l =
     (let (new_count, c1) = decrement_receiver_count c;
          c2 = (if new_count = 0 then notify_all_senders E c1 else c1)
      in c2\<lparr>receiver_events := drop_listener E (receiver_events c2) l\<rparr>)"

text \<open>The tail of an iteration of \<open>Stream::poll_next\<close>, once the listener has been polled.\<close>

definition poll_next_recv ::
    "('a, 'h, 'd, 'q, 'ev) chan_ext \<Rightarrow> ('h, 'd, 'q, 'ev) handle \<Rightarrow>
     ('a option poll \<times> ('h, 'd, 'q, 'ev) handle) + ('h, 'd, 'q, 'ev) handle" where
  "poll_next_recv E = (\<lambda>(c, l).
     let (msg, c1) = chan_recv E c
     in if msg \<noteq> None \<or> sender_count c1 = 0
        then Inl (Ready msg, c1\<lparr>receiver_events := drop_listener E (receiver_events c1) l\<rparr>, None)
        else if l = None then (let (i, c2) = receiver_listen E c1 in Inr (c2, Some i))
        else Inr (c1, l))"

definition poll_next_iter ::
    "('a, 'h, 'd, 'q, 'ev) chan_ext \<Rightarrow> ('h, 'd, 'q, 'ev) handle \<Rightarrow>
     ('a option poll \<times> ('h, 'd, 'q, 'ev) handle) + ('h, 'd, 'q, 'ev) handle" where
  "poll_next_iter E = (\<lambda>(c, l).
     case l of
       Some i \<Rightarrow>
         (let (ready, ev) = ev_poll E (receiver_events c) i; c' = c\<lparr>receiver_events := ev\<rparr>
          in if ready then poll_next_recv E (c', None) else Inl (Pending, c', Some i))
     | None \<Rightarrow> poll_next_recv E (c, None))"

definition poll_next ::
    "('a, 'h, 'd, 'q, 'ev) chan_ext \<Rightarrow> ('h, 'd, 'q, 'ev) handle \<Rightarrow>
     ('a option poll \<times> ('h, 'd, 'q, 'ev) handle) option" where
  "poll_next E s = loop_run (poll_next_iter E) s"

subsection \<open>Statistics\<close>

record channel_stats =
  st_timestamp :: u64
  st_provider :: string
  st_len :: nat
  st_limit :: nat
  st_receiver_count :: usize
  st_sender_count :: usize
  st_on_demand_count :: usize

definition get_stats ::
    "('a, 'h, 'd, 'q, 'ev) chan_ext \<Rightarrow> string \<Rightarrow> ('h, 'd, 'q, 'ev) channel \<Rightarrow> u64 \<Rightarrow> channel_stats" where
  "get_stats E provider c timestamp =
     \<lparr>st_timestamp = timestamp, st_provider = provider, st_len = chan_len E c, st_limit = chan_limit c,
      st_receiver_count = receiver_count c, st_sender_count = sender_count c,
      st_on_demand_count = on_demand_count c\<rparr>"

subsection \<open>On-demand receivers\<close>

text \<open>\<open>OnDemandReceiver::new\<close> shares the channel and does not touch its count; \<open>clone\<close> increments it.\<close>

definition on_demand_new :: "('h, 'd, 'q, 'ev) channel \<Rightarrow> listener \<times> ('h, 'd, 'q, 'ev) channel" where
  "on_demand_new c = (None, c)"

definition on_demand_clone :: "('h, 'd, 'q, 'ev) channel \<Rightarrow> listener \<times> ('h, 'd, 'q, 'ev) channel" where
  "on_demand_clone c = (None, snd (increment_on_demand_count c))"

definition on_demand_drop ::
    "('a, 'h, 'd, 'q, 'ev) chan_ext \<Rightarrow> ('h, 'd, 'q, 'ev) channel \<Rightarrow> listener \<Rightarrow> ('h, 'd, 'q, 'ev) channel" where
  "on_demand_drop E c l =
     (let (count, c1) = decrement_on_demand_count c
      in c1\<lparr>on_demand_events := drop_listener E (on_demand_events c1) l\<rparr>)"

definition on_demand_iter ::
    "('a, 'h, 'd, 'q, 'ev) chan_ext \<Rightarrow> ('h, 'd, 'q, 'ev) handle \<Rightarrow>
     (unit option poll \<times> ('h, 'd, 'q, 'ev) handle) + ('h, 'd, 'q, 'ev) handle" where
  "on_demand_iter E = (\<lambda>(c, l).
     if receiver_count c = 0
     then Inl (Ready None, c\<lparr>on_demand_events := drop_listener E (on_demand_events c) l\<rparr>, None)
     else (case l of
             Some i \<Rightarrow>
               (let (ready, ev) = ev_poll E (on_demand_events c) i; c' = c\<lparr>on_demand_events := ev\<rparr>
                in if ready
                   then (let (j, c'') = on_demand_listen E c' in Inl (Ready (Some ()), c'', Some j))
                   else Inl (Pending, c', Some i))
           | None \<Rightarrow> (let (j, c') = on_demand_listen E c in Inr (c', Some j))))"

definition on_demand_poll_next ::
    "('a, 'h, 'd, 'q, 'ev) chan_ext \<Rightarrow> ('h, 'd, 'q, 'ev) handle \<Rightarrow>
     (unit option poll \<times> ('h, 'd, 'q, 'ev) handle) option" where
  "on_demand_poll_next E s = loop_run (on_demand_iter E) s"

text \<open>\<open>channel(limit, unique, name)\<close>: one sender and one receiver over one channel.\<close>

definition channel_pair ::
    "('a, 'h, 'd, 'q, 'ev) chan_ext \<Rightarrow> 'h \<Rightarrow> limit \<Rightarrow> bool \<Rightarrow> string \<Rightarrow>
     ('h, 'd, 'q, 'ev) channel \<times> listener \<times> listener" where
  "channel_pair E h limit uniq name = (channel_new E h limit uniq name, None, None)"

end
