(* ===== verification/ChannelEnv.thy ===== *)
theory ChannelEnv
  imports Channel
begin

text \<open>
  The contract of the third-party parts of a channel (an unbounded FIFO queue, an event with
  listeners), the facts about the channel's operations that follow from it, and a concrete
  environment that satisfies it. An event's listeners are seen as a map from the listener's number to
  whether it has been notified.
\<close>

subsection \<open>The contract\<close>

definition notified :: "(nat \<rightharpoonup> bool) \<Rightarrow> nat set" where
  "notified m = {i. m i = Some True}"

locale chan_env = dash_set E dset
  for E :: "('a, 'h, 'd, 'q, 'ev) chan_ext" and dset :: "'d \<Rightarrow> u64 set" +
  fixes qs :: "'q \<Rightarrow> 'a list" and ls :: "'ev \<Rightarrow> nat \<rightharpoonup> bool"
  assumes q_unbounded: "qs (q_unbounded E) = []"
    and q_push: "qs (q_push E q x) = qs q @ [x]"
    and q_pop_Nil: "qs q = [] \<Longrightarrow> q_pop E q = None"
    and q_pop_Cons: "qs q = x # xs \<Longrightarrow> \<exists>q'. q_pop E q = Some (x, q') \<and> qs q' = xs"
    and q_len: "q_len E q = length (qs q)"
    and ev_finite: "finite (dom (ls ev))"
    and ev_new: "ls (ev_new E) = Map.empty"
    and ev_listen: "fst (ev_listen E ev) \<notin> dom (ls ev)"
      "ls (snd (ev_listen E ev)) = (ls ev)(fst (ev_listen E ev) \<mapsto> False)"
    and ev_poll_notified: "ls ev i = Some True \<Longrightarrow> fst (ev_poll E ev i) \<and> ls (snd (ev_poll E ev i)) = (ls ev)(i := None)"
    and ev_poll_waiting: "ls ev i = Some False \<Longrightarrow> \<not> fst (ev_poll E ev i) \<and> ls (snd (ev_poll E ev i)) = ls ev"
    and ev_notify_dom: "dom (ls (ev_notify E ev n)) = dom (ls ev)"
    and ev_notify_mono: "notified (ls ev) \<subseteq> notified (ls (ev_notify E ev n))"
    and ev_notify_card: "card (notified (ls (ev_notify E ev n))) = max (card (notified (ls ev))) (min (unat n) (card (dom (ls ev))))"
    and ev_drop_waiting: "ls ev i \<noteq> Some True \<Longrightarrow> ls (ev_drop E ev i) = (ls ev)(i := None)"
    and ev_drop_notified: "ls ev i = Some True \<Longrightarrow> dom (ls (ev_drop E ev i)) = dom (ls ev) - {i}"
      "ls ev i = Some True \<Longrightarrow> notified (ls ev) - {i} \<subseteq> notified (ls (ev_drop E ev i))"
      "ls ev i = Some True \<Longrightarrow> dom (ls ev) - {i} \<noteq> {} \<Longrightarrow> notified (ls (ev_drop E ev i)) \<noteq> {}"
begin

lemma notified_dom: "notified m \<subseteq> dom m"
  by (auto simp: notified_def)

lemma notified_finite: "finite (notified (ls ev))"
  using ev_finite [of ev] notified_dom by (rule finite_subset [rotated])

text \<open>After \<open>notify(1)\<close> an event with a listener has a notified one; a lone listener is it.\<close>

lemma notify_one: "i \<in> dom (ls ev) \<Longrightarrow> notified (ls (ev_notify E ev 1)) \<noteq> {}"
proof -
  assume "i \<in> dom (ls ev)"
  then have "0 < card (dom (ls ev))"
    using ev_finite [of ev] card_gt_0_iff by blast
  then have "0 < card (notified (ls (ev_notify E ev 1)))"
    by (simp add: ev_notify_card)
  then show ?thesis by force
qed

lemma notify_lone: "dom (ls ev) = {i} \<Longrightarrow> ls (ev_notify E ev 1) i = Some True"
  using notify_one [of i ev] notified_dom [of "ls (ev_notify E ev 1)"]
  by (auto simp: ev_notify_dom notified_def)

lemma notify_nobody: "dom (ls ev) = {} \<Longrightarrow> ls (ev_notify E ev n) = Map.empty"
  using ev_notify_dom [of ev n] by auto

text \<open>A second \<open>notify(1)\<close> while a notification is still unread changes no count.\<close>

lemma notify_saturates:
  "notified (ls ev) \<noteq> {} \<Longrightarrow> ls (ev_notify E ev 1) = ls ev"
proof -
  assume n: "notified (ls ev) \<noteq> {}"
  then have "1 \<le> card (notified (ls ev))"
    using notified_finite [of ev] by (simp add: Suc_leI card_gt_0_iff)
  then have "card (notified (ls (ev_notify E ev 1))) = card (notified (ls ev))"
    by (simp add: ev_notify_card)
  then have eq: "notified (ls (ev_notify E ev 1)) = notified (ls ev)"
    using ev_notify_mono notified_finite by (metis card_subset_eq)
  show ?thesis
  proof
    fix i
    show "ls (ev_notify E ev 1) i = ls ev i"
    proof (cases "i \<in> dom (ls ev)")
      case True
      then have "i \<in> dom (ls (ev_notify E ev 1))" by (simp add: ev_notify_dom)
      moreover have "ls (ev_notify E ev 1) i = Some True \<longleftrightarrow> ls ev i = Some True"
        using eq by (auto simp: notified_def)
      ultimately show ?thesis using True by (auto simp: dom_def)
    next
      case False
      then have "i \<notin> dom (ls (ev_notify E ev 1))" by (simp add: ev_notify_dom)
      with False show ?thesis by (simp add: domIff)
    qed
  qed
qed

text \<open>\<open>notify(usize::MAX)\<close> notifies every listener, as long as there are fewer than \<open>2 ^ 64 - 1\<close>.\<close>

lemma notify_all:
  "card (dom (ls ev)) < 2 ^ 64 \<Longrightarrow> notified (ls (ev_notify E ev usize_max)) = dom (ls ev)"
proof -
  assume c: "card (dom (ls ev)) < 2 ^ 64"
  have m: "unat usize_max = 2 ^ 64 - 1" by (simp add: usize_max_def unsigned_minus_1_eq_mask mask_eq_exp_minus_1)
  have le: "card (notified (ls ev)) \<le> card (dom (ls ev))"
    using ev_finite notified_dom by (rule card_mono)
  have "card (notified (ls (ev_notify E ev usize_max))) = card (dom (ls ev))"
    using c le by (simp add: ev_notify_card m)
  moreover have "notified (ls (ev_notify E ev usize_max)) \<subseteq> dom (ls ev)"
    using notified_dom [of "ls (ev_notify E ev usize_max)"] by (simp add: ev_notify_dom)
  ultimately show ?thesis
    using ev_finite by (metis card_subset_eq)
qed

lemma ev_poll_fires: "ls ev i = Some True \<Longrightarrow> \<exists>ev'. ev_poll E ev i = (True, ev') \<and> ls ev' = (ls ev)(i := None)"
  using ev_poll_notified [of ev i] by (cases "ev_poll E ev i") simp

lemma ev_poll_waits: "ls ev i = Some False \<Longrightarrow> \<exists>ev'. ev_poll E ev i = (False, ev') \<and> ls ev' = ls ev"
  using ev_poll_waiting [of ev i] by (cases "ev_poll E ev i") simp

text \<open>The queue as the list it holds.\<close>

lemma q_pop_cases:
  obtains (empty) "qs q = []" "q_pop E q = None"
  | (item) x q' where "qs q = x # qs q'" "q_pop E q = Some (x, q')"
proof (cases "qs q")
  case Nil
  show ?thesis by (rule empty [OF Nil q_pop_Nil [OF Nil]])
next
  case (Cons x xs)
  then obtain q' where "q_pop E q = Some (x, q')" "qs q' = xs" using q_pop_Cons by blast
  with Cons have "qs q = x # qs q'" "q_pop E q = Some (x, q')" by simp_all
  then show ?thesis by (rule item)
qed

lemma chan_len_eq: "chan_len E c = length (qs (queue c))"
  by (simp add: chan_len_def q_len)

end

subsection \<open>A reference environment\<close>

text \<open>
  Queue: a list. Event: the listeners in the order of their creation, \<open>None\<close> once a listener is gone;
  \<open>notify(n)\<close> marks the first waiting ones until \<open>n\<close> are marked.
\<close>

type_synonym ref_event = "bool option list"

fun mark :: "nat \<Rightarrow> ref_event \<Rightarrow> ref_event" where
  "mark 0 es = es"
| "mark (Suc k) [] = []"
| "mark (Suc k) (Some False # es) = Some True # mark k es"
| "mark (Suc k) (e # es) = e # mark (Suc k) es"

definition count_notified :: "ref_event \<Rightarrow> nat" where
  "count_notified es = length (filter (\<lambda>e. e = Some True) es)"

definition count_listening :: "ref_event \<Rightarrow> nat" where
  "count_listening es = length (filter (\<lambda>e. e \<noteq> None) es)"

definition ref_notify :: "ref_event \<Rightarrow> usize \<Rightarrow> ref_event" where
  "ref_notify es n = mark (unat n - count_notified es) es"

definition ref_poll :: "ref_event \<Rightarrow> nat \<Rightarrow> bool \<times> ref_event" where
  "ref_poll es i =
     (if i < length es \<and> es ! i = Some True then (True, es[i := None]) else (False, es))"

definition ref_drop :: "ref_event \<Rightarrow> nat \<Rightarrow> ref_event" where
  "ref_drop es i =
     (if i < length es \<and> es ! i = Some True then ref_notify (es[i := None]) 1 else es[i := None])"

definition ref_listeners :: "ref_event \<Rightarrow> nat \<rightharpoonup> bool" where
  "ref_listeners es i = (if i < length es then es ! i else None)"

definition ref_env :: "(u64, u64, u64 list, u64 list, ref_event) chan_ext" where
  "ref_env = \<lparr>
     to_writer = (\<lambda>w. [to_ne_bytes w]), hasher_write = pth_write, hasher_finish = pth_finish,
     ds_empty = [], ds_insert = (\<lambda>d w. (w \<notin> set d, List.insert w d)), ds_remove = (\<lambda>d w. removeAll w d),
     q_unbounded = [], q_push = (\<lambda>q x. q @ [x]),
     q_pop = (\<lambda>q. case q of [] \<Rightarrow> None | x # xs \<Rightarrow> Some (x, xs)), q_len = length,
     ev_new = [], ev_notify = ref_notify, ev_listen = (\<lambda>es. (length es, es @ [Some False])),
     ev_poll = ref_poll, ev_drop = ref_drop\<rparr>"

lemma length_mark [simp]: "length (mark k es) = length es"
  by (induction k es rule: mark.induct) auto

lemma mark_mono: "i < length es \<Longrightarrow> es ! i = Some True \<Longrightarrow> mark k es ! i = Some True"
  by (induction k es arbitrary: i rule: mark.induct) (auto simp: nth_Cons split: nat.splits)

lemma mark_None: "i < length es \<Longrightarrow> mark k es ! i = None \<longleftrightarrow> es ! i = None"
  by (induction k es arbitrary: i rule: mark.induct) (auto simp: nth_Cons split: nat.splits)

lemma count_notified_le: "count_notified es \<le> count_listening es"
  by (induction es) (auto simp: count_notified_def count_listening_def)

lemma count_mark: "count_notified (mark k es) = min (count_notified es + k) (count_listening es)"
proof (induction k es rule: mark.induct)
  case (1 es)
  then show ?case using count_notified_le by simp
qed (auto simp: count_notified_def count_listening_def)

lemma notified_ref: "notified (ref_listeners es) = {i. i < length es \<and> es ! i = Some True}"
  by (auto simp: notified_def ref_listeners_def split: if_splits)

lemma dom_ref: "dom (ref_listeners es) = {i. i < length es \<and> es ! i \<noteq> None}"
  by (auto simp: ref_listeners_def split: if_splits)

lemma card_notified_ref: "card (notified (ref_listeners es)) = count_notified es"
  by (simp add: notified_ref count_notified_def length_filter_conv_card)

lemma card_dom_ref: "card (dom (ref_listeners es)) = count_listening es"
  unfolding dom_ref count_listening_def by (simp add: length_filter_conv_card)

lemma ref_notify_card:
  "card (notified (ref_listeners (ref_notify es n)))
    = max (card (notified (ref_listeners es))) (min (unat n) (card (dom (ref_listeners es))))"
  using count_notified_le [of es]
  by (auto simp: card_notified_ref card_dom_ref ref_notify_def count_mark)

lemma ref_notify_dom: "dom (ref_listeners (ref_notify es n)) = dom (ref_listeners es)"
  unfolding dom_ref ref_notify_def by (rule Collect_cong) (metis length_mark mark_None)

lemma ref_notify_mono: "notified (ref_listeners es) \<subseteq> notified (ref_listeners (ref_notify es n))"
  by (auto simp: notified_ref ref_notify_def mark_mono)

lemma ref_update_None: "ref_listeners (es[i := None]) = (ref_listeners es)(i := None)"
  by (auto simp: ref_listeners_def fun_eq_iff nth_list_update)

lemma ref_drop_wakes:
  assumes "ref_listeners es i = Some True" "dom (ref_listeners es) - {i} \<noteq> {}"
  shows "notified (ref_listeners (ref_drop es i)) \<noteq> {}"
proof -
  have i: "i < length es" "es ! i = Some True"
    using assms(1) by (auto simp: ref_listeners_def split: if_splits)
  have d: "dom (ref_listeners (es[i := None])) \<noteq> {}"
    using assms(2) by (auto simp: ref_update_None)
  have "0 < card (dom (ref_listeners (es[i := None])))"
    using d by (subst card_gt_0_iff) (simp add: dom_ref)
  then have "0 < card (notified (ref_listeners (ref_notify (es[i := None]) 1)))"
    by (simp add: ref_notify_card)
  then show ?thesis using i by (auto simp: ref_drop_def)
qed

lemma ref_listen:
  "length es \<notin> dom (ref_listeners es)"
  "ref_listeners (es @ [Some False]) = (ref_listeners es)(length es \<mapsto> False)"
  by (auto simp: ref_listeners_def fun_eq_iff nth_append)

lemma ref_poll_notified:
  "ref_listeners es i = Some True \<Longrightarrow>
   fst (ref_poll es i) \<and> ref_listeners (snd (ref_poll es i)) = (ref_listeners es)(i := None)"
  by (simp add: ref_poll_def ref_update_None) (simp add: ref_listeners_def split: if_splits)

lemma ref_poll_waiting:
  "ref_listeners es i = Some False \<Longrightarrow>
   \<not> fst (ref_poll es i) \<and> ref_listeners (snd (ref_poll es i)) = ref_listeners es"
  by (auto simp: ref_poll_def ref_listeners_def split: if_splits)

lemma ref_drop_waiting:
  "ref_listeners es i \<noteq> Some True \<Longrightarrow> ref_listeners (ref_drop es i) = (ref_listeners es)(i := None)"
  unfolding ref_update_None [symmetric] by (auto simp: ref_drop_def ref_listeners_def)

lemma ref_drop_notified:
  assumes "ref_listeners es i = Some True"
  shows "dom (ref_listeners (ref_drop es i)) = dom (ref_listeners es) - {i}"
    and "notified (ref_listeners es) - {i} \<subseteq> notified (ref_listeners (ref_drop es i))"
proof -
  have d: "ref_drop es i = ref_notify (es[i := None]) 1"
    using assms by (auto simp: ref_drop_def ref_listeners_def split: if_splits)
  show "dom (ref_listeners (ref_drop es i)) = dom (ref_listeners es) - {i}"
    by (simp add: d ref_notify_dom ref_update_None)
  have "notified (ref_listeners es) - {i} \<subseteq> notified (ref_listeners (es[i := None]))"
    by (auto simp: ref_update_None notified_def)
  also have "\<dots> \<subseteq> notified (ref_listeners (ref_drop es i))"
    unfolding d by (rule ref_notify_mono)
  finally show "notified (ref_listeners es) - {i} \<subseteq> notified (ref_listeners (ref_drop es i))" .
qed

lemmas ref_env_laws = ref_listen ref_poll_notified ref_poll_waiting ref_notify_dom ref_notify_mono
  ref_notify_card ref_drop_waiting ref_drop_notified ref_drop_wakes

lemma finite_dom_ref: "finite (dom (ref_listeners es))"
  by (simp add: dom_ref)

lemma ref_listeners_Nil: "ref_listeners [] = Map.empty"
  by (simp add: ref_listeners_def fun_eq_iff)

interpretation ref: chan_env ref_env set "\<lambda>q. q" ref_listeners
  by unfold_locales
    (simp_all add: ref_env_def ref_env_laws finite_dom_ref ref_listeners_Nil del: dom_eq_empty_conv)

end
