(* ===== verification/ChannelSpec.thy ===== *)
theory ChannelSpec
  imports ChannelEnv
begin

text \<open>
  What a channel promises: an abstract bounded queue that the channel's operations refine, the
  behaviour of its polls, and the reachable states of a channel with one receiver.
\<close>

subsection \<open>The abstract channel\<close>

record 'a abs_chan =
  a_items :: "'a list"
  a_limit :: limit
  a_maxed :: bool
  a_open :: bool

definition abs_send :: "('a \<Rightarrow> u64) option \<Rightarrow> 'a abs_chan \<Rightarrow> 'a \<Rightarrow> 'a abs_chan" where
  "abs_send f s x =
     (case f of
        Some h \<Rightarrow> if h x \<in> h ` set (a_items s) then s else s\<lparr>a_items := a_items s @ [x]\<rparr>
      | None \<Rightarrow> s\<lparr>a_items := a_items s @ [x]\<rparr>)"

fun grow :: "limit \<Rightarrow> limit" where
  "grow (Dynamic n) = Dynamic (n + 1)"
| "grow (Static n) = Static n"

definition is_dynamic :: "limit \<Rightarrow> bool" where
  "is_dynamic l = (case l of Dynamic _ \<Rightarrow> True | Static _ \<Rightarrow> False)"

definition abs_recv :: "'a abs_chan \<Rightarrow> 'a option \<times> 'a abs_chan" where
  "abs_recv s =
     (case a_items s of
        [] \<Rightarrow> (None, s)
      | x # xs \<Rightarrow>
          (Some x,
           if xs = [] then
             (if a_maxed s \<and> is_dynamic (a_limit s)
              then s\<lparr>a_items := xs, a_limit := grow (a_limit s), a_maxed := False\<rparr>
              else s\<lparr>a_items := xs\<rparr>)
           else if limit_get (a_limit s) = length (x # xs) then s\<lparr>a_items := xs, a_maxed := True\<rparr>
           else s\<lparr>a_items := xs\<rparr>))"

definition abs_try_send :: "('a \<Rightarrow> u64) option \<Rightarrow> 'a abs_chan \<Rightarrow> 'a \<Rightarrow> 'a send_state \<times> 'a abs_chan" where
  "abs_try_send f s x =
     (if \<not> a_open s then (Closed x, s)
      else if length (a_items s) < limit_get (a_limit s) then (Success, abs_send f s x)
      else (Full x, s))"

subsection \<open>Runs\<close>

datatype 'a chan_op = Op_force 'a | Op_try 'a | Op_recv
datatype 'a chan_out = Out_force | Out_try "'a send_state" | Out_recv "'a option"

fun chan_step ::
    "('a, 'h, 'd, 'q, 'ev) chan_ext \<Rightarrow> ('h, 'd, 'q, 'ev) channel \<Rightarrow> 'a chan_op \<Rightarrow>
     'a chan_out \<times> ('h, 'd, 'q, 'ev) channel" where
  "chan_step E c (Op_force x) = (Out_force, force_send E c x)"
| "chan_step E c (Op_try x) = (let (r, c') = try_send E c x in (Out_try r, c'))"
| "chan_step E c Op_recv = (let (r, c') = chan_recv E c in (Out_recv r, c'))"

fun abs_step :: "('a \<Rightarrow> u64) option \<Rightarrow> 'a abs_chan \<Rightarrow> 'a chan_op \<Rightarrow> 'a chan_out \<times> 'a abs_chan" where
  "abs_step f s (Op_force x) = (Out_force, abs_send f s x)"
| "abs_step f s (Op_try x) = (let (r, s') = abs_try_send f s x in (Out_try r, s'))"
| "abs_step f s Op_recv = (let (r, s') = abs_recv s in (Out_recv r, s'))"

fun run_steps :: "('s \<Rightarrow> 'op \<Rightarrow> 'out \<times> 's) \<Rightarrow> 's \<Rightarrow> 'op list \<Rightarrow> 'out list \<times> 's" where
  "run_steps step s [] = ([], s)"
| "run_steps step s (x # xs) =
     (let (r, s') = step s x; (rs, s'') = run_steps step s' xs in (r # rs, s''))"

definition chan_run ::
    "('a, 'h, 'd, 'q, 'ev) chan_ext \<Rightarrow> ('h, 'd, 'q, 'ev) channel \<Rightarrow> 'a chan_op list \<Rightarrow>
     'a chan_out list \<times> ('h, 'd, 'q, 'ev) channel" where
  "chan_run E = run_steps (chan_step E)"

text \<open>The items a run took in and gave out.\<close>

fun accepted1 :: "'a chan_op \<Rightarrow> 'a chan_out \<Rightarrow> 'a list" where
  "accepted1 (Op_force x) _ = [x]"
| "accepted1 (Op_try x) (Out_try Success) = [x]"
| "accepted1 _ _ = []"

fun received1 :: "'a chan_out \<Rightarrow> 'a list" where
  "received1 (Out_recv (Some x)) = [x]"
| "received1 _ = []"

definition accepted :: "'a chan_op list \<Rightarrow> 'a chan_out list \<Rightarrow> 'a list" where
  "accepted ops outs = concat (map2 accepted1 ops outs)"

definition received :: "'a chan_out list \<Rightarrow> 'a list" where
  "received outs = concat (map received1 outs)"

lemma accepted_simps [simp]:
  "accepted [] outs = []"
  "accepted (x # ops) (r # outs) = accepted1 x r @ accepted ops outs"
  by (simp_all add: accepted_def)

lemma received_simps [simp]:
  "received [] = []"
  "received (r # outs) = received1 r @ received outs"
  by (simp_all add: received_def)

subsection \<open>The refinement\<close>

definition abs_of :: "('q \<Rightarrow> 'a list) \<Rightarrow> ('h, 'd, 'q, 'ev) channel \<Rightarrow> 'a abs_chan" where
  "abs_of qs c = \<lparr>a_items = qs (queue c), a_limit = ch_limit c, a_maxed = has_maxed c,
     a_open = (receiver_count c \<noteq> 0)\<rparr>"

definition fp_of :: "('a, 'h, 'd, 'q, 'ev) chan_ext \<Rightarrow> ('h, 'd, 'q, 'ev) channel \<Rightarrow> ('a \<Rightarrow> u64) option" where
  "fp_of E c = map_option (get_hash E) (unique c)"

text \<open>A unique channel's set holds exactly the fingerprints of its items, each once.\<close>

definition chan_inv ::
    "('a, 'h, 'd, 'q, 'ev) chan_ext \<Rightarrow> ('d \<Rightarrow> u64 set) \<Rightarrow> ('q \<Rightarrow> 'a list) \<Rightarrow> ('h, 'd, 'q, 'ev) channel \<Rightarrow> bool" where
  "chan_inv E dset qs c =
     (case unique c of
        None \<Rightarrow> True
      | Some s \<Rightarrow> dset (hs_inner s) = set (map (get_hash E s) (qs (queue c))) \<and>
          distinct (map (get_hash E s) (qs (queue c))))"

context chan_env begin

lemma chan_inv_new: "chan_inv E dset qs (channel_new E h limit uniq name)"
  by (simp add: chan_inv_def channel_new_def hs_new_def ds_empty q_unbounded)

lemma chan_send_refines:
  assumes "chan_inv E dset qs c"
  shows "abs_of qs (chan_send E c x) = abs_send (fp_of E c) (abs_of qs c) x"
    and "chan_inv E dset qs (chan_send E c x)"
    and "fp_of E (chan_send E c x) = fp_of E c"
  using assms
  by (auto simp: chan_send_def abs_send_def abs_of_def fp_of_def chan_inv_def notify_receiver_def
      q_push case_prod_beta Let_def hs.ins_new hs.ins_fps hs.ins_fp split: option.splits)

lemma chan_recv_refines:
  assumes "chan_inv E dset qs c"
  shows "abs_recv (abs_of qs c) = (fst (chan_recv E c), abs_of qs (snd (chan_recv E c)))"
    and "chan_inv E dset qs (snd (chan_recv E c))"
    and "fp_of E (snd (chan_recv E c)) = fp_of E c"
proof -
  consider "qs (queue c) = []" "q_pop E (queue c) = None"
    | x q' where "qs (queue c) = x # qs q'" "q_pop E (queue c) = Some (x, q')"
    by (rule q_pop_cases)
  note cases = this
  show "abs_recv (abs_of qs c) = (fst (chan_recv E c), abs_of qs (snd (chan_recv E c)))"
    by (rule cases)
      (auto simp: chan_recv_def abs_recv_def abs_of_def notify_on_demand_def notify_sender_def Let_def
        chan_len_eq chan_limit_def is_dynamic_def split: option.splits limit.splits)
  show "fp_of E (snd (chan_recv E c)) = fp_of E c"
    by (rule cases)
      (auto simp: chan_recv_def fp_of_def notify_on_demand_def notify_sender_def Let_def hs.rem_fp
        split: option.splits limit.splits)
  show "chan_inv E dset qs (snd (chan_recv E c))"
    using assms
    by (rule_tac cases)
      (auto simp: chan_recv_def chan_inv_def notify_on_demand_def notify_sender_def Let_def hs.rem_fp
        hs.rem_fps split: option.splits limit.splits)
qed

lemma try_send_refines:
  assumes "chan_inv E dset qs c"
  shows "abs_try_send (fp_of E c) (abs_of qs c) x = (fst (try_send E c x), abs_of qs (snd (try_send E c x)))"
    and "chan_inv E dset qs (snd (try_send E c x))"
    and "fp_of E (snd (try_send E c x)) = fp_of E c"
  using chan_send_refines [OF assms, of x] assms
  by (auto simp: try_send_def abs_try_send_def force_send_def chan_len_eq chan_limit_def no_receivers_def)
    (auto simp: abs_of_def)

lemma chan_step_refines:
  assumes "chan_inv E dset qs c"
  shows "abs_step (fp_of E c) (abs_of qs c) x = (fst (chan_step E c x), abs_of qs (snd (chan_step E c x)))"
    and "chan_inv E dset qs (snd (chan_step E c x))"
    and "fp_of E (snd (chan_step E c x)) = fp_of E c"
  by (cases x; simp add: case_prod_beta Let_def force_send_def chan_send_refines [OF assms]
      chan_recv_refines [OF assms] try_send_refines [OF assms])+

lemma chan_run_refines:
  assumes "chan_inv E dset qs c"
  shows "run_steps (abs_step (fp_of E c)) (abs_of qs c) ops
      = (fst (chan_run E c ops), abs_of qs (snd (chan_run E c ops)))
    \<and> chan_inv E dset qs (snd (chan_run E c ops)) \<and> fp_of E (snd (chan_run E c ops)) = fp_of E c"
  using assms
proof (induction ops arbitrary: c)
  case (Cons x ops)
  note step = chan_step_refines [OF Cons.prems, of x]
  from Cons.IH [OF step(2)] step show ?case
    by (simp add: chan_run_def case_prod_beta Let_def)
qed (simp add: chan_run_def)

end

subsection \<open>Facts about the abstract channel\<close>

lemma abs_step_fifo:
  "abs_step None s x = (r, s') \<Longrightarrow> a_items s @ accepted1 x r = received1 r @ a_items s'"
  by (cases x) (auto simp: abs_send_def abs_try_send_def abs_recv_def split: list.splits if_splits)

lemma abs_run_fifo:
  "run_steps (abs_step None) s ops = (outs, s') \<Longrightarrow>
   a_items s @ accepted ops outs = received outs @ a_items s'"
proof (induction ops arbitrary: s outs)
  case (Cons x ops)
  obtain r s1 where st: "abs_step None s x = (r, s1)" by fastforce
  obtain rs where rs: "run_steps (abs_step None) s1 ops = (rs, s')" "outs = r # rs"
    using Cons.prems st by (auto simp: case_prod_beta Let_def prod_eq_iff)
  have "a_items s @ accepted (x # ops) (r # rs) = received1 r @ a_items s1 @ accepted ops rs"
    using abs_step_fifo [OF st] by simp
  then show ?case
    using Cons.IH [OF rs(1)] rs(2) by simp
qed simp

lemma limit_get_grow: "limit_get l \<le> limit_get (grow l)"
  by (cases l) auto

lemma abs_step_limit:
  "abs_step f s x = (r, s') \<Longrightarrow> a_limit s' = a_limit s \<or> is_dynamic (a_limit s) \<and> a_limit s' = grow (a_limit s)"
  by (cases x) (auto simp: abs_send_def abs_try_send_def abs_recv_def split: list.splits if_splits option.splits)

definition forces :: "'a chan_op \<Rightarrow> bool" where
  "forces x = (case x of Op_force _ \<Rightarrow> True | _ \<Rightarrow> False)"

lemma abs_step_bounded:
  "\<not> forces x \<Longrightarrow> abs_step f s x = (r, s') \<Longrightarrow> length (a_items s) \<le> limit_get (a_limit s) \<Longrightarrow>
   length (a_items s') \<le> limit_get (a_limit s')"
  using limit_get_grow [of "a_limit s"]
  by (cases x) (auto simp: forces_def abs_send_def abs_try_send_def abs_recv_def
      split: list.splits if_splits option.splits)

lemma abs_run_bounded:
  "list_all (\<lambda>x. \<not> forces x) ops \<Longrightarrow> run_steps (abs_step f) s ops = (outs, s') \<Longrightarrow>
   length (a_items s) \<le> limit_get (a_limit s) \<Longrightarrow> length (a_items s') \<le> limit_get (a_limit s')"
proof (induction ops arbitrary: s outs)
  case (Cons x ops)
  obtain r s1 where st: "abs_step f s x = (r, s1)" by fastforce
  then obtain rs where "run_steps (abs_step f) s1 ops = (rs, s')"
    using Cons.prems(2) by (auto simp: case_prod_beta Let_def prod_eq_iff)
  with Cons.IH [of s1] Cons.prems st abs_step_bounded show ?case by fastforce
qed simp

lemma abs_run_static:
  "run_steps (abs_step f) s ops = (outs, s') \<Longrightarrow> a_limit s = Static n \<Longrightarrow> a_limit s' = Static n"
proof (induction ops arbitrary: s outs)
  case (Cons x ops)
  obtain r s1 where st: "abs_step f s x = (r, s1)" by fastforce
  then obtain rs where "run_steps (abs_step f) s1 ops = (rs, s')"
    using Cons.prems(1) by (auto simp: case_prod_beta Let_def prod_eq_iff)
  with Cons.IH [of s1] Cons.prems(2) abs_step_limit [OF st] show ?case
    by (auto simp: is_dynamic_def)
qed simp

lemma abs_run_limit_mono:
  "run_steps (abs_step f) s ops = (outs, s') \<Longrightarrow> limit_get (a_limit s) \<le> limit_get (a_limit s')"
proof (induction ops arbitrary: s outs)
  case (Cons x ops)
  obtain r s1 where st: "abs_step f s x = (r, s1)" by fastforce
  then obtain rs where "run_steps (abs_step f) s1 ops = (rs, s')"
    using Cons.prems(1) by (auto simp: case_prod_beta Let_def prod_eq_iff)
  with Cons.IH [of s1] abs_step_limit [OF st] limit_get_grow show ?case
    by (metis order_trans order_refl)
qed simp

text \<open>Filling an empty channel to its limit and draining it.\<close>

lemma abs_fill:
  "a_open s \<Longrightarrow> length (a_items s) + length xs \<le> limit_get (a_limit s) \<Longrightarrow>
   run_steps (abs_step None) s (map Op_try xs)
     = (map (\<lambda>_. Out_try Success) xs, s\<lparr>a_items := a_items s @ xs\<rparr>)"
  by (induction xs arbitrary: s) (auto simp: abs_try_send_def abs_send_def)

lemma abs_drain:
  "a_items s = xs \<Longrightarrow> xs \<noteq> [] \<Longrightarrow> a_limit s = Dynamic n \<Longrightarrow> a_maxed s \<Longrightarrow> length xs < n \<Longrightarrow>
   snd (run_steps (abs_step None) s (replicate (length xs) Op_recv))
     = s\<lparr>a_items := [], a_limit := Dynamic (n + 1), a_maxed := False\<rparr>"
proof (induction xs arbitrary: s)
  case (Cons x xs)
  show ?case
  proof (cases "xs = []")
    case True
    with Cons.prems show ?thesis by (simp add: abs_recv_def is_dynamic_def)
  next
    case False
    then have "abs_recv s = (Some x, s\<lparr>a_items := xs\<rparr>)"
      using Cons.prems by (simp add: abs_recv_def)
    with False Cons.prems Cons.IH [of "s\<lparr>a_items := xs\<rparr>"] show ?thesis
      by (simp add: case_prod_beta Let_def)
  qed
qed simp

lemma abs_drain_full:
  assumes "a_items s = xs" "length xs = n" "2 \<le> n" "a_limit s = Dynamic n"
  shows "snd (run_steps (abs_step None) s (replicate n Op_recv))
     = s\<lparr>a_items := [], a_limit := Dynamic (n + 1), a_maxed := False\<rparr>"
proof -
  obtain x ys where xs: "xs = x # ys" "ys \<noteq> []" "n = Suc (length ys)"
    using assms by (cases xs; cases "tl xs") auto
  have first: "abs_recv s = (Some x, s\<lparr>a_items := ys, a_maxed := True\<rparr>)"
    using assms xs by (simp add: abs_recv_def)
  show ?thesis
    using abs_drain [of "s\<lparr>a_items := ys, a_maxed := True\<rparr>" ys n] assms(4) xs
    by (simp add: first case_prod_beta Let_def)
qed

end
