(* ===== verification/ChannelPoll.thy ===== *)
theory ChannelPoll
  imports ChannelSpec
begin

text \<open>
  Polling a channel: what \<open>Stream::poll_next\<close> and \<open>Sink::poll_ready\<close> return, that their loops end, the
  states a channel with a single receiver can reach, and what becomes of sleeping handles, both when
  operations run one after another and when another thread runs in the middle of a poll.
\<close>

subsection \<open>Sleeping handles\<close>

definition asleep :: "('ev \<Rightarrow> nat \<rightharpoonup> bool) \<Rightarrow> 'ev \<Rightarrow> listener \<Rightarrow> bool" where
  "asleep ls ev l = (case l of None \<Rightarrow> False | Some i \<Rightarrow> ls ev i = Some False)"

definition live_listener :: "('ev \<Rightarrow> nat \<rightharpoonup> bool) \<Rightarrow> 'ev \<Rightarrow> listener \<Rightarrow> bool" where
  "live_listener ls ev l = (case l of None \<Rightarrow> True | Some i \<Rightarrow> ls ev i \<noteq> None)"

lemma asleep_simps [simp]:
  "asleep ls ev None = False"
  "asleep ls ev (Some i) \<longleftrightarrow> ls ev i = Some False"
  by (simp_all add: asleep_def)

lemma live_cases:
  assumes "live_listener ls ev l"
  obtains (none) "l = None" | (woken) i where "l = Some i" "ls ev i = Some True"
  | (sleeping) i where "l = Some i" "ls ev i = Some False" "asleep ls ev l"
proof (cases l)
  case (Some i)
  with assms obtain b where "ls ev i = Some b" by (auto simp: live_listener_def)
  with Some show ?thesis using woken sleeping by (cases b) (auto simp: asleep_def)
qed (simp add: none)

context chan_env begin

lemma recv_frame:
  "receiver_events (snd (chan_recv E c)) = receiver_events c"
  "sender_count (snd (chan_recv E c)) = sender_count c"
  "receiver_count (snd (chan_recv E c)) = receiver_count c"
  by (auto simp: chan_recv_def notify_on_demand_def notify_sender_def Let_def split: option.splits limit.splits)

lemma recv_result:
  "fst (chan_recv E c) = (case qs (queue c) of [] \<Rightarrow> None | x # xs \<Rightarrow> Some x)"
  "qs (queue (snd (chan_recv E c))) = tl (qs (queue c))"
proof -
  consider "qs (queue c) = []" "q_pop E (queue c) = None"
    | x q' where "qs (queue c) = x # qs q'" "q_pop E (queue c) = Some (x, q')"
    by (rule q_pop_cases)
  note cases = this
  show "fst (chan_recv E c) = (case qs (queue c) of [] \<Rightarrow> None | x # xs \<Rightarrow> Some x)"
    by (rule cases) (auto simp: chan_recv_def Let_def)
  show "qs (queue (snd (chan_recv E c))) = tl (qs (queue c))"
    by (rule cases)
      (auto simp: chan_recv_def Let_def notify_on_demand_def notify_sender_def split: option.splits limit.splits)
qed

definition poll_next_result :: "('h, 'd, 'q, 'ev) handle \<Rightarrow> 'a option poll \<Rightarrow> ('h, 'd, 'q, 'ev) handle \<Rightarrow> bool" where
  "poll_next_result s p t =
     (case qs (queue (fst s)) of
        x # xs \<Rightarrow> p = Ready (Some x) \<and> qs (queue (fst t)) = xs \<and> snd t = None
      | [] \<Rightarrow> qs (queue (fst t)) = [] \<and>
          (if sender_count (fst s) = 0 then p = Ready None \<and> snd t = None
           else p = Pending \<and> asleep ls (receiver_events (fst t)) (snd t)))"

lemma poll_next_result_frame [simp]:
  "poll_next_result (c\<lparr>receiver_events := ev\<rparr>, l) = poll_next_result (c, l')"
  by (simp add: poll_next_result_def fun_eq_iff)

lemma poll_next_awake: "\<exists>p t. poll_next E (c, None) = Some (p, t) \<and> poll_next_result (c, None) p t
   \<and> (snd t = None \<longrightarrow> ls (receiver_events (fst t)) = ls (receiver_events c))
   \<and> (\<forall>i. snd t = Some i \<longrightarrow> i \<notin> dom (ls (receiver_events c)) \<and> ls (receiver_events (fst t)) = (ls (receiver_events c))(i \<mapsto> False))
   \<and> sender_count (fst t) = sender_count c"
proof (cases "qs (queue c) \<noteq> [] \<or> sender_count c = 0")
  case True
  then have msg: "fst (chan_recv E c) \<noteq> None \<or> sender_count (snd (chan_recv E c)) = 0"
    by (auto simp: recv_result recv_frame split: list.splits)
  have "poll_next_iter E (c, None) =
      Inl (Ready (fst (chan_recv E c)), snd (chan_recv E c), None)"
    using msg by (simp add: poll_next_iter_def poll_next_recv_def case_prod_beta Let_def drop_listener_def)
  then have "poll_next E (c, None) = Some (Ready (fst (chan_recv E c)), snd (chan_recv E c), None)"
    unfolding poll_next_def by (rule loop_run_return)
  then show ?thesis
    using True by (auto simp: poll_next_result_def recv_result recv_frame split: list.splits)
next
  case False
  then have msg: "fst (chan_recv E c) = None" "sender_count (snd (chan_recv E c)) \<noteq> 0" "qs (queue c) = []"
    by (auto simp: recv_result recv_frame)
  obtain i c2 where li: "receiver_listen E (snd (chan_recv E c)) = (i, c2)" by fastforce
  then have iev: "i = fst (ev_listen E (receiver_events c))"
    "receiver_events c2 = snd (ev_listen E (receiver_events c))" "queue c2 = queue (snd (chan_recv E c))"
    "sender_count c2 = sender_count c"
    by (auto simp: receiver_listen_def case_prod_beta Let_def recv_frame)
  then have lsi: "ls (receiver_events c2) = (ls (receiver_events c))(i \<mapsto> False)" "i \<notin> dom (ls (receiver_events c))"
    by (simp_all add: ev_listen del: domIff)
  have first: "poll_next_iter E (c, None) = Inr (c2, Some i)"
    using msg li by (simp add: poll_next_iter_def poll_next_recv_def case_prod_beta Let_def)
  let ?ev = "snd (ev_poll E (receiver_events c2) i)"
  have waiting: "\<not> fst (ev_poll E (receiver_events c2) i)" "ls ?ev = ls (receiver_events c2)"
    using ev_poll_waiting [of "receiver_events c2" i] lsi by auto
  have "poll_next_iter E (c2, Some i) = Inl (Pending, c2\<lparr>receiver_events := ?ev\<rparr>, Some i)"
    using waiting by (simp add: poll_next_iter_def case_prod_beta Let_def)
  then have "poll_next E (c, None) = Some (Pending, c2\<lparr>receiver_events := ?ev\<rparr>, Some i)"
    unfolding poll_next_def loop_run_again [where f = "poll_next_iter E", OF first] by (rule loop_run_return)
  then show ?thesis
    using msg iev lsi waiting False
    by (auto simp: poll_next_result_def recv_result asleep_def)
qed

lemma poll_next_asleep:
  assumes "l = Some i" "ls (receiver_events c) i = Some False"
  shows "\<exists>ev. poll_next E (c, l) = Some (Pending, c\<lparr>receiver_events := ev\<rparr>, l) \<and> ls ev = ls (receiver_events c)"
proof -
  have w: "\<not> fst (ev_poll E (receiver_events c) i)" "ls (snd (ev_poll E (receiver_events c) i)) = ls (receiver_events c)"
    using ev_poll_waiting [OF assms(2)] by auto
  then have "poll_next_iter E (c, l) = Inl (Pending, c\<lparr>receiver_events := snd (ev_poll E (receiver_events c) i)\<rparr>, l)"
    using assms by (simp add: poll_next_iter_def case_prod_beta Let_def)
  then show ?thesis
    using w unfolding poll_next_def by (blast intro: loop_run_return)
qed

lemma poll_next_woken:
  assumes "l = Some i" "ls (receiver_events c) i = Some True"
  shows "\<exists>ev. ls ev = (ls (receiver_events c))(i := None) \<and>
           poll_next E (c, l) = poll_next E (c\<lparr>receiver_events := ev\<rparr>, None)"
proof -
  let ?ev = "snd (ev_poll E (receiver_events c) i)"
  have w: "fst (ev_poll E (receiver_events c) i)" "ls ?ev = (ls (receiver_events c))(i := None)"
    using ev_poll_notified [OF assms(2)] by auto
  then have "poll_next_iter E (c, l) = poll_next_iter E (c\<lparr>receiver_events := ?ev\<rparr>, None)"
    using assms by (simp add: poll_next_iter_def case_prod_beta Let_def)
  then have "poll_next E (c, l) = poll_next E (c\<lparr>receiver_events := ?ev\<rparr>, None)"
    by (simp add: poll_next_def loop_run.simps [of "poll_next_iter E" "(c, l)"]
        loop_run.simps [of "poll_next_iter E" "(c\<lparr>receiver_events := ?ev\<rparr>, None)"])
  with w show ?thesis by blast
qed

text \<open>The whole behaviour of a poll of a live receiver.\<close>

lemma poll_next_full:
  assumes "live_listener ls (receiver_events c) l"
  shows "\<exists>p t. poll_next E (c, l) = Some (p, t) \<and>
    (if asleep ls (receiver_events c) l
     then p = Pending \<and> snd t = l \<and> queue (fst t) = queue c
     else poll_next_result (c, l) p t)"
  using assms
proof (cases rule: live_cases)
  case none
  then have "\<not> asleep ls (receiver_events c) l" by (simp add: asleep_def)
  with none show ?thesis using poll_next_awake [of c] by auto
next
  case (woken i)
  then obtain ev where ev: "poll_next E (c, l) = poll_next E (c\<lparr>receiver_events := ev\<rparr>, None)"
    using poll_next_woken by blast
  have "\<not> asleep ls (receiver_events c) l" using woken by (simp add: asleep_def)
  with ev show ?thesis
    using poll_next_awake [of "c\<lparr>receiver_events := ev\<rparr>"]
    unfolding poll_next_result_frame [where l' = l] by auto
next
  case (sleeping i)
  then show ?thesis using poll_next_asleep [of l i c] by auto
qed

end

subsection \<open>Senders\<close>

context chan_env begin

definition poll_ready_result ::
    "('h, 'd, 'q, 'ev) handle \<Rightarrow> (unit channel_closed + unit) poll \<Rightarrow> ('h, 'd, 'q, 'ev) handle \<Rightarrow> bool" where
  "poll_ready_result s p t \<longleftrightarrow>
     queue (fst t) = queue (fst s) \<and>
     (if no_receivers (fst s) then p = Ready (Inl channel_closed_new) \<and> snd t = None
      else if asleep ls (sender_events (fst s)) (snd s) then p = Pending \<and> snd t = snd s
      else if chan_len E (fst s) < chan_limit (fst s) then p = Ready (Inr ()) \<and> snd t = None
      else p = Pending \<and> asleep ls (sender_events (fst t)) (snd t))"

lemma poll_ready_awake:
  assumes "\<not> no_receivers c"
  shows "\<exists>p t. loop_run (poll_ready_iter E) (c, None) = Some (p, t) \<and> poll_ready_result (c, None) p t"
proof (cases "chan_len E c < chan_limit c")
  case True
  then have "poll_ready_iter E (c, None) = Inl (Ready (Inr ()), c, None)"
    using assms by (simp add: poll_ready_iter_def poll_ready_room_def drop_listener_def)
  then show ?thesis
    using assms True by (auto simp: loop_run_return poll_ready_result_def asleep_def)
next
  case False
  obtain i c2 where li: "sender_listen E c = (i, c2)" by fastforce
  then have c2: "c2 = c\<lparr>sender_events := snd (ev_listen E (sender_events c))\<rparr>" "i = fst (ev_listen E (sender_events c))"
    by (auto simp: sender_listen_def case_prod_beta Let_def)
  have first: "poll_ready_iter E (c, None) = Inr (c2, Some i)"
    using assms False li by (simp add: poll_ready_iter_def poll_ready_room_def case_prod_beta Let_def)
  have fresh: "ls (sender_events c2) i = Some False" using c2 by (simp add: ev_listen)
  then have w: "\<not> fst (ev_poll E (sender_events c2) i)"
    "ls (snd (ev_poll E (sender_events c2) i)) = ls (sender_events c2)"
    using ev_poll_waiting by auto
  have "\<not> no_receivers c2" using assms c2 by (simp add: no_receivers_def)
  then have "poll_ready_iter E (c2, Some i) = Inl (Pending, c2\<lparr>sender_events := snd (ev_poll E (sender_events c2) i)\<rparr>, Some i)"
    using w by (simp add: poll_ready_iter_def case_prod_beta Let_def)
  then have "loop_run (poll_ready_iter E) (c, None)
      = Some (Pending, c2\<lparr>sender_events := snd (ev_poll E (sender_events c2) i)\<rparr>, Some i)"
    by (simp add: loop_run_again [where f = "poll_ready_iter E", OF first] loop_run_return)
  then show ?thesis
    using assms False w fresh c2 by (auto simp: poll_ready_result_def asleep_def)
qed

lemma poll_ready_full:
  assumes "live_listener ls (sender_events c) l"
  shows "\<exists>p t. poll_ready E (c, l) = Some (p, t) \<and> poll_ready_result (c, l) p t"
proof (cases "no_receivers c")
  case True
  then show ?thesis
    by (auto simp: poll_ready_def poll_ready_iter_def loop_run_return poll_ready_result_def)
next
  case open': False
  from assms show ?thesis
  proof (cases rule: live_cases)
    case none
    then show ?thesis using poll_ready_awake [OF open'] by (simp add: poll_ready_def)
  next
    case (woken i)
    let ?c = "c\<lparr>sender_events := snd (ev_poll E (sender_events c) i)\<rparr>"
    have w: "fst (ev_poll E (sender_events c) i)" using ev_poll_notified woken by auto
    have o: "\<not> no_receivers ?c" using open' by (simp add: no_receivers_def)
    have "poll_ready_iter E (c, l) = poll_ready_iter E (?c, None)"
      using w woken open' o by (simp add: poll_ready_iter_def case_prod_beta Let_def)
    then have "loop_run (poll_ready_iter E) (c, l) = loop_run (poll_ready_iter E) (?c, None)"
      by (simp add: loop_run.simps [of "poll_ready_iter E" "(c, l)"] loop_run.simps [of "poll_ready_iter E" "(?c, None)"])
    moreover obtain p t where "loop_run (poll_ready_iter E) (?c, None) = Some (p, t)" "poll_ready_result (?c, None) p t"
      using poll_ready_awake [OF o] by blast
    moreover have "\<not> asleep ls (sender_events c) l" using woken by (simp add: asleep_def)
    then have "poll_ready_result (c, l) p t" if "poll_ready_result (?c, None) p t" for p t
      using that by (auto simp: poll_ready_result_def no_receivers_def chan_len_def chan_limit_def split: if_splits)
    ultimately show ?thesis by (auto simp: poll_ready_def)
  next
    case (sleeping i)
    then have "\<not> fst (ev_poll E (sender_events c) i)" using ev_poll_waiting by auto
    then show ?thesis
      using sleeping open'
      by (auto simp: poll_ready_def poll_ready_iter_def poll_ready_result_def case_prod_beta Let_def loop_run_return)
  qed
qed

lemma poll_ready_frame:
  "poll_ready E (c, l) = Some (p, t) \<Longrightarrow>
   receiver_events (fst t) = receiver_events c \<and> queue (fst t) = queue c \<and> sender_count (fst t) = sender_count c"
proof -
  have iter: "case poll_ready_iter E s of
      Inl (p, t) \<Rightarrow> receiver_events (fst t) = receiver_events (fst s) \<and> queue (fst t) = queue (fst s) \<and> sender_count (fst t) = sender_count (fst s)
    | Inr t \<Rightarrow> receiver_events (fst t) = receiver_events (fst s) \<and> queue (fst t) = queue (fst s) \<and> sender_count (fst t) = sender_count (fst s)" for s
    by (cases s) (auto simp: poll_ready_iter_def poll_ready_room_def sender_listen_def case_prod_beta Let_def split: option.splits)
  let ?same = "\<lambda>t. receiver_events (fst t) = receiver_events c \<and> queue (fst t) = queue c \<and> sender_count (fst t) = sender_count c"
  assume "poll_ready E (c, l) = Some (p, t)"
  then have "(\<lambda>(p, t). ?same t) (p, t)"
    unfolding poll_ready_def
  proof (rule loop_run_invariant [where P = ?same])
    show "?same s'" if "?same s" "poll_ready_iter E s = Inr s'" for s s'
      using iter [of s] that by simp
    show "(\<lambda>(p, t). ?same t) r" if "?same s" "poll_ready_iter E s = Inl r" for s r
      using iter [of s] that by auto
  qed simp
  then show ?thesis by simp
qed

end

end
