(* ===== verification/ChannelSystem.thy ===== *)
theory ChannelSystem
  imports ChannelPoll
begin

text \<open>
  Channels in use: the states reachable when one task owns the only receiver, the two step relations
  in which another thread runs in the middle of a poll, on-demand receivers, handle counts, and the
  properties of the channel component.
\<close>

subsection \<open>One receiver, uninterrupted operations\<close>

inductive chan_reach :: "('a, 'h, 'd, 'q, 'ev) chan_ext \<Rightarrow> ('h, 'd, 'q, 'ev) handle \<Rightarrow> bool"
  for E :: "('a, 'h, 'd, 'q, 'ev) chan_ext" where
  reach_new: "chan_reach E (channel_new E h limit uniq name, None)"
| reach_send: "chan_reach E (c, l) \<Longrightarrow> chan_reach E (force_send E c x, l)"
| reach_try: "chan_reach E (c, l) \<Longrightarrow> chan_reach E (snd (try_send E c x), l)"
| reach_poll: "chan_reach E (c, l) \<Longrightarrow> poll_next E (c, l) = Some (p, t) \<Longrightarrow> chan_reach E t"
| reach_ready: "chan_reach E (c, l) \<Longrightarrow> poll_ready E (c, k) = Some (p, t) \<Longrightarrow> chan_reach E (fst t, l)"
| reach_clone: "chan_reach E (c, l) \<Longrightarrow> sender_count c \<noteq> usize_max \<Longrightarrow> chan_reach E (snd (sender_clone c), l)"
| reach_drop: "chan_reach E (c, l) \<Longrightarrow> sender_count c \<noteq> 0 \<Longrightarrow> chan_reach E (sender_drop E c k, l)"

definition sole_receiver :: "('q \<Rightarrow> 'a list) \<Rightarrow> ('ev \<Rightarrow> nat \<rightharpoonup> bool) \<Rightarrow> ('h, 'd, 'q, 'ev) handle \<Rightarrow> bool" where
  "sole_receiver qs ls = (\<lambda>(c, l).
     dom (ls (receiver_events c)) = set_option l \<and>
     (asleep ls (receiver_events c) l \<longrightarrow> qs (queue c) = [] \<and> sender_count c \<noteq> 0))"

context chan_env begin

lemma sole_cases:
  assumes "dom (ls ev) = set_option l"
  obtains (none) "l = None" "ls ev = Map.empty" | (woken) i where "l = Some i" "ls ev = [i \<mapsto> True]"
  | (sleeping) i where "l = Some i" "ls ev = [i \<mapsto> False]"
proof (cases l)
  case None
  then show ?thesis using assms none by simp
next
  case (Some i)
  then obtain b where "ls ev = [i \<mapsto> b]" using assms by (auto simp: dom_eq_singleton_conv)
  with Some show ?thesis using woken sleeping by (cases b) auto
qed

lemma sole_notify:
  assumes "dom (ls ev) = set_option l" "n \<noteq> 0"
  shows "dom (ls (ev_notify E ev n)) = set_option l \<and> \<not> asleep ls (ev_notify E ev n) l"
proof -
  have "ls (ev_notify E ev n) i = Some True" if "l = Some i" for i
  proof -
    have "1 \<le> unat n" using assms(2) by (simp add: Suc_leI unat_gt_0)
    then have "card (notified (ls (ev_notify E ev n))) \<noteq> 0"
      using assms(1) that by (simp add: ev_notify_card)
    moreover have "notified (ls (ev_notify E ev n)) \<subseteq> {i}"
      using notified_dom [of "ls (ev_notify E ev n)"] assms(1) that by (simp add: ev_notify_dom)
    ultimately show ?thesis by (auto simp: notified_def subset_singleton_iff)
  qed
  then show ?thesis
    using assms(1) by (auto simp: asleep_def ev_notify_dom split: option.splits)
qed

lemma chan_send_cases:
  obtains (rejected) s where "chan_send E c x = c\<lparr>unique := s\<rparr>"
  | (pushed) s where "chan_send E c x = c\<lparr>unique := s, queue := q_push E (queue c) x,
      receiver_events := ev_notify E (receiver_events c) 1\<rparr>"
proof (cases "unique c")
  case None
  then have "chan_send E c x = c\<lparr>unique := None, queue := q_push E (queue c) x,
      receiver_events := ev_notify E (receiver_events c) 1\<rparr>"
    by (simp add: chan_send_def notify_receiver_def)
  then show ?thesis by (rule pushed)
next
  case (Some s)
  show ?thesis
  proof (cases "fst (hs_insert E s x)")
    case True
    with Some have "chan_send E c x = c\<lparr>unique := Some (snd (hs_insert E s x)), queue := q_push E (queue c) x,
      receiver_events := ev_notify E (receiver_events c) 1\<rparr>"
      by (simp add: chan_send_def notify_receiver_def case_prod_beta Let_def)
    then show ?thesis by (rule pushed)
  next
    case False
    with Some have "chan_send E c x = c\<lparr>unique := Some (snd (hs_insert E s x))\<rparr>"
      by (simp add: chan_send_def case_prod_beta Let_def)
    then show ?thesis by (rule rejected)
  qed
qed

lemma sole_send: "sole_receiver qs ls (c, l) \<Longrightarrow> sole_receiver qs ls (chan_send E c x, l)"
  using sole_notify [of "receiver_events c" l 1]
  by (rule_tac c = c and x = x in chan_send_cases) (auto simp: sole_receiver_def)

lemma sole_poll:
  assumes sole: "sole_receiver qs ls (c, l)" and poll: "poll_next E (c, l) = Some (p, t)"
  shows "sole_receiver qs ls t"
proof -
  have awake: "sole_receiver qs ls t"
    if "ls (receiver_events c) = Map.empty" "poll_next E (c, None) = Some (p, t)" for c
    using poll_next_awake [of c] that
    by (cases t) (auto simp: sole_receiver_def poll_next_result_def asleep_def split: list.splits option.splits)
  from sole have "dom (ls (receiver_events c)) = set_option l" by (simp add: sole_receiver_def)
  then show ?thesis
  proof (cases rule: sole_cases)
    case none
    with awake poll show ?thesis by blast
  next
    case (woken i)
    then obtain ev where "ls ev = Map.empty" "poll_next E (c\<lparr>receiver_events := ev\<rparr>, None) = Some (p, t)"
      using poll_next_woken [of l i c] poll by auto
    with awake show ?thesis by force
  next
    case (sleeping i)
    then obtain ev where "t = (c\<lparr>receiver_events := ev\<rparr>, l)" "ls ev = ls (receiver_events c)"
      using poll_next_asleep [of l i c] poll by auto
    with sole sleeping(1) show ?thesis by (simp add: sole_receiver_def)
  qed
qed

lemma sole_drop:
  assumes "sole_receiver qs ls (c, l)" "sender_count c \<noteq> 0"
  shows "sole_receiver qs ls (sender_drop E c k, l)"
proof (cases "sender_count c = 1")
  case True
  then show ?thesis
    using assms sole_notify [of "receiver_events c" l usize_max]
    by (auto simp: sole_receiver_def sender_drop_def decrement_sender_count_def notify_all_receivers_def
        usize_max_def)
next
  case False
  then show ?thesis
    using assms by (auto simp: sole_receiver_def sender_drop_def decrement_sender_count_def)
qed

lemma sole_reach: "chan_reach E s \<Longrightarrow> sole_receiver qs ls s"
proof (induction rule: chan_reach.induct)
  case (reach_new h limit uniq name)
  show ?case by (simp add: sole_receiver_def channel_new_def ev_new asleep_def)
next
  case (reach_try c l x)
  then show ?case by (auto simp: try_send_def force_send_def sole_send)
next
  case (reach_ready c l k p t)
  then show ?case using poll_ready_frame [of c k p t] by (auto simp: sole_receiver_def)
next
  case (reach_clone c l)
  then have "sender_count c + 1 \<noteq> 0"
    by (simp add: usize_max_def) (metis add.inverse_unique add.commute)
  with reach_clone show ?case
    by (auto simp: sole_receiver_def sender_clone_def increment_sender_count_def)
qed (auto simp: force_send_def sole_send sole_poll sole_drop)

end

subsection \<open>Interrupted polls\<close>

text \<open>
  A receiver's poll, split where another thread can run: after \<open>recv\<close> has found nothing and the
  sender count has been read (\<open>Checked\<close>), after the listener has been created (\<open>Armed\<close>), and after
  the listener's poll has returned \<open>Pending\<close> (\<open>Sleeping\<close>), when the task waits to be woken.
\<close>

datatype poll_pc = Polling | Checked | Armed nat | Sleeping nat

inductive recv_race ::
    "('a, 'h, 'd, 'q, 'ev) chan_ext \<Rightarrow> poll_pc \<times> ('h, 'd, 'q, 'ev) channel \<Rightarrow>
     poll_pc \<times> ('h, 'd, 'q, 'ev) channel \<Rightarrow> bool"
  for E :: "('a, 'h, 'd, 'q, 'ev) chan_ext" where
  recv_item: "chan_recv E c = (Some x, c') \<Longrightarrow> recv_race E (Polling, c) (Polling, c')"
| recv_none: "chan_recv E c = (None, c') \<Longrightarrow> sender_count c' \<noteq> 0 \<Longrightarrow> recv_race E (Polling, c) (Checked, c')"
| recv_arm: "receiver_listen E c = (i, c') \<Longrightarrow> recv_race E (Checked, c) (Armed i, c')"
| recv_wait: "ev_poll E (receiver_events c) i = (False, ev) \<Longrightarrow>
    recv_race E (Armed i, c) (Sleeping i, c\<lparr>receiver_events := ev\<rparr>)"
| recv_go: "ev_poll E (receiver_events c) i = (True, ev) \<Longrightarrow> pc \<in> {Armed i, Sleeping i} \<Longrightarrow>
    recv_race E (pc, c) (Polling, c\<lparr>receiver_events := ev\<rparr>)"
| other_send: "recv_race E (pc, c) (pc, force_send E c x)"
| other_drop: "sender_count c \<noteq> 0 \<Longrightarrow> recv_race E (pc, c) (pc, sender_drop E c None)"

text \<open>The same for a sender's \<open>poll_ready\<close> on a channel with a receiver.\<close>

inductive send_race ::
    "('a, 'h, 'd, 'q, 'ev) chan_ext \<Rightarrow> poll_pc \<times> ('h, 'd, 'q, 'ev) channel \<Rightarrow>
     poll_pc \<times> ('h, 'd, 'q, 'ev) channel \<Rightarrow> bool"
  for E :: "('a, 'h, 'd, 'q, 'ev) chan_ext" where
  send_room: "chan_len E c < chan_limit c \<Longrightarrow> send_race E (Polling, c) (Polling, force_send E c x)"
| send_full: "\<not> no_receivers c \<Longrightarrow> \<not> chan_len E c < chan_limit c \<Longrightarrow> send_race E (Polling, c) (Checked, c)"
| send_arm: "sender_listen E c = (i, c') \<Longrightarrow> send_race E (Checked, c) (Armed i, c')"
| send_wait: "ev_poll E (sender_events c) i = (False, ev) \<Longrightarrow>
    send_race E (Armed i, c) (Sleeping i, c\<lparr>sender_events := ev\<rparr>)"
| send_go: "ev_poll E (sender_events c) i = (True, ev) \<Longrightarrow> pc \<in> {Armed i, Sleeping i} \<Longrightarrow>
    send_race E (pc, c) (Polling, c\<lparr>sender_events := ev\<rparr>)"
| other_recv: "send_race E (pc, c) (pc, snd (chan_recv E c))"

context chan_env begin

lemma recv_race_sleeps:
  assumes "ls (receiver_events c) = Map.empty"
  shows "\<exists>i ev. (recv_race E)\<^sup>*\<^sup>* (Checked, c) (Sleeping i, c\<lparr>receiver_events := ev\<rparr>) \<and> ls ev i = Some False"
proof -
  obtain i c' where li: "receiver_listen E c = (i, c')" by fastforce
  then have c': "c' = c\<lparr>receiver_events := receiver_events c'\<rparr>" "ls (receiver_events c') i = Some False"
    by (auto simp: receiver_listen_def case_prod_beta Let_def ev_listen)
  obtain ev where w: "ev_poll E (receiver_events c') i = (False, ev)" "ls ev = ls (receiver_events c')"
    using ev_poll_waits [OF c'(2)] by blast
  have "(recv_race E)\<^sup>*\<^sup>* (Checked, c) (Sleeping i, c'\<lparr>receiver_events := ev\<rparr>)"
    by (rule rtranclp_two [of "recv_race E", OF recv_arm [OF li] recv_wait [OF w(1)]])
  moreover have "c'\<lparr>receiver_events := ev\<rparr> = c\<lparr>receiver_events := ev\<rparr>"
    by (subst c'(1)) simp
  ultimately show ?thesis using w c'(2) by (intro exI [of _ i] exI [of _ ev]) simp
qed

lemma recv_race_checked:
  assumes c_def: "c = channel_new E h limit uniq name"
  shows "recv_race E (Polling, c) (Checked, snd (chan_recv E c))"
    and "ls (receiver_events (snd (chan_recv E c))) = Map.empty"
    and "qs (queue (snd (chan_recv E c))) = []" and "sender_count (snd (chan_recv E c)) = 1"
    and "chan_inv E dset qs (snd (chan_recv E c))"
proof -
  have q: "qs (queue c) = []" "sender_count c = 1" "ls (receiver_events c) = Map.empty"
    by (simp_all add: c_def channel_new_def q_unbounded ev_new)
  then have "chan_recv E c = (None, snd (chan_recv E c))" by (simp add: recv_result prod_eq_iff)
  then show "recv_race E (Polling, c) (Checked, snd (chan_recv E c))"
    by (rule recv_none) (simp add: recv_frame q)
  show "ls (receiver_events (snd (chan_recv E c))) = Map.empty" "qs (queue (snd (chan_recv E c))) = []"
    "sender_count (snd (chan_recv E c)) = 1"
    by (simp_all add: recv_frame recv_result q)
  show "chan_inv E dset qs (snd (chan_recv E c))"
    by (rule chan_recv_refines) (simp add: c_def chan_inv_new)
qed

lemma recv_race_send:
  "\<exists>c i. (recv_race E)\<^sup>*\<^sup>* (Polling, channel_new E h limit uniq name) (Sleeping i, c) \<and>
     ls (receiver_events c) i = Some False \<and> qs (queue c) = [x]"
proof -
  let ?c0 = "channel_new E h limit uniq name"
  let ?c1 = "snd (chan_recv E ?c0)"
  let ?c2 = "force_send E ?c1 x"
  note c1 = recv_race_checked [OF refl, of h limit uniq name]
  have items: "qs (queue ?c2) = [x]"
    using chan_send_refines(1) [OF c1(5), of x] c1(3)
    by (auto simp: force_send_def abs_send_def abs_of_def split: option.splits)
  have "ls (receiver_events ?c2) = Map.empty"
    by (rule_tac c = ?c1 and x = x in chan_send_cases)
      (use c1(2) in \<open>auto simp: force_send_def notify_nobody\<close>)
  then obtain i ev where "(recv_race E)\<^sup>*\<^sup>* (Checked, ?c2) (Sleeping i, ?c2\<lparr>receiver_events := ev\<rparr>)" "ls ev i = Some False"
    using recv_race_sleeps by blast
  moreover have "(recv_race E)\<^sup>*\<^sup>* (Polling, ?c0) (Checked, ?c2)"
    by (rule rtranclp_two [of "recv_race E", OF c1(1) other_send])
  ultimately have "(recv_race E)\<^sup>*\<^sup>* (Polling, ?c0) (Sleeping i, ?c2\<lparr>receiver_events := ev\<rparr>)" "ls ev i = Some False"
    by simp_all
  then show ?thesis
    using items by (intro exI [of _ "?c2\<lparr>receiver_events := ev\<rparr>"] exI [of _ i]) simp
qed

lemma recv_race_close:
  "\<exists>c i. (recv_race E)\<^sup>*\<^sup>* (Polling, channel_new E h limit uniq name) (Sleeping i, c) \<and>
     ls (receiver_events c) i = Some False \<and> sender_count c = 0"
proof -
  let ?c0 = "channel_new E h limit uniq name"
  let ?c1 = "snd (chan_recv E ?c0)"
  let ?c2 = "sender_drop E ?c1 None"
  note c1 = recv_race_checked [OF refl, of h limit uniq name]
  have none: "sender_count ?c2 = 0" "ls (receiver_events ?c2) = Map.empty"
    using c1(2,4) by (simp_all add: sender_drop_def decrement_sender_count_def notify_all_receivers_def notify_nobody)
  obtain i ev where "(recv_race E)\<^sup>*\<^sup>* (Checked, ?c2) (Sleeping i, ?c2\<lparr>receiver_events := ev\<rparr>)" "ls ev i = Some False"
    using recv_race_sleeps [OF none(2)] by blast
  moreover have "recv_race E (Checked, ?c1) (Checked, ?c2)"
    by (rule other_drop) (simp add: c1(4))
  then have "(recv_race E)\<^sup>*\<^sup>* (Polling, ?c0) (Checked, ?c2)"
    by (rule rtranclp_two [of "recv_race E", OF c1(1)])
  ultimately have "(recv_race E)\<^sup>*\<^sup>* (Polling, ?c0) (Sleeping i, ?c2\<lparr>receiver_events := ev\<rparr>)" "ls ev i = Some False"
    by simp_all
  then show ?thesis
    using none(1) by (intro exI [of _ "?c2\<lparr>receiver_events := ev\<rparr>"] exI [of _ i]) simp
qed

lemma send_race_room:
  "\<exists>c i. (send_race E)\<^sup>*\<^sup>* (Polling, channel_new E h (Static (Suc 0)) uniq name) (Sleeping i, c) \<and>
     ls (sender_events c) i = Some False \<and> chan_len E c < chan_limit c"
proof -
  let ?c0 = "channel_new E h (Static (Suc 0)) uniq name"
  let ?c1 = "force_send E ?c0 x"
  let ?c2 = "snd (chan_recv E ?c1)"
  have c1: "qs (queue ?c1) = [x]" "ls (sender_events ?c1) = Map.empty" "receiver_count ?c1 = 1" "ch_limit ?c1 = Static (Suc 0)"
    by (simp_all add: force_send_def channel_new_def chan_send_def notify_receiver_def q_push q_unbounded ev_new
        case_prod_beta Let_def hs.ins_new hs_new_def ds_empty split: if_splits)
  have c2: "qs (queue ?c2) = []" "ch_limit ?c2 = Static (Suc 0)"
    using chan_recv_refines(1) [of ?c1] chan_send_refines(2) [OF chan_inv_new, of h "Static (Suc 0)" uniq name x] c1
    by (auto simp: recv_result force_send_def abs_of_def abs_recv_def is_dynamic_def)
  have s2: "ls (sender_events ?c2) = Map.empty"
  proof -
    have "sender_events ?c2 = sender_events ?c1 \<or> sender_events ?c2 = ev_notify E (sender_events ?c1) 1"
      by (auto simp: chan_recv_def notify_on_demand_def notify_sender_def Let_def split: option.splits limit.splits)
    then show ?thesis using c1(2) notify_nobody by force
  qed
  obtain i c3 where li: "sender_listen E ?c2 = (i, c3)" by fastforce
  then have c3: "queue c3 = queue ?c2" "ch_limit c3 = ch_limit ?c2" "ls (sender_events c3) i = Some False"
    by (auto simp: sender_listen_def case_prod_beta Let_def ev_listen)
  obtain ev where w: "ev_poll E (sender_events c3) i = (False, ev)" "ls ev = ls (sender_events c3)"
    using ev_poll_waits [OF c3(3)] by blast
  have "send_race E (Polling, ?c0) (Polling, ?c1)"
    by (rule send_room) (simp add: chan_len_eq chan_limit_def channel_new_def q_unbounded)
  moreover have "send_race E (Polling, ?c1) (Checked, ?c1)"
    by (rule send_full) (simp_all add: no_receivers_def chan_len_eq chan_limit_def c1)
  moreover note other_recv [of E Checked ?c1] send_arm [OF li] send_wait [OF w(1)]
  ultimately have "(send_race E)\<^sup>*\<^sup>* (Polling, ?c0) (Sleeping i, c3\<lparr>sender_events := ev\<rparr>)"
    by (blast intro: rtranclp_two [of "send_race E"] rtranclp_trans r_into_rtranclp)
  then show ?thesis
    using w c3 c2 by (intro exI [of _ "c3\<lparr>sender_events := ev\<rparr>"] exI [of _ i]) (simp add: chan_len_eq chan_limit_def)
qed

end

end
