(* ===== verification/ChannelProps.thy ===== *)
theory ChannelProps
  imports ChannelSystem
begin

text \<open>
  The properties of the channel component, over any third-party parts that keep the contract
  \<open>chan_env\<close>, with witnesses on the reference environment.
\<close>

subsection \<open>Handle and on-demand counts\<close>

datatype handle_op = Clone_sender | Drop_sender listener | Clone_receiver | Drop_receiver listener

fun handle_step ::
    "('a, 'h, 'd, 'q, 'ev) chan_ext \<Rightarrow> ('h, 'd, 'q, 'ev) channel \<Rightarrow> handle_op \<Rightarrow> ('h, 'd, 'q, 'ev) channel" where
  "handle_step E c Clone_sender = snd (sender_clone c)"
| "handle_step E c (Drop_sender l) = sender_drop E c l"
| "handle_step E c Clone_receiver = snd (receiver_clone c)"
| "handle_step E c (Drop_receiver l) = receiver_drop E c l"

text \<open>The live handles, \<open>None\<close> when a handle is dropped that does not exist.\<close>

fun live_step :: "nat \<times> nat \<Rightarrow> handle_op \<Rightarrow> (nat \<times> nat) option" where
  "live_step (s, r) Clone_sender = Some (s + 1, r)"
| "live_step (s, r) (Drop_sender _) = (if s = 0 then None else Some (s - 1, r))"
| "live_step (s, r) Clone_receiver = Some (s, r + 1)"
| "live_step (s, r) (Drop_receiver _) = (if r = 0 then None else Some (s, r - 1))"

fun live_run :: "nat \<times> nat \<Rightarrow> handle_op list \<Rightarrow> (nat \<times> nat) option" where
  "live_run n [] = Some n"
| "live_run n (x # xs) = Option.bind (live_step n x) (\<lambda>n'. live_run n' xs)"

lemma handle_step_counts:
  "live_step (s, r) x = Some (s', r') \<Longrightarrow> sender_count c = of_nat s \<Longrightarrow> receiver_count c = of_nat r \<Longrightarrow>
   sender_count (handle_step E c x) = of_nat s' \<and> receiver_count (handle_step E c x) = of_nat r'"
  by (cases x)
    (auto simp: sender_clone_def sender_drop_def receiver_clone_def receiver_drop_def Let_def
      increment_sender_count_def decrement_sender_count_def increment_receiver_count_def
      decrement_receiver_count_def notify_all_receivers_def notify_all_senders_def of_nat_diff split: if_splits)

lemma handle_run_counts:
  "live_run (s, r) xs = Some (s', r') \<Longrightarrow> sender_count c = of_nat s \<Longrightarrow> receiver_count c = of_nat r \<Longrightarrow>
   sender_count (fold (\<lambda>x c. handle_step E c x) xs c) = of_nat s' \<and>
   receiver_count (fold (\<lambda>x c. handle_step E c x) xs c) = of_nat r'"
proof (induction xs arbitrary: s r c)
  case (Cons x xs)
  then obtain s1 r1 where st: "live_step (s, r) x = Some (s1, r1)" "live_run (s1, r1) xs = Some (s', r')"
    by (cases "live_step (s, r) x") auto
  then show ?case
    using Cons.IH [OF st(2), of "handle_step E c x"] handle_step_counts [OF st(1) Cons.prems(2,3), of E]
    by simp
qed simp

lemma word64_zero_iff: "n < 2 ^ 64 \<Longrightarrow> (of_nat n :: usize) = 0 \<longleftrightarrow> n = 0"
  using nat_dvd_not_less [of n "2 ^ 64"] by (auto simp: word_of_nat_eq_0_iff)

datatype demand_op = Demand_new | Demand_clone | Demand_drop listener

fun demand_step ::
    "('a, 'h, 'd, 'q, 'ev) chan_ext \<Rightarrow> ('h, 'd, 'q, 'ev) channel \<Rightarrow> demand_op \<Rightarrow> ('h, 'd, 'q, 'ev) channel" where
  "demand_step E c Demand_new = snd (on_demand_new c)"
| "demand_step E c Demand_clone = snd (on_demand_clone c)"
| "demand_step E c (Demand_drop l) = on_demand_drop E c l"

lemma demand_step_count:
  "on_demand_count (fold (\<lambda>x c. demand_step E c x) xs c)
    = on_demand_count c + of_nat (length (filter (\<lambda>x. x = Demand_clone) xs))
      - of_nat (length (filter (\<lambda>x. x \<noteq> Demand_clone \<and> x \<noteq> Demand_new) xs))"
proof (induction xs arbitrary: c)
  case (Cons x xs)
  then show ?case
    by (cases x) (auto simp: on_demand_new_def on_demand_clone_def on_demand_drop_def
        increment_on_demand_count_def decrement_on_demand_count_def)
qed simp

subsection \<open>Lemmas over the contract\<close>

context chan_env begin

lemma abs_of_new:
  "abs_of qs (channel_new E h limit uniq name) = \<lparr>a_items = [], a_limit = limit, a_maxed = False, a_open = True\<rparr>"
  by (simp add: abs_of_def channel_new_def q_unbounded)

lemma fp_of_new:
  "fp_of E (channel_new E h limit uniq name) = (if uniq then Some (get_hash E (hs_new E h)) else None)"
  by (simp add: fp_of_def channel_new_def)

lemmas run_new = chan_run_refines [OF chan_inv_new, unfolded abs_of_new fp_of_new]

lemma run_newD:
  assumes "chan_run E (channel_new E h limit uniq name) ops = (outs, c)"
  shows "run_steps (abs_step (if uniq then Some (get_hash E (hs_new E h)) else None))
      \<lparr>a_items = [], a_limit = limit, a_maxed = False, a_open = True\<rparr> ops = (outs, abs_of qs c)"
    and "chan_inv E dset qs c" and "fp_of E c = (if uniq then Some (get_hash E (hs_new E h)) else None)"
  using run_new [where h = h and limit = limit and uniq = uniq and name = name and ops = ops] assms by auto

lemma fifo_new:
  "chan_run E (channel_new E h limit False name) ops = (outs, c) \<Longrightarrow> accepted ops outs = received outs @ qs (queue c)"
  using abs_run_fifo [OF run_newD(1) [where uniq = False, unfolded if_False]] by (fastforce simp: abs_of_def)

lemma unique_new:
  assumes "chan_run E (channel_new E h limit True name) ops = (outs, c)"
  shows "distinct (map (get_hash E (hs_new E h)) (qs (queue c)))"
proof -
  obtain s where s: "unique c = Some s" "get_hash E s = get_hash E (hs_new E h)"
    using run_newD(3) [OF assms] by (auto simp: fp_of_def)
  show ?thesis
    using run_newD(2) [OF assms] s by (simp add: chan_inv_def)
qed

lemma bounded_new:
  "list_all (\<lambda>x. \<not> forces x) ops \<Longrightarrow> chan_run E (channel_new E h limit uniq name) ops = (outs, c) \<Longrightarrow>
   chan_len E c \<le> chan_limit c"
  using abs_run_bounded [OF _ run_newD(1)] by (fastforce simp: abs_of_def chan_len_eq chan_limit_def)

lemma limit_new:
  "chan_run E (channel_new E h limit uniq name) ops = (outs, c) \<Longrightarrow>
   (\<forall>n. limit = Static n \<longrightarrow> ch_limit c = Static n) \<and> limit_get limit \<le> chan_limit c"
  using abs_run_static [OF run_newD(1)] abs_run_limit_mono [OF run_newD(1)]
  by (fastforce simp: abs_of_def chan_limit_def)

lemma run_steps_append:
  "run_steps f s (xs @ ys) =
    (let (rs, s') = run_steps f s xs; (rs', s'') = run_steps f s' ys in (rs @ rs', s''))"
  by (induction xs arbitrary: s) (simp_all add: case_prod_beta Let_def)

lemma fill_drain_new:
  assumes "length xs = n"
    and run: "chan_run E (channel_new E h (Dynamic n) False name) (map Op_try xs @ replicate n Op_recv) = (outs, c)"
  shows "qs (queue c) = [] \<and> ch_limit c = Dynamic (if 2 \<le> n then n + 1 else n)"
proof -
  let ?s = "\<lparr>a_items = [], a_limit = Dynamic n, a_maxed = False, a_open = True\<rparr>"
  let ?f = "?s\<lparr>a_items := xs\<rparr>"
  have "run_steps (abs_step None) ?s (map Op_try xs) = (map (\<lambda>_. Out_try Success) xs, ?f)"
    using abs_fill [of ?s xs] assms(1) by simp
  then have end': "snd (run_steps (abs_step None) ?f (replicate n Op_recv)) = abs_of qs c"
    using run_newD(1) [OF run] by (simp add: run_steps_append case_prod_beta Let_def prod_eq_iff)
  consider "n = 0" | "n = 1" | "2 \<le> n" by linarith
  then show ?thesis
  proof cases
    case 1
    with end' assms(1) show ?thesis by (simp add: abs_of_def)
  next
    case 2
    then obtain x where "xs = [x]" using assms(1) by (auto simp: length_Suc_conv)
    with end' 2 show ?thesis by (simp add: abs_of_def abs_recv_def)
  next
    case 3
    with end' abs_drain_full [of ?f xs n] assms(1) show ?thesis by (simp add: abs_of_def)
  qed
qed

lemma two_sleepers:
  assumes "unique c = None" "qs (queue c) = []" "ls (receiver_events c) = [i \<mapsto> False, j \<mapsto> False]" "i \<noteq> j"
  shows "\<exists>k k' c3 c4. {k, k'} = {i, j} \<and>
    poll_next E (force_send E (force_send E c x) y, Some k) = Some (Ready (Some x), c3, None) \<and>
    poll_next E (c3, Some k') = Some (Pending, c4, Some k') \<and> qs (queue c4) = [y]"
proof -
  let ?c2 = "force_send E (force_send E c x) y"
  let ?ev1 = "ev_notify E (receiver_events c) 1"
  have c2: "qs (queue ?c2) = [x, y]" "receiver_events ?c2 = ev_notify E ?ev1 1"
    using assms(1,2) by (simp_all add: force_send_def chan_send_def notify_receiver_def q_push)
  have "notified (ls (receiver_events c)) = {}" "card (dom (ls (receiver_events c))) = 2"
    using assms(3,4) by (auto simp: notified_def card_insert_if)
  then have "card (notified (ls ?ev1)) = 1" by (simp add: ev_notify_card)
  then obtain k where k: "notified (ls ?ev1) = {k}" by (auto simp: card_1_singleton_iff)
  have d: "dom (ls ?ev1) = {i, j}" using assms(3) by (simp add: ev_notify_dom insert_commute)
  then have "k \<in> {i, j}" using k notified_dom [of "ls ?ev1"] by auto
  then obtain k' where k': "{k, k'} = {i, j}" "k' \<noteq> k" using assms(4) by blast
  have l2: "ls (receiver_events ?c2) = ls ?ev1"
    unfolding c2(2) using notify_saturates k by simp
  have lk: "ls ?ev1 k = Some True" using k by (auto simp: notified_def)
  have lk': "ls ?ev1 k' = Some False"
  proof -
    have "k' \<in> dom (ls ?ev1)" "k' \<notin> notified (ls ?ev1)" using d k k' by auto
    then show ?thesis by (auto simp: notified_def)
  qed
  obtain ev where ev: "ls ev = (ls ?ev1)(k := None)"
    "poll_next E (?c2, Some k) = poll_next E (?c2\<lparr>receiver_events := ev\<rparr>, None)"
    using poll_next_woken [of "Some k" k ?c2] lk l2 by auto
  obtain p t where t: "poll_next E (?c2\<lparr>receiver_events := ev\<rparr>, None) = Some (p, t)"
    "poll_next_result (?c2\<lparr>receiver_events := ev\<rparr>, None) p t"
    "snd t = None \<longrightarrow> ls (receiver_events (fst t)) = ls ev"
    using poll_next_awake [of "?c2\<lparr>receiver_events := ev\<rparr>"] by auto
  then have p: "p = Ready (Some x)" "qs (queue (fst t)) = [y]" "snd t = None"
    by (simp_all add: poll_next_result_def c2)
  then have "ls (receiver_events (fst t)) k' = Some False" using t(3) ev(1) lk' k'(2) by simp
  then obtain ev' where "poll_next E (fst t, Some k') = Some (Pending, fst t\<lparr>receiver_events := ev'\<rparr>, Some k')"
    using poll_next_asleep [of "Some k'" k' "fst t"] by auto
  moreover have "poll_next E (?c2, Some k) = Some (Ready (Some x), fst t, None)"
    using ev(2) t(1) p(1,3) by (metis prod.collapse)
  ultimately show ?thesis using k'(1) p(2)
    by (intro exI [of _ k] exI [of _ k'] exI [of _ "fst t"] exI [of _ "fst t\<lparr>receiver_events := ev'\<rparr>"]) simp
qed

lemma on_demand_wakes:
  assumes "qs (queue c) = []" "ls (on_demand_events c) = [i \<mapsto> False]" "receiver_count c \<noteq> 0"
  shows "\<exists>c2 j c3. on_demand_poll_next E (snd (chan_recv E c), Some i) = Some (Ready (Some ()), c2, Some j) \<and>
     on_demand_poll_next E (c2, Some j) = Some (Pending, c3, Some j)"
proof -
  let ?c1 = "snd (chan_recv E c)"
  have c1: "?c1 = c\<lparr>on_demand_events := ev_notify E (on_demand_events c) 1\<rparr>"
    using q_pop_Nil [OF assms(1)] by (simp add: chan_recv_def notify_on_demand_def)
  have "ls (on_demand_events ?c1) i = Some True"
    unfolding c1 using notify_lone assms(2) by simp
  then obtain ev where ev: "ev_poll E (on_demand_events ?c1) i = (True, ev)"
    using ev_poll_fires by blast
  obtain j c2 where li: "on_demand_listen E (?c1\<lparr>on_demand_events := ev\<rparr>) = (j, c2)" by fastforce
  then have c2: "c2 = ?c1\<lparr>on_demand_events := snd (ev_listen E ev)\<rparr>" "ls (on_demand_events c2) j = Some False"
    by (auto simp: on_demand_listen_def case_prod_beta Let_def ev_listen)
  have r: "receiver_count ?c1 \<noteq> 0" "receiver_count c2 \<noteq> 0" using assms(3) c1 c2(1) by simp_all
  obtain ev' where ev': "ev_poll E (on_demand_events c2) j = (False, ev')"
    using ev_poll_waits [OF c2(2)] by blast
  have "on_demand_iter E (?c1, Some i) = Inl (Ready (Some ()), c2, Some j)"
    using r(1) ev li by (simp add: on_demand_iter_def)
  moreover have "on_demand_iter E (c2, Some j) = Inl (Pending, c2\<lparr>on_demand_events := ev'\<rparr>, Some j)"
    using r(2) ev' by (simp add: on_demand_iter_def)
  ultimately show ?thesis
    unfolding on_demand_poll_next_def
    by (intro exI [of _ c2] exI [of _ j] exI [of _ "c2\<lparr>on_demand_events := ev'\<rparr>"])
      (simp add: loop_run_return)
qed

end

subsection \<open>The queue\<close>

text \<open>
  C1. A channel refines the abstract bounded queue: any run of sends, soft-limited sends and receives
  on a new channel, unique or not, gives the outcomes the abstract queue gives and ends in the state it
  ends in.
\<close>

theorem channel_refines_queue:
  assumes "chan_env E dset qs ls"
  shows "run_steps (abs_step (fp_of E (channel_new E h limit uniq name)))
      (abs_of qs (channel_new E h limit uniq name)) ops
    = (fst (chan_run E (channel_new E h limit uniq name) ops),
       abs_of qs (snd (chan_run E (channel_new E h limit uniq name) ops)))"
  using chan_env.chan_run_refines [OF assms chan_env.chan_inv_new [OF assms]] by blast

theorem channel_refines_queue_witness:
  "snd (run_steps (abs_step (fp_of ref_env (channel_new ref_env 0 (Static 1) True ''p'')))
      (abs_of (\<lambda>q. q) (channel_new ref_env 0 (Static 1) True ''p'')) [Op_force 5, Op_force 5, Op_try 6, Op_recv])
    = abs_of (\<lambda>q. q) (snd (chan_run ref_env (channel_new ref_env 0 (Static 1) True ''p'')
        [Op_force 5, Op_force 5, Op_try 6, Op_recv]))"
  by (simp only: channel_refines_queue [OF ref.chan_env_axioms] snd_conv)

text \<open>
  C21. First in, first out: on a channel that is not unique, what a run has received followed by what is
  still queued is exactly what the run's sends put in, in order. Nothing is lost, doubled or reordered.
\<close>

theorem channel_fifo:
  assumes "chan_env E dset qs ls"
    and "chan_run E (channel_new E h limit False name) ops = (outs, c)"
  shows "accepted ops outs = received outs @ qs (queue c)"
  by (rule chan_env.fifo_new [OF assms])

theorem channel_fifo_witness:
  "let ops = [Op_force 7, Op_try 8, Op_try 9, Op_recv];
       (outs, c) = chan_run ref_env (channel_new ref_env 0 (Static 2) False ''p'') ops
   in received outs = [7] \<and> queue c = [8] \<and> accepted ops outs = received outs @ queue c"
  using channel_fifo [OF ref.chan_env_axioms, of 0 "Static 2" "''p''" "[Op_force 7, Op_try 8, Op_try 9, Op_recv]"]
  by (simp add: chan_run_def channel_new_def force_send_def try_send_def chan_send_def chan_recv_def
      notify_receiver_def notify_sender_def no_receivers_def chan_len_def chan_limit_def ref_env_def Let_def)

text \<open>
  C22. A unique channel never holds two items with the same fingerprint, whatever is sent to it
  (\<open>force_send\<close> included), and an item becomes sendable again once it has been received.
\<close>

theorem unique_channel_distinct:
  assumes "chan_env E dset qs ls"
    and "chan_run E (channel_new E h limit True name) ops = (outs, c)"
  shows "distinct (map (get_hash E (hs_new E h)) (qs (queue c)))"
  by (rule chan_env.unique_new [OF assms])

theorem unique_channel_distinct_witness:
  "let c = snd (chan_run ref_env (channel_new ref_env 0 (Static 9) True ''p'')
      [Op_force 7, Op_try 7, Op_force 8, Op_recv, Op_try 7])
   in distinct (map (get_hash ref_env (hs_new ref_env 0)) (queue c))"
  unfolding Let_def by (rule unique_channel_distinct [OF ref.chan_env_axioms prod.collapse [symmetric]])



text \<open>
  A dynamic limit grows by exactly one when a channel has been filled to its limit and then
  drained, but only if the limit is at least two: a channel with limit one never grows, because the
  receive that empties it is the one that would have recorded that it was full.
\<close>

theorem dynamic_limit_grows:
  assumes "chan_env E dset qs ls" and "length xs = n"
    and "chan_run E (channel_new E h (Dynamic n) False name) (map Op_try xs @ replicate n Op_recv) = (outs, c)"
  shows "qs (queue c) = [] \<and> ch_limit c = Dynamic (if 2 \<le> n then n + 1 else n)"
  by (rule chan_env.fill_drain_new [OF assms])

theorem dynamic_limit_grows_witness:
  "ch_limit (snd (chan_run ref_env (channel_new ref_env 0 (Dynamic 3) False ''p'')
      (map Op_try [4, 5, 6] @ replicate 3 Op_recv))) = Dynamic 4"
  using dynamic_limit_grows [OF ref.chan_env_axioms, of "[4, 5, 6]" 3, OF _ prod.collapse [symmetric]] by simp

text \<open>
  Over any run a static limit stays what it was and a dynamic one never shrinks.
\<close>

theorem limit_never_shrinks:
  assumes "chan_env E dset qs ls" and "chan_run E (channel_new E h limit uniq name) ops = (outs, c)"
  shows "(\<forall>n. limit = Static n \<longrightarrow> ch_limit c = Static n) \<and> limit_get limit \<le> chan_limit c"
  by (rule chan_env.limit_new [OF assms])

theorem limit_never_shrinks_witness:
  "ch_limit (snd (chan_run ref_env (channel_new ref_env 0 (Static 2) False ''p'')
      [Op_try 4, Op_try 5, Op_recv, Op_recv])) = Static 2"
  using limit_never_shrinks [OF ref.chan_env_axioms, of 0 "Static 2" False, OF prod.collapse [symmetric]] by blast

subsection \<open>Polls\<close>

text \<open>
  C24. Polling a live receiver always returns. Asleep (its listener not notified) it returns
  \<open>Pending\<close> and changes nothing; awake it takes the first item, or ends the stream when the channel is
  empty and has no senders, or else goes to sleep on a listener that has not been notified.
\<close>

theorem poll_next_behaviour:
  assumes "chan_env E dset qs ls" and "live_listener ls (receiver_events c) l"
  shows "\<exists>p c' l'. poll_next E (c, l) = Some (p, c', l') \<and>
    (if asleep ls (receiver_events c) l then p = Pending \<and> l' = l \<and> queue c' = queue c
     else case qs (queue c) of
       x # xs \<Rightarrow> p = Ready (Some x) \<and> qs (queue c') = xs \<and> l' = None
     | [] \<Rightarrow> qs (queue c') = [] \<and>
         (if sender_count c = 0 then p = Ready None \<and> l' = None
          else p = Pending \<and> asleep ls (receiver_events c') l'))"
proof -
  obtain p t where "poll_next E (c, l) = Some (p, t)"
    "if asleep ls (receiver_events c) l then p = Pending \<and> snd t = l \<and> queue (fst t) = queue c
     else chan_env.poll_next_result qs ls (c, l) p t"
    using chan_env.poll_next_full [OF assms] by blast
  then show ?thesis
    unfolding chan_env.poll_next_result_def [OF assms(1)] fst_conv snd_conv
    by (intro exI [of _ p] exI [of _ "fst t"] exI [of _ "snd t"]) simp
qed

theorem poll_next_behaviour_witness:
  "\<exists>p c' l'. poll_next ref_env (channel_new ref_env 0 (Static 2) False ''p'', None) = Some (p, c', l') \<and>
     p = Pending \<and> asleep ref_listeners (receiver_events c') l'"
  using poll_next_behaviour [OF ref.chan_env_axioms, of "channel_new ref_env 0 (Static 2) False ''p''" None]
  by (auto simp: live_listener_def channel_new_def ref_env_def)

text \<open>
  C25. Polling a live sender for room always returns: closed without receivers, \<open>Pending\<close> while asleep,
  ready when there is room, and otherwise asleep on a new listener. It never touches the queue.
\<close>

theorem poll_ready_behaviour:
  assumes "chan_env E dset qs ls" and "live_listener ls (sender_events c) l"
  shows "\<exists>p c' l'. poll_ready E (c, l) = Some (p, c', l') \<and> queue c' = queue c \<and>
    (if no_receivers c then p = Ready (Inl channel_closed_new) \<and> l' = None
     else if asleep ls (sender_events c) l then p = Pending \<and> l' = l
     else if chan_len E c < chan_limit c then p = Ready (Inr ()) \<and> l' = None
     else p = Pending \<and> asleep ls (sender_events c') l')"
proof -
  obtain p t where "poll_ready E (c, l) = Some (p, t)" "chan_env.poll_ready_result E ls (c, l) p t"
    using chan_env.poll_ready_full [OF assms] by blast
  then show ?thesis
    unfolding chan_env.poll_ready_result_def [OF assms(1)] fst_conv snd_conv
    by (intro exI [of _ p] exI [of _ "fst t"] exI [of _ "snd t"]) simp
qed

theorem poll_ready_behaviour_witness:
  "\<exists>p c' l'. poll_ready ref_env (channel_new ref_env 0 (Static 0) False ''p'', None) = Some (p, c', l') \<and>
     p = Pending \<and> asleep ref_listeners (sender_events c') l'"
  using poll_ready_behaviour [OF ref.chan_env_axioms, of "channel_new ref_env 0 (Static 0) False ''p''" None]
  by (auto simp: live_listener_def channel_new_def ref_env_def no_receivers_def chan_len_def chan_limit_def)

text \<open>
  C26. A sole receiver never sleeps on work: in every state that uninterrupted operations reach on a
  channel with one receiver, a receiver that is asleep has an empty queue and a live sender.
\<close>

theorem sole_receiver_no_lost_wakeup:
  assumes "chan_env E dset qs ls" and "chan_reach E (c, l)" and "asleep ls (receiver_events c) l"
  shows "qs (queue c) = [] \<and> sender_count c \<noteq> 0"
  using chan_env.sole_reach [OF assms(1,2)] assms(3) by (simp add: sole_receiver_def)

theorem sole_receiver_no_lost_wakeup_witness:
  "\<exists>c l. chan_reach ref_env (c, l) \<and> asleep ref_listeners (receiver_events c) l \<and> queue c = [] \<and> sender_count c \<noteq> 0"
proof -
  let ?c = "channel_new ref_env 0 (Static 2) False ''p''"
  obtain p c' l' where c': "poll_next ref_env (?c, None) = Some (p, c', l')" "asleep ref_listeners (receiver_events c') l'"
    using poll_next_behaviour_witness by blast
  have r: "chan_reach ref_env (c', l')" by (rule reach_poll [OF reach_new c'(1)])
  show ?thesis using sole_receiver_no_lost_wakeup [OF ref.chan_env_axioms r c'(2)] r c'(2) by blast
qed

text \<open>
  Two receivers are not woken by two sends: when two receivers of an empty channel are asleep and
  two items are sent before either runs, only one receiver is woken. It takes the first item, and the
  other goes on sleeping with the second item in the queue.
\<close>

theorem two_sends_wake_one_receiver:
  assumes "chan_env E dset qs ls" and "unique c = None" and "qs (queue c) = []"
    and "ls (receiver_events c) = [i \<mapsto> False, j \<mapsto> False]" and "i \<noteq> j"
  shows "\<exists>k k' c3 c4. {k, k'} = {i, j} \<and>
    poll_next E (force_send E (force_send E c x) y, Some k) = Some (Ready (Some x), c3, None) \<and>
    poll_next E (c3, Some k') = Some (Pending, c4, Some k') \<and> qs (queue c4) = [y]"
  by (rule chan_env.two_sleepers [OF assms])

theorem two_sends_wake_one_receiver_witness:
  "let c = (channel_new ref_env 0 (Static 9) False ''p'')\<lparr>receiver_events := [Some False, Some False]\<rparr>
   in \<exists>k k' c3 c4. {k, k'} = {0, 1} \<and>
    poll_next ref_env (force_send ref_env (force_send ref_env c 4) 5, Some k) = Some (Ready (Some 4), c3, None) \<and>
    poll_next ref_env (c3, Some k') = Some (Pending, c4, Some k') \<and> queue c4 = [5]"
proof -
  have "ref_listeners [Some False, Some False] = [0 \<mapsto> False, 1 \<mapsto> False]"
    by (auto simp: ref_listeners_def fun_eq_iff nth_Cons split: nat.splits)
  then show ?thesis
    unfolding Let_def
    by (intro two_sends_wake_one_receiver [OF ref.chan_env_axioms])
      (simp_all add: channel_new_def ref_env_def)
qed

text \<open>
  C27. A receive is not atomic, and a send or the drop of the last sender that runs between the empty
  check and the creation of the listener is missed: the receiver ends up asleep, unnotified, with an
  item in the queue, or asleep on a channel that has no sender left to wake it.
\<close>

theorem interrupted_poll_loses_wakeup:
  assumes "chan_env E dset qs ls"
  shows "(\<exists>c i. (recv_race E)\<^sup>*\<^sup>* (Polling, channel_new E h limit uniq name) (Sleeping i, c) \<and>
       ls (receiver_events c) i = Some False \<and> qs (queue c) = [x]) \<and>
    (\<exists>c i. (recv_race E)\<^sup>*\<^sup>* (Polling, channel_new E h limit uniq name) (Sleeping i, c) \<and>
       ls (receiver_events c) i = Some False \<and> sender_count c = 0)"
  using chan_env.recv_race_send [OF assms] chan_env.recv_race_close [OF assms] by blast

theorem interrupted_poll_loses_wakeup_witness:
  "\<exists>c i. (recv_race ref_env)\<^sup>*\<^sup>* (Polling, channel_new ref_env 0 (Static 5) False ''p'') (Sleeping i, c) \<and>
     ref_listeners (receiver_events c) i = Some False \<and> queue c = [3]"
  using interrupted_poll_loses_wakeup [OF ref.chan_env_axioms] by blast

text \<open>
  The same for senders: a receive that runs between a sender's fullness check and the creation of
  its listener leaves the sender asleep, unnotified, on a channel with room.
\<close>

theorem interrupted_ready_loses_wakeup:
  assumes "chan_env E dset qs ls"
  shows "\<exists>c i. (send_race E)\<^sup>*\<^sup>* (Polling, channel_new E h (Static 1) uniq name) (Sleeping i, c) \<and>
       ls (sender_events c) i = Some False \<and> chan_len E c < chan_limit c"
  using chan_env.send_race_room [OF assms] by simp

theorem interrupted_ready_loses_wakeup_witness:
  "\<exists>c i. (send_race ref_env)\<^sup>*\<^sup>* (Polling, channel_new ref_env 0 (Static 1) False ''p'') (Sleeping i, c) \<and>
     ref_listeners (sender_events c) i = Some False \<and> chan_len ref_env c < chan_limit c"
  by (rule interrupted_ready_loses_wakeup [OF ref.chan_env_axioms])

text \<open>
  A receiver that finds the channel empty demands data: the waiting on-demand stream yields once,
  and then waits again for the next demand.
\<close>

theorem empty_recv_demands:
  assumes "chan_env E dset qs ls" and "qs (queue c) = []" and "ls (on_demand_events c) = [i \<mapsto> False]"
    and "receiver_count c \<noteq> 0"
  shows "\<exists>c2 j c3. on_demand_poll_next E (snd (chan_recv E c), Some i) = Some (Ready (Some ()), c2, Some j) \<and>
     on_demand_poll_next E (c2, Some j) = Some (Pending, c3, Some j)"
  by (rule chan_env.on_demand_wakes [OF assms])

theorem empty_recv_demands_witness:
  "let c = (channel_new ref_env 0 (Static 9) False ''p'')\<lparr>on_demand_events := [Some False]\<rparr>
   in \<exists>c2 j c3. on_demand_poll_next ref_env (snd (chan_recv ref_env c), Some 0) = Some (Ready (Some ()), c2, Some j) \<and>
     on_demand_poll_next ref_env (c2, Some j) = Some (Pending, c3, Some j)"
  unfolding Let_def
  by (rule empty_recv_demands [OF ref.chan_env_axioms])
    (auto simp: channel_new_def ref_env_def ref_listeners_def fun_eq_iff nth_Cons split: nat.splits)

text \<open>
  The counts that decide whether a channel is closed are right: after any sequence of clones and
  drops of existing handles, a channel has no receivers exactly when none is live, and no senders exactly
  when none is live.
\<close>

theorem handle_counts:
  assumes "live_run (1, 1) ops = Some (s, r)" and "s < 2 ^ 64" and "r < 2 ^ 64"
  shows "let c = fold (\<lambda>x c. handle_step E c x) ops (channel_new E h limit uniq name)
    in (sender_count c = 0 \<longleftrightarrow> s = 0) \<and> (no_receivers c \<longleftrightarrow> r = 0)"
proof -
  let ?c = "channel_new E h limit uniq name"
  have "sender_count (fold (\<lambda>x c. handle_step E c x) ops ?c) = of_nat s \<and>
      receiver_count (fold (\<lambda>x c. handle_step E c x) ops ?c) = of_nat r"
    by (rule handle_run_counts [OF assms(1)]) (simp_all add: channel_new_def)
  then show ?thesis
    using assms(2,3) by (simp add: Let_def no_receivers_def word64_zero_iff)
qed

theorem handle_counts_witness:
  "let c = fold (\<lambda>x c. handle_step ref_env c x) [Clone_receiver, Drop_sender None, Drop_receiver None]
      (channel_new ref_env 0 (Static 9) False ''p'')
   in (sender_count c = 0 \<longleftrightarrow> (0::nat) = 0) \<and> (no_receivers c \<longleftrightarrow> (1::nat) = 0)"
  by (rule handle_counts) simp_all

text \<open>
  The on-demand count does not count on-demand receivers: it starts at one before there is any, and
  \<open>OnDemandReceiver::new\<close> leaves it alone, so it is one plus the clones minus the drops. With two
  receivers made by \<open>new\<close> and then dropped it has wrapped around to the largest value.
\<close>

theorem on_demand_count_drifts:
  "on_demand_count (fold (\<lambda>x c. demand_step E c x) ops (channel_new E h limit uniq name))
     = 1 + of_nat (length (filter (\<lambda>x. x = Demand_clone) ops))
         - of_nat (length (filter (\<lambda>x. x \<noteq> Demand_clone \<and> x \<noteq> Demand_new) ops)) \<and>
   on_demand_count (fold (\<lambda>x c. demand_step E c x)
     [Demand_new, Demand_new, Demand_drop None, Demand_drop None] (channel_new E h limit uniq name)) = usize_max"
  unfolding demand_step_count by (simp add: channel_new_def usize_max_def)

end
