(* ===== verification/Streams.thy ===== *)
theory Streams
  imports Prelude
begin

text \<open>
  The stream combinators (\<open>lib/zip_all\<close>, \<open>lib/select_any\<close>, \<open>lib/for_each_parallel\<close>) and the
  \<open>Either\<close> type (\<open>lib/either\<close>). A stream is a state with a poll function; the combinators take the poll
  function of their elements as an argument.
\<close>

subsection \<open>The contract of a stream\<close>

text \<open>
  \<open>view s n\<close> is the item a stream in state \<open>s\<close> will give as its \<open>n\<close>-th from now, \<open>None\<close> if it ends
  before. Polling a stream does not change what it has to give except by giving it.
\<close>

locale polled_stream =
  fixes poll :: "'s \<Rightarrow> 'i option poll \<times> 's"
    and view :: "'s \<Rightarrow> nat \<Rightarrow> 'i option"
    and ok :: "'s \<Rightarrow> bool"
  assumes poll_item: "ok s \<Longrightarrow> poll s = (Ready (Some i), s') \<Longrightarrow> view s = case_nat (Some i) (view s')"
    and poll_pending: "ok s \<Longrightarrow> poll s = (Pending, s') \<Longrightarrow> view s' = view s"
    and poll_end: "ok s \<Longrightarrow> poll s = (Ready None, s') \<Longrightarrow> view s = (\<lambda>_. None)"
    and poll_ok: "ok s \<Longrightarrow> ok (snd (poll s))"

text \<open>A stream given by the list of its polls, ended when the list is.\<close>

fun script_poll :: "'i option poll list \<Rightarrow> 'i option poll \<times> 'i option poll list" where
  "script_poll [] = (Ready None, [])"
| "script_poll (Ready None # ps) = (Ready None, Ready None # ps)"
| "script_poll (p # ps) = (p, ps)"

fun script_view :: "'i option poll list \<Rightarrow> nat \<Rightarrow> 'i option" where
  "script_view [] n = None"
| "script_view (Ready None # ps) n = None"
| "script_view (Pending # ps) n = script_view ps n"
| "script_view (Ready (Some i) # ps) n = (case n of 0 \<Rightarrow> Some i | Suc m \<Rightarrow> script_view ps m)"

interpretation script: polled_stream script_poll script_view "\<lambda>_. True"
proof
  show "script_view s = case_nat (Some i) (script_view s')" if "script_poll s = (Ready (Some i), s')"
    for s :: "'i option poll list" and i s'
    using that by (cases s rule: script_poll.cases) (auto simp: fun_eq_iff split: nat.splits)
  show "script_view s' = script_view s" if "script_poll s = (Pending, s')" for s s' :: "'i option poll list"
    using that by (cases s rule: script_poll.cases) (auto simp: fun_eq_iff)
  show "script_view s = (\<lambda>_. None)" if "script_poll s = (Ready None, s')" for s s' :: "'i option poll list"
    using that by (cases s rule: script_poll.cases) (auto simp: fun_eq_iff)
qed simp

subsection \<open>\<open>Either\<close>\<close>

datatype ('a, 'b) either = A 'a | B 'b

fun map_a :: "('a \<Rightarrow> 'r) \<Rightarrow> ('a, 'b) either \<Rightarrow> ('r, 'b) either" where
  "map_a t_fn (A a) = A (t_fn a)"
| "map_a t_fn (B b) = B b"

fun map_b :: "('b \<Rightarrow> 'r) \<Rightarrow> ('a, 'b) either \<Rightarrow> ('a, 'r) either" where
  "map_b t_fn (A a) = A a"
| "map_b t_fn (B b) = B (t_fn b)"

fun either_unwrap :: "('a, 'a) either \<Rightarrow> 'a" where
  "either_unwrap (A a) = a"
| "either_unwrap (B b) = b"

definition either_poll_next ::
    "('s \<Rightarrow> 'i option poll \<times> 's) \<Rightarrow> ('t \<Rightarrow> 'i option poll \<times> 't) \<Rightarrow> ('s, 't) either \<Rightarrow>
     'i option poll \<times> ('s, 't) either" where
  "either_poll_next pa pb e =
     (case e of A x \<Rightarrow> (let (r, x') = pa x in (r, A x')) | B x \<Rightarrow> (let (r, x') = pb x in (r, B x')))"

definition either_next ::
    "('s \<Rightarrow> 'i option \<times> 's) \<Rightarrow> ('t \<Rightarrow> 'i option \<times> 't) \<Rightarrow> ('s, 't) either \<Rightarrow> 'i option \<times> ('s, 't) either" where
  "either_next na nb e =
     (case e of A a \<Rightarrow> (let (r, a') = na a in (r, A a')) | B b \<Rightarrow> (let (r, b') = nb b in (r, B b')))"

definition either_poll ::
    "('s \<Rightarrow> 'o poll \<times> 's) \<Rightarrow> ('t \<Rightarrow> 'o poll \<times> 't) \<Rightarrow> ('s, 't) either \<Rightarrow> 'o poll \<times> ('s, 't) either" where
  "either_poll pa pb e =
     (case e of A x \<Rightarrow> (let (r, x') = pa x in (r, A x')) | B x \<Rightarrow> (let (r, x') = pb x in (r, B x')))"

fun either_eq :: "('a \<Rightarrow> 'a \<Rightarrow> bool) \<Rightarrow> ('b \<Rightarrow> 'b \<Rightarrow> bool) \<Rightarrow> ('a, 'b) either \<Rightarrow> ('a, 'b) either \<Rightarrow> bool" where
  "either_eq eqa eqb (A l) (A r) = eqa l r"
| "either_eq eqa eqb (B l) (B r) = eqb l r"
| "either_eq eqa eqb _ _ = False"

datatype ('a, 'b, 'c) either3 = A3 'a | B3 'b | C3 'c

definition either3_poll_next ::
    "('s \<Rightarrow> 'i option poll \<times> 's) \<Rightarrow> ('t \<Rightarrow> 'i option poll \<times> 't) \<Rightarrow> ('u \<Rightarrow> 'i option poll \<times> 'u) \<Rightarrow>
     ('s, 't, 'u) either3 \<Rightarrow> 'i option poll \<times> ('s, 't, 'u) either3" where
  "either3_poll_next pa pb pc e =
     (case e of
        A3 x \<Rightarrow> (let (r, x') = pa x in (r, A3 x'))
      | B3 x \<Rightarrow> (let (r, x') = pb x in (r, B3 x'))
      | C3 x \<Rightarrow> (let (r, x') = pc x in (r, C3 x')))"

text \<open>A choice between two streams that keep the contract keeps it.\<close>

definition either_view :: "('s \<Rightarrow> nat \<Rightarrow> 'i option) \<Rightarrow> ('t \<Rightarrow> nat \<Rightarrow> 'i option) \<Rightarrow> ('s, 't) either \<Rightarrow> nat \<Rightarrow> 'i option" where
  "either_view va vb e = (case e of A x \<Rightarrow> va x | B x \<Rightarrow> vb x)"

definition either_ok :: "('s \<Rightarrow> bool) \<Rightarrow> ('t \<Rightarrow> bool) \<Rightarrow> ('s, 't) either \<Rightarrow> bool" where
  "either_ok oka okb e = (case e of A x \<Rightarrow> oka x | B x \<Rightarrow> okb x)"

locale two_streams = a: polled_stream pa va oka + b: polled_stream pb vb okb
  for pa :: "'s \<Rightarrow> 'i option poll \<times> 's" and va oka and pb :: "'t \<Rightarrow> 'i option poll \<times> 't" and vb okb

context two_streams begin

lemma either_item:
  "either_ok oka okb e \<Longrightarrow> either_poll_next pa pb e = (Ready (Some i), e') \<Longrightarrow>
   either_view va vb e = case_nat (Some i) (either_view va vb e')"
  by (cases e) (auto simp: either_poll_next_def either_view_def either_ok_def case_prod_beta Let_def prod_eq_iff
      intro!: a.poll_item b.poll_item)

lemma either_pending:
  "either_ok oka okb e \<Longrightarrow> either_poll_next pa pb e = (Pending, e') \<Longrightarrow> either_view va vb e' = either_view va vb e"
  by (cases e) (auto simp: either_poll_next_def either_view_def either_ok_def case_prod_beta Let_def prod_eq_iff
      intro!: a.poll_pending b.poll_pending)

lemma either_end:
  "either_ok oka okb e \<Longrightarrow> either_poll_next pa pb e = (Ready None, e') \<Longrightarrow> either_view va vb e = (\<lambda>_. None)"
  by (cases e) (auto simp: either_poll_next_def either_view_def either_ok_def case_prod_beta Let_def prod_eq_iff
      intro!: a.poll_end b.poll_end)

lemma either_keeps_ok: "either_ok oka okb e \<Longrightarrow> either_ok oka okb (snd (either_poll_next pa pb e))"
  by (cases e) (auto simp: either_poll_next_def either_ok_def case_prod_beta Let_def a.poll_ok b.poll_ok)

end

sublocale two_streams \<subseteq> either: polled_stream "either_poll_next pa pb" "either_view va vb" "either_ok oka okb"
  by unfold_locales (fact either_item either_pending either_end either_keeps_ok)+

subsection \<open>\<open>ZipAll\<close>\<close>

text \<open>
  An element is an inner stream and the item it has already given for the next tuple. A scan polls the
  inner streams that have given none, in order; it stops at the first error or end. \<open>Inl\<close> is that stop,
  with the error if there is one; \<open>Inr\<close> the elements and whether all of them now have an item.
\<close>

type_synonym ('s, 'v) zip_elem = "'s \<times> 'v option"

fun zip_scan ::
    "('s \<Rightarrow> ('e + 'v) option poll \<times> 's) \<Rightarrow> ('s, 'v) zip_elem list \<Rightarrow> 'e option + ('s, 'v) zip_elem list \<times> bool" where
  "zip_scan poll [] = Inr ([], True)"
| "zip_scan poll ((s, Some v) # es) = res_map (\<lambda>(es', all_done). ((s, Some v) # es', all_done)) (zip_scan poll es)"
| "zip_scan poll ((s, None) # es) =
     (case poll s of
        (Ready (Some (Inr v)), s') \<Rightarrow> res_map (\<lambda>(es', all_done). ((s', Some v) # es', all_done)) (zip_scan poll es)
      | (Ready (Some (Inl e)), s') \<Rightarrow> Inl (Some e)
      | (Ready None, s') \<Rightarrow> Inl None
      | (Pending, s') \<Rightarrow> res_map (\<lambda>(es', all_done). ((s', None) # es', False)) (zip_scan poll es))"

definition zip_poll_next ::
    "('s \<Rightarrow> ('e + 'v) option poll \<times> 's) \<Rightarrow> ('s, 'v) zip_elem list \<Rightarrow>
     ('e + 'v list) option poll \<times> ('s, 'v) zip_elem list" where
  "zip_poll_next poll elems =
     (case zip_scan poll elems of
        Inl (Some e) \<Rightarrow> (Ready (Some (Inl e)), [])
      | Inl None \<Rightarrow> (Ready None, [])
      | Inr (elems', all_done) \<Rightarrow>
          if all_done
          then (let result = map (\<lambda>(s, r). the r) elems'; taken = map (\<lambda>(s, r). (s, None)) elems'
                in if result = [] then (Ready None, taken) else (Ready (Some (Inr result)), taken))
          else (Pending, elems'))"

definition zip_all :: "'s list \<Rightarrow> ('s, 'v) zip_elem list" where
  "zip_all elems = map (\<lambda>s. (s, None)) elems"

definition zip_view :: "('s \<Rightarrow> nat \<Rightarrow> ('e + 'v) option) \<Rightarrow> ('s, 'v) zip_elem \<Rightarrow> nat \<Rightarrow> ('e + 'v) option" where
  "zip_view view = (\<lambda>(s, r). case r of None \<Rightarrow> view s | Some v \<Rightarrow> case_nat (Some (Inr v)) (view s))"

locale polled_try_stream = polled_stream poll view ok
  for poll :: "'s \<Rightarrow> ('e + 'v) option poll \<times> 's" and view ok
begin

lemma poll_cases:
  obtains (item) v s' where "poll s = (Ready (Some (Inr v)), s')"
  | (error) e s' where "poll s = (Ready (Some (Inl e)), s')"
  | (stop) s' where "poll s = (Ready None, s')"
  | (pending) s' where "poll s = (Pending, s')"
  by (metis option.exhaust poll.exhaust sum.exhaust prod.exhaust)

lemma zip_scan_Inr:
  "zip_scan poll es = Inr (es', d) \<Longrightarrow> list_all (\<lambda>(s, r). ok s) es \<Longrightarrow>
   map (zip_view view) es' = map (zip_view view) es \<and> list_all (\<lambda>(s, r). ok s) es' \<and>
   (d \<longleftrightarrow> list_all (\<lambda>(s, r). r \<noteq> None) es')"
proof (induction es arbitrary: es' d)
  case (Cons x es)
  obtain s r where x: "x = (s, r)" by fastforce
  show ?case
  proof (cases r)
    case (Some v)
    with Cons x show ?thesis by (fastforce simp: res_map_eq_Inr)
  next
    case None
    show ?thesis
    proof (cases s rule: poll_cases)
      case (item v s')
      with Cons.prems x None have "ok s'" using poll_ok [of s] by simp
      with Cons x None item show ?thesis
        using poll_item [of s "Inr v" s'] by (fastforce simp: res_map_eq_Inr zip_view_def)
    next
      case (pending s')
      with Cons.prems x None have "ok s'" using poll_ok [of s] by simp
      with Cons x None pending show ?thesis
        using poll_pending [of s s'] by (fastforce simp: res_map_eq_Inr zip_view_def)
    qed (use Cons.prems x None in auto)
  qed
qed auto

lemma zip_scan_Inl:
  "zip_scan poll es = Inl q \<Longrightarrow> list_all (\<lambda>(s, r). ok s) es \<Longrightarrow>
   \<exists>el \<in> set es. zip_view view el 0 = map_option Inl q"
proof (induction es)
  case (Cons x es)
  obtain s r where x: "x = (s, r)" by fastforce
  show ?case
  proof (cases r)
    case (Some v)
    with Cons x show ?thesis by auto
  next
    case None
    show ?thesis
    proof (cases s rule: poll_cases)
      case (error e s')
      with Cons.prems x None show ?thesis
        using poll_item [of s "Inl e" s'] by (auto simp: zip_view_def)
    next
      case (stop s')
      with Cons.prems x None show ?thesis
        using poll_end [of s s'] by (auto simp: zip_view_def)
    qed (use Cons x None in auto)
  qed
qed auto

lemma zip_poll_spec:
  assumes "list_all (\<lambda>(s, r). ok s) elems" and "zip_poll_next poll elems = (r, elems')"
  shows "case r of
      Pending \<Rightarrow> map (zip_view view) elems' = map (zip_view view) elems
    | Ready (Some (Inr vs)) \<Rightarrow> elems \<noteq> [] \<and> length vs = length elems \<and> length elems' = length elems \<and>
        map (zip_view view) elems = map2 (\<lambda>v w. case_nat (Some (Inr v)) w) vs (map (zip_view view) elems')
    | Ready (Some (Inl e)) \<Rightarrow> elems' = [] \<and> (\<exists>el \<in> set elems. zip_view view el 0 = Some (Inl e))
    | Ready None \<Rightarrow> elems' = [] \<and> (elems = [] \<or> (\<exists>el \<in> set elems. zip_view view el 0 = None))"
proof (cases "zip_scan poll elems")
  case (Inl q)
  with assms zip_scan_Inl [OF Inl] show ?thesis
    by (cases q) (auto simp: zip_poll_next_def)
next
  case (Inr p)
  then obtain es d where es: "zip_scan poll elems = Inr (es, d)" by (cases p) auto
  note sc = zip_scan_Inr [OF es assms(1)]
  have len: "length es = length elems" using sc by (metis length_map)
  show ?thesis
  proof (cases d)
    case False
    with assms(2) es sc show ?thesis by (auto simp: zip_poll_next_def)
  next
    case True
    let ?vs = "map (\<lambda>(s, r). the r) es"
    let ?tk = "map (\<lambda>(s, r). (s, None)) es :: ('s, 'v) zip_elem list"
    have all: "list_all (\<lambda>(s, r). r \<noteq> None) es" using sc True by simp
    then have "map (zip_view view) es = map2 (\<lambda>v w. case_nat (Some (Inr v)) w) ?vs (map (zip_view view) ?tk)"
      by (induction es) (auto simp: zip_view_def)
    with assms(2) es sc len True show ?thesis
      by (auto simp: zip_poll_next_def Let_def split: if_splits)
  qed
qed

end

interpretation script_try: polled_try_stream script_poll script_view "\<lambda>_. True"
  by unfold_locales

subsection \<open>\<open>SelectAny\<close>\<close>

text \<open>
  The scan starts after the stream that yielded last. \<open>len - 1\<close> on \<open>usize\<close> wraps for an empty list, which
  has nothing to scan.
\<close>

record 's select_any =
  sel_elems :: "'s list"
  last_yield_index :: nat

definition select_any_new :: "'s list \<Rightarrow> 's select_any" where
  "select_any_new elems = \<lparr>sel_elems = elems, last_yield_index = (length elems + (2 ^ 64 - 1)) mod 2 ^ 64\<rparr>"

fun select_scan ::
    "('s \<Rightarrow> 'i option poll \<times> 's) \<Rightarrow> nat \<Rightarrow> nat list \<Rightarrow> nat \<Rightarrow> 's select_any \<Rightarrow> 'i option poll \<times> 's select_any" where
  "select_scan poll start [] done_count st =
     (if done_count = length (sel_elems st) then (Ready None, st) else (Pending, st))"
| "select_scan poll start (k # ks) done_count st =
     (let i = (k + start) mod length (sel_elems st);
          (r, s') = poll (sel_elems st ! i);
          st' = st\<lparr>sel_elems := (sel_elems st)[i := s']\<rparr>
      in case r of
           Ready (Some v) \<Rightarrow> (Ready (Some v), st'\<lparr>last_yield_index := i\<rparr>)
         | Ready None \<Rightarrow> select_scan poll start ks (done_count + 1) st'
         | Pending \<Rightarrow> select_scan poll start ks done_count st')"

definition select_poll_next ::
    "('s \<Rightarrow> 'i option poll \<times> 's) \<Rightarrow> 's select_any \<Rightarrow> 'i option poll \<times> 's select_any" where
  "select_poll_next poll st =
     select_scan poll (last_yield_index st + 1) [0..<length (sel_elems st)] 0 st"

lemma select_scan_length: "length (sel_elems (snd (select_scan poll start ks d st))) = length (sel_elems st)"
  by (induction ks arbitrary: d st) (auto simp: Let_def case_prod_beta split: poll.splits option.splits)

text \<open>
  A scan that yields does so from some position of the order, and no stream before it in the order
  had an item.
\<close>

lemma select_scan_yield:
  "select_scan poll start ks d st = (Ready (Some v), st') \<Longrightarrow>
   distinct (map (\<lambda>k. (k + start) mod length (sel_elems st)) ks) \<Longrightarrow>
   \<exists>ks1 k ks2. ks = ks1 @ k # ks2 \<and> last_yield_index st' = (k + start) mod length (sel_elems st) \<and>
     fst (poll (sel_elems st ! last_yield_index st')) = Ready (Some v) \<and>
     (\<forall>k' \<in> set ks1. \<forall>w. fst (poll (sel_elems st ! ((k' + start) mod length (sel_elems st)))) \<noteq> Ready (Some w))"
proof (induction ks arbitrary: d st)
  case Nil
  then show ?case by (simp split: if_splits)
next
  case (Cons k ks)
  let ?n = "length (sel_elems st)"
  let ?i = "(k + start) mod ?n"
  obtain r s' where p: "poll (sel_elems st ! ?i) = (r, s')" by fastforce
  show ?case
  proof (cases "\<exists>w. r = Ready (Some w)")
    case True
    with Cons.prems(1) p show ?thesis by (intro exI [of _ "[]"]) (auto simp: Let_def)
  next
    case False
    let ?st = "st\<lparr>sel_elems := (sel_elems st)[?i := s']\<rparr>"
    obtain d' where "select_scan poll start ks d' ?st = (Ready (Some v), st')"
      using Cons.prems(1) p False by (auto simp: Let_def split: poll.splits option.splits)
    from Cons.IH [OF this] Cons.prems(2) obtain ks1 k' ks2 where
      *: "ks = ks1 @ k' # ks2" "last_yield_index st' = (k' + start) mod ?n"
        "fst (poll ((sel_elems st)[?i := s'] ! last_yield_index st')) = Ready (Some v)"
        "\<forall>k'' \<in> set ks1. \<forall>w. fst (poll ((sel_elems st)[?i := s'] ! ((k'' + start) mod ?n))) \<noteq> Ready (Some w)"
      by auto
    have "?i \<noteq> (k'' + start) mod ?n" if "k'' \<in> set ks" for k'' using Cons.prems(2) that by auto
    then have "fst (poll (sel_elems st ! last_yield_index st')) = Ready (Some v)"
      "\<forall>k'' \<in> set (k # ks1). \<forall>w. fst (poll (sel_elems st ! ((k'' + start) mod ?n))) \<noteq> Ready (Some w)"
      using * p False by auto
    with * show ?thesis by (intro exI [of _ "k # ks1"]) auto
  qed
qed

lemma select_scan_stop:
  "select_scan poll start ks d st = (Ready None, st') \<Longrightarrow> d + length ks \<le> length (sel_elems st) \<Longrightarrow>
   distinct (map (\<lambda>k. (k + start) mod length (sel_elems st)) ks) \<Longrightarrow>
   d + length ks = length (sel_elems st) \<and>
   (\<forall>k \<in> set ks. fst (poll (sel_elems st ! ((k + start) mod length (sel_elems st)))) = Ready None)"
proof (induction ks arbitrary: d st)
  case (Cons k ks)
  let ?n = "length (sel_elems st)"
  let ?i = "(k + start) mod ?n"
  obtain r s' where p: "poll (sel_elems st ! ?i) = (r, s')" by fastforce
  let ?st = "st\<lparr>sel_elems := (sel_elems st)[?i := s']\<rparr>"
  have neq: "?i \<noteq> (k'' + start) mod ?n" if "k'' \<in> set ks" for k'' using Cons.prems(3) that by auto
  have "r = Ready None"
  proof (rule ccontr)
    assume "r \<noteq> Ready None"
    then have "select_scan poll start ks d ?st = (Ready None, st')"
      using Cons.prems(1) p by (auto simp: Let_def split: poll.splits option.splits)
    from Cons.IH [OF this] Cons.prems(2,3) show False by simp
  qed
  then have "select_scan poll start ks (d + 1) ?st = (Ready None, st')"
    using Cons.prems(1) p by (auto simp: Let_def)
  from Cons.IH [OF this] Cons.prems(2,3) have
    "d + 1 + length ks = ?n"
    "\<forall>k'' \<in> set ks. fst (poll ((sel_elems st)[?i := s'] ! ((k'' + start) mod ?n))) = Ready None" by auto
  with p \<open>r = Ready None\<close> neq show ?case by auto
qed (auto split: if_splits)

lemma select_order:
  assumes "0 < n"
  shows "distinct (map (\<lambda>k. (k + start) mod n) [0..<n])"
    and "j < n \<Longrightarrow> \<exists>k < n. (k + start) mod n = j"
proof -
  have le: "x = y" if "x \<le> y" "y < n" "(y + start) mod n = (x + start) mod n" for x y
  proof -
    have "n dvd (y + start) - (x + start)" using that by (intro mod_eq_dvd_iff_nat [THEN iffD1]) auto
    then have "n dvd y - x" by simp
    then have "y - x = 0" using that nat_dvd_not_less [of "y - x" n] by (cases "y - x = 0") auto
    then show ?thesis using that by simp
  qed
  have inj: "inj_on (\<lambda>k. (k + start) mod n) {0..<n}"
  proof (rule inj_onI)
    fix x y assume "x \<in> {0..<n}" "y \<in> {0..<n}" "(x + start) mod n = (y + start) mod n"
    then show "x = y" using le [of x y] le [of y x] by (cases "x \<le> y") auto
  qed
  then show "distinct (map (\<lambda>k. (k + start) mod n) [0..<n])" by (simp add: distinct_map)
  have "(\<lambda>k. (k + start) mod n) ` {0..<n} = {0..<n}"
    using inj assms by (intro endo_inj_surj) auto
  then have "j \<in> (\<lambda>k. (k + start) mod n) ` {0..<n}" if "j < n" using that by simp
  then show "j < n \<Longrightarrow> \<exists>k < n. (k + start) mod n = j" by auto
qed

text \<open>A scan that comes past a stream with an item yields; the stream is touched only if it is the one.\<close>

lemma select_scan_ready:
  assumes ready: "\<And>s. R s \<Longrightarrow> \<exists>v s'. poll s = (Ready (Some v), s') \<and> R s'"
  shows "distinct (map (\<lambda>k. (k + start) mod length (sel_elems st)) ks) \<Longrightarrow> j < length (sel_elems st) \<Longrightarrow>
   j \<in> (\<lambda>k. (k + start) mod length (sel_elems st)) ` set ks \<Longrightarrow> R (sel_elems st ! j) \<Longrightarrow>
   \<exists>v st'. select_scan poll start ks d st = (Ready (Some v), st') \<and> R (sel_elems st' ! j)"
proof (induction ks arbitrary: d st)
  case (Cons k ks)
  let ?n = "length (sel_elems st)"
  let ?i = "(k + start) mod ?n"
  obtain r s' where p: "poll (sel_elems st ! ?i) = (r, s')" by fastforce
  let ?st = "st\<lparr>sel_elems := (sel_elems st)[?i := s']\<rparr>"
  show ?case
  proof (cases "\<exists>w. r = Ready (Some w)")
    case True
    then have "R (sel_elems ?st ! j)"
      using ready [OF Cons.prems(4)] p Cons.prems(2,4) by (cases "?i = j") (auto simp: nth_list_update)
    with True p show ?thesis by (auto simp: Let_def)
  next
    case False
    have "?i \<noteq> j" using ready [OF Cons.prems(4)] p False by auto
    then have "\<exists>v st'. select_scan poll start ks d' ?st = (Ready (Some v), st') \<and> R (sel_elems st' ! j)" for d'
      using Cons.prems by (intro Cons.IH) auto
    then show ?thesis
      using p False by (cases r) (auto simp: Let_def split: option.splits)
  qed
qed simp

lemma select_poll_turn:
  assumes ready: "\<And>s. R s \<Longrightarrow> \<exists>v s'. poll s = (Ready (Some v), s') \<and> R s'"
    and j: "R (sel_elems st ! j)" "j < length (sel_elems st)"
    and turn: "d < length (sel_elems st)" "(d + (last_yield_index st + 1)) mod length (sel_elems st) = j"
  shows "\<exists>v st'. select_poll_next poll st = (Ready (Some v), st') \<and> R (sel_elems st' ! j) \<and>
    length (sel_elems st') = length (sel_elems st) \<and>
    (last_yield_index st' = j \<or> (\<exists>d' < d. (d' + (last_yield_index st' + 1)) mod length (sel_elems st) = j))"
proof -
  let ?n = "length (sel_elems st)"
  let ?start = "last_yield_index st + 1"
  have n: "0 < ?n" using j(2) by linarith
  note order = select_order [OF n, where start = ?start]
  have "j \<in> (\<lambda>k. (k + ?start) mod ?n) ` set [0..<?n]" using order(2) [OF j(2)] by force
  then obtain v st' where st': "select_scan poll ?start [0..<?n] 0 st = (Ready (Some v), st')" "R (sel_elems st' ! j)"
    using select_scan_ready [of R poll, OF ready order(1) j(2) _ j(1)] by blast
  obtain ks1 k ks2 where k: "[0..<?n] = ks1 @ k # ks2" "last_yield_index st' = (k + ?start) mod ?n"
    "\<forall>k' \<in> set ks1. \<forall>w. fst (poll (sel_elems st ! ((k' + ?start) mod ?n))) \<noteq> Ready (Some w)"
    using select_scan_yield [OF st'(1) order(1)] by blast
  have kn: "k < ?n" and ks1: "set ks1 = {..<k}"
    using upt_split [OF k(1)] by (auto simp: atLeast0LessThan)
  have "\<not> d < k"
  proof
    assume "d < k"
    then have "d \<in> set ks1" by (simp add: ks1)
    then have "\<forall>w. fst (poll (sel_elems st ! j)) \<noteq> Ready (Some w)" using k(3) turn(2) by auto
    then show False using ready [OF j(1)] by auto
  qed
  then consider "d = k" | "k < d" by linarith
  then have "last_yield_index st' = j \<or> (\<exists>d' < d. (d' + (last_yield_index st' + 1)) mod ?n = j)"
  proof cases
    case 1
    then show ?thesis using k(2) turn(2) by simp
  next
    case 2
    then have "d - k - 1 + (last_yield_index st' + 1) = d - k + (k + ?start) mod ?n"
      by (simp add: k(2))
    then have "(d - k - 1 + (last_yield_index st' + 1)) mod ?n = (d - k + (k + ?start)) mod ?n"
      by (simp only: mod_add_right_eq)
    also have "d - k + (k + ?start) = d + ?start" using 2 by simp
    also note turn(2)
    finally show ?thesis using 2 by (intro disjI2 exI [of _ "d - k - 1"]) simp
  qed
  moreover have "length (sel_elems st') = ?n"
    using select_scan_length [of poll ?start "[0..<?n]" 0 st] st'(1) by simp
  ultimately show ?thesis using st' by (auto simp: select_poll_next_def)
qed

lemma select_fair:
  assumes ready: "\<And>s. R s \<Longrightarrow> \<exists>v s'. poll s = (Ready (Some v), s') \<and> R s'"
  shows "R (sel_elems st ! j) \<Longrightarrow> j < length (sel_elems st) \<Longrightarrow> d < length (sel_elems st) \<Longrightarrow>
    (d + (last_yield_index st + 1)) mod length (sel_elems st) = j \<Longrightarrow>
    \<exists>m \<le> d. last_yield_index (((\<lambda>st. snd (select_poll_next poll st)) ^^ Suc m) st) = j"
proof (induction d arbitrary: st rule: less_induct)
  case (less d)
  obtain v st' where st': "select_poll_next poll st = (Ready (Some v), st')" "R (sel_elems st' ! j)"
    "length (sel_elems st') = length (sel_elems st)"
    "last_yield_index st' = j \<or> (\<exists>d' < d. (d' + (last_yield_index st' + 1)) mod length (sel_elems st) = j)"
    using select_poll_turn [of R poll, OF ready less.prems] by blast
  from st'(4) show ?case
  proof
    assume "last_yield_index st' = j"
    then show ?thesis using st'(1) by (intro exI [of _ 0]) simp
  next
    assume "\<exists>d' < d. (d' + (last_yield_index st' + 1)) mod length (sel_elems st) = j"
    then obtain d' where d': "d' < d" "(d' + (last_yield_index st' + 1)) mod length (sel_elems st') = j"
      by (auto simp: st'(3))
    obtain m where "m \<le> d'" "last_yield_index (((\<lambda>st. snd (select_poll_next poll st)) ^^ Suc m) st') = j"
      using less.IH [OF d'(1) st'(2) _ _ d'(2)] less.prems(2,3) d'(1) st'(3) by auto
    then show ?thesis
      using st'(1) d'(1) by (intro exI [of _ "Suc m"]) (simp add: funpow_Suc_right del: funpow.simps)
  qed
qed

subsection \<open>\<open>ForEachParallel\<close>\<close>

text \<open>
  Each item becomes a spawned future, of which the combinator keeps the receiving end of a oneshot
  channel: polling it gives \<open>Ready (Some e)\<close> when the future failed with \<open>e\<close> and \<open>Ready None\<close> when it
  finished and dropped the sender. \<open>spawn\<close> is \<open>tokio::spawn\<close> of the closure's future; it and the poll
  functions are arguments.
\<close>

record ('f, 's, 'e) for_each_parallel =
  fep_futures :: "'f list"
  fep_stream :: "'s option"
  fep_error :: "'e option"

definition fep_new :: "'s \<Rightarrow> ('f, 's, 'e) for_each_parallel" where
  "fep_new stream = \<lparr>fep_futures = [], fep_stream = Some stream, fep_error = None\<rparr>"

definition fep_pull ::
    "('s \<Rightarrow> ('e + 'i) option poll \<times> 's) \<Rightarrow> ('i \<Rightarrow> 'f) \<Rightarrow> nat \<Rightarrow> ('f, 's, 'e) for_each_parallel \<Rightarrow>
     bool \<times> ('f, 's, 'e) for_each_parallel" where
  "fep_pull poll spawn limit st =
     (case fep_stream st of
        None \<Rightarrow> (False, st)
      | Some s \<Rightarrow>
          if limit = 0 \<or> length (fep_futures st) < limit
          then (case poll s of
                  (Ready (Some (Inr elem)), s') \<Rightarrow>
                    (True, st\<lparr>fep_stream := Some s', fep_futures := fep_futures st @ [spawn elem]\<rparr>)
                | (Ready None, s') \<Rightarrow> (False, st\<lparr>fep_stream := None\<rparr>)
                | (Pending, s') \<Rightarrow> (False, st\<lparr>fep_stream := Some s'\<rparr>)
                | (Ready (Some (Inl e)), s') \<Rightarrow>
                    (False, st\<lparr>fep_error := Some e, fep_futures := [], fep_stream := None\<rparr>))
          else (False, st))"

fun poll_futures ::
    "('f \<Rightarrow> 'e option poll \<times> 'f) \<Rightarrow> 'f list \<Rightarrow> 'e option \<Rightarrow> bool \<Rightarrow> 'f list \<times> 'e option \<times> bool" where
  "poll_futures poll_fut [] err progress = ([], err, progress)"
| "poll_futures poll_fut (f # fs) err progress =
     (case poll_fut f of
        (Pending, f') \<Rightarrow> (let (kept, err', p) = poll_futures poll_fut fs err progress in (f' # kept, err', p))
      | (Ready (Some e), f') \<Rightarrow> poll_futures poll_fut fs (Some e) True
      | (Ready None, f') \<Rightarrow> poll_futures poll_fut fs err True)"

definition fep_iter ::
    "('s \<Rightarrow> ('e + 'i) option poll \<times> 's) \<Rightarrow> ('i \<Rightarrow> 'f) \<Rightarrow> ('f \<Rightarrow> 'e option poll \<times> 'f) \<Rightarrow> nat \<Rightarrow>
     ('f, 's, 'e) for_each_parallel \<Rightarrow>
     (('e + unit) poll \<times> ('f, 's, 'e) for_each_parallel) + ('f, 's, 'e) for_each_parallel" where
  "fep_iter poll spawn poll_fut limit st =
     (let (progress1, st1) = fep_pull poll spawn limit st;
          (kept, err, progress) = poll_futures poll_fut (fep_futures st1) (fep_error st1) progress1;
          st2 = st1\<lparr>fep_futures := kept, fep_error := err\<rparr>;
          st3 = (if fep_error st2 \<noteq> None then st2\<lparr>fep_futures := [], fep_stream := None\<rparr> else st2)
      in if fep_futures st3 = [] \<and> fep_stream st3 = None \<or> fep_error st3 \<noteq> None
         then (case fep_error st3 of
                 Some e \<Rightarrow> Inl (Ready (Inl e), st3\<lparr>fep_error := None, fep_futures := [], fep_stream := None\<rparr>)
               | None \<Rightarrow> Inl (Ready (Inr ()), st3))
         else if \<not> progress then Inl (Pending, st3)
         else Inr st3)"

definition fep_limit :: "(nat \<Rightarrow> nat) option \<Rightarrow> ('f, 's, 'e) for_each_parallel \<Rightarrow> nat" where
  "fep_limit limit_fn st = (case limit_fn of Some lf \<Rightarrow> lf (length (fep_futures st)) | None \<Rightarrow> 0)"

definition fep_poll ::
    "('s \<Rightarrow> ('e + 'i) option poll \<times> 's) \<Rightarrow> ('i \<Rightarrow> 'f) \<Rightarrow> ('f \<Rightarrow> 'e option poll \<times> 'f) \<Rightarrow> (nat \<Rightarrow> nat) option \<Rightarrow>
     ('f, 's, 'e) for_each_parallel \<Rightarrow> (('e + unit) poll \<times> ('f, 's, 'e) for_each_parallel) option" where
  "fep_poll poll spawn poll_fut limit_fn st =
     loop_run (fep_iter poll spawn poll_fut (fep_limit limit_fn st)) st"

text \<open>The errors a round of polls of the futures meets, in order; the last one is kept.\<close>

definition future_errors :: "('f \<Rightarrow> 'e option poll \<times> 'f) \<Rightarrow> 'f list \<Rightarrow> 'e list" where
  "future_errors poll_fut fs = List.map_filter (\<lambda>f. case fst (poll_fut f) of Ready r \<Rightarrow> r | Pending \<Rightarrow> None) fs"

lemma poll_futures_error:
  "poll_futures poll_fut fs err p = (kept, err', p') \<Longrightarrow>
   err' = (if future_errors poll_fut fs = [] then err else Some (last (future_errors poll_fut fs)))"
proof (induction fs arbitrary: err p kept)
  case (Cons f fs)
  obtain r f' where "poll_fut f = (r, f')" by fastforce
  with Cons show ?case
    by (cases r) (auto simp: future_errors_def map_filter_simps Let_def split: option.splits prod.splits)
qed (simp add: future_errors_def map_filter_simps)

lemma poll_futures_length:
  "poll_futures poll_fut fs err p = (kept, err', p') \<Longrightarrow>
   length kept \<le> length fs \<and> (p' \<longrightarrow> p \<or> length kept < length fs)"
proof (induction fs arbitrary: err p kept)
  case (Cons f fs)
  obtain r f' where "poll_fut f = (r, f')" by fastforce
  with Cons show ?case
    by (cases r) (fastforce simp: Let_def split: option.splits prod.splits)+
qed simp

lemma fep_pull_length:
  "fep_pull poll spawn limit st = (p, st') \<Longrightarrow> limit \<noteq> 0 \<Longrightarrow>
   length (fep_futures st') \<le> max limit (length (fep_futures st))"
  by (auto simp: fep_pull_def split: option.splits prod.splits poll.splits sum.splits if_splits)

lemma fep_iter_length:
  assumes "limit \<noteq> 0"
  shows "case fep_iter poll spawn poll_fut limit st of
      Inl (r, st') \<Rightarrow> length (fep_futures st') \<le> max limit (length (fep_futures st))
    | Inr st' \<Rightarrow> length (fep_futures st') \<le> max limit (length (fep_futures st))"
proof -
  obtain p1 st1 where st1: "fep_pull poll spawn limit st = (p1, st1)" by fastforce
  obtain kept err p where k: "poll_futures poll_fut (fep_futures st1) (fep_error st1) p1 = (kept, err, p)"
    by (metis prod_cases3)
  show ?thesis
    using fep_pull_length [OF st1 assms] poll_futures_length [OF k]
    by (auto simp: fep_iter_def st1 k Let_def split: option.splits)
qed

lemma fep_iter_result:
  "fep_iter poll spawn poll_fut limit st = Inl (r, st') \<Longrightarrow>
   (case r of
      Ready (Inr _) \<Rightarrow> fep_futures st' = [] \<and> fep_stream st' = None \<and> fep_error st' = None
    | Ready (Inl _) \<Rightarrow> fep_futures st' = [] \<and> fep_stream st' = None \<and> fep_error st' = None
    | Pending \<Rightarrow> fep_error st' = None \<and> (fep_futures st' \<noteq> [] \<or> fep_stream st' \<noteq> None))"
  by (auto simp: fep_iter_def Let_def case_prod_beta split: option.splits if_splits)

text \<open>The work left: items the stream still has, counted twice, and futures.\<close>

context polled_try_stream begin

definition items_left :: "'s \<Rightarrow> nat" where
  "items_left s = (LEAST n. view s n = None)"

definition fep_work :: "('f, 's, 'e) for_each_parallel \<Rightarrow> nat" where
  "fep_work st = (case fep_stream st of None \<Rightarrow> 0 | Some s \<Rightarrow> 2 * items_left s + 1) + length (fep_futures st)"

definition fep_finite :: "('f, 's, 'e) for_each_parallel \<Rightarrow> bool" where
  "fep_finite st = (case fep_stream st of None \<Rightarrow> True | Some s \<Rightarrow> ok s \<and> (\<exists>n. view s n = None))"

lemma items_left_item:
  assumes "view s = case_nat (Some i) (view s')" "view s n = None"
  shows "items_left s = Suc (items_left s')" "\<exists>n. view s' n = None"
proof -
  obtain m where n: "n = Suc m" "view s' m = None" using assms by (cases n) auto
  then show "\<exists>n. view s' n = None" by blast
  show "items_left s = Suc (items_left s')"
    unfolding items_left_def using Least_Suc [of "\<lambda>n. view s n = None" n] assms by simp
qed

lemma fep_pull_work:
  assumes "fep_pull poll spawn limit st = (p, st')" "fep_finite st"
  shows "fep_finite st' \<and> (if p then fep_work st' < fep_work st else fep_work st' \<le> fep_work st)"
proof (cases "fep_stream st")
  case None
  with assms show ?thesis by (simp add: fep_pull_def)
next
  case (Some s)
  with assms(2) obtain n where s: "ok s" "view s n = None" by (auto simp: fep_finite_def)
  show ?thesis
  proof (cases "limit = 0 \<or> length (fep_futures st) < limit")
    case False
    with assms Some show ?thesis by (simp add: fep_pull_def)
  next
    case True
    show ?thesis
    proof (cases s rule: poll_cases)
      case (item v s')
      have "ok s'" using poll_ok [OF s(1)] item by simp
      with assms Some True item s show ?thesis
        using items_left_item [OF poll_item [OF s(1) item] s(2)]
        by (auto simp: fep_pull_def fep_finite_def fep_work_def)
    next
      case (pending s')
      have "ok s'" using poll_ok [OF s(1)] pending by simp
      with assms Some True pending s show ?thesis
        using poll_pending [OF s(1) pending]
        by (auto simp: fep_pull_def fep_finite_def fep_work_def items_left_def)
    qed (use assms Some True in \<open>auto simp: fep_pull_def fep_finite_def fep_work_def\<close>)
  qed
qed

lemma fep_iter_work:
  assumes "fep_finite st" "fep_iter poll spawn poll_fut limit st = Inr st'"
  shows "fep_finite st' \<and> fep_work st' < fep_work st"
proof -
  obtain p1 st1 where st1: "fep_pull poll spawn limit st = (p1, st1)" by fastforce
  obtain kept err p where k: "poll_futures poll_fut (fep_futures st1) (fep_error st1) p1 = (kept, err, p)"
    by (metis prod_cases3)
  note w = fep_pull_work [OF st1 assms(1)] poll_futures_length [OF k]
  have st': "st' = st1\<lparr>fep_futures := kept, fep_error := err\<rparr>" "p"
    using assms(2) by (auto simp: fep_iter_def st1 k Let_def split: option.splits if_splits)
  show ?thesis
    using w st' by (auto simp: fep_finite_def fep_work_def split: option.splits if_splits)
qed

lemma fep_returns:
  assumes "fep_finite st"
  shows "\<exists>r st'. fep_poll poll spawn poll_fut limit_fn st = Some (r, st')"
  using loop_run_terminates [of fep_finite st "fep_iter poll spawn poll_fut (fep_limit limit_fn st)" fep_work]
    assms fep_iter_work unfolding fep_poll_def by (metis surj_pair)

end

end
