(* ===== verification/StreamsProps.thy ===== *)
theory StreamsProps
  imports Streams
begin

text \<open>
  The properties of the stream combinators, over any streams that keep the contract
  \<open>polled_stream\<close>, with witnesses on scripted streams.
\<close>

subsection \<open>Runs of \<open>ZipAll\<close>\<close>

fun zip_outputs ::
    "('s \<Rightarrow> ('e + 'v) option poll \<times> 's) \<Rightarrow> nat \<Rightarrow> ('s, 'v) zip_elem list \<Rightarrow> ('e + 'v list) option poll list" where
  "zip_outputs poll 0 es = []"
| "zip_outputs poll (Suc n) es = (let (r, es') = zip_poll_next poll es in r # zip_outputs poll n es')"

text \<open>The tuples among the results, and whether a result is the end or an error.\<close>

fun zip_tuples :: "('e + 'v list) option poll list \<Rightarrow> 'v list list" where
  "zip_tuples [] = []"
| "zip_tuples (Ready (Some (Inr vs)) # rs) = vs # zip_tuples rs"
| "zip_tuples (_ # rs) = zip_tuples rs"

fun zip_stopped :: "('e + 'v list) option poll list \<Rightarrow> bool" where
  "zip_stopped [] = False"
| "zip_stopped (Ready None # rs) = True"
| "zip_stopped (Ready (Some (Inl e)) # rs) = True"
| "zip_stopped (_ # rs) = zip_stopped rs"

lemma zip_poll_empty: "zip_poll_next poll [] = (Ready None, [])"
  by (simp add: zip_poll_next_def)

lemma zip_tuples_empty: "zip_tuples (zip_outputs poll n []) = []"
  by (induction n) (simp_all add: zip_poll_empty)

context polled_try_stream begin

lemma zip_poll_ok:
  assumes "list_all (\<lambda>(s, r). ok s) es"
  shows "list_all (\<lambda>(s, r). ok s) (snd (zip_poll_next poll es))"
proof (cases "zip_scan poll es")
  case (Inl q)
  then show ?thesis by (cases q) (simp_all add: zip_poll_next_def)
next
  case (Inr p)
  then obtain es' d where "zip_scan poll es = Inr (es', d)" by (cases p) auto
  with zip_scan_Inr [OF this assms] show ?thesis
    by (auto simp: zip_poll_next_def Let_def list_all_iff)
qed

lemma zip_outputs_spec:
  assumes "list_all (\<lambda>(s, r). ok s) es"
  shows "(\<forall>i < length (zip_tuples (zip_outputs poll n es)).
      map (Some \<circ> Inr) (zip_tuples (zip_outputs poll n es) ! i) = map (\<lambda>el. zip_view view el i) es) \<and>
    (es \<noteq> [] \<and> zip_stopped (zip_outputs poll n es) \<longrightarrow>
      (\<exists>el \<in> set es. \<forall>v. zip_view view el (length (zip_tuples (zip_outputs poll n es))) \<noteq> Some (Inr v)))"
  using assms
proof (induction n arbitrary: es)
  case (Suc n)
  obtain r es' where p: "zip_poll_next poll es = (r, es')" by fastforce
  note spec = zip_poll_spec [OF Suc.prems p]
  have ok': "list_all (\<lambda>(s, r). ok s) es'" using zip_poll_ok [OF Suc.prems] p by simp
  note IH = Suc.IH [OF ok']
  let ?ts = "zip_tuples (zip_outputs poll n es')"
  consider (wait) "r = Pending" | (tuple) vs where "r = Ready (Some (Inr vs))"
    | (error) e where "r = Ready (Some (Inl e))" | (stop) "r = Ready None"
    by (metis option.exhaust poll.exhaust sum.exhaust)
  then show ?case
  proof cases
    case wait
    then have same: "map (zip_view view) es' = map (zip_view view) es" using spec by simp
    then have el: "map (\<lambda>el. zip_view view el i) es' = map (\<lambda>el. zip_view view el i) es" for i
    proof -
      have "map (\<lambda>el. zip_view view el i) xs = map (\<lambda>f. f i) (map (zip_view view) xs)" for xs by simp
      with same show ?thesis by (simp only:)
    qed
    have ex: "(\<exists>el \<in> set es'. P (zip_view view el)) \<longleftrightarrow> (\<exists>el \<in> set es. P (zip_view view el))" for P
      using arg_cong [OF same, of "\<lambda>xs. \<exists>x \<in> set xs. P x"] by simp
    have "es' \<noteq> [] \<longleftrightarrow> es \<noteq> []" using same by (metis map_is_Nil_conv)
    then show ?thesis
      using IH el ex [of "\<lambda>w. \<forall>v. w (length ?ts) \<noteq> Some (Inr v)"] by (simp add: p wait)
  next
    case (tuple vs)
    with spec have vs: "length vs = length es" "es \<noteq> []" and len: "length es' = length es"
      and vs3:
      "map (zip_view view) es = map2 (\<lambda>v w. case_nat (Some (Inr v)) w) vs (map (zip_view view) es')" by auto
    have nth: "zip_view view (es ! k) = case_nat (Some (Inr (vs ! k))) (zip_view view (es' ! k))" if "k < length es" for k
      using arg_cong [OF vs3, of "\<lambda>xs. xs ! k"] that vs(1) len by simp
    have "map (Some \<circ> Inr) ((vs # ?ts) ! i) = map (\<lambda>el. zip_view view el i) es" if "i < Suc (length ?ts)" for i
    proof (cases i)
      case 0
      then show ?thesis using vs(1) nth by (intro nth_equalityI) auto
    next
      case (Suc j)
      then have "map (Some \<circ> Inr) (?ts ! j) = map (\<lambda>el. zip_view view el j) es'"
        using conjunct1 [OF IH] that by (simp only: length_Cons Suc_less_eq)
      also have "\<dots> = map (\<lambda>el. zip_view view el i) es" using len nth Suc by (intro nth_equalityI) auto
      finally show ?thesis using Suc by simp
    qed
    moreover have "\<exists>el \<in> set es. \<forall>v. zip_view view el (Suc (length ?ts)) \<noteq> Some (Inr v)"
      if stopped: "zip_stopped (zip_outputs poll n es')"
    proof -
      have "es' \<noteq> []" using len vs(2) by auto
      then obtain k where "k < length es'" "\<forall>v. zip_view view (es' ! k) (length ?ts) \<noteq> Some (Inr v)"
        using conjunct2 [OF IH] stopped by (auto simp: in_set_conv_nth)
      then show ?thesis using nth [of k] len by (intro bexI [of _ "es ! k"]) auto
    qed
    ultimately show ?thesis by (simp add: p tuple comp_def)
  next
    case (error e)
    with spec obtain el where "es' = []" "el \<in> set es" "zip_view view el 0 = Some (Inl e)" by auto
    then show ?thesis by (auto simp: p error zip_tuples_empty intro!: bexI [of _ el])
  next
    case stop
    with spec consider "es = []" | el where "es' = []" "el \<in> set es" "zip_view view el 0 = None" by auto
    then show ?thesis
      by cases (auto simp: p stop zip_tuples_empty zip_poll_empty intro!: bexI)
  qed
qed simp

end

text \<open>
  C11. \<open>zip_all\<close> transposes its streams: however its polls fall, the \<open>i\<close>-th tuple is made of the
  \<open>i\<close>-th items of all the streams, in their order; it stops, with the end or an error, only when some
  stream has ended or failed at that place.
\<close>

theorem zip_all_transposes:
  fixes poll :: "'s \<Rightarrow> ('e + 'v) option poll \<times> 's"
  assumes "polled_try_stream poll view ok" and "list_all ok ss" and "ss \<noteq> []"
  shows "let outs = zip_outputs poll n (zip_all ss) in
    (\<forall>i < length (zip_tuples outs). map (Some \<circ> Inr) (zip_tuples outs ! i) = map (\<lambda>s. view s i) ss) \<and>
    (zip_stopped outs \<longrightarrow> (\<exists>s \<in> set ss. \<forall>v. view s (length (zip_tuples outs)) \<noteq> Some (Inr v)))"
proof -
  have "list_all (\<lambda>(s, r). ok s) (zip_all ss :: ('s, 'v) zip_elem list)" "zip_all ss \<noteq> ([] :: ('s, 'v) zip_elem list)"
    using assms(2,3) by (auto simp: zip_all_def list_all_iff)
  from polled_try_stream.zip_outputs_spec [OF assms(1) this(1), of n] this(2) show ?thesis
    by (simp add: Let_def zip_all_def zip_view_def comp_def)
qed

theorem zip_all_transposes_witness:
  "zip_tuples (zip_outputs script_poll 5 (zip_all [[Ready (Some (Inr (1 :: nat))), Pending, Ready (Some (Inr 2))],
     [Pending, Ready (Some (Inr 3)), Pending, Ready (Some (Inr 4 :: string + nat))]])) = [[1, 3], [2, 4]] \<and>
   (let ss = [[Ready (Some (Inr (1 :: nat))), Pending, Ready (Some (Inr 2))],
       [Pending, Ready (Some (Inr 3)), Pending, Ready (Some (Inr 4 :: string + nat))]];
      outs = zip_outputs script_poll 5 (zip_all ss)
    in \<forall>i < length (zip_tuples outs). map (Some \<circ> Inr) (zip_tuples outs ! i) = map (\<lambda>s. script_view s i) ss)"
  using zip_all_transposes [OF script_try.polled_try_stream_axioms, of
      "[[Ready (Some (Inr (1 :: nat))), Pending, Ready (Some (Inr 2))],
       [Pending, Ready (Some (Inr 3)), Pending, Ready (Some (Inr 4 :: string + nat))]]" 5]
  by (simp add: zip_all_def zip_poll_next_def numeral_eq_Suc Let_def)

subsection \<open>\<open>SelectAny\<close>\<close>

text \<open>
  C28. A stream among \<open>n\<close> of a \<open>SelectAny\<close> that always has an item is served within \<open>n\<close> polls of the
  combinator, whatever the other streams do: with \<open>R\<close> the states from which every poll gives an item.
\<close>

theorem select_any_fair:
  assumes "\<And>s. R s \<Longrightarrow> \<exists>v s'. poll s = (Ready (Some v), s') \<and> R s'"
    and "j < length (sel_elems st)" and "R (sel_elems st ! j)"
  shows "\<exists>m < length (sel_elems st).
    last_yield_index (((\<lambda>st. snd (select_poll_next poll st)) ^^ Suc m) st) = j"
proof -
  have n: "0 < length (sel_elems st)" using assms(2) by linarith
  then obtain d where d: "d < length (sel_elems st)" "(d + (last_yield_index st + 1)) mod length (sel_elems st) = j"
    using select_order(2) [OF n assms(2)] by blast
  obtain m where "m \<le> d" "last_yield_index (((\<lambda>st. snd (select_poll_next poll st)) ^^ Suc m) st) = j"
    using select_fair [of R poll, OF assms(1,3,2) d] by blast
  with d(1) show ?thesis by (intro exI [of _ m]) simp
qed

text \<open>A counter that always has an item, as an example.\<close>

fun repeat_poll :: "nat \<Rightarrow> nat option poll \<times> nat" where
  "repeat_poll s = (Ready (Some s), s)"

theorem select_any_fair_witness:
  "\<exists>m < 3. last_yield_index (((\<lambda>st. snd (select_poll_next repeat_poll st)) ^^ Suc m) (select_any_new [7, 8, 9])) = 1"
  using select_any_fair [of "\<lambda>_. True" repeat_poll 1 "select_any_new [7, 8, 9]"]
  by (simp add: select_any_new_def numeral_3_eq_3)

text \<open>
  \<open>SelectAny\<close> passes on the item of the first stream after the one that yielded last that has one;
  it ends only when every stream has ended.
\<close>

theorem select_any_next:
  assumes "select_poll_next poll st = (r, st')" and "sel_elems st \<noteq> []"
  shows "case r of
      Ready (Some v) \<Rightarrow> \<exists>k < length (sel_elems st).
        last_yield_index st' = (k + last_yield_index st + 1) mod length (sel_elems st) \<and>
        fst (poll (sel_elems st ! last_yield_index st')) = Ready (Some v) \<and>
        (\<forall>k' < k. \<forall>w. fst (poll (sel_elems st ! ((k' + last_yield_index st + 1) mod length (sel_elems st)))) \<noteq> Ready (Some w))
    | Ready None \<Rightarrow> \<forall>s \<in> set (sel_elems st). fst (poll s) = Ready None
    | Pending \<Rightarrow> True"
proof -
  let ?n = "length (sel_elems st)"
  have n: "0 < ?n" using assms(2) by simp
  note order = select_order [OF n, where start = "last_yield_index st + 1"]
  have scan: "select_scan poll (last_yield_index st + 1) [0..<?n] 0 st = (r, st')"
    using assms(1) by (simp add: select_poll_next_def)
  consider (wait) "r = Pending" | (item) v where "r = Ready (Some v)" | (stop) "r = Ready None"
    by (metis option.exhaust poll.exhaust)
  then show ?thesis
  proof cases
    case (item v)
    obtain ks1 k ks2 where k: "[0..<?n] = ks1 @ k # ks2"
      "last_yield_index st' = (k + (last_yield_index st + 1)) mod ?n"
      "fst (poll (sel_elems st ! last_yield_index st')) = Ready (Some v)"
      "\<forall>k' \<in> set ks1. \<forall>w. fst (poll (sel_elems st ! ((k' + (last_yield_index st + 1)) mod ?n))) \<noteq> Ready (Some w)"
      using select_scan_yield [OF scan [unfolded item] order(1)] by blast
    have "ks1 = [0..<k]" "k < ?n" using upt_split [OF k(1)] by simp_all
    with k show ?thesis by (auto simp: item add.assoc)
  next
    case stop
    have "fst (poll (sel_elems st ! j)) = Ready None" if "j < ?n" for j
      using select_scan_stop [OF scan [unfolded stop] _ order(1)] order(2) [OF that] by auto
    then show ?thesis by (auto simp: stop in_set_conv_nth)
  qed simp
qed

theorem select_any_next_witness:
  "\<exists>k < 2. (0 :: nat) = (k + 0 + 1) mod 2 \<and>
     (\<forall>k' < k. \<forall>w :: nat. fst (script_poll ([[Ready (Some 5)], [Pending]] ! ((k' + 0 + 1) mod 2))) \<noteq> Ready (Some w))"
proof -
  have "select_poll_next script_poll \<lparr>sel_elems = [[Ready (Some (5 :: nat))], [Pending]], last_yield_index = 0\<rparr> =
      (Ready (Some 5), \<lparr>sel_elems = [[], []], last_yield_index = 0\<rparr>)" by code_simp
  from select_any_next [OF this] show ?thesis by (simp add: numeral_2_eq_2)
qed

subsection \<open>\<open>ForEachParallel\<close>\<close>

lemma fep_iter_bound:
  assumes "0 < limit" and "length (fep_futures st) \<le> b" and "limit \<le> b"
  shows "case fep_iter poll spawn poll_fut limit st of
      Inl (r, st') \<Rightarrow> length (fep_futures st') \<le> b
    | Inr st' \<Rightarrow> length (fep_futures st') \<le> b"
  using fep_iter_length [where poll = poll and spawn = spawn and poll_fut = poll_fut and st = st and limit = limit] assms
  by (auto split: sum.splits prod.splits)

text \<open>
  C10. A poll of a \<open>ForEachParallel\<close> over a stream of finitely many items returns. If it is not yet done
  there is a future or a stream left to wait for; when it is, none is left and no error is kept. With a
  limit function it never holds more futures than the limit, unless it already did.
\<close>

theorem for_each_parallel_poll:
  assumes "polled_try_stream poll view ok"
    and "\<And>s. fep_stream st = Some s \<Longrightarrow> ok s \<and> (\<exists>n. view s n = None)"
  shows "\<exists>r st'. fep_poll poll spawn poll_fut limit_fn st = Some (r, st') \<and>
    (r = Pending \<longrightarrow> fep_futures st' \<noteq> [] \<or> fep_stream st' \<noteq> None) \<and>
    (r \<noteq> Pending \<longrightarrow> fep_futures st' = [] \<and> fep_stream st' = None \<and> fep_error st' = None) \<and>
    (0 < fep_limit limit_fn st \<longrightarrow>
      length (fep_futures st') \<le> max (fep_limit limit_fn st) (length (fep_futures st)))"
proof -
  let ?limit = "fep_limit limit_fn st"
  let ?b = "max ?limit (length (fep_futures st))"
  have "polled_try_stream.fep_finite view ok st"
    using assms(2) by (auto simp: polled_try_stream.fep_finite_def [OF assms(1)] split: option.splits)
  then obtain r st' where ret: "fep_poll poll spawn poll_fut limit_fn st = Some (r, st')"
    using polled_try_stream.fep_returns [OF assms(1)] by blast
  note run = ret [unfolded fep_poll_def]
  have last: "\<exists>st0. fep_iter poll spawn poll_fut ?limit st0 = Inl (r, st')"
    by (rule loop_run_invariant [OF run, of "\<lambda>_. True"]) auto
  have bound: "length (fep_futures st') \<le> ?b" if "0 < ?limit"
  proof -
    note step = fep_iter_bound [OF that _ max.cobounded1, where poll = poll and spawn = spawn and poll_fut = poll_fut]
    have "length (fep_futures (snd (r, st'))) \<le> ?b"
    proof (rule loop_run_invariant [OF run])
      show "length (fep_futures s') \<le> ?b"
        if "length (fep_futures s) \<le> ?b" "fep_iter poll spawn poll_fut ?limit s = Inr s'" for s s'
        using step [of s] that by simp
      show "length (fep_futures (snd x)) \<le> ?b"
        if "length (fep_futures s) \<le> ?b" "fep_iter poll spawn poll_fut ?limit s = Inl x" for s x
        using step [of s] that by (simp add: case_prod_beta)
    qed simp
    then show ?thesis by simp
  qed
  from last obtain st0 where "fep_iter poll spawn poll_fut ?limit st0 = Inl (r, st')" by blast
  from fep_iter_result [OF this] ret bound show ?thesis
    by (auto split: poll.splits sum.splits)
qed

text \<open>Two items, the second refused by a limit of one while the first future is pending.\<close>

theorem for_each_parallel_poll_witness:
  "\<exists>r st'. fep_poll script_poll (\<lambda>x. [Pending, Ready (Some x)]) script_poll (Some (\<lambda>_. 1))
      (fep_new [Ready (Some (Inr 1)), Ready (Some (Inr (2 :: nat) :: nat + nat))]) = Some (r, st') \<and>
    length (fep_futures st') \<le> 1"
  using for_each_parallel_poll [OF script_try.polled_try_stream_axioms,
      of "fep_new [Ready (Some (Inr 1)), Ready (Some (Inr (2 :: nat) :: nat + nat))]"
        "\<lambda>x. [Pending, Ready (Some x)]" script_poll "Some (\<lambda>_. 1)"]
  by (fastforce simp: fep_new_def fep_limit_def intro: exI [of _ "2 :: nat"])

text \<open>
  When several futures have failed by one round of polls, the error a \<open>ForEachParallel\<close> returns is
  that of the last of them in the order they were spawned, where its documentation says the first.
\<close>

theorem for_each_parallel_last_error:
  assumes "fep_stream st = None" and "future_errors poll_fut (fep_futures st) \<noteq> []"
  shows "fep_poll poll spawn poll_fut limit_fn st =
    Some (Ready (Inl (last (future_errors poll_fut (fep_futures st)))),
      \<lparr>fep_futures = [], fep_stream = None, fep_error = None\<rparr>)"
proof -
  obtain kept err p where k: "poll_futures poll_fut (fep_futures st) (fep_error st) False = (kept, err, p)"
    by (metis prod_cases3)
  have "err = Some (last (future_errors poll_fut (fep_futures st)))"
    using poll_futures_error [OF k] assms(2) by simp
  then show ?thesis unfolding fep_poll_def
    by (intro loop_run_return) (simp add: fep_iter_def fep_pull_def assms(1) k)
qed

theorem for_each_parallel_last_error_witness:
  "fst (the (fep_poll (script_poll :: (nat + nat) option poll list \<Rightarrow> _) (\<lambda>_. []) script_poll None
     \<lparr>fep_futures = [[Ready (Some (1 :: nat))], [Ready (Some 2)]], fep_stream = None, fep_error = None\<rparr>)) =
   Ready (Inl 2)"
  by (subst for_each_parallel_last_error) (simp_all add: future_errors_def map_filter_simps)

end
