(* ===== verification/F64.thy ===== *)
theory F64
  imports Prelude
begin

text \<open>
  Rust's \<open>f64\<close>: IEEE 754 double precision with rounding to nearest, ties to even. A finite number is a
  sign, a mantissa and an exponent, \<open>(-1)^s * m * 2^e\<close>, in the one form the format has for it (\<open>f64_ok\<close>);
  zero keeps its sign. The payload of a NaN is not modelled: the program never reads it.
\<close>

datatype f64 = NaN | Infinite bool | Finite bool nat int

abbreviation f64_zero :: "bool \<Rightarrow> f64" where
  "f64_zero s \<equiv> Finite s 0 (- 1074)"

fun f64_ok :: "f64 \<Rightarrow> bool" where
  "f64_ok (Finite s m e) \<longleftrightarrow>
     e = - 1074 \<and> m < 2 ^ 53 \<or> - 1074 < e \<and> e \<le> 971 \<and> 2 ^ 52 \<le> m \<and> m < 2 ^ 53"
| "f64_ok _ \<longleftrightarrow> True"

subsection \<open>Rounding\<close>

fun bit_length :: "nat \<Rightarrow> nat" where
  "bit_length n = (if n = 0 then 0 else Suc (bit_length (n div 2)))"

declare bit_length.simps [simp del]

definition div_half_even :: "nat \<Rightarrow> nat \<Rightarrow> nat" where
  "div_half_even a b =
     (let d = a div b; r = a mod b
      in if 2 * r < b \<or> 2 * r = b \<and> even d then d else d + 1)"

text \<open>\<open>p / q * 2^e\<close> as a fraction of naturals in units of \<open>2^e'\<close>.\<close>

definition scaled :: "nat \<Rightarrow> nat \<Rightarrow> int \<Rightarrow> nat \<times> nat" where
  "scaled p q k = (p * 2 ^ nat k, q * 2 ^ nat (- k))"

definition unit_exp :: "nat \<Rightarrow> nat \<Rightarrow> int \<Rightarrow> int" where
  "unit_exp p q e =
     (let e1 = max (int (bit_length p) - int (bit_length q) + e - 53) (- 1074);
          (a, b) = scaled p q (e - e1)
      in if 2 ^ 53 \<le> a div b then e1 + 1 else e1)"

definition f64_round :: "bool \<Rightarrow> nat \<Rightarrow> nat \<Rightarrow> int \<Rightarrow> f64" where
  "f64_round s p q e =
     (if p = 0 then f64_zero s
      else let e' = unit_exp p q e;
               (a, b) = scaled p q (e - e');
               m = div_half_even a b;
               (m', e'') = (if m = 2 ^ 53 then (2 ^ 52, e' + 1) else (m, e'))
           in if 971 < e'' then Infinite s else Finite s m' e'')"

subsection \<open>Operations\<close>

definition f64_of_nat :: "nat \<Rightarrow> f64" where
  "f64_of_nat n = f64_round False n 1 0"

definition f64_of_int :: "int \<Rightarrow> f64" where
  "f64_of_int i = f64_round (i < 0) (nat \<bar>i\<bar>) 1 0"

fun f64_neg :: "f64 \<Rightarrow> f64" where
  "f64_neg NaN = NaN"
| "f64_neg (Infinite s) = Infinite (\<not> s)"
| "f64_neg (Finite s m e) = Finite (\<not> s) m e"

text \<open>The value of a finite number in units of \<open>2^k\<close>, for \<open>k\<close> at most its exponent.\<close>

definition signed_units :: "bool \<Rightarrow> nat \<Rightarrow> int \<Rightarrow> int \<Rightarrow> int" where
  "signed_units s m e k = (if s then - 1 else 1) * int m * 2 ^ nat (e - k)"

fun f64_add :: "f64 \<Rightarrow> f64 \<Rightarrow> f64" where
  "f64_add NaN _ = NaN"
| "f64_add _ NaN = NaN"
| "f64_add (Infinite s) (Infinite t) = (if s = t then Infinite s else NaN)"
| "f64_add (Infinite s) (Finite _ _ _) = Infinite s"
| "f64_add (Finite _ _ _) (Infinite t) = Infinite t"
| "f64_add (Finite s m e) (Finite t n f) =
     (let k = min e f; v = signed_units s m e k + signed_units t n f k
      in if v = 0 then f64_zero (s \<and> t) else f64_round (v < 0) (nat \<bar>v\<bar>) 1 k)"

definition f64_sub :: "f64 \<Rightarrow> f64 \<Rightarrow> f64" where
  "f64_sub x y = f64_add x (f64_neg y)"

fun f64_mul :: "f64 \<Rightarrow> f64 \<Rightarrow> f64" where
  "f64_mul NaN _ = NaN"
| "f64_mul _ NaN = NaN"
| "f64_mul (Infinite s) (Infinite t) = Infinite (s \<noteq> t)"
| "f64_mul (Infinite s) (Finite t n f) = (if n = 0 then NaN else Infinite (s \<noteq> t))"
| "f64_mul (Finite s m e) (Infinite t) = (if m = 0 then NaN else Infinite (s \<noteq> t))"
| "f64_mul (Finite s m e) (Finite t n f) = f64_round (s \<noteq> t) (m * n) 1 (e + f)"

fun f64_div :: "f64 \<Rightarrow> f64 \<Rightarrow> f64" where
  "f64_div NaN _ = NaN"
| "f64_div _ NaN = NaN"
| "f64_div (Infinite _) (Infinite _) = NaN"
| "f64_div (Infinite s) (Finite t _ _) = Infinite (s \<noteq> t)"
| "f64_div (Finite s _ _) (Infinite t) = f64_zero (s \<noteq> t)"
| "f64_div (Finite s m e) (Finite t n f) =
     (if n = 0 then (if m = 0 then NaN else Infinite (s \<noteq> t)) else f64_round (s \<noteq> t) m n (e - f))"

text \<open>\<open>%\<close> is the remainder of truncated division, exact, with the sign of the dividend.\<close>

fun f64_rem :: "f64 \<Rightarrow> f64 \<Rightarrow> f64" where
  "f64_rem NaN _ = NaN"
| "f64_rem _ NaN = NaN"
| "f64_rem (Infinite _) _ = NaN"
| "f64_rem (Finite s m e) (Infinite _) = Finite s m e"
| "f64_rem (Finite s m e) (Finite t n f) =
     (if n = 0 then NaN
      else let k = min e f
           in f64_round s (m * 2 ^ nat (e - k) mod (n * 2 ^ nat (f - k))) 1 k)"

fun f64_trunc :: "f64 \<Rightarrow> f64" where
  "f64_trunc (Finite s m e) = (if 0 \<le> e then Finite s m e else f64_round s (m div 2 ^ nat (- e)) 1 0)"
| "f64_trunc x = x"

fun f64_is_finite :: "f64 \<Rightarrow> bool" where
  "f64_is_finite (Finite _ _ _) = True"
| "f64_is_finite _ = False"

datatype ordering = Less | Equal | Greater

definition int_cmp :: "int \<Rightarrow> int \<Rightarrow> ordering" where
  "int_cmp i j = (if i < j then Less else if i = j then Equal else Greater)"

fun f64_partial_cmp :: "f64 \<Rightarrow> f64 \<Rightarrow> ordering option" where
  "f64_partial_cmp NaN _ = None"
| "f64_partial_cmp _ NaN = None"
| "f64_partial_cmp (Infinite s) (Infinite t) = Some (if s = t then Equal else if s then Less else Greater)"
| "f64_partial_cmp (Infinite s) (Finite _ _ _) = Some (if s then Less else Greater)"
| "f64_partial_cmp (Finite _ _ _) (Infinite t) = Some (if t then Greater else Less)"
| "f64_partial_cmp (Finite s m e) (Finite t n f) =
     (let k = min e f in Some (int_cmp (signed_units s m e k) (signed_units t n f k)))"

definition f64_lt :: "f64 \<Rightarrow> f64 \<Rightarrow> bool" where
  "f64_lt x y \<longleftrightarrow> f64_partial_cmp x y = Some Less"

definition f64_gt :: "f64 \<Rightarrow> f64 \<Rightarrow> bool" where
  "f64_gt x y \<longleftrightarrow> f64_partial_cmp x y = Some Greater"

definition f64_le :: "f64 \<Rightarrow> f64 \<Rightarrow> bool" where
  "f64_le x y \<longleftrightarrow> f64_partial_cmp x y \<in> {Some Less, Some Equal}"

definition f64_ge :: "f64 \<Rightarrow> f64 \<Rightarrow> bool" where
  "f64_ge x y \<longleftrightarrow> f64_partial_cmp x y \<in> {Some Greater, Some Equal}"

definition f64_eq :: "f64 \<Rightarrow> f64 \<Rightarrow> bool" where
  "f64_eq x y \<longleftrightarrow> f64_partial_cmp x y = Some Equal"

text \<open>\<open>as u64\<close> truncates and saturates, and takes a NaN to zero.\<close>

fun f64_to_u64 :: "f64 \<Rightarrow> u64" where
  "f64_to_u64 NaN = 0"
| "f64_to_u64 (Infinite s) = (if s then 0 else - 1)"
| "f64_to_u64 (Finite s m e) =
     (if s then 0 else of_nat (min (m * 2 ^ nat e div 2 ^ nat (- e)) (2 ^ 64 - 1)))"

text \<open>\<open>std::f64::EPSILON\<close> is \<open>2^-52\<close>.\<close>

definition f64_epsilon :: f64 where
  "f64_epsilon = Finite False (2 ^ 52) (- 104)"

lemmas f64_eval = f64_of_nat_def f64_of_int_def f64_round_def unit_exp_def scaled_def div_half_even_def
  bit_length.simps signed_units_def int_cmp_def f64_sub_def f64_lt_def f64_gt_def f64_le_def f64_ge_def
  f64_eq_def f64_epsilon_def Let_def

subsection \<open>Lengths and fractions\<close>

lemma bit_length_0 [simp]: "bit_length 0 = 0"
  by (simp add: bit_length.simps)

lemma bit_length_1 [simp]: "bit_length (Suc 0) = 1"
  by (simp add: bit_length.simps)

lemma bit_length_pos: "0 < n \<Longrightarrow> bit_length n = Suc (bit_length (n div 2))"
  by (simp add: bit_length.simps)

lemma bit_length_bounds: "0 < n \<Longrightarrow> 2 ^ (bit_length n - 1) \<le> n \<and> n < 2 ^ bit_length n"
proof (induction n rule: bit_length.induct)
  case (1 n)
  show ?case
  proof (cases "n div 2 = 0")
    case True
    with 1 have "n = 1" by auto
    then show ?thesis by simp
  next
    case False
    with 1 have IH: "2 ^ (bit_length (n div 2) - 1) \<le> n div 2" "n div 2 < 2 ^ bit_length (n div 2)" by auto
    obtain k where k: "bit_length (n div 2) = Suc k" using False bit_length_pos [of "n div 2"] by auto
    have len: "bit_length n = Suc (Suc k)" using bit_length_pos [of n] 1(2) k by simp
    from IH k have "2 ^ k \<le> n div 2" "n div 2 < 2 ^ Suc k" by auto
    then have "2 * 2 ^ k \<le> n" "n < 2 * 2 ^ Suc k" by auto
    then show ?thesis by (simp add: len)
  qed
qed

lemma bit_length_le: "n < 2 ^ k \<Longrightarrow> bit_length n \<le> k"
proof (cases "n = 0")
  case False
  assume "n < 2 ^ k"
  with bit_length_bounds [of n] False have "(2 :: nat) ^ (bit_length n - 1) < 2 ^ k" by linarith
  then have "bit_length n - 1 < k" by (rule power_less_imp_less_exp [rotated]) simp
  then show ?thesis by simp
qed simp

lemma bit_length_shift: "0 < n \<Longrightarrow> bit_length (n * 2 ^ k) = bit_length n + k"
proof (induction k)
  case (Suc k)
  have "bit_length (n * 2 ^ Suc k) = Suc (bit_length (n * 2 ^ Suc k div 2))"
    using Suc.prems by (intro bit_length_pos) simp
  also have "n * 2 ^ Suc k div 2 = n * 2 ^ k" by simp
  finally show ?case using Suc by simp
qed simp

lemma div_half_even_one [simp]: "div_half_even a (Suc 0) = a"
  by (simp add: div_half_even_def)

lemma div_half_even_mult:
  assumes "0 < c"
  shows "div_half_even (c * a) (c * b) = div_half_even a b"
proof -
  have "2 * (c * a mod (c * b)) < c * b \<longleftrightarrow> 2 * (a mod b) < b"
    using assms by (simp add: mult_mod_right [symmetric] mult.left_commute [of 2])
  moreover have "2 * (c * a mod (c * b)) = c * b \<longleftrightarrow> 2 * (a mod b) = b"
    using assms by (simp add: mult_mod_right [symmetric] mult.left_commute [of 2])
  ultimately show ?thesis using assms by (simp add: div_half_even_def Let_def)
qed

lemma div_half_even_ratio:
  assumes "a * b' = a' * b" "0 < b" "0 < b'"
  shows "div_half_even a b = div_half_even a' b'" "a div b = a' div b'"
proof -
  have "div_half_even a b = div_half_even (b' * a) (b' * b)" using assms(3) by (simp add: div_half_even_mult)
  also have "\<dots> = div_half_even (b * a') (b * b')" using assms(1) by (simp add: ac_simps)
  also have "\<dots> = div_half_even a' b'" using assms(2) by (rule div_half_even_mult)
  finally show "div_half_even a b = div_half_even a' b'" .
  have "a div b = (b' * a) div (b' * b)" using assms(3) by simp
  also have "\<dots> = (b * a') div (b * b')" using assms(1) by (simp add: ac_simps)
  also have "\<dots> = a' div b'" using assms(2) by simp
  finally show "a div b = a' div b'" .
qed

lemma scaled_shift:
  "fst (scaled (p * 2 ^ j) q (k - int j)) * snd (scaled p q k) =
   fst (scaled p q k) * snd (scaled (p * 2 ^ j) q (k - int j))"
proof -
  have e: "j + nat (k - int j) + nat (- k) = nat k + nat (int j - k)" by simp
  have "(2 :: nat) ^ j * 2 ^ nat (k - int j) * 2 ^ nat (- k) = 2 ^ nat k * 2 ^ nat (int j - k)"
    by (simp only: power_add [symmetric] e)
  then show ?thesis by (simp add: scaled_def)
qed

lemma scaled_pos: "0 < q \<Longrightarrow> 0 < snd (scaled p q k)"
  by (simp add: scaled_def)

lemma f64_round_shift: "f64_round s (p * 2 ^ j) 1 (e - int j) = f64_round s p 1 e"
proof (cases "p = 0")
  case False
  have same: "div_half_even (fst (scaled (p * 2 ^ j) 1 (k - int j))) (snd (scaled (p * 2 ^ j) 1 (k - int j))) =
      div_half_even (fst (scaled p 1 k)) (snd (scaled p 1 k))"
    "fst (scaled (p * 2 ^ j) 1 (k - int j)) div snd (scaled (p * 2 ^ j) 1 (k - int j)) =
      fst (scaled p 1 k) div snd (scaled p 1 k)" for k
    using div_half_even_ratio [OF scaled_shift [where q = 1]] scaled_pos by auto
  have shift: "e - int j - x = (e - x) - int j" for x by simp
  have unit: "unit_exp (p * 2 ^ j) 1 (e - int j) = unit_exp p 1 e"
    using False by (simp only: unit_exp_def Let_def case_prod_beta shift same) (simp add: bit_length_shift)
  show ?thesis
    using False by (simp only: f64_round_def Let_def case_prod_beta unit shift same) simp
qed (simp add: f64_round_def)

subsection \<open>Integers below \<open>2^53\<close> are exact\<close>

lemma f64_round_exact:
  assumes "0 < p" "p < 2 ^ 53"
  shows "f64_round s p 1 0 = Finite s (p * 2 ^ (53 - bit_length p)) (int (bit_length p) - 53)"
proof -
  let ?l = "bit_length p"
  have l: "?l \<le> 53" "0 < ?l" using bit_length_le [OF assms(2)] bit_length_pos [OF assms(1)] by auto
  have lo: "2 ^ (?l - 1) \<le> p" and hi: "p < 2 ^ ?l" using bit_length_bounds [OF assms(1)] by auto
  have up: "2 ^ k \<le> p * 2 ^ j" if "k \<le> ?l - 1 + j" for k j
  proof -
    have "(2 :: nat) ^ k \<le> 2 ^ (?l - 1 + j)" using that by (intro power_increasing) auto
    also have "\<dots> \<le> p * 2 ^ j" using lo by (simp add: power_add)
    finally show ?thesis .
  qed
  have down: "p * 2 ^ (53 - ?l) < 2 ^ 53"
  proof -
    have "p * 2 ^ (53 - ?l) < 2 ^ ?l * 2 ^ (53 - ?l)" using hi by simp
    also have "\<dots> = 2 ^ 53" using l by (simp add: power_add [symmetric])
    finally show ?thesis .
  qed
  have "2 ^ 53 \<le> p * 2 ^ (54 - ?l)" using up [of 53 "54 - ?l"] l by simp
  moreover have "nat (54 - int ?l) = 54 - ?l" "nat (int ?l - 54) = 0" "nat (53 - int ?l) = 53 - ?l"
    "nat (int ?l - 53) = 0" using l by auto
  moreover have "max (int ?l - 54) (- 1074) = int ?l - 54" using l by simp
  ultimately have unit: "unit_exp p (Suc 0) 0 = int ?l - 53"
    by (simp add: unit_exp_def scaled_def Let_def)
  show ?thesis
    using assms down l \<open>nat (53 - int ?l) = 53 - ?l\<close> \<open>nat (int ?l - 53) = 0\<close>
    by (simp add: f64_round_def unit scaled_def Let_def)
qed

lemma f64_of_int_cases:
  assumes "\<bar>i\<bar> < 2 ^ 53"
  obtains m e where "f64_of_int i = Finite (i < 0) m e" "e \<le> 0"
    "\<And>k. k \<le> e \<Longrightarrow> signed_units (i < 0) m e k = i * 2 ^ nat (- k)"
    "m = nat \<bar>i\<bar> * 2 ^ nat (- e)"
proof (cases "i = 0")
  case True
  then show ?thesis using that [of 0 "- 1074"] by (simp add: f64_of_int_def f64_round_def signed_units_def)
next
  case False
  let ?p = "nat \<bar>i\<bar>"
  let ?l = "bit_length ?p"
  have p: "0 < ?p" "?p < 2 ^ 53" using False assms by auto
  have l: "?l \<le> 53" by (rule bit_length_le [OF p(2)])
  have "signed_units (i < 0) (?p * 2 ^ (53 - ?l)) (int ?l - 53) k = i * 2 ^ nat (- k)" if "k \<le> int ?l - 53" for k
  proof -
    have e: "53 - ?l + nat (int ?l - 53 - k) = nat (- k)" using l that by arith
    have "(2 :: int) ^ (53 - ?l) * 2 ^ nat (int ?l - 53 - k) = 2 ^ nat (- k)"
      by (simp only: power_add [symmetric] e)
    then show ?thesis by (simp add: signed_units_def mult.assoc)
  qed
  moreover have "f64_of_int i = Finite (i < 0) (?p * 2 ^ (53 - ?l)) (int ?l - 53)"
    unfolding f64_of_int_def by (rule f64_round_exact [OF p])
  moreover have "53 - ?l = nat (- (int ?l - 53))" "int ?l - 53 \<le> 0" using l by auto
  ultimately show ?thesis by (intro that) auto
qed

lemma f64_of_nat_int: "f64_of_nat n = f64_of_int (int n)"
  by (simp add: f64_of_nat_def f64_of_int_def)

lemma f64_round_units:
  assumes "k \<le> 0"
  shows "f64_round s (p * 2 ^ nat (- k)) 1 k = f64_round s p 1 0"
  using f64_round_shift [of s p "nat (- k)" 0] assms by simp

lemma f64_add_int:
  assumes "\<bar>i\<bar> < 2 ^ 53" "\<bar>j\<bar> < 2 ^ 53"
  shows "f64_add (f64_of_int i) (f64_of_int j) = f64_of_int (i + j)"
proof -
  obtain m e where i: "f64_of_int i = Finite (i < 0) m e" "e \<le> 0"
    "\<And>k. k \<le> e \<Longrightarrow> signed_units (i < 0) m e k = i * 2 ^ nat (- k)"
    using f64_of_int_cases [OF assms(1)] by metis
  obtain n f where j: "f64_of_int j = Finite (j < 0) n f" "f \<le> 0"
    "\<And>k. k \<le> f \<Longrightarrow> signed_units (j < 0) n f k = j * 2 ^ nat (- k)"
    using f64_of_int_cases [OF assms(2)] by metis
  let ?k = "min e f"
  have v: "signed_units (i < 0) m e ?k + signed_units (j < 0) n f ?k = (i + j) * 2 ^ nat (- ?k)"
    using i(3) [of ?k] j(3) [of ?k] by (simp add: distrib_right)
  have "(i + j) * 2 ^ nat (- ?k) < 0 \<longleftrightarrow> i + j < 0" by (simp add: mult_less_0_iff)
  moreover have "nat \<bar>(i + j) * 2 ^ nat (- ?k)\<bar> = nat \<bar>i + j\<bar> * 2 ^ nat (- ?k)"
    by (simp add: abs_mult nat_mult_distrib)
  moreover have "f64_of_int 0 = f64_zero False" by (simp add: f64_of_int_def f64_round_def)
  moreover have "?k \<le> 0" using i(2) by simp
  ultimately show ?thesis
    using f64_round_units [of ?k] by (simp add: i(1) j(1) v Let_def) (auto simp: f64_of_int_def)
qed

lemma f64_neg_round: "f64_neg (f64_round s p q e) = f64_round (\<not> s) p q e"
  by (simp add: f64_round_def Let_def case_prod_beta)

lemma f64_neg_int: "i \<noteq> 0 \<Longrightarrow> f64_neg (f64_of_int i) = f64_of_int (- i)"
  by (cases "i < 0") (simp_all add: f64_of_int_def f64_neg_round)

lemma f64_of_int_zero: "f64_of_int 0 = f64_zero False"
  by (simp add: f64_of_int_def f64_round_def)

lemma f64_sub_int:
  assumes "\<bar>i\<bar> < 2 ^ 53" "\<bar>j\<bar> < 2 ^ 53"
  shows "f64_sub (f64_of_int i) (f64_of_int j) = f64_of_int (i - j)"
proof (cases "j = 0")
  case True
  have "f64_add (f64_of_int i) (f64_zero True) = f64_add (f64_of_int i) (f64_of_int 0)"
    by (rule f64_of_int_cases [OF assms(1)]) (auto simp: f64_of_int_zero signed_units_def Let_def)
  with f64_add_int [OF assms] True show ?thesis by (simp add: f64_sub_def f64_of_int_zero)
next
  case False
  then show ?thesis using f64_add_int [OF assms(1), of "- j"] assms(2) by (simp add: f64_sub_def f64_neg_int)
qed

lemma f64_mul_nat:
  assumes "m < 2 ^ 53" "n < 2 ^ 53"
  shows "f64_mul (f64_of_nat m) (f64_of_nat n) = f64_of_nat (m * n)"
proof -
  have nat: "\<exists>a e. f64_of_nat n = Finite False a e \<and> e \<le> 0 \<and> a = n * 2 ^ nat (- e)" if "n < 2 ^ 53" for n
  proof -
    have "\<bar>int n\<bar> < 2 ^ 53" using that by simp
    then obtain a e where "f64_of_int (int n) = Finite (int n < 0) a e" "e \<le> 0" "a = nat \<bar>int n\<bar> * 2 ^ nat (- e)"
      by (rule f64_of_int_cases)
    then show ?thesis by (intro exI [of _ a] exI [of _ e]) (simp add: f64_of_nat_int)
  qed
  obtain a e b f where a: "f64_of_nat m = Finite False a e" "e \<le> 0" "a = m * 2 ^ nat (- e)"
    and b: "f64_of_nat n = Finite False b f" "f \<le> 0" "b = n * 2 ^ nat (- f)"
    using nat [OF assms(1)] nat [OF assms(2)] by blast
  have "a * b = m * n * 2 ^ nat (- (e + f))"
    using a(2,3) b(2,3) nat_add_distrib [of "- e" "- f"] by (simp add: power_add)
  then have "f64_mul (f64_of_nat m) (f64_of_nat n) = f64_round False (m * n * 2 ^ nat (- (e + f))) 1 (e + f)"
    by (simp only: a(1) b(1) f64_mul.simps simp_thms)
  also have "\<dots> = f64_of_nat (m * n)"
    unfolding f64_of_nat_def using a(2) b(2) by (intro f64_round_units) simp
  finally show ?thesis .
qed

lemma f64_partial_cmp_int:
  assumes "\<bar>i\<bar> < 2 ^ 53" "\<bar>j\<bar> < 2 ^ 53"
  shows "f64_partial_cmp (f64_of_int i) (f64_of_int j) = Some (int_cmp i j)"
proof -
  obtain m e where i: "f64_of_int i = Finite (i < 0) m e"
    "\<And>k. k \<le> e \<Longrightarrow> signed_units (i < 0) m e k = i * 2 ^ nat (- k)"
    using f64_of_int_cases [OF assms(1)] by metis
  obtain n f where j: "f64_of_int j = Finite (j < 0) n f"
    "\<And>k. k \<le> f \<Longrightarrow> signed_units (j < 0) n f k = j * 2 ^ nat (- k)"
    using f64_of_int_cases [OF assms(2)] by metis
  show ?thesis using i(2) [of "min e f"] j(2) [of "min e f"] by (simp add: i(1) j(1) int_cmp_def Let_def)
qed

lemma f64_trunc_int:
  assumes "\<bar>i\<bar> < 2 ^ 53"
  shows "f64_trunc (f64_of_int i) = f64_of_int i"
proof -
  obtain m e where i: "f64_of_int i = Finite (i < 0) m e" "m = nat \<bar>i\<bar> * 2 ^ nat (- e)"
    using f64_of_int_cases [OF assms] by metis
  then have "m div 2 ^ nat (- e) = nat \<bar>i\<bar>" by simp
  with i(1) show ?thesis by (simp add: f64_of_int_def)
qed

lemma f64_to_u64_int:
  assumes "\<bar>i\<bar> < 2 ^ 53"
  shows "f64_to_u64 (f64_of_int i) = of_nat (nat i)"
proof -
  obtain m e where i: "f64_of_int i = Finite (i < 0) m e" "e \<le> 0" "m = nat \<bar>i\<bar> * 2 ^ nat (- e)"
    using f64_of_int_cases [OF assms] by metis
  then have "m * 2 ^ nat e div 2 ^ nat (- e) = nat \<bar>i\<bar>" by simp
  moreover have "min (nat i) (2 ^ 64 - 1) = nat i" 
  proof (rule min_absorb1)
    have "nat i < 2 ^ 53" using assms by (simp add: nat_less_iff)
    then show "nat i \<le> 2 ^ 64 - 1" by simp
  qed
  ultimately show ?thesis using i(1) by (cases "i < 0") simp_all
qed

lemma f64_is_finite_int: "\<bar>i\<bar> < 2 ^ 53 \<Longrightarrow> f64_is_finite (f64_of_int i)"
  by (rule f64_of_int_cases [of i]) auto

lemmas f64_int = f64_add_int f64_sub_int f64_partial_cmp_int f64_trunc_int f64_to_u64_int f64_is_finite_int

end
