(* ===== verification/Json.thy ===== *)
theory Json
  imports F64 "HOL-Library.Sublist"
begin

text \<open>
  JSON values as \<open>serde_json\<close> has them in this build (its \<open>preserve_order\<close> feature is on, through
  \<open>jsonpath_lib\<close>): a number is an unsigned or a negative 64-bit integer or a float, an object keeps its
  keys in insertion order and \<open>remove\<close> moves the last entry into the gap. Strings are lists of UTF-8
  bytes. Then the coercions of \<open>select_parser.rs\<close>, the text operations of \<open>std\<close> the program uses, and the
  record of the third-party parts of the expression language.
\<close>

type_synonym i64 = "64 word"

datatype json_number = PosInt u64 | NegInt i64 | Float f64

datatype json =
    JNull
  | JBool bool
  | JNumber json_number
  | JString string
  | JArray "json list"
  | JObject "(string \<times> json) list"

datatype 'a cow = Borrowed (into_owned: 'a) | Owned (into_owned: 'a)

subsection \<open>Numbers\<close>

fun as_f64 :: "json_number \<Rightarrow> f64" where
  "as_f64 (PosInt n) = f64_of_nat (unat n)"
| "as_f64 (NegInt i) = f64_of_int (sint i)"
| "as_f64 (Float f) = f"

fun number_as_u64 :: "json_number \<Rightarrow> u64 option" where
  "number_as_u64 (PosInt n) = Some n"
| "number_as_u64 _ = None"

fun json_as_u64 :: "json \<Rightarrow> u64 option" where
  "json_as_u64 (JNumber n) = number_as_u64 n"
| "json_as_u64 _ = None"

text \<open>\<open>From<f64>\<close> makes \<open>null\<close> of what is not finite.\<close>

definition json_of_f64 :: "f64 \<Rightarrow> json" where
  "json_of_f64 f = (if f64_is_finite f then JNumber (Float f) else JNull)"

definition json_of_u64 :: "u64 \<Rightarrow> json" where
  "json_of_u64 n = JNumber (PosInt n)"

definition json_of_usize :: "nat \<Rightarrow> json" where
  "json_of_usize n = JNumber (PosInt (of_nat n))"

fun number_eq :: "json_number \<Rightarrow> json_number \<Rightarrow> bool" where
  "number_eq (PosInt m) (PosInt n) = (m = n)"
| "number_eq (NegInt i) (NegInt j) = (i = j)"
| "number_eq (Float f) (Float g) = f64_eq f g"
| "number_eq _ _ = False"

subsection \<open>Objects\<close>

definition obj_get :: "(string \<times> json) list \<Rightarrow> string \<Rightarrow> json option" where
  "obj_get ob k = map_of ob k"

fun obj_insert :: "string \<Rightarrow> json \<Rightarrow> (string \<times> json) list \<Rightarrow> (string \<times> json) list" where
  "obj_insert k v [] = [(k, v)]"
| "obj_insert k v ((k', w) # ob) = (if k = k' then (k, v) # ob else (k', w) # obj_insert k v ob)"

definition obj_remove :: "string \<Rightarrow> (string \<times> json) list \<Rightarrow> (string \<times> json) list" where
  "obj_remove k ob =
     (case dropWhile (\<lambda>(k', _). k' \<noteq> k) ob of
        [] \<Rightarrow> ob
      | _ # [] \<Rightarrow> takeWhile (\<lambda>(k', _). k' \<noteq> k) ob
      | _ # rest \<Rightarrow> takeWhile (\<lambda>(k', _). k' \<noteq> k) ob @ last rest # butlast rest)"

definition obj_collect :: "(string \<times> json) list \<Rightarrow> (string \<times> json) list" where
  "obj_collect kvs = fold (\<lambda>(k, v). obj_insert k v) kvs []"

fun json_eq :: "json \<Rightarrow> json \<Rightarrow> bool" and json_list_eq :: "json list \<Rightarrow> json list \<Rightarrow> bool" where
  "json_eq JNull JNull = True"
| "json_eq (JBool a) (JBool b) = (a = b)"
| "json_eq (JNumber m) (JNumber n) = number_eq m n"
| "json_eq (JString s) (JString t) = (s = t)"
| "json_eq (JArray xs) (JArray ys) = json_list_eq xs ys"
| "json_eq (JObject ob) (JObject p) =
     (length ob = length p \<and>
      list_all (\<lambda>(k, v). case obj_get p k of None \<Rightarrow> False | Some w \<Rightarrow> json_eq v w) ob)"
| "json_eq _ _ = False"
| "json_list_eq [] [] = True"
| "json_list_eq (x # xs) (y # ys) = (json_eq x y \<and> json_list_eq xs ys)"
| "json_list_eq _ _ = False"

subsection \<open>Coercions\<close>

fun bool_value :: "json \<Rightarrow> bool" where
  "bool_value JNull = False"
| "bool_value (JBool b) = b"
| "bool_value (JNumber (PosInt n)) = (n \<noteq> 0)"
| "bool_value (JNumber (NegInt i)) = (i \<noteq> 0)"
| "bool_value (JNumber (Float f)) = (\<not> f64_eq f (f64_zero False))"
| "bool_value (JString s) = (s \<noteq> [])"
| "bool_value (JObject _) = True"
| "bool_value (JArray _) = True"

fun f64_value :: "json \<Rightarrow> f64" where
  "f64_value (JNumber n) = as_f64 n"
| "f64_value _ = NaN"

definition to_json_number :: "f64 \<Rightarrow> json" where
  "to_json_number n =
     (if f64_lt (f64_sub n (f64_trunc n)) f64_epsilon then json_of_u64 (f64_to_u64 n) else json_of_f64 n)"

subsection \<open>Text\<close>

fun nat_to_string :: "nat \<Rightarrow> string" where
  "nat_to_string n =
     (if n < 10 then [char_of (48 + n)] else nat_to_string (n div 10) @ [char_of (48 + n mod 10)])"

declare nat_to_string.simps [simp del]

text \<open>\<open>[String]::join\<close>.\<close>

fun str_join :: "string \<Rightarrow> string list \<Rightarrow> string" where
  "str_join sep [] = []"
| "str_join sep [s] = s"
| "str_join sep (s # t # ts) = s @ sep @ str_join sep (t # ts)"

fun str_contains :: "string \<Rightarrow> string \<Rightarrow> bool" where
  "str_contains needle [] = (needle = [])"
| "str_contains needle (c # cs) = (take (length needle) (c # cs) = needle \<or> str_contains needle cs)"

text \<open>
  \<open>str::replace\<close>: non-overlapping matches from the left. An empty needle matches at each character
  boundary, that is before each byte that does not continue a character, and at the end.
\<close>

definition continues_char :: "char \<Rightarrow> bool" where
  "continues_char c \<longleftrightarrow> of_char c div (64 :: nat) = 2"

fun replace_empty :: "string \<Rightarrow> string \<Rightarrow> string" where
  "replace_empty by [] = by"
| "replace_empty by (c # cs) =
     (if continues_char c then c # replace_empty by cs else by @ c # replace_empty by cs)"

fun replace_from :: "string \<Rightarrow> string \<Rightarrow> nat \<Rightarrow> string \<Rightarrow> string" where
  "replace_from needle by skip [] = []"
| "replace_from needle by (Suc skip) (c # cs) = replace_from needle by skip cs"
| "replace_from needle by 0 (c # cs) =
     (if take (length needle) (c # cs) = needle
      then by @ replace_from needle by (length needle - 1) cs
      else c # replace_from needle by 0 cs)"

definition str_replace :: "string \<Rightarrow> string \<Rightarrow> string \<Rightarrow> string" where
  "str_replace s needle by = (if needle = [] then replace_empty by s else replace_from needle by 0 s)"

subsection \<open>The third-party parts of the expression language\<close>

text \<open>
  \<open>serde_json\<close>'s \<open>Display\<close> and \<open>Number::from_str\<close>, \<open>base64\<close>, \<open>percent_encoding\<close> with its two base sets of
  ASCII characters, \<open>unicode_segmentation\<close>, \<open>regex\<close>, \<open>jsonpath_lib\<close>, \<open>rand\<close> and the clock. A compiled
  regex or JSON path is known by its text. The samples and the time are those of one evaluation: another
  evaluation is another such record.
\<close>

datatype regex = Regex string

datatype json_path_node = Node string

record expr_ext =
  x_display :: "json \<Rightarrow> string"
  x_number_from_str :: "string \<Rightarrow> json_number option"
  x_base64 :: "string \<Rightarrow> string"
  x_percent :: "string \<Rightarrow> (char \<Rightarrow> bool) \<Rightarrow> string"
  x_controls :: "char \<Rightarrow> bool"
  x_non_alphanumeric :: "char \<Rightarrow> bool"
  x_graphemes :: "string \<Rightarrow> string list"
  x_regex_new :: "string \<Rightarrow> regex option"
  x_capture_names :: "regex \<Rightarrow> string option list"
  x_captures :: "regex \<Rightarrow> string \<Rightarrow> string option list option"
  x_jsonpath_compile :: "string \<Rightarrow> json_path_node option"
  x_jsonpath_select :: "json_path_node \<Rightarrow> json \<Rightarrow> json list option"
  x_sample_u64 :: "u64 \<times> u64 \<Rightarrow> u64"
  x_sample_f64 :: "f64 \<times> f64 \<Rightarrow> f64"
  x_since_epoch :: "(u64 \<times> nat) option"

definition json_value_to_string :: "expr_ext \<Rightarrow> json \<Rightarrow> string" where
  "json_value_to_string E v = (case v of JString s \<Rightarrow> s | _ \<Rightarrow> x_display E v)"

subsection \<open>Lemmas\<close>

lemma obj_get_insert: "obj_get (obj_insert k v ob) k' = (if k' = k then Some v else obj_get ob k')"
  by (induction k v ob rule: obj_insert.induct) (auto simp: obj_get_def)

lemma obj_insert_keys: "fst ` set (obj_insert k v ob) = insert k (fst ` set ob)"
  by (induction k v ob rule: obj_insert.induct) auto

lemma obj_insert_distinct: "distinct (map fst ob) \<Longrightarrow> distinct (map fst (obj_insert k v ob))"
  by (induction k v ob rule: obj_insert.induct) (auto simp: obj_insert_keys)

lemma obj_remove_other:
  assumes "k' \<in> fst ` set ob" and "k' \<noteq> k"
  shows "k' \<in> fst ` set (obj_remove k ob)"
proof (cases "dropWhile (\<lambda>(k', _). k' \<noteq> k) ob")
  case (Cons x rest)
  then have "fst x = k"
    by (metis (mono_tags, lifting) case_prod_unfold hd_dropWhile list.sel(1) list.simps(3))
  moreover have "set ob = set (takeWhile (\<lambda>(k', _). k' \<noteq> k) ob) \<union> insert x (set rest)"
    by (metis Cons list.simps(15) set_append takeWhile_dropWhile_id)
  ultimately have member: "k' \<in> fst ` (set (takeWhile (\<lambda>(k', _). k' \<noteq> k) ob) \<union> set rest)"
    using assms by auto
  have "set (obj_remove k ob) = set (takeWhile (\<lambda>(k', _). k' \<noteq> k) ob) \<union> set rest"
  proof (cases rest rule: rev_cases)
    case (snoc ys y)
    then show ?thesis
      using Cons by (cases ys) (auto simp: obj_remove_def)
  qed (use Cons in \<open>simp add: obj_remove_def\<close>)
  with member show ?thesis by (simp only:)
next
  case Nil
  show ?thesis
    unfolding obj_remove_def Nil using assms by simp
qed

lemma to_json_number_int:
  assumes "\<bar>i\<bar> < 2 ^ 53"
  shows "to_json_number (f64_of_int i) = json_of_u64 (of_nat (nat i))"
proof -
  have "f64_sub (f64_of_int i) (f64_trunc (f64_of_int i)) = f64_zero False"
    using assms by (simp add: f64_int f64_of_int_zero)
  moreover have "f64_lt (f64_zero False) f64_epsilon"
    by (simp add: f64_lt_def f64_epsilon_def signed_units_def int_cmp_def Let_def)
  ultimately show ?thesis using assms by (simp add: to_json_number_def f64_to_u64_int)
qed

lemma to_json_number_nat: "n < 2 ^ 53 \<Longrightarrow> to_json_number (f64_of_nat n) = json_of_u64 (of_nat n)"
  using to_json_number_int [of "int n"] by (simp add: f64_of_nat_int)

end
