(* ===== verification/RequiredProviders.thy ===== *)
theory RequiredProviders
  imports Json "HOL-Library.List_Lexorder" "HOL-Library.Char_ord"
begin

text \<open>
  The errors of expressions (\<open>lib/config/src/error.rs\<close>) and the record of the providers an expression
  refers to (\<open>RequiredProviders\<close> of \<open>select_parser.rs\<close>), with the bit flags of the special ones.
\<close>

subsection \<open>Errors\<close>

text \<open>The place in the configuration a value was read from: \<open>yaml_rust\<close>'s index, line and column.\<close>

datatype marker = Marker nat nat nat

datatype exec_error =
    IndexingIntoJson string json marker
  | InvalidFunctionArguments string marker

text \<open>A parse error of the generated parser is kept as its text.\<close>

datatype creating_error =
    Executing exec_error
  | InvalidExpression string marker
  | UnknownFunction string marker
  | UnknownProvider string marker

text \<open>
  Creating an expression may also panic: an \<open>expect\<close> or \<open>unreachable!\<close>, or a third-party function that does.
  \<open>OutOfFuel\<close> is for the model only: templates nest in strings to a depth the fuel bounds.
\<close>

datatype 'e failure = Error 'e | Panics | OutOfFuel

abbreviation invalid_args :: "string \<Rightarrow> marker \<Rightarrow> creating_error failure + 'a" where
  "invalid_args name marker \<equiv> Inl (Error (Executing (InvalidFunctionArguments name marker)))"

text \<open>The errors of a configuration; an error of the YAML scanner is kept as its text.\<close>

datatype config_error =
    ExpressionErr creating_error
  | InvalidDuration string marker
  | InvalidLoadPattern marker
  | InvalidPeakLoad string marker
  | InvalidPercent string marker
  | InvalidYaml string
  | MissingEnvironmentVariable string marker
  | MissingForEach marker
  | MissingPeakLoad marker
  | MissingLoadPattern marker
  | MissingYamlField string marker
  | RecursiveForEachReference marker
  | UnknownLogger string marker
  | UnrecognizedKey string "string option" marker
  | YamlDeserialize "string option" marker

definition creating :: "exec_error + 'a \<Rightarrow> creating_error failure + 'a" where
  "creating r = (case r of Inl e \<Rightarrow> Inl (Error (Executing e)) | Inr a \<Rightarrow> Inr a)"

subsection \<open>Special providers\<close>

unbundle bit_operations_syntax

type_synonym u16 = "16 word"

definition REQUEST_STARTLINE :: u16 where "REQUEST_STARTLINE = 0b0000000100"
definition REQUEST_HEADERS :: u16 where "REQUEST_HEADERS = 0b0000000010"
definition REQUEST_HEADERS_ALL :: u16 where "REQUEST_HEADERS_ALL = 0b100000000000"
definition REQUEST_BODY :: u16 where "REQUEST_BODY = 0b0000000001"
definition REQUEST_METHOD :: u16 where "REQUEST_METHOD = 0b10000000000"
definition RESPONSE_STARTLINE :: u16 where "RESPONSE_STARTLINE = 0b0000100000"
definition RESPONSE_HEADERS :: u16 where "RESPONSE_HEADERS = 0b0000010000"
definition RESPONSE_HEADERS_ALL :: u16 where "RESPONSE_HEADERS_ALL = 0b1000000000000"
definition RESPONSE_BODY :: u16 where "RESPONSE_BODY = 0b0000001000"
definition RESPONSE_STATUS :: u16 where "RESPONSE_STATUS = 0b100000000"
definition FOR_EACH :: u16 where "FOR_EACH = 0b0001000000"
definition STATS :: u16 where "STATS = 0b0010000000"
definition REQUEST_URL :: u16 where "REQUEST_URL = 0b0100000000"
definition ERROR :: u16 where "ERROR = 0b1000000000"

definition REQUEST_ALL :: u16 where
  "REQUEST_ALL = REQUEST_STARTLINE OR REQUEST_HEADERS OR REQUEST_HEADERS_ALL OR REQUEST_BODY OR
     REQUEST_URL OR REQUEST_METHOD"

definition RESPONSE_ALL :: u16 where
  "RESPONSE_ALL = RESPONSE_STARTLINE OR RESPONSE_HEADERS OR RESPONSE_HEADERS_ALL OR RESPONSE_BODY OR
     RESPONSE_STATUS"

text \<open>The flags of a name, \<open>None\<close> for an ordinary provider.\<close>

definition special_flag :: "string \<Rightarrow> u16 option" where
  "special_flag s =
     map_of [(''request.start-line'', REQUEST_STARTLINE), (''request.headers'', REQUEST_HEADERS),
       (''request.headers_all'', REQUEST_HEADERS_ALL), (''request.body'', REQUEST_BODY),
       (''request.method'', REQUEST_METHOD), (''request.url'', REQUEST_URL), (''request'', REQUEST_ALL),
       (''response.start-line'', RESPONSE_STARTLINE), (''response.headers'', RESPONSE_HEADERS),
       (''response.headers_all'', RESPONSE_HEADERS_ALL), (''response.body'', RESPONSE_BODY),
       (''response'', RESPONSE_ALL), (''response.status'', RESPONSE_STATUS), (''stats'', STATS),
       (''for_each'', FOR_EACH), (''error'', ERROR)] s"

record required_providers =
  rp_inner :: "(string \<times> marker) list"
  rp_special :: u16
  rp_where_special :: u16
  rp_is_where :: bool

definition rp_new :: required_providers where
  "rp_new = \<lparr>rp_inner = [], rp_special = 0, rp_where_special = 0, rp_is_where = False\<rparr>"

definition rp_set_where :: "required_providers \<Rightarrow> required_providers" where
  "rp_set_where p = p\<lparr>rp_is_where := True\<rparr>"

definition rp_insert :: "string \<Rightarrow> marker \<Rightarrow> required_providers \<Rightarrow> required_providers" where
  "rp_insert s marker p =
     (case special_flag s of
        Some f \<Rightarrow>
          if rp_is_where p
          then p\<lparr>rp_where_special := rp_where_special p OR f\<rparr>
          else p\<lparr>rp_special := rp_special p OR f\<rparr>
      | None \<Rightarrow> p\<lparr>rp_inner := bt_insert s marker (rp_inner p)\<rparr>)"

definition rp_remove :: "string \<Rightarrow> required_providers \<Rightarrow> required_providers" where
  "rp_remove s p = p\<lparr>rp_inner := bt_remove s (rp_inner p)\<rparr>"

definition rp_extend :: "required_providers \<Rightarrow> required_providers \<Rightarrow> required_providers" where
  "rp_extend p other = p\<lparr>rp_special := rp_special p OR rp_special other,
     rp_where_special := rp_where_special p OR rp_special other,
     rp_inner := bt_extend (rp_inner p) (rp_inner other)\<rparr>"

definition unique_providers :: "required_providers \<Rightarrow> string list" where
  "unique_providers p = map fst (rp_inner p)"

definition rp_contains :: "required_providers \<Rightarrow> string \<Rightarrow> bool" where
  "rp_contains p s \<longleftrightarrow> map_of (rp_inner p) s \<noteq> None"

definition rp_is_empty :: "required_providers \<Rightarrow> bool" where
  "rp_is_empty p \<longleftrightarrow> rp_special p = 0 \<and> rp_inner p = []"

text \<open>Bits are only ever added.\<close>

definition rp_le :: "required_providers \<Rightarrow> required_providers \<Rightarrow> bool" where
  "rp_le p q \<longleftrightarrow> bt_keys (rp_inner p) \<subseteq> bt_keys (rp_inner q) \<and> rp_special p OR rp_special q = rp_special q \<and>
     rp_where_special p OR rp_where_special q = rp_where_special q \<and> rp_is_where q = rp_is_where p"

lemma rp_le_refl [simp, intro]: "rp_le p p"
  by (simp add: rp_le_def)

lemma word_or_absorb_trans: "a OR b = b \<Longrightarrow> b OR c = c \<Longrightarrow> a OR c = (c :: 'a :: len word)"
  by (metis or.assoc)

lemma rp_le_trans: "rp_le p q \<Longrightarrow> rp_le q r \<Longrightarrow> rp_le p r"
  by (auto simp: rp_le_def dest: word_or_absorb_trans)

lemma rp_le_insert: "rp_le p (rp_insert s m p)"
  by (auto simp: rp_le_def rp_insert_def or.left_commute split: option.splits)

lemma rp_le_extend: "rp_le p (rp_extend p q)"
  by (auto simp: rp_le_def rp_extend_def)

lemma rp_extend_covers:
  "bt_keys (rp_inner q) \<subseteq> bt_keys (rp_inner (rp_extend p q))"
  "rp_special q OR rp_special (rp_extend p q) = rp_special (rp_extend p q)"
  by (auto simp: rp_extend_def or.left_commute)

end
