(* ===== verification/ExprFunctions.thy ===== *)
theory ExprFunctions
  imports Streams RequiredProviders
begin

text \<open>
  The helper functions of expressions (\<open>lib/config/src/expression_functions.rs\<close>): for each, its data,
  \<open>new\<close> from the parsed arguments, \<open>evaluate\<close> and \<open>evaluate_as_iter\<close>. The type \<open>'a\<close> of an argument is the
  expression type, which contains these functions in turn: \<open>ev\<close> is the evaluation of an argument and \<open>lit\<close>
  its JSON value when it is a literal, as the patterns \<open>ValueOrExpression::Value(Value::Json(_))\<close> ask.
\<close>

type_synonym 'a evaluator = "'a \<Rightarrow> json cow \<Rightarrow> bool \<Rightarrow> json cow list option \<Rightarrow> exec_error + json cow"

type_synonym 'a creating = "creating_error failure + 'a"

definition borrow :: "json cow \<Rightarrow> json cow" where
  "borrow d = Borrowed (into_owned d)"

text \<open>\<open>Uniform::new(low, high)\<close> panics unless \<open>low < high\<close>, and for floats unless both are finite.\<close>

definition uniform_u64 :: "u64 \<Rightarrow> u64 \<Rightarrow> (u64 \<times> u64) creating" where
  "uniform_u64 low high = (if low < high then Inr (low, high) else Inl Panics)"

definition uniform_f64 :: "f64 \<Rightarrow> f64 \<Rightarrow> (f64 \<times> f64) creating" where
  "uniform_f64 low high =
     (if f64_is_finite low \<and> f64_is_finite high \<and> f64_lt low high then Inr (low, high) else Inl Panics)"

text \<open>Literal arguments.\<close>

definition into_string :: "('a \<Rightarrow> json option) \<Rightarrow> 'a \<Rightarrow> string option" where
  "into_string lit fa = (case lit fa of Some (JString s) \<Rightarrow> Some s | _ \<Rightarrow> None)"

definition as_u64 :: "('a \<Rightarrow> json option) \<Rightarrow> 'a \<Rightarrow> u64 option" where
  "as_u64 lit fa =
     (case lit fa of
        Some (JNumber (PosInt n)) \<Rightarrow> Some n
      | Some (JNumber (Float f)) \<Rightarrow> Some (f64_to_u64 f)
      | _ \<Rightarrow> None)"

definition as_u64_or :: "string \<Rightarrow> marker \<Rightarrow> ('a \<Rightarrow> json option) \<Rightarrow> 'a \<Rightarrow> u64 creating" where
  "as_u64_or name marker lit fa = (case as_u64 lit fa of Some n \<Rightarrow> Inr n | None \<Rightarrow> invalid_args name marker)"

subsection \<open>\<open>collect\<close>\<close>

datatype 'a collect = Collect (collect_arg: 'a) (collect_min: u64) (collect_random: "(u64 \<times> u64) option")

definition collect_new :: "('a \<Rightarrow> json option) \<Rightarrow> 'a list \<Rightarrow> marker \<Rightarrow> 'a collect creating" where
  "collect_new lit args marker =
     (case args of
        [first, second] \<Rightarrow>
          res_bind (as_u64_or ''collect'' marker lit second) (\<lambda>min. Inr (Collect first min None))
      | [first, second, third] \<Rightarrow>
          res_bind (as_u64_or ''collect'' marker lit second) (\<lambda>min.
          res_bind (as_u64_or ''collect'' marker lit third) (\<lambda>max.
          res_bind (uniform_u64 min max) (\<lambda>r. Inr (Collect first min (Some r)))))
      | _ \<Rightarrow> invalid_args ''collect'' marker)"

definition collect_evaluate :: "'a evaluator \<Rightarrow> 'a collect evaluator" where
  "collect_evaluate ev c d nre for_each = ev (collect_arg c) d nre for_each"

subsection \<open>\<open>encode\<close>\<close>

datatype encoding =
  Base64 | PercentSimple | PercentQuery | Percent | PercentPath | PercentUserinfo | NonAlphanumeric

definition ascii_add :: "char \<Rightarrow> (char \<Rightarrow> bool) \<Rightarrow> char \<Rightarrow> bool" where
  "ascii_add b S = (\<lambda>c. c = b \<or> S c)"

definition QUERY_ENCODE_SET :: "expr_ext \<Rightarrow> char \<Rightarrow> bool" where
  "QUERY_ENCODE_SET E = fold ascii_add [CHR '' '', CHR 0x22, CHR ''#'', CHR ''<'', CHR ''>''] (x_controls E)"

definition DEFAULT_ENCODE_SET :: "expr_ext \<Rightarrow> char \<Rightarrow> bool" where
  "DEFAULT_ENCODE_SET E = fold ascii_add [CHR 0x60, CHR ''?'', CHR ''{'', CHR ''}''] (QUERY_ENCODE_SET E)"

definition PATH_SEGMENT_ENCODE_SET :: "expr_ext \<Rightarrow> char \<Rightarrow> bool" where
  "PATH_SEGMENT_ENCODE_SET E = fold ascii_add [CHR ''%'', CHR ''/''] (DEFAULT_ENCODE_SET E)"

definition USERINFO_ENCODE_SET :: "expr_ext \<Rightarrow> char \<Rightarrow> bool" where
  "USERINFO_ENCODE_SET E =
     fold ascii_add [CHR ''/'', CHR '':'', CHR '';'', CHR ''='', CHR 0x40, CHR ''['', CHR 0x5C, CHR '']'',
       CHR 0x5E, CHR ''|''] (DEFAULT_ENCODE_SET E)"

definition encoding_encode :: "expr_ext \<Rightarrow> encoding \<Rightarrow> json \<Rightarrow> string" where
  "encoding_encode E enc d =
     (let s = json_value_to_string E d
      in case enc of
           Base64 \<Rightarrow> x_base64 E s
         | PercentSimple \<Rightarrow> x_percent E s (x_controls E)
         | PercentQuery \<Rightarrow> x_percent E s (QUERY_ENCODE_SET E)
         | Percent \<Rightarrow> x_percent E s (DEFAULT_ENCODE_SET E)
         | PercentPath \<Rightarrow> x_percent E s (PATH_SEGMENT_ENCODE_SET E)
         | PercentUserinfo \<Rightarrow> x_percent E s (USERINFO_ENCODE_SET E)
         | NonAlphanumeric \<Rightarrow> x_percent E s (x_non_alphanumeric E))"

definition encoding_try_from :: "string \<Rightarrow> marker \<Rightarrow> encoding creating" where
  "encoding_try_from s marker =
     (case map_of [(''base64'', Base64), (''percent-simple'', PercentSimple), (''percent-query'', PercentQuery),
        (''percent'', Percent), (''percent-path'', PercentPath), (''percent-userinfo'', PercentUserinfo),
        (''non-alphanumeric'', NonAlphanumeric)] s of
        Some e \<Rightarrow> Inr e
      | None \<Rightarrow> invalid_args ''encode'' marker)"

datatype 'a encode = Encode (encode_arg: 'a) (encode_encoding: encoding)

definition encode_with_arg :: "expr_ext \<Rightarrow> encoding \<Rightarrow> json \<Rightarrow> json" where
  "encode_with_arg E enc d = JString (encoding_encode E enc d)"

definition encode_new ::
    "expr_ext \<Rightarrow> ('a \<Rightarrow> json option) \<Rightarrow> 'a list \<Rightarrow> marker \<Rightarrow> ('a encode, json) either creating" where
  "encode_new E lit args marker =
     (case args of
        [arg, enc] \<Rightarrow>
          (case lit enc of
             Some (JString s) \<Rightarrow>
               res_bind (encoding_try_from s marker) (\<lambda>encoding.
                 Inr (case lit arg of
                        Some json \<Rightarrow> B (encode_with_arg E encoding json)
                      | None \<Rightarrow> A (Encode arg encoding)))
           | _ \<Rightarrow> invalid_args ''encode'' marker)
      | _ \<Rightarrow> invalid_args ''encode'' marker)"

definition encode_evaluate :: "expr_ext \<Rightarrow> 'a evaluator \<Rightarrow> 'a encode evaluator" where
  "encode_evaluate E ev c d nre for_each =
     res_map (\<lambda>v. Owned (encode_with_arg E (encode_encoding c) (into_owned v))) (ev (encode_arg c) d nre for_each)"

subsection \<open>\<open>entries\<close>\<close>

datatype 'a entries = Entries (entries_arg: 'a)

definition entries_new :: "'a list \<Rightarrow> marker \<Rightarrow> 'a entries creating" where
  "entries_new args marker = (case args of [arg] \<Rightarrow> Inr (Entries arg) | _ \<Rightarrow> invalid_args ''entries'' marker)"

definition entries_with_arg :: "expr_ext \<Rightarrow> json cow \<Rightarrow> (json cow, json cow list) either" where
  "entries_with_arg E d =
     (case into_owned d of
        JArray v \<Rightarrow> B (map (\<lambda>(i, e). Owned (JArray [json_of_usize i, e])) (enumerate 0 v))
      | JObject m \<Rightarrow> B (map (\<lambda>(k, v). Owned (JArray [JString k, v])) m)
      | JString s \<Rightarrow> B (map (\<lambda>(i, c). Owned (JArray [json_of_usize i, JString c])) (enumerate 0 (x_graphemes E s)))
      | _ \<Rightarrow> A d)"

definition entries_as_iter ::
    "expr_ext \<Rightarrow> 'a evaluator \<Rightarrow> 'a entries \<Rightarrow> json cow \<Rightarrow> bool \<Rightarrow> json cow list option \<Rightarrow> exec_error + json cow list" where
  "entries_as_iter E ev c d nre for_each =
     res_map (\<lambda>v. either_unwrap (map_a (\<lambda>a. [a]) (entries_with_arg E v))) (ev (entries_arg c) d nre for_each)"

definition entries_evaluate :: "expr_ext \<Rightarrow> 'a evaluator \<Rightarrow> 'a entries evaluator" where
  "entries_evaluate E ev c d nre for_each =
     res_map (\<lambda>v. either_unwrap (map_b (\<lambda>i. Owned (JArray (map into_owned i))) (entries_with_arg E v)))
       (ev (entries_arg c) d nre for_each)"

subsection \<open>\<open>epoch\<close>\<close>

datatype epoch = Seconds | Milliseconds | Microseconds | Nanoseconds

definition epoch_new :: "('a \<Rightarrow> json option) \<Rightarrow> 'a list \<Rightarrow> marker \<Rightarrow> epoch creating" where
  "epoch_new lit args marker =
     (case args of
        [unit] \<Rightarrow>
          (case lit unit of
             Some (JString s) \<Rightarrow>
               (case map_of [(''s'', Seconds), (''ms'', Milliseconds), (''mu'', Microseconds), (''ns'', Nanoseconds)] s of
                  Some e \<Rightarrow> Inr e
                | None \<Rightarrow> invalid_args ''epoch'' marker)
           | _ \<Rightarrow> invalid_args ''epoch'' marker)
      | _ \<Rightarrow> invalid_args ''epoch'' marker)"

text \<open>A duration is its seconds and nanoseconds; the clock gives none when it is before the epoch.\<close>

definition epoch_evaluate :: "expr_ext \<Rightarrow> epoch \<Rightarrow> exec_error + json cow" where
  "epoch_evaluate E e =
     (let (secs, nanos) = (case x_since_epoch E of Some t \<Rightarrow> t | None \<Rightarrow> (0, 0));
          n = (case e of
                 Seconds \<Rightarrow> unat secs
               | Milliseconds \<Rightarrow> unat secs * 1000 + nanos div 1000000
               | Microseconds \<Rightarrow> unat secs * 1000000 + nanos div 1000
               | Nanoseconds \<Rightarrow> unat secs * 1000000000 + nanos)
      in Inr (Owned (JString (nat_to_string n))))"

subsection \<open>\<open>if\<close>\<close>

datatype 'a if_fn = IfFn (if_first: 'a) (if_second: 'a) (if_third: 'a)

definition if_new :: "('a \<Rightarrow> json option) \<Rightarrow> 'a list \<Rightarrow> marker \<Rightarrow> ('a if_fn, json) either creating" where
  "if_new lit args marker =
     (case args of
        [first, second, third] \<Rightarrow>
          Inr (case (lit first, lit second, lit third) of
                 (Some f, Some s, t) \<Rightarrow>
                   if bool_value f then B s
                   else (case t of Some t' \<Rightarrow> B t' | None \<Rightarrow> A (IfFn first second third))
               | (Some f, None, Some t) \<Rightarrow> if \<not> bool_value f then B t else A (IfFn first second third)
               | _ \<Rightarrow> A (IfFn first second third))
      | _ \<Rightarrow> invalid_args ''if'' marker)"

definition if_evaluate :: "'a evaluator \<Rightarrow> 'a if_fn evaluator" where
  "if_evaluate ev c d nre for_each =
     res_bind (ev (if_first c) (borrow d) nre for_each) (\<lambda>first.
       if bool_value (into_owned first) then ev (if_second c) d nre for_each
       else ev (if_third c) d nre for_each)"

subsection \<open>\<open>join\<close>\<close>

datatype 'a join_fn = Join (join_arg: 'a) (join_sep: string) (join_sep2: "string option")

definition join_with_arg :: "expr_ext \<Rightarrow> string \<Rightarrow> string option \<Rightarrow> json \<Rightarrow> json" where
  "join_with_arg E sep sep2 d =
     JString (case (d, sep2) of
        (JArray v, _) \<Rightarrow> str_join sep (map (json_value_to_string E) v)
      | (JObject m, Some s2) \<Rightarrow> str_join sep (map (\<lambda>(k, v). k @ s2 @ json_value_to_string E v) m)
      | _ \<Rightarrow> json_value_to_string E d)"

definition join_new ::
    "expr_ext \<Rightarrow> ('a \<Rightarrow> json option) \<Rightarrow> 'a list \<Rightarrow> marker \<Rightarrow> ('a join_fn, json) either creating" where
  "join_new E lit args marker =
     (case args of
        [one, two] \<Rightarrow>
          (case lit two of
             Some (JString sep) \<Rightarrow>
               Inr (case lit one of Some json \<Rightarrow> B (join_with_arg E sep None json) | None \<Rightarrow> A (Join one sep None))
           | _ \<Rightarrow> invalid_args ''join'' marker)
      | [one, two, three] \<Rightarrow>
          (case (lit two, lit three) of
             (Some (JString sep), Some (JString sep2)) \<Rightarrow>
               Inr (case lit one of
                      Some json \<Rightarrow> B (join_with_arg E sep (Some sep2) json)
                    | None \<Rightarrow> A (Join one sep (Some sep2)))
           | _ \<Rightarrow> invalid_args ''join'' marker)
      | _ \<Rightarrow> invalid_args ''join'' marker)"

definition join_evaluate :: "expr_ext \<Rightarrow> 'a evaluator \<Rightarrow> 'a join_fn evaluator" where
  "join_evaluate E ev c d nre for_each =
     res_map (\<lambda>v. Owned (join_with_arg E (join_sep c) (join_sep2 c) (into_owned v))) (ev (join_arg c) d nre for_each)"

subsection \<open>\<open>json_path\<close>\<close>

datatype json_path = JsonPath (jp_provider: string) (jp_selector: json_path_node) (jp_marker: marker)

definition json_path_to_vec :: "expr_ext \<Rightarrow> json_path \<Rightarrow> json \<Rightarrow> json list" where
  "json_path_to_vec E j d = (case x_jsonpath_select E (jp_selector j) d of Some vs \<Rightarrow> vs | None \<Rightarrow> [])"

text \<open>The name before the first dot or bracket, or the first two when the first is \<open>request\<close> or \<open>response\<close>.\<close>

definition param_name_re :: string where
  "param_name_re = ''^((?:request'' @ [CHR 0x5C] @ ''.|response'' @ [CHR 0x5C] @ ''.)?[^'' @ [CHR 0x5C] @ ''[.]*)''"

definition json_path_provider :: "expr_ext \<Rightarrow> string \<Rightarrow> marker \<Rightarrow> string creating" where
  "json_path_provider E path marker =
     (case x_regex_new E param_name_re of
        None \<Rightarrow> Inl Panics
      | Some re \<Rightarrow>
          (case x_captures E re path of
             None \<Rightarrow> invalid_args ''json_path'' marker
           | Some (_ # Some name # _) \<Rightarrow> Inr name
           | Some _ \<Rightarrow> Inl Panics))"

definition json_path_new ::
    "expr_ext \<Rightarrow> ('a \<Rightarrow> json option) \<Rightarrow> 'a list \<Rightarrow> required_providers \<Rightarrow> (string \<rightharpoonup> json) \<Rightarrow> marker \<Rightarrow>
     ((json_path, json) either \<times> required_providers) creating" where
  "json_path_new E lit args providers static_vars marker =
     (case args of
        [arg] \<Rightarrow>
          (case lit arg of
             Some (JString path) \<Rightarrow>
               res_bind (json_path_provider E path marker) (\<lambda>provider.
                 let full = (if take 1 path = ''['' then ''$'' @ path else ''$.'' @ path)
                 in case x_jsonpath_compile E full of
                      None \<Rightarrow> invalid_args ''json_path'' marker
                    | Some node \<Rightarrow>
                        let j = JsonPath provider node marker
                        in Inr (case static_vars provider of
                                  Some v \<Rightarrow> (B (JArray (json_path_to_vec E j (JObject [(provider, v)]))), providers)
                                | None \<Rightarrow> (A j, rp_insert provider marker providers)))
           | _ \<Rightarrow> invalid_args ''json_path'' marker)
      | _ \<Rightarrow> invalid_args ''json_path'' marker)"

definition json_path_evaluate :: "expr_ext \<Rightarrow> json_path \<Rightarrow> json cow \<Rightarrow> json cow" where
  "json_path_evaluate E j d = Owned (JArray (json_path_to_vec E j (into_owned d)))"

definition json_path_as_iter :: "expr_ext \<Rightarrow> json_path \<Rightarrow> json cow \<Rightarrow> json cow list" where
  "json_path_as_iter E j d = map Owned (json_path_to_vec E j (into_owned d))"

subsection \<open>\<open>match\<close>\<close>

datatype 'a match_fn = Match (match_arg: 'a) (match_capture_names: "string list") (match_regex: regex)

definition capture_names :: "expr_ext \<Rightarrow> regex \<Rightarrow> string list" where
  "capture_names E re =
     map (\<lambda>(i, n). case n of Some s \<Rightarrow> s | None \<Rightarrow> nat_to_string i) (enumerate 0 (x_capture_names E re))"

definition match_with_arg :: "expr_ext \<Rightarrow> regex \<Rightarrow> string list \<Rightarrow> json \<Rightarrow> json" where
  "match_with_arg E re names d =
     (case x_captures E re (json_value_to_string E d) of
        Some captures \<Rightarrow>
          JObject (obj_collect (map (\<lambda>(name, c). (name, case c of Some t \<Rightarrow> JString t | None \<Rightarrow> JNull))
            (zip names captures)))
      | None \<Rightarrow> JNull)"

definition match_new ::
    "expr_ext \<Rightarrow> ('a \<Rightarrow> json option) \<Rightarrow> 'a list \<Rightarrow> marker \<Rightarrow> ('a match_fn, json) either creating" where
  "match_new E lit args marker =
     (case args of
        [arg, re] \<Rightarrow>
          (case lit re of
             Some (JString regex_str) \<Rightarrow>
               (case x_regex_new E regex_str of
                  None \<Rightarrow> invalid_args ''match'' marker
                | Some r \<Rightarrow>
                    let names = capture_names E r
                    in Inr (case lit arg of
                              Some json \<Rightarrow> B (match_with_arg E r names json)
                            | None \<Rightarrow> A (Match arg names r)))
           | _ \<Rightarrow> invalid_args ''match'' marker)
      | _ \<Rightarrow> invalid_args ''match'' marker)"

definition match_evaluate :: "expr_ext \<Rightarrow> 'a evaluator \<Rightarrow> 'a match_fn evaluator" where
  "match_evaluate E ev c d nre for_each =
     res_map (\<lambda>v. Owned (match_with_arg E (match_regex c) (match_capture_names c) (into_owned v)))
       (ev (match_arg c) d nre for_each)"

subsection \<open>\<open>min\<close> and \<open>max\<close>\<close>

datatype 'a min_max = MinMax (min_max_args: "'a list") (min_max_min: bool)

text \<open>What a comparison of the best value so far with the next one says: keep, take, or neither is a number.\<close>

datatype choice = Keep | Take | Neither

definition min_max_choice :: "bool \<Rightarrow> f64 \<Rightarrow> f64 \<Rightarrow> choice" where
  "min_max_choice mn l r =
     (case (f64_partial_cmp l r, mn, f64_is_finite l) of
        (Some Less, True, _) \<Rightarrow> Keep
      | (Some Greater, False, _) \<Rightarrow> Keep
      | (None, _, True) \<Rightarrow> Keep
      | _ \<Rightarrow> if f64_is_finite r then Take else Neither)"

fun eval_iter :: "bool \<Rightarrow> json cow \<times> nat \<Rightarrow> (exec_error + json cow) list \<Rightarrow> exec_error + json cow \<times> nat" where
  "eval_iter mn acc [] = Inr acc"
| "eval_iter mn acc (Inl e # rest) = Inl e"
| "eval_iter mn (left, count) (Inr right # rest) =
     eval_iter mn
       (case min_max_choice mn (f64_value (into_owned left)) (f64_value (into_owned right)) of
          Keep \<Rightarrow> left | Take \<Rightarrow> right | Neither \<Rightarrow> Owned JNull,
        count + 1) rest"

definition min_max_new :: "('a \<Rightarrow> json option) \<Rightarrow> bool \<Rightarrow> 'a list \<Rightarrow> ('a min_max, json) either creating" where
  "min_max_new lit mn args =
     creating (res_map (\<lambda>(v, count). if count = length args then B (into_owned v) else A (MinMax args mn))
       (eval_iter mn (Owned JNull, 0) (map (\<lambda>j. Inr (Borrowed j)) (List.map_filter lit args))))"

fun min_max_loop ::
    "'a evaluator \<Rightarrow> bool \<Rightarrow> json cow \<Rightarrow> bool \<Rightarrow> json cow list option \<Rightarrow> (f64 \<times> json) option \<Rightarrow> 'a list \<Rightarrow>
     exec_error + (f64 \<times> json) option" where
  "min_max_loop ev mn d nre for_each left [] = Inr left"
| "min_max_loop ev mn d nre for_each left (fa # fas) =
     res_bind (ev fa (borrow d) nre for_each) (\<lambda>right.
       let r = f64_value (into_owned right);
           left' = (case left of
                      Some (l, v) \<Rightarrow>
                        (case min_max_choice mn l r of Take \<Rightarrow> Some (r, into_owned right) | _ \<Rightarrow> Some (l, v))
                    | None \<Rightarrow> if f64_is_finite r then Some (r, into_owned right) else None)
       in min_max_loop ev mn d nre for_each left' fas)"

definition min_max_evaluate :: "'a evaluator \<Rightarrow> 'a min_max evaluator" where
  "min_max_evaluate ev c d nre for_each =
     res_map (\<lambda>left. Owned (case left of Some (_, v) \<Rightarrow> v | None \<Rightarrow> JNull))
       (min_max_loop ev (min_max_min c) d nre for_each None (min_max_args c))"

subsection \<open>\<open>start_pad\<close> and \<open>end_pad\<close>\<close>

datatype 'a pad = Pad (pad_start: bool) (pad_arg: 'a) (pad_min_length: nat) (pad_padding: string)

text \<open>\<open>xs.cycle().take(n)\<close>.\<close>

definition cycle_take :: "nat \<Rightarrow> 'b list \<Rightarrow> 'b list" where
  "cycle_take n xs = (if xs = [] then [] else map (\<lambda>i. xs ! (i mod length xs)) [0..<n])"

definition pad_with_arg :: "expr_ext \<Rightarrow> string \<Rightarrow> nat \<Rightarrow> bool \<Rightarrow> json \<Rightarrow> json" where
  "pad_with_arg E pad_str min_length start d =
     (let string_to_pad = json_value_to_string E d;
          diff = min_length - length (x_graphemes E string_to_pad);
          padding = concat (cycle_take diff (x_graphemes E pad_str))
      in JString (if start then padding @ string_to_pad else string_to_pad @ padding))"

definition pad_new ::
    "expr_ext \<Rightarrow> ('a \<Rightarrow> json option) \<Rightarrow> bool \<Rightarrow> 'a list \<Rightarrow> marker \<Rightarrow> ('a pad, json) either creating" where
  "pad_new E lit start args marker =
     (case args of
        [first, second, third] \<Rightarrow>
          (case (lit second, lit third) of
             (Some (JNumber (PosInt n)), Some (JString padding)) \<Rightarrow>
               Inr (case lit first of
                      Some json \<Rightarrow> B (pad_with_arg E padding (unat n) start json)
                    | None \<Rightarrow> A (Pad start first (unat n) padding))
           | _ \<Rightarrow> invalid_args ''pad'' marker)
      | _ \<Rightarrow> invalid_args ''pad'' marker)"

definition pad_evaluate :: "expr_ext \<Rightarrow> 'a evaluator \<Rightarrow> 'a pad evaluator" where
  "pad_evaluate E ev c d nre for_each =
     res_map (\<lambda>v. Owned (pad_with_arg E (pad_padding c) (pad_min_length c) (pad_start c) (into_owned v)))
       (ev (pad_arg c) d nre for_each)"

subsection \<open>\<open>random\<close>\<close>

datatype random = RandomInteger "u64 \<times> u64" | RandomFloat "f64 \<times> f64"

definition random_new :: "('a \<Rightarrow> json option) \<Rightarrow> 'a list \<Rightarrow> marker \<Rightarrow> random creating" where
  "random_new lit args marker =
     (case args of
        [first, second] \<Rightarrow>
          (case (lit first, lit second) of
             (Some (JNumber m), Some (JNumber n)) \<Rightarrow>
               (case (m, n) of
                  (PosInt a, PosInt b) \<Rightarrow> res_map RandomInteger (uniform_u64 a b)
                | _ \<Rightarrow> res_map RandomFloat (uniform_f64 (as_f64 m) (as_f64 n)))
           | _ \<Rightarrow> invalid_args ''random'' marker)
      | _ \<Rightarrow> invalid_args ''random'' marker)"

fun random_evaluate :: "expr_ext \<Rightarrow> random \<Rightarrow> json cow" where
  "random_evaluate E (RandomInteger r) = Owned (json_of_u64 (x_sample_u64 E r))"
| "random_evaluate E (RandomFloat r) = Owned (json_of_f64 (x_sample_f64 E r))"

subsection \<open>\<open>range\<close> and \<open>repeat\<close>\<close>

record reversible_range =
  range_start :: u64
  range_end :: u64
  range_reverse :: bool

text \<open>The additions wrap: the release profile has no overflow checks.\<close>

definition reversible_range_new :: "u64 \<Rightarrow> u64 \<Rightarrow> reversible_range" where
  "reversible_range_new first second =
     (if first > second
      then \<lparr>range_start = second + 1, range_end = first + 1, range_reverse = True\<rparr>
      else \<lparr>range_start = first, range_end = second, range_reverse = False\<rparr>)"

definition range_into_iter :: "reversible_range \<Rightarrow> json cow list" where
  "range_into_iter r =
     (let ns = [unat (range_start r)..<unat (range_end r)]
      in map (\<lambda>n. Owned (json_of_u64 (of_nat n))) (if range_reverse r then rev ns else ns))"

datatype 'a range_fn = Args 'a 'a marker | Range reversible_range

definition range_new :: "('a \<Rightarrow> json option) \<Rightarrow> 'a list \<Rightarrow> marker \<Rightarrow> 'a range_fn creating" where
  "range_new lit args marker =
     (case args of
        [first, second] \<Rightarrow>
          if lit first \<noteq> None \<and> lit second \<noteq> None
          then res_bind (as_u64_or ''range'' marker lit first) (\<lambda>a.
               res_bind (as_u64_or ''range'' marker lit second) (\<lambda>b.
               Inr (Range (reversible_range_new a b))))
          else Inr (Args first second marker)
      | _ \<Rightarrow> invalid_args ''range'' marker)"

definition range_arg :: "marker \<Rightarrow> json \<Rightarrow> exec_error + u64" where
  "range_arg marker v =
     (case json_as_u64 v of Some n \<Rightarrow> Inr n | None \<Rightarrow> Inl (InvalidFunctionArguments ''range'' marker))"

fun range_as_iter ::
    "'a evaluator \<Rightarrow> 'a range_fn \<Rightarrow> json cow \<Rightarrow> bool \<Rightarrow> json cow list option \<Rightarrow> exec_error + json cow list" where
  "range_as_iter ev (Args first second marker) d nre for_each =
     res_bind (ev first (borrow d) nre for_each) (\<lambda>v1.
     res_bind (range_arg marker (into_owned v1)) (\<lambda>a.
     res_bind (ev second d nre for_each) (\<lambda>v2.
     res_bind (range_arg marker (into_owned v2)) (\<lambda>b.
     Inr (range_into_iter (reversible_range_new a b))))))"
| "range_as_iter ev (Range r) d nre for_each = Inr (range_into_iter r)"

definition range_evaluate :: "'a evaluator \<Rightarrow> 'a range_fn evaluator" where
  "range_evaluate ev c d nre for_each =
     res_map (\<lambda>vs. Owned (JArray (map into_owned vs))) (range_as_iter ev c d nre for_each)"

datatype repeat = Repeat (repeat_min: u64) (repeat_random: "(u64 \<times> u64) option")

definition repeat_new :: "('a \<Rightarrow> json option) \<Rightarrow> 'a list \<Rightarrow> marker \<Rightarrow> repeat creating" where
  "repeat_new lit args marker =
     (case args of
        [first] \<Rightarrow> res_bind (as_u64_or ''repeat'' marker lit first) (\<lambda>n. Inr (Repeat n None))
      | [first, second] \<Rightarrow>
          res_bind (as_u64_or ''repeat'' marker lit first) (\<lambda>n.
          res_bind (as_u64_or ''repeat'' marker lit second) (\<lambda>max.
          res_bind (uniform_u64 n max) (\<lambda>r. Inr (Repeat n (Some r)))))
      | _ \<Rightarrow> invalid_args ''repeat'' marker)"

definition repeat_as_iter :: "expr_ext \<Rightarrow> repeat \<Rightarrow> json cow list" where
  "repeat_as_iter E r =
     replicate (unat (case repeat_random r of Some u \<Rightarrow> x_sample_u64 E u | None \<Rightarrow> repeat_min r)) (Owned JNull)"

definition repeat_evaluate :: "expr_ext \<Rightarrow> repeat \<Rightarrow> json cow" where
  "repeat_evaluate E r = Owned (JArray (map into_owned (repeat_as_iter E r)))"

subsection \<open>\<open>replace\<close>\<close>

datatype 'a replace_fn = Replace (replace_needle: 'a) (replace_haystack: 'a) (replace_replacer: 'a)

text \<open>
  The keys that contain the needle are renamed after the values are changed, in the order of the keys: the
  entry is removed under the old key and inserted under the new one. Its \<open>expect\<close> never fails (\<open>rename_keys_expect\<close> below).
\<close>

definition rename_key :: "string \<times> string \<Rightarrow> (string \<times> json) list \<Rightarrow> (string \<times> json) list" where
  "rename_key = (\<lambda>(old_key, new_key) m.
     case obj_get m old_key of
       Some v \<Rightarrow> obj_insert new_key v (obj_remove old_key m)
     | None \<Rightarrow> m)"

definition key_changes :: "string \<Rightarrow> string \<Rightarrow> (string \<times> json) list \<Rightarrow> (string \<times> string) list" where
  "key_changes needle replacer m =
     map (\<lambda>(k, v). (k, str_replace k needle replacer)) (filter (\<lambda>(k, v). str_contains needle k) m)"

fun replace_in :: "string \<Rightarrow> string \<Rightarrow> json \<Rightarrow> json" where
  "replace_in needle replacer (JString s) =
     JString (if str_contains needle s then str_replace s needle replacer else s)"
| "replace_in needle replacer (JArray a) = JArray (map (replace_in needle replacer) a)"
| "replace_in needle replacer (JObject m) =
     JObject (fold rename_key (key_changes needle replacer m) (map (\<lambda>(k, v). (k, replace_in needle replacer v)) m))"
| "replace_in needle replacer v = v"

definition replace_new ::
    "('a \<Rightarrow> json option) \<Rightarrow> 'a list \<Rightarrow> marker \<Rightarrow> ('a replace_fn, json) either creating" where
  "replace_new lit args marker =
     (case args of
        [needle, haystack, replacer] \<Rightarrow>
          Inr (case (lit needle, lit haystack, lit replacer) of
                 (Some (JString n), Some h, Some (JString r)) \<Rightarrow> B (replace_in n r h)
               | _ \<Rightarrow> A (Replace needle haystack replacer))
      | _ \<Rightarrow> invalid_args ''match'' marker)"

text \<open>\<open>to_mut\<close> makes the haystack owned.\<close>

definition replace_evaluate :: "expr_ext \<Rightarrow> 'a evaluator \<Rightarrow> 'a replace_fn evaluator" where
  "replace_evaluate E ev c d nre for_each =
     res_bind (ev (replace_needle c) (borrow d) nre for_each) (\<lambda>needle.
     res_bind (ev (replace_replacer c) (borrow d) nre for_each) (\<lambda>replacer.
     res_bind (ev (replace_haystack c) d nre for_each) (\<lambda>haystack.
     Inr (Owned (replace_in (json_value_to_string E (into_owned needle))
       (json_value_to_string E (into_owned replacer)) (into_owned haystack))))))"

text \<open>The keys of a JSON object are distinct, so a key that is to be renamed is still there when its turn comes.\<close>

lemma rename_keys_others:
  "k \<in> fst ` set m \<Longrightarrow> k \<notin> fst ` set cs \<Longrightarrow> k \<in> fst ` set (fold rename_key cs m)"
proof (induction cs arbitrary: m)
  case (Cons c cs)
  then have "k \<in> fst ` set (obj_remove (fst c) m)"
    by (intro obj_remove_other) auto
  then have "k \<in> fst ` set (rename_key c m)"
    using Cons.prems by (cases c) (simp add: rename_key_def obj_insert_keys split: option.splits)
  with Cons show ?case by simp
qed simp

lemma rename_keys_expect:
  assumes "distinct (map fst m)" and "key_changes needle replacer m = us @ (old_key, new_key) # vs"
    and "map fst m' = map fst m"
  shows "obj_get (fold rename_key us m') old_key \<noteq> None"
proof -
  have "map fst (key_changes needle replacer m) = filter (str_contains needle) (map fst m)"
    by (simp add: key_changes_def filter_map comp_def case_prod_unfold)
  then have *: "map fst us @ old_key # map fst vs = filter (str_contains needle) (map fst m)"
    using assms(2) by simp
  have "distinct (map fst us @ old_key # map fst vs)"
    unfolding * using assms(1) by (rule distinct_filter)
  then have "old_key \<notin> fst ` set us" by simp
  moreover have "old_key \<in> set (filter (str_contains needle) (map fst m))"
    by (simp only: * [symmetric]) simp
  then have "old_key \<in> set (map fst m')" by (simp add: assms(3))
  ultimately have "old_key \<in> fst ` set (fold rename_key us m')"
    by (simp add: rename_keys_others)
  then show ?thesis by (simp add: obj_get_def map_of_eq_None_iff)
qed

subsection \<open>\<open>evaluate_as_iter\<close> of one item\<close>

definition once_as_iter :: "'c evaluator \<Rightarrow> 'c \<Rightarrow> json cow \<Rightarrow> bool \<Rightarrow> json cow list option \<Rightarrow> exec_error + json cow list" where
  "once_as_iter f c d nre for_each = res_map (\<lambda>v. [v]) (f c d nre for_each)"

definition collect_as_iter :: "'a evaluator \<Rightarrow> 'a collect \<Rightarrow> json cow \<Rightarrow> bool \<Rightarrow> json cow list option \<Rightarrow> exec_error + json cow list" where
  "collect_as_iter ev = once_as_iter (collect_evaluate ev)"

definition encode_as_iter :: "expr_ext \<Rightarrow> 'a evaluator \<Rightarrow> 'a encode \<Rightarrow> json cow \<Rightarrow> bool \<Rightarrow> json cow list option \<Rightarrow> exec_error + json cow list" where
  "encode_as_iter E ev = once_as_iter (encode_evaluate E ev)"

definition if_as_iter :: "'a evaluator \<Rightarrow> 'a if_fn \<Rightarrow> json cow \<Rightarrow> bool \<Rightarrow> json cow list option \<Rightarrow> exec_error + json cow list" where
  "if_as_iter ev = once_as_iter (if_evaluate ev)"

definition join_as_iter :: "expr_ext \<Rightarrow> 'a evaluator \<Rightarrow> 'a join_fn \<Rightarrow> json cow \<Rightarrow> bool \<Rightarrow> json cow list option \<Rightarrow> exec_error + json cow list" where
  "join_as_iter E ev = once_as_iter (join_evaluate E ev)"

definition match_as_iter :: "expr_ext \<Rightarrow> 'a evaluator \<Rightarrow> 'a match_fn \<Rightarrow> json cow \<Rightarrow> bool \<Rightarrow> json cow list option \<Rightarrow> exec_error + json cow list" where
  "match_as_iter E ev = once_as_iter (match_evaluate E ev)"

definition min_max_as_iter :: "'a evaluator \<Rightarrow> 'a min_max \<Rightarrow> json cow \<Rightarrow> bool \<Rightarrow> json cow list option \<Rightarrow> exec_error + json cow list" where
  "min_max_as_iter ev = once_as_iter (min_max_evaluate ev)"

definition pad_as_iter :: "expr_ext \<Rightarrow> 'a evaluator \<Rightarrow> 'a pad \<Rightarrow> json cow \<Rightarrow> bool \<Rightarrow> json cow list option \<Rightarrow> exec_error + json cow list" where
  "pad_as_iter E ev = once_as_iter (pad_evaluate E ev)"

definition replace_as_iter :: "expr_ext \<Rightarrow> 'a evaluator \<Rightarrow> 'a replace_fn \<Rightarrow> json cow \<Rightarrow> bool \<Rightarrow> json cow list option \<Rightarrow> exec_error + json cow list" where
  "replace_as_iter E ev = once_as_iter (replace_evaluate E ev)"

definition epoch_as_iter :: "expr_ext \<Rightarrow> epoch \<Rightarrow> exec_error + json cow list" where
  "epoch_as_iter E e = res_map (\<lambda>v. [v]) (epoch_evaluate E e)"

definition random_as_iter :: "expr_ext \<Rightarrow> random \<Rightarrow> json cow list" where
  "random_as_iter E r = [random_evaluate E r]"

lemmas as_iter_defs = once_as_iter_def collect_as_iter_def encode_as_iter_def if_as_iter_def join_as_iter_def
  match_as_iter_def min_max_as_iter_def pad_as_iter_def replace_as_iter_def epoch_as_iter_def random_as_iter_def

subsection \<open>Recursion through the arguments\<close>

text \<open>An argument of a function is smaller than the function.\<close>

lemma size_collect_arg [termination_simp]: "x \<in> set_collect c \<Longrightarrow> f x \<le> size_collect f c"
  by (cases c) auto

lemma size_encode_arg [termination_simp]: "x \<in> set_encode c \<Longrightarrow> f x \<le> size_encode f c"
  by (cases c) auto

lemma size_entries_arg [termination_simp]: "x \<in> set_entries c \<Longrightarrow> f x \<le> size_entries f c"
  by (cases c) auto

lemma size_if_fn_arg [termination_simp]: "x \<in> set_if_fn c \<Longrightarrow> f x \<le> size_if_fn f c"
  by (cases c) auto

lemma size_join_fn_arg [termination_simp]: "x \<in> set_join_fn c \<Longrightarrow> f x \<le> size_join_fn f c"
  by (cases c) auto

lemma size_match_fn_arg [termination_simp]: "x \<in> set_match_fn c \<Longrightarrow> f x \<le> size_match_fn f c"
  by (cases c) auto

lemma size_pad_arg [termination_simp]: "x \<in> set_pad c \<Longrightarrow> f x \<le> size_pad f c"
  by (cases c) auto

lemma size_range_fn_arg [termination_simp]: "x \<in> set_range_fn c \<Longrightarrow> f x \<le> size_range_fn f c"
  by (cases c) auto

lemma size_replace_fn_arg [termination_simp]: "x \<in> set_replace_fn c \<Longrightarrow> f x \<le> size_replace_fn f c"
  by (cases c) auto

lemma size_min_max_arg [termination_simp]: "x \<in> set_min_max c \<Longrightarrow> f x \<le> size_min_max f c"
  by (cases c) (auto intro: le_SucI size_list_estimation' [where y = "f x"])

text \<open>The evaluation of a function depends on the evaluation of its arguments only.\<close>

lemma collect_evaluate_cong [fundef_cong]:
  assumes "c = c'" "d = d'" "nre = nre'" "for_each = for_each'"
    and "\<And>x d n fe. x \<in> set_collect c' \<Longrightarrow> ev x d n fe = ev' x d n fe"
  shows "collect_evaluate ev c d nre for_each = collect_evaluate ev' c' d' nre' for_each'"
  using assms by (cases c') (simp add: collect_evaluate_def)

lemma encode_evaluate_cong [fundef_cong]:
  assumes "c = c'" "d = d'" "nre = nre'" "for_each = for_each'"
    and "\<And>x d n fe. x \<in> set_encode c' \<Longrightarrow> ev x d n fe = ev' x d n fe"
  shows "encode_evaluate E ev c d nre for_each = encode_evaluate E ev' c' d' nre' for_each'"
  using assms by (cases c') (simp add: encode_evaluate_def)

lemma entries_evaluate_cong [fundef_cong]:
  assumes "c = c'" "d = d'" "nre = nre'" "for_each = for_each'"
    and "\<And>x d n fe. x \<in> set_entries c' \<Longrightarrow> ev x d n fe = ev' x d n fe"
  shows "entries_evaluate E ev c d nre for_each = entries_evaluate E ev' c' d' nre' for_each'"
  using assms by (cases c') (simp add: entries_evaluate_def)

lemma entries_as_iter_cong [fundef_cong]:
  assumes "c = c'" "d = d'" "nre = nre'" "for_each = for_each'"
    and "\<And>x d n fe. x \<in> set_entries c' \<Longrightarrow> ev x d n fe = ev' x d n fe"
  shows "entries_as_iter E ev c d nre for_each = entries_as_iter E ev' c' d' nre' for_each'"
  using assms by (cases c') (simp add: entries_as_iter_def)

lemma if_evaluate_cong [fundef_cong]:
  assumes "c = c'" "d = d'" "nre = nre'" "for_each = for_each'"
    and "\<And>x d n fe. x \<in> set_if_fn c' \<Longrightarrow> ev x d n fe = ev' x d n fe"
  shows "if_evaluate ev c d nre for_each = if_evaluate ev' c' d' nre' for_each'"
  using assms by (cases c') (simp add: if_evaluate_def cong: if_cong)

lemma join_evaluate_cong [fundef_cong]:
  assumes "c = c'" "d = d'" "nre = nre'" "for_each = for_each'"
    and "\<And>x d n fe. x \<in> set_join_fn c' \<Longrightarrow> ev x d n fe = ev' x d n fe"
  shows "join_evaluate E ev c d nre for_each = join_evaluate E ev' c' d' nre' for_each'"
  using assms by (cases c') (simp add: join_evaluate_def)

lemma match_evaluate_cong [fundef_cong]:
  assumes "c = c'" "d = d'" "nre = nre'" "for_each = for_each'"
    and "\<And>x d n fe. x \<in> set_match_fn c' \<Longrightarrow> ev x d n fe = ev' x d n fe"
  shows "match_evaluate E ev c d nre for_each = match_evaluate E ev' c' d' nre' for_each'"
  using assms by (cases c') (simp add: match_evaluate_def)

lemma pad_evaluate_cong [fundef_cong]:
  assumes "c = c'" "d = d'" "nre = nre'" "for_each = for_each'"
    and "\<And>x d n fe. x \<in> set_pad c' \<Longrightarrow> ev x d n fe = ev' x d n fe"
  shows "pad_evaluate E ev c d nre for_each = pad_evaluate E ev' c' d' nre' for_each'"
  using assms by (cases c') (simp add: pad_evaluate_def)

lemma replace_evaluate_cong [fundef_cong]:
  assumes "c = c'" "d = d'" "nre = nre'" "for_each = for_each'"
    and "\<And>x d n fe. x \<in> set_replace_fn c' \<Longrightarrow> ev x d n fe = ev' x d n fe"
  shows "replace_evaluate E ev c d nre for_each = replace_evaluate E ev' c' d' nre' for_each'"
  using assms by (cases c') (simp add: replace_evaluate_def)

lemma range_as_iter_cong [fundef_cong]:
  assumes "c = c'" "d = d'" "nre = nre'" "for_each = for_each'"
    and "\<And>x d n fe. x \<in> set_range_fn c' \<Longrightarrow> ev x d n fe = ev' x d n fe"
  shows "range_as_iter ev c d nre for_each = range_as_iter ev' c' d' nre' for_each'"
  using assms by (cases c') simp_all

lemma range_evaluate_cong [fundef_cong]:
  assumes "c = c'" "d = d'" "nre = nre'" "for_each = for_each'"
    and "\<And>x d n fe. x \<in> set_range_fn c' \<Longrightarrow> ev x d n fe = ev' x d n fe"
  shows "range_evaluate ev c d nre for_each = range_evaluate ev' c' d' nre' for_each'"
  using range_as_iter_cong [OF assms] by (simp add: range_evaluate_def)

lemma min_max_loop_cong:
  assumes "\<And>x d n fe. x \<in> set args \<Longrightarrow> ev x d n fe = ev' x d n fe"
  shows "min_max_loop ev mn d nre for_each left args = min_max_loop ev' mn d nre for_each left args"
  using assms by (induction args arbitrary: left) (simp_all add: Let_def)

lemma min_max_evaluate_cong [fundef_cong]:
  assumes "c = c'" "d = d'" "nre = nre'" "for_each = for_each'"
    and "\<And>x d n fe. x \<in> set_min_max c' \<Longrightarrow> ev x d n fe = ev' x d n fe"
  shows "min_max_evaluate ev c d nre for_each = min_max_evaluate ev' c' d' nre' for_each'"
  using assms min_max_loop_cong [of "min_max_args c'" ev ev'] by (cases c') (simp add: min_max_evaluate_def)

end
