(* ===== verification/Expr.thy ===== *)
theory Expr
  imports ExprFunctions
begin

text \<open>
  Expressions (\<open>lib/config/src/select_parser.rs\<close>): the tree \<open>ValueOrExpression\<close> and its evaluation on a JSON
  document. \<open>evaluate_x\<close> is \<open>evaluate\<close> of the type \<open>x\<close>, \<open>x_as_iter\<close> its \<open>evaluate_as_iter\<close>, an iterator being
  the list of the items it gives. \<open>nre\<close> is \<open>no_recoverable_error\<close>.
\<close>

subsection \<open>The tree\<close>

datatype infix_operator =
  Add | And | Divide | Eq | Gt | Gte | Lt | Lte | Mod | Multiply | Ne | Or | Subtract

datatype (plugins only: size code) value_or_expression = Value val | Expression expression
and val = PathV path | JsonV json | TemplateV template
and path = Path (path_start: path_start) (path_rest: "path_segment list") (path_marker: marker)
and path_start = FunctionCall function_call | Ident string | ValueStart json
and path_segment = Number nat | StringSeg string | TemplateSeg template
and function_call =
    CallCollect "value_or_expression collect"
  | CallEncode "value_or_expression encode"
  | CallEntries "value_or_expression entries"
  | CallEpoch epoch
  | CallIf "value_or_expression if_fn"
  | CallJoin "value_or_expression join_fn"
  | CallJsonPath json_path
  | CallMatch "value_or_expression match_fn"
  | CallMinMax "value_or_expression min_max"
  | CallPad "value_or_expression pad"
  | CallRandom random
  | CallRange "value_or_expression range_fn"
  | CallRepeat repeat
  | CallReplace "value_or_expression replace_fn"
and expression =
  Expr (expr_not: "bool option") (expr_lhs: expression_lhs) (expr_op: "(infix_operator \<times> expression) option")
and expression_lhs = ExprLhs expression | ValueLhs val
and template = Template (pieces: "template_piece list") (size_hint: nat) (template_nre: bool)
and template_piece = ExpressionPiece value_or_expression | NotExpression string

text \<open>The JSON value of a literal argument.\<close>

fun literal :: "value_or_expression \<Rightarrow> json option" where
  "literal (Value (JsonV j)) = Some j"
| "literal _ = None"

subsection \<open>Operators\<close>

text \<open>The right operand comes as its result: an error in it is met only where the operator needs it.\<close>

fun infix_evaluate :: "infix_operator \<Rightarrow> json \<Rightarrow> exec_error + json cow \<Rightarrow> exec_error + json" where
  "infix_evaluate Add left right =
     res_map (\<lambda>r. to_json_number (f64_add (f64_value left) (f64_value (into_owned r)))) right"
| "infix_evaluate And left right =
     (if bool_value left then res_map (\<lambda>r. JBool (bool_value (into_owned r))) right else Inr (JBool False))"
| "infix_evaluate Divide left right =
     res_map (\<lambda>r. to_json_number (f64_div (f64_value left) (f64_value (into_owned r)))) right"
| "infix_evaluate Eq left right = res_map (\<lambda>r. JBool (json_eq left (into_owned r))) right"
| "infix_evaluate Gt left right = res_map (\<lambda>r. JBool (f64_gt (f64_value left) (f64_value (into_owned r)))) right"
| "infix_evaluate Gte left right = res_map (\<lambda>r. JBool (f64_ge (f64_value left) (f64_value (into_owned r)))) right"
| "infix_evaluate Lt left right = res_map (\<lambda>r. JBool (f64_lt (f64_value left) (f64_value (into_owned r)))) right"
| "infix_evaluate Lte left right = res_map (\<lambda>r. JBool (f64_le (f64_value left) (f64_value (into_owned r)))) right"
| "infix_evaluate Mod left right =
     res_map (\<lambda>r. to_json_number (f64_rem (f64_value left) (f64_value (into_owned r)))) right"
| "infix_evaluate Multiply left right =
     res_map (\<lambda>r. to_json_number (f64_mul (f64_value left) (f64_value (into_owned r)))) right"
| "infix_evaluate Ne left right = res_map (\<lambda>r. JBool (\<not> json_eq left (into_owned r))) right"
| "infix_evaluate Or left right =
     (if bool_value left then Inr (JBool True) else res_map (\<lambda>r. JBool (bool_value (into_owned r))) right)"
| "infix_evaluate Subtract left right =
     res_map (\<lambda>r. to_json_number (f64_sub (f64_value left) (f64_value (into_owned r)))) right"

subsection \<open>Indexing\<close>

definition nth_opt :: "'a list \<Rightarrow> nat \<Rightarrow> 'a option" where
  "nth_opt xs n = (if n < length xs then Some (xs ! n) else None)"

text \<open>
  One step of indexing, the \<open>match\<close> that \<open>index_json\<close> and \<open>index_json2\<close> share. A number indexes a borrowed
  object by its digits but an owned object not at all.
\<close>

definition index_step ::
    "json cow \<Rightarrow> (string, nat) either \<Rightarrow> bool \<Rightarrow> marker \<Rightarrow> exec_error + json cow" where
  "index_step j index no_err marker =
     (let found = (\<lambda>wrap r. Inr (case r of Some v \<Rightarrow> wrap v | None \<Rightarrow> Owned JNull))
      in case (j, index) of
           (Borrowed (JObject m), A s) \<Rightarrow> found Borrowed (obj_get m s)
         | (Borrowed (JObject m), B n) \<Rightarrow> found Borrowed (obj_get m (nat_to_string n))
         | (Owned (JObject m), A s) \<Rightarrow> found Owned (obj_get m s)
         | (Borrowed (JArray a), B n) \<Rightarrow> found Borrowed (nth_opt a n)
         | (Owned (JArray a), B n) \<Rightarrow> found Owned (nth_opt a n)
         | (_, A s) \<Rightarrow>
             (case (into_owned j, s = ''length'') of
                (JArray a, True) \<Rightarrow> Inr (Owned (json_of_usize (length a)))
              | _ \<Rightarrow> if \<not> no_err then Inl (IndexingIntoJson s (into_owned j) marker) else Inr (Owned JNull))
         | (_, B n) \<Rightarrow>
             if \<not> no_err then Inl (IndexingIntoJson (''['' @ nat_to_string n @ '']'') (into_owned j) marker)
             else Inr (Owned JNull))"

text \<open>\<open>index_json\<close> is only called with a name.\<close>

definition index_json :: "json cow \<Rightarrow> string \<Rightarrow> bool \<Rightarrow> marker \<Rightarrow> exec_error + json cow" where
  "index_json j s no_err marker = index_step j (A s) no_err marker"

definition nth_or_null :: "json cow list \<Rightarrow> nat \<Rightarrow> json cow" where
  "nth_or_null v n = (case nth_opt v n of Some c \<Rightarrow> c | None \<Rightarrow> Owned JNull)"

end
