(* ===== verification/ExprEval.thy ===== *)
theory ExprEval
  imports Expr
begin

text \<open>The evaluation of expressions: the mutual recursion over the tree, and the iterators.\<close>

subsection \<open>\<open>evaluate\<close>\<close>

definition negate :: "bool option \<Rightarrow> json cow \<Rightarrow> json cow" where
  "negate no v =
     (case no of
        Some True \<Rightarrow> Owned (JBool (\<not> bool_value (into_owned v)))
      | Some False \<Rightarrow> Owned (JBool (bool_value (into_owned v)))
      | None \<Rightarrow> v)"

function evaluate_voe :: "expr_ext \<Rightarrow> value_or_expression evaluator"
  and evaluate_value :: "expr_ext \<Rightarrow> val evaluator"
  and evaluate_path :: "expr_ext \<Rightarrow> path evaluator"
  and index_json2 :: "expr_ext \<Rightarrow> json cow \<Rightarrow> path_segment list \<Rightarrow> bool \<Rightarrow> json cow list option \<Rightarrow> marker \<Rightarrow>
        exec_error + json cow"
  and evaluate_segment :: "expr_ext \<Rightarrow> path_segment \<Rightarrow> json cow \<Rightarrow> json cow list option \<Rightarrow>
        exec_error + (string, nat) either"
  and evaluate_call :: "expr_ext \<Rightarrow> function_call evaluator"
  and evaluate_expression :: "expr_ext \<Rightarrow> expression evaluator"
  and evaluate_lhs :: "expr_ext \<Rightarrow> expression_lhs evaluator"
  and evaluate_template :: "expr_ext \<Rightarrow> template \<Rightarrow> json cow \<Rightarrow> json cow list option \<Rightarrow> exec_error + string"
  and evaluate_pieces :: "expr_ext \<Rightarrow> bool \<Rightarrow> template_piece list \<Rightarrow> json cow \<Rightarrow> json cow list option \<Rightarrow>
        exec_error + string"
where
  "evaluate_voe E (Value v) d nre fe = evaluate_value E v d nre fe"
| "evaluate_voe E (Expression e) d nre fe = evaluate_expression E e d nre fe"
| "evaluate_value E (PathV p) d nre fe = evaluate_path E p d nre fe"
| "evaluate_value E (JsonV j) d nre fe = Inr (Borrowed j)"
| "evaluate_value E (TemplateV t) d nre fe = res_map (\<lambda>s. Owned (JString s)) (evaluate_template E t d fe)"
| "evaluate_path E (Path start rest marker) d nre fe =
     (case start of
        FunctionCall f \<Rightarrow>
          res_bind (evaluate_call E f d nre fe) (\<lambda>v. index_json2 E v rest nre fe marker)
      | Ident s \<Rightarrow>
          (case (s = ''for_each'', fe) of
             (True, Some v) \<Rightarrow>
               (case rest of
                  [] \<Rightarrow> Inr (Owned (JArray (map into_owned v)))
                | Number n # rest' \<Rightarrow> index_json2 E (nth_or_null v n) rest' nre fe marker
                | _ # rest' \<Rightarrow> index_json2 E (Owned JNull) rest' nre fe marker)
           | _ \<Rightarrow> res_bind (index_json d s nre marker) (\<lambda>v. index_json2 E v rest nre fe marker))
      | ValueStart v \<Rightarrow> index_json2 E (Borrowed v) rest nre fe marker)"
| "index_json2 E j [] nre fe marker = Inr j"
| "index_json2 E j (index # indexes) nre fe marker =
     res_bind (evaluate_segment E index (borrow j) fe) (\<lambda>r.
     res_bind (index_step j r nre marker) (\<lambda>j'. index_json2 E j' indexes nre fe marker))"
| "evaluate_segment E (Number n) d fe = Inr (B n)"
| "evaluate_segment E (StringSeg s) d fe = Inr (A s)"
| "evaluate_segment E (TemplateSeg t) d fe = res_map A (evaluate_template E t d fe)"
| "evaluate_call E (CallCollect c) d nre fe = collect_evaluate (evaluate_voe E) c d nre fe"
| "evaluate_call E (CallEncode e) d nre fe = encode_evaluate E (evaluate_voe E) e d nre fe"
| "evaluate_call E (CallEntries e) d nre fe = entries_evaluate E (evaluate_voe E) e d nre fe"
| "evaluate_call E (CallEpoch e) d nre fe = epoch_evaluate E e"
| "evaluate_call E (CallIf i) d nre fe = if_evaluate (evaluate_voe E) i d nre fe"
| "evaluate_call E (CallJoin j) d nre fe = join_evaluate E (evaluate_voe E) j d nre fe"
| "evaluate_call E (CallJsonPath j) d nre fe = Inr (json_path_evaluate E j d)"
| "evaluate_call E (CallMatch m) d nre fe = match_evaluate E (evaluate_voe E) m d nre fe"
| "evaluate_call E (CallMinMax m) d nre fe = min_max_evaluate (evaluate_voe E) m d nre fe"
| "evaluate_call E (CallPad p) d nre fe = pad_evaluate E (evaluate_voe E) p d nre fe"
| "evaluate_call E (CallRange r) d nre fe = range_evaluate (evaluate_voe E) r d nre fe"
| "evaluate_call E (CallRandom r) d nre fe = Inr (random_evaluate E r)"
| "evaluate_call E (CallRepeat r) d nre fe = Inr (repeat_evaluate E r)"
| "evaluate_call E (CallReplace r) d nre fe = replace_evaluate E (evaluate_voe E) r d nre fe"
| "evaluate_expression E (Expr no lhs None) d nre fe =
     res_map (negate no) (evaluate_lhs E lhs d nre fe)"
| "evaluate_expression E (Expr no lhs (Some (op, rhs))) d nre fe =
     res_bind (evaluate_lhs E lhs (borrow d) nre fe) (\<lambda>v.
     res_map (\<lambda>j. negate no (Owned j))
       (infix_evaluate op (into_owned v) (evaluate_expression E rhs (borrow d) nre fe)))"
| "evaluate_lhs E (ExprLhs e) d nre fe = evaluate_expression E e d nre fe"
| "evaluate_lhs E (ValueLhs v) d nre fe = evaluate_value E v d nre fe"
| "evaluate_template E (Template ps hint tnre) d fe = evaluate_pieces E tnre ps d fe"
| "evaluate_pieces E tnre [] d fe = Inr []"
| "evaluate_pieces E tnre (ExpressionPiece voe # ps) d fe =
     res_bind (evaluate_voe E voe (borrow d) tnre fe) (\<lambda>v.
     res_map (\<lambda>s. json_value_to_string E (into_owned v) @ s) (evaluate_pieces E tnre ps d fe))"
| "evaluate_pieces E tnre (NotExpression s # ps) d fe =
     res_map (\<lambda>s'. s @ s') (evaluate_pieces E tnre ps d fe)"

  by pat_completeness auto

text \<open>The size of the tree that is left goes down in each call.\<close>

termination
  by (relation "measure (\<lambda>x. case x of
      Inl (Inl (Inl (_, t, _))) \<Rightarrow> size t
    | Inl (Inl (Inr (_, t, _))) \<Rightarrow> size t
    | Inl (Inr (Inl (_, t, _))) \<Rightarrow> size t
    | Inl (Inr (Inr (Inl (_, _, ts, _)))) \<Rightarrow> size_list size ts
    | Inl (Inr (Inr (Inr (_, t, _)))) \<Rightarrow> size t
    | Inr (Inl (Inl (_, t, _))) \<Rightarrow> size t
    | Inr (Inl (Inr (_, t, _))) \<Rightarrow> size t
    | Inr (Inr (Inl (_, t, _))) \<Rightarrow> size t
    | Inr (Inr (Inr (Inl (_, t, _)))) \<Rightarrow> size t
    | Inr (Inr (Inr (Inr (_, _, ts, _)))) \<Rightarrow> size_list size ts)")
    (auto simp: less_Suc_eq_le termination_simp)

subsection \<open>\<open>evaluate_as_iter\<close>\<close>

fun call_as_iter ::
    "expr_ext \<Rightarrow> function_call \<Rightarrow> json cow \<Rightarrow> bool \<Rightarrow> json cow list option \<Rightarrow> exec_error + json cow list" where
  "call_as_iter E (CallCollect c) d nre fe = collect_as_iter (evaluate_voe E) c d nre fe"
| "call_as_iter E (CallEncode e) d nre fe = encode_as_iter E (evaluate_voe E) e d nre fe"
| "call_as_iter E (CallEntries e) d nre fe = entries_as_iter E (evaluate_voe E) e d nre fe"
| "call_as_iter E (CallEpoch e) d nre fe = epoch_as_iter E e"
| "call_as_iter E (CallIf i) d nre fe = if_as_iter (evaluate_voe E) i d nre fe"
| "call_as_iter E (CallJoin j) d nre fe = join_as_iter E (evaluate_voe E) j d nre fe"
| "call_as_iter E (CallJsonPath j) d nre fe = Inr (json_path_as_iter E j d)"
| "call_as_iter E (CallMatch m) d nre fe = match_as_iter E (evaluate_voe E) m d nre fe"
| "call_as_iter E (CallMinMax m) d nre fe = min_max_as_iter (evaluate_voe E) m d nre fe"
| "call_as_iter E (CallPad p) d nre fe = pad_as_iter E (evaluate_voe E) p d nre fe"
| "call_as_iter E (CallRandom r) d nre fe = Inr (random_as_iter E r)"
| "call_as_iter E (CallRange r) d nre fe = range_as_iter (evaluate_voe E) r d nre fe"
| "call_as_iter E (CallRepeat r) d nre fe = Inr (repeat_as_iter E r)"
| "call_as_iter E (CallReplace r) d nre fe = replace_as_iter E (evaluate_voe E) r d nre fe"

type_synonym items = "(exec_error + json cow) list"

text \<open>
  A literal start ignores the rest of the path, and after a function call the rest is indexed without the
  \<open>for_each\<close> values.
\<close>

definition path_as_iter ::
    "expr_ext \<Rightarrow> path \<Rightarrow> json cow \<Rightarrow> bool \<Rightarrow> json cow list option \<Rightarrow> exec_error + items" where
  "path_as_iter E p d nre fe =
     (case path_start p of
        FunctionCall f \<Rightarrow>
          res_map (map (\<lambda>j. index_json2 E j (path_rest p) nre None (path_marker p))) (call_as_iter E f d nre fe)
      | Ident s \<Rightarrow>
          (case (s = ''for_each'', fe) of
             (True, Some v) \<Rightarrow>
               (case path_rest p of
                  [] \<Rightarrow> Inr [Inr (Owned (JArray (map into_owned v)))]
                | Number n # rest \<Rightarrow>
                    res_map (\<lambda>j. [Inr j]) (index_json2 E (nth_or_null v n) rest nre fe (path_marker p))
                | _ # rest \<Rightarrow> res_map (\<lambda>j. [Inr j]) (index_json2 E (Owned JNull) rest nre fe (path_marker p)))
           | _ \<Rightarrow>
               res_bind (index_json d s nre (path_marker p)) (\<lambda>j.
               res_map (\<lambda>j. [Inr j]) (index_json2 E j (path_rest p) nre fe (path_marker p))))
      | ValueStart v \<Rightarrow> Inr [Inr (Borrowed v)])"

text \<open>The elements of an array, and any other value alone.\<close>

definition array_items :: "json cow \<Rightarrow> items" where
  "array_items v =
     (case v of
        Borrowed (JArray vs) \<Rightarrow> map (\<lambda>j. Inr (Borrowed j)) vs
      | Owned (JArray vs) \<Rightarrow> map (\<lambda>j. Inr (Owned j)) vs
      | _ \<Rightarrow> [Inr v])"

definition value_as_iter ::
    "expr_ext \<Rightarrow> val \<Rightarrow> json cow \<Rightarrow> bool \<Rightarrow> json cow list option \<Rightarrow> exec_error + items" where
  "value_as_iter E v d nre fe =
     (case v of
        PathV p \<Rightarrow>
          res_map (\<lambda>items. concat (map (\<lambda>r. case r of Inr v \<Rightarrow> array_items v | Inl e \<Rightarrow> [Inl e]) items))
            (path_as_iter E p d nre fe)
      | _ \<Rightarrow> res_map array_items (evaluate_value E v d nre fe))"

definition expression_as_iter ::
    "expr_ext \<Rightarrow> expression \<Rightarrow> json cow \<Rightarrow> bool \<Rightarrow> json cow list option \<Rightarrow> exec_error + items" where
  "expression_as_iter E e d nre fe =
     (case e of
        Expr None (ValueLhs v) None \<Rightarrow> value_as_iter E v d nre fe
      | _ \<Rightarrow> res_map array_items (evaluate_expression E e d nre fe))"

fun voe_as_iter ::
    "expr_ext \<Rightarrow> value_or_expression \<Rightarrow> json cow \<Rightarrow> bool \<Rightarrow> json cow list option \<Rightarrow> exec_error + items" where
  "voe_as_iter E (Value v) d nre fe = value_as_iter E v d nre fe"
| "voe_as_iter E (Expression e) d nre fe = expression_as_iter E e d nre fe"

subsection \<open>Simplification\<close>

function simplify_to_json :: "expression \<Rightarrow> (json, expression) either" where
  "simplify_to_json (Expr no (ValueLhs (JsonV v)) None) =
     A (case no of Some n \<Rightarrow> JBool (if n then \<not> bool_value v else bool_value v) | None \<Rightarrow> v)"
| "simplify_to_json (Expr no (ExprLhs e) None) = simplify_to_json e"
| "simplify_to_json (Expr no (ValueLhs (PathV p)) None) = B (Expr no (ValueLhs (PathV p)) None)"
| "simplify_to_json (Expr no (ValueLhs (TemplateV t)) None) = B (Expr no (ValueLhs (TemplateV t)) None)"
| "simplify_to_json (Expr no lhs (Some rhs)) = B (Expr no lhs (Some rhs))"
  by pat_completeness auto

termination by (relation "measure size") auto

definition simplify_expression_to_string :: "expr_ext \<Rightarrow> expression \<Rightarrow> (string, expression) either" where
  "simplify_expression_to_string E e = map_a (json_value_to_string E) (simplify_to_json e)"

text \<open>\<open>ValueOrExpression::from_expression\<close>.\<close>

definition from_expression :: "expression \<Rightarrow> value_or_expression" where
  "from_expression e = (case simplify_to_json e of A v \<Rightarrow> Value (JsonV v) | B e' \<Rightarrow> Expression e')"

fun is_simple :: "template \<Rightarrow> bool" where
  "is_simple (Template [NotExpression s] hint tnre) = True"
| "is_simple _ = False"

fun simplify_to_string :: "template \<Rightarrow> (string, template) either" where
  "simplify_to_string (Template [NotExpression s] hint tnre) = A s"
| "simplify_to_string t = B t"

definition evaluate_with_star :: "template \<Rightarrow> string" where
  "evaluate_with_star t =
     str_join [] (map (\<lambda>p. case p of ExpressionPiece _ \<Rightarrow> ''*'' | NotExpression s \<Rightarrow> s) (pieces t))"

subsection \<open>\<open>ParsedSelect\<close>\<close>

datatype parsed_select =
    SelNull
  | SelBool bool
  | SelNumber json_number
  | SelExpression value_or_expression
  | SelArray "parsed_select list"
  | SelObject "(string \<times> parsed_select) list"

function evaluate_select :: "expr_ext \<Rightarrow> parsed_select evaluator"
  and evaluate_selects :: "expr_ext \<Rightarrow> parsed_select list \<Rightarrow> json cow \<Rightarrow> bool \<Rightarrow> json cow list option \<Rightarrow> exec_error + json list"
  and evaluate_entries :: "expr_ext \<Rightarrow> (string \<times> parsed_select) list \<Rightarrow> json cow \<Rightarrow> bool \<Rightarrow> json cow list option \<Rightarrow>
        exec_error + (string \<times> json) list"
where
  "evaluate_select E SelNull d nre fe = Inr (Owned JNull)"
| "evaluate_select E (SelBool b) d nre fe = Inr (Owned (JBool b))"
| "evaluate_select E (SelNumber n) d nre fe = Inr (Owned (JNumber n))"
| "evaluate_select E (SelExpression v) d nre fe = evaluate_voe E v d nre fe"
| "evaluate_select E (SelArray v) d nre fe = res_map (\<lambda>vs. Owned (JArray vs)) (evaluate_selects E v d nre fe)"
| "evaluate_select E (SelObject v) d nre fe =
     res_map (\<lambda>m. Owned (JObject (obj_collect m))) (evaluate_entries E v d nre fe)"
| "evaluate_selects E [] d nre fe = Inr []"
| "evaluate_selects E (p # ps) d nre fe =
     res_bind (evaluate_select E p (borrow d) nre fe) (\<lambda>v.
     res_map (\<lambda>vs. into_owned v # vs) (evaluate_selects E ps d nre fe))"
| "evaluate_entries E [] d nre fe = Inr []"
| "evaluate_entries E ((k, p) # ps) d nre fe =
     res_bind (evaluate_select E p (borrow d) nre fe) (\<lambda>v.
     res_map (\<lambda>vs. (k, into_owned v) # vs) (evaluate_entries E ps d nre fe))"
  by pat_completeness auto

termination
  by (relation "measure (\<lambda>x. case x of
      Inl (_, t, _) \<Rightarrow> size t
    | Inr (Inl (_, ts, _)) \<Rightarrow> size_list size ts
    | Inr (Inr (_, ts, _)) \<Rightarrow> size_list (size_prod (\<lambda>_. 0) size) ts)") auto

end
