(* ===== verification/Select.thy ===== *)
theory Select
  imports ExprEval
begin

text \<open>
  What an endpoint sends to a provider (\<open>Select\<close> of \<open>select_parser.rs\<close>): for each combination of the elements
  of the \<open>for_each\<close> arrays that the \<open>where\<close> clause lets through, the value of the \<open>select\<close>.
\<close>

datatype send_options = Block | Force | IfNotFull

fun is_block :: "send_options \<Rightarrow> bool" where
  "is_block Block = True"
| "is_block _ = False"

definition send_options_default :: send_options where
  "send_options_default = Block"

record select =
  sel_join :: "value_or_expression list"
  sel_references_for_each :: bool
  sel_where_references_for_each :: bool
  sel_send_behavior :: send_options
  sel_select :: parsed_select
  sel_where_clause :: "expression option"
  sel_nre :: bool

definition get_send_behavior :: "select \<Rightarrow> send_options" where
  "get_send_behavior s = sel_send_behavior s"

definition set_send_behavior :: "send_options \<Rightarrow> select \<Rightarrow> select" where
  "set_send_behavior b s = s\<lparr>sel_send_behavior := b\<rparr>"

definition where_holds ::
    "expr_ext \<Rightarrow> select \<Rightarrow> json \<Rightarrow> json cow list option \<Rightarrow> exec_error + bool" where
  "where_holds E s d fe =
     (case sel_where_clause s of
        Some wc \<Rightarrow> res_map (\<lambda>v. bool_value (into_owned v)) (evaluate_expression E wc (Borrowed d) (sel_nre s) fe)
      | None \<Rightarrow> Inr True)"

definition execute_where :: "expr_ext \<Rightarrow> select \<Rightarrow> json \<Rightarrow> exec_error + bool" where
  "execute_where E s d = where_holds E s d None"

text \<open>
  \<open>multi_cartesian_product\<close> of the iterators of the \<open>for_each\<close> expressions: the last one varies fastest. An
  expression that cannot be evaluated counts as one item, the error.
\<close>

definition join_products :: "expr_ext \<Rightarrow> select \<Rightarrow> json \<Rightarrow> items list" where
  "join_products E s d =
     product_lists (map (\<lambda>v. case voe_as_iter E v (Borrowed d) (sel_nre s) None of
        Inr i \<Rightarrow> i | Inl e \<Rightarrow> [Inl e]) (sel_join s))"

definition for_each_of :: "select \<Rightarrow> items \<Rightarrow> exec_error + json cow list option" where
  "for_each_of s v = (if sel_references_for_each s then res_map Some (collect_res v) else Inr None)"

text \<open>\<open>filter_map(Result::transpose)\<close>.\<close>

fun transpose_results :: "('e + 'a option) list \<Rightarrow> ('e + 'a) list" where
  "transpose_results [] = []"
| "transpose_results (Inl e # rs) = Inl e # transpose_results rs"
| "transpose_results (Inr None # rs) = transpose_results rs"
| "transpose_results (Inr (Some a) # rs) = Inr a # transpose_results rs"

definition select_as_iter :: "expr_ext \<Rightarrow> select \<Rightarrow> json \<Rightarrow> exec_error + items" where
  "select_as_iter E s d =
     (if sel_join s = []
      then res_map (\<lambda>ok. if \<not> ok then [] else [evaluate_select E (sel_select s) (Borrowed d) (sel_nre s) None])
             (where_holds E s d None)
      else if sel_where_references_for_each s
      then Inr (transpose_results (map (\<lambda>v.
             res_bind (for_each_of s v) (\<lambda>fe.
             res_bind (where_holds E s d fe) (\<lambda>ok.
             if \<not> ok then Inr None
             else res_map Some (evaluate_select E (sel_select s) (Borrowed d) (sel_nre s) fe))))
             (join_products E s d)))
      else res_map (\<lambda>ok.
             if \<not> ok then []
             else transpose_results (map (\<lambda>v.
               res_bind (for_each_of s v) (\<lambda>fe.
               res_map Some (evaluate_select E (sel_select s) (Borrowed d) (sel_nre s) fe)))
               (join_products E s d)))
             (where_holds E s d None))"

text \<open>
  \<open>Select::iter\<close> makes the iterator at the first call of \<open>next\<close>; \<open>None\<close> is the state before that. When it
  cannot be made the call gives the error and the state stays.
\<close>

definition select_iter_next ::
    "expr_ext \<Rightarrow> select \<Rightarrow> json \<Rightarrow> items option \<Rightarrow> (exec_error + json) option \<times> items option" where
  "select_iter_next E s d st =
     (let take = (\<lambda>items. case items of
                    [] \<Rightarrow> (None, Some [])
                  | r # rs \<Rightarrow> (Some (res_map into_owned r), Some rs))
      in case st of
           Some items \<Rightarrow> take items
         | None \<Rightarrow> (case select_as_iter E s d of Inr items \<Rightarrow> take items | Inl e \<Rightarrow> (Some (Inl e), None)))"

end
