(* ===== verification/ExprParse.thy ===== *)
theory ExprParse
  imports Select
begin

text \<open>
  From the pairs of the generated parser (\<open>select.pest\<close>) to expressions, templates and selects. A pair is
  its rule, its text and the pairs inside it. The parser itself is an argument, in the context record with
  the other values that never change. The strings inside an expression are templates and parsed again;
  \<open>fuel\<close> bounds that depth.
\<close>

subsection \<open>Pairs\<close>

datatype rule =
    RBoolean | RNull | RJsonPath | RString | RInteger | RDecimal | RValue | RExpression | RUnaryOperator
  | RInfixOperator | RFunctionCall | RFunctionIdent | RFunctionArg | RIndexedProperty | RJsonIdent
  | RTemplateExpression | RTemplateNotExpression | REOI

datatype pair = Pair (as_rule: rule) (as_str: string) (into_inner: "pair list")

text \<open>\<open>Rule::entry_point\<close> gives its pairs, \<open>Rule::template_entry_point\<close> the pairs inside its one pair.\<close>

record parse_ctx =
  pc_ext :: expr_ext
  pc_entry_point :: "string \<Rightarrow> string + pair list"
  pc_template :: "string \<Rightarrow> string + pair list"
  pc_static_vars :: "string \<rightharpoonup> json"
  pc_nre :: bool
  pc_marker :: marker

subsection \<open>Operators and precedence\<close>

fun precedence :: "infix_operator \<Rightarrow> nat" where
  "precedence Add = 4"
| "precedence And = 2"
| "precedence Divide = 5"
| "precedence Eq = 3"
| "precedence Gt = 3"
| "precedence Gte = 3"
| "precedence Lt = 3"
| "precedence Lte = 3"
| "precedence Mod = 5"
| "precedence Multiply = 5"
| "precedence Ne = 3"
| "precedence Or = 1"
| "precedence Subtract = 4"

definition infix_of :: "string \<Rightarrow> infix_operator option" where
  "infix_of s = map_of [(''||'', Or), (''&&'', And), (''=='', Eq), (''!='', Ne), (''>='', Gte), (''>'', Gt),
     (''<='', Lte), (''<'', Lt), (''+'', Add), (''-'', Subtract), (''*'', Multiply), (''/'', Divide),
     (''%'', Mod)] s"

datatype expression_or_operator = Operand expression | Operator infix_operator

text \<open>\<open>rposition\<close>: the last operator of a level, with what is left and right of it.\<close>

fun split_last :: "nat \<Rightarrow> expression_or_operator list \<Rightarrow>
    (expression_or_operator list \<times> infix_operator \<times> expression_or_operator list) option" where
  "split_last level [] = None"
| "split_last level (x # xs) =
     (case split_last level xs of
        Some (left, opr, right) \<Rightarrow> Some (x # left, opr, right)
      | None \<Rightarrow>
          (case x of
             Operator opr \<Rightarrow> if precedence opr = level then Some ([], opr, xs) else None
           | Operand _ \<Rightarrow> None))"

lemma split_last_append:
  "split_last level xs = Some (left, opr, right) \<Longrightarrow> xs = left @ Operator opr # right \<and> precedence opr = level"
  by (induction xs arbitrary: left) (auto split: option.splits expression_or_operator.splits if_splits)

text \<open>Joining an operator and its right operand to a left operand; the left one keeps its \<open>not\<close>.\<close>

definition attach :: "expression \<Rightarrow> infix_operator \<Rightarrow> expression \<Rightarrow> expression" where
  "attach e opr right =
     (case expr_op e of
        None \<Rightarrow> Expr (expr_not e) (expr_lhs e) (Some (opr, right))
      | Some _ \<Rightarrow> Expr None (ExprLhs e) (Some (opr, right)))"

function expression_helper :: "expression_or_operator list \<Rightarrow> nat \<Rightarrow> expression creating" where
  "expression_helper items level =
     (case split_last level items of
        Some (left, opr, right) \<Rightarrow>
          res_bind (case left of
                      [Operand e] \<Rightarrow> Inr e
                    | [Operator _] \<Rightarrow> Inl Panics
                    | _ \<Rightarrow> expression_helper left level) (\<lambda>e.
          res_bind (expression_helper right level) (\<lambda>r. Inr (attach e opr r)))
      | None \<Rightarrow>
          if 5 \<le> level \<or> length items = 1
          then (case items of [Operand e] \<Rightarrow> Inr e | _ \<Rightarrow> Inl Panics)
          else expression_helper items (level + 1))"
  by pat_completeness auto

termination
  by (relation "measures [\<lambda>(items, level). length items, \<lambda>(items, level). 5 - level]")
    (auto dest!: split_last_append)

declare expression_helper.simps [simp del]

subsection \<open>\<open>FunctionCall::new\<close>\<close>

definition made :: "('f \<Rightarrow> function_call) \<Rightarrow> required_providers \<Rightarrow> 'f creating \<Rightarrow>
    ((function_call, json) either \<times> required_providers) creating" where
  "made wrap rp r = res_map (\<lambda>f. (A (wrap f), rp)) r"

definition folded :: "('f \<Rightarrow> function_call) \<Rightarrow> required_providers \<Rightarrow> ('f, json) either creating \<Rightarrow>
    ((function_call, json) either \<times> required_providers) creating" where
  "folded wrap rp r = res_map (\<lambda>e. (map_a wrap e, rp)) r"

definition call_new ::
    "parse_ctx \<Rightarrow> string \<Rightarrow> value_or_expression list \<Rightarrow> required_providers \<Rightarrow>
     ((function_call, json) either \<times> required_providers) creating" where
  "call_new C ident args rp =
     (let E = pc_ext C; m = pc_marker C
      in if ident = ''collect'' then made CallCollect rp (collect_new literal args m)
         else if ident = ''encode'' then folded CallEncode rp (encode_new E literal args m)
         else if ident = ''end_pad'' then folded CallPad rp (pad_new E literal False args m)
         else if ident = ''entries'' then made CallEntries rp (entries_new args m)
         else if ident = ''epoch'' then made CallEpoch rp (epoch_new literal args m)
         else if ident = ''if'' then folded CallIf rp (if_new literal args m)
         else if ident = ''join'' then folded CallJoin rp (join_new E literal args m)
         else if ident = ''json_path''
         then res_map (\<lambda>(j, rp'). (map_a CallJsonPath j, rp')) (json_path_new E literal args rp (pc_static_vars C) m)
         else if ident = ''match'' then folded CallMatch rp (match_new E literal args m)
         else if ident = ''max'' then folded CallMinMax rp (min_max_new literal False args)
         else if ident = ''min'' then folded CallMinMax rp (min_max_new literal True args)
         else if ident = ''start_pad'' then folded CallPad rp (pad_new E literal True args m)
         else if ident = ''random'' then made CallRandom rp (random_new literal args m)
         else if ident = ''range'' then made CallRange rp (range_new literal args m)
         else if ident = ''repeat'' then made CallRepeat rp (repeat_new literal args m)
         else if ident = ''replace'' then folded CallReplace rp (replace_new literal args m)
         else Inl (Error (UnknownFunction ident m)))"

subsection \<open>Expressions, paths and templates\<close>

text \<open>\<open>str::parse\<close> of unsigned integers: an optional plus sign and at least one digit, within the type.\<close>

definition is_digit :: "char \<Rightarrow> bool" where
  "is_digit c \<longleftrightarrow> of_char c \<in> {48..57 :: nat}"

definition digits_value :: "string \<Rightarrow> nat option" where
  "digits_value ds =
     (if ds \<noteq> [] \<and> list_all is_digit ds then Some (fold (\<lambda>c n. 10 * n + (of_char c - 48)) ds 0) else None)"

definition parse_unsigned :: "nat \<Rightarrow> string \<Rightarrow> nat option" where
  "parse_unsigned limit s =
     (case digits_value (case s of c # cs \<Rightarrow> if c = CHR ''+'' then cs else s | [] \<Rightarrow> []) of
        Some n \<Rightarrow> if n < limit then Some n else None
      | None \<Rightarrow> None)"

definition parse_usize :: "string \<Rightarrow> nat option" where
  "parse_usize s = parse_unsigned (2 ^ 64) s"

definition not_of_count :: "nat \<Rightarrow> bool option" where
  "not_of_count n = (if n = 0 then None else Some (n mod 2 = 1))"

text \<open>The \<open>not\<close> of a grouped expression and the \<open>not\<close> before the group.\<close>

definition merge_not :: "bool option \<Rightarrow> bool option \<Rightarrow> bool option" where
  "merge_not a b =
     (if a = Some True \<or> b = Some True then Some True
      else if a = Some False \<or> b = Some False then Some False else None)"

definition with_not :: "bool option \<Rightarrow> expression \<Rightarrow> expression" where
  "with_not no e = Expr (merge_not (expr_not e) no) (expr_lhs e) (expr_op e)"

text \<open>The provider a path refers to.\<close>

definition path_provider :: "path_start \<Rightarrow> path_segment list \<Rightarrow> marker \<Rightarrow> required_providers \<Rightarrow> required_providers" where
  "path_provider start rest m rp =
     (case start of
        Ident s \<Rightarrow>
          (case rest of
             StringSeg next # _ \<Rightarrow>
               if s = ''request'' \<or> s = ''response'' then rp_insert (s @ ''.'' @ next) m rp else rp_insert s m rp
           | _ \<Rightarrow> rp_insert s m rp)
      | _ \<Rightarrow> rp)"

definition finish_path ::
    "parse_ctx \<Rightarrow> path_start \<Rightarrow> path_segment list \<Rightarrow> required_providers \<Rightarrow> required_providers \<Rightarrow>
     ((json, path) either \<times> required_providers) creating" where
  "finish_path C start rest rp rp2 =
     (let p = Path start rest (pc_marker C); rp2' = path_provider start rest (pc_marker C) rp2
      in case (start, rp_is_empty rp2') of
           (ValueStart _, True) \<Rightarrow>
             creating (res_map (\<lambda>v. (A (into_owned v), rp)) (evaluate_path (pc_ext C) p (Owned JNull) (pc_nre C) None))
         | _ \<Rightarrow> Inr (B p, rp_extend rp rp2'))"

text \<open>The piece a template expression gives, merged into a literal piece before it when it is a literal.\<close>

definition add_piece :: "expr_ext \<Rightarrow> template_piece list \<Rightarrow> expression \<Rightarrow> template_piece list" where
  "add_piece E ps e =
     (case simplify_expression_to_string E e of
        A s2 \<Rightarrow>
          (case rev ps of
             NotExpression s # front \<Rightarrow> rev front @ [NotExpression (s @ s2)]
           | _ \<Rightarrow> ps @ [NotExpression s2])
      | B e' \<Rightarrow> ps @ [ExpressionPiece (from_expression e')])"

type_synonym 'a parsing = "('a \<times> required_providers) creating"

function parse_expression :: "parse_ctx \<Rightarrow> nat \<Rightarrow> pair list \<Rightarrow> required_providers \<Rightarrow> expression parsing"
  and parse_expression_pieces :: "parse_ctx \<Rightarrow> nat \<Rightarrow> nat \<Rightarrow> nat \<Rightarrow> pair list \<Rightarrow> expression_or_operator list \<Rightarrow>
        required_providers \<Rightarrow> expression_or_operator list parsing"
  and parse_value :: "parse_ctx \<Rightarrow> nat \<Rightarrow> pair list \<Rightarrow> required_providers \<Rightarrow> val parsing"
  and parse_path :: "parse_ctx \<Rightarrow> nat \<Rightarrow> pair list \<Rightarrow> required_providers \<Rightarrow> path_start option \<Rightarrow> path_segment list \<Rightarrow>
        required_providers \<Rightarrow> (json, path) either parsing"
  and parse_indexed_property :: "parse_ctx \<Rightarrow> nat \<Rightarrow> pair list \<Rightarrow> required_providers \<Rightarrow> path_segment parsing"
  and parse_function_call :: "parse_ctx \<Rightarrow> nat \<Rightarrow> pair list \<Rightarrow> string option \<Rightarrow> value_or_expression list \<Rightarrow>
        required_providers \<Rightarrow> (function_call, json) either parsing"
  and segment_from_str :: "parse_ctx \<Rightarrow> nat \<Rightarrow> string \<Rightarrow> required_providers \<Rightarrow> path_segment parsing"
  and template_new :: "parse_ctx \<Rightarrow> nat \<Rightarrow> string \<Rightarrow> required_providers \<Rightarrow> template parsing"
  and template_pieces :: "parse_ctx \<Rightarrow> nat \<Rightarrow> pair list \<Rightarrow> template_piece list \<Rightarrow> nat \<Rightarrow> required_providers \<Rightarrow>
        template parsing"
where
  "parse_expression C fuel pairs rp =
     res_bind (parse_expression_pieces C fuel 0 0 pairs [] rp) (\<lambda>(items, rp').
     res_map (\<lambda>e. (e, rp')) (expression_helper items 0))"
| "parse_expression_pieces C fuel not_count start_len [] items rp = Inr (items, rp)"
| "parse_expression_pieces C fuel not_count start_len (Pair r s inner # pairs) items rp =
     (case r of
        RUnaryOperator \<Rightarrow> parse_expression_pieces C fuel (not_count + 1) start_len pairs items rp
      | RValue \<Rightarrow>
          res_bind (parse_value C fuel inner rp) (\<lambda>(v, rp').
          parse_expression_pieces C fuel 0 start_len pairs
            (items @ [Operand (Expr (not_of_count not_count) (ValueLhs v) None)]) rp')
      | RExpression \<Rightarrow>
          if length items = start_len
          then res_bind (parse_expression_pieces C fuel 0 0 inner [] rp) (\<lambda>(items2, rp').
               res_bind (expression_helper items2 0) (\<lambda>e.
               parse_expression_pieces C fuel not_count start_len pairs
                 (items @ [Operand (with_not (not_of_count not_count) e)]) rp'))
          else res_bind (parse_expression_pieces C fuel 0 (length items) inner items rp) (\<lambda>(items', rp').
               parse_expression_pieces C fuel not_count start_len pairs items' rp')
      | RInfixOperator \<Rightarrow>
          (case infix_of s of
             Some opr \<Rightarrow> parse_expression_pieces C fuel not_count start_len pairs (items @ [Operator opr]) rp
           | None \<Rightarrow> Inl Panics)
      | REOI \<Rightarrow> parse_expression_pieces C fuel not_count start_len pairs items rp
      | _ \<Rightarrow> Inl Panics)"
| "parse_value C fuel [] rp = Inl Panics"
| "parse_value C fuel (Pair r s inner # _) rp =
     (case r of
        RBoolean \<Rightarrow>
          if s = ''true'' then Inr (JsonV (JBool True), rp)
          else if s = ''false'' then Inr (JsonV (JBool False), rp)
          else Inl Panics
      | RNull \<Rightarrow> Inr (JsonV JNull, rp)
      | RJsonPath \<Rightarrow>
          res_map (\<lambda>(e, rp'). (case e of A v \<Rightarrow> JsonV v | B p \<Rightarrow> PathV p, rp'))
            (parse_path C fuel inner rp None [] rp_new)
      | RString \<Rightarrow>
          res_map (\<lambda>(t, rp'). (case simplify_to_string t of A s \<Rightarrow> JsonV (JString s) | B t' \<Rightarrow> TemplateV t', rp'))
            (template_new C fuel s rp)
      | RInteger \<Rightarrow>
          (case x_number_from_str (pc_ext C) s of Some n \<Rightarrow> Inr (JsonV (JNumber n), rp) | None \<Rightarrow> Inl Panics)
      | RDecimal \<Rightarrow>
          (case x_number_from_str (pc_ext C) s of Some n \<Rightarrow> Inr (JsonV (JNumber n), rp) | None \<Rightarrow> Inl Panics)
      | _ \<Rightarrow> Inl Panics)"
| "parse_path C fuel [] rp start rest rp2 =
     (case start of None \<Rightarrow> Inl Panics | Some st \<Rightarrow> finish_path C st rest rp rp2)"
| "parse_path C fuel (Pair r s inner # pairs) rp start rest rp2 =
     (case (r, start) of
        (RFunctionCall, None) \<Rightarrow>
          res_bind (parse_function_call C fuel inner None [] rp2) (\<lambda>(e, rp2').
          parse_path C fuel pairs rp (Some (case e of A f \<Rightarrow> FunctionCall f | B v \<Rightarrow> ValueStart v)) rest rp2')
      | (RJsonIdent, None) \<Rightarrow>
          parse_path C fuel pairs rp
            (Some (case pc_static_vars C s of Some v \<Rightarrow> ValueStart v | None \<Rightarrow> Ident s)) rest rp2
      | (RJsonIdent, Some st) \<Rightarrow>
          res_bind (segment_from_str C fuel s rp2) (\<lambda>(ps, rp2').
          parse_path C fuel pairs rp (Some st) (rest @ [ps]) rp2')
      | (RIndexedProperty, Some st) \<Rightarrow>
          res_bind (parse_indexed_property C fuel inner rp2) (\<lambda>(ps, rp2').
          parse_path C fuel pairs rp (Some st) (rest @ [ps]) rp2')
      | _ \<Rightarrow> Inl Panics)"
| "parse_indexed_property C fuel [] rp = Inl Panics"
| "parse_indexed_property C fuel (Pair r s inner # _) rp =
     (case r of
        RString \<Rightarrow> segment_from_str C fuel s rp
      | RInteger \<Rightarrow> (case parse_usize s of Some n \<Rightarrow> Inr (Number n, rp) | None \<Rightarrow> Inl Panics)
      | _ \<Rightarrow> Inl Panics)"
| "parse_function_call C fuel [] ident args rp =
     (case ident of None \<Rightarrow> Inl Panics | Some f \<Rightarrow> call_new C f args rp)"
| "parse_function_call C fuel (Pair r s inner # pairs) ident args rp =
     (case r of
        RFunctionIdent \<Rightarrow> parse_function_call C fuel pairs (Some s) args rp
      | RFunctionArg \<Rightarrow>
          res_bind (parse_expression C fuel inner rp) (\<lambda>(e, rp').
          parse_function_call C fuel pairs ident (args @ [from_expression e]) rp')
      | _ \<Rightarrow> Inl Panics)"
| "segment_from_str C fuel s rp =
     res_map (\<lambda>(t, rp'). (case simplify_to_string t of A s' \<Rightarrow> StringSeg s' | B t' \<Rightarrow> TemplateSeg t', rp'))
       (template_new C fuel s rp)"
| "template_new C 0 s rp = Inl OutOfFuel"
| "template_new C (Suc fuel) s rp =
     (case pc_template C s of
        Inl e \<Rightarrow> Inl (Error (InvalidExpression e (pc_marker C)))
      | Inr pairs \<Rightarrow> template_pieces C fuel pairs [] 0 rp)"
| "template_pieces C fuel [] ps hint rp = Inr (Template ps hint (pc_nre C), rp)"
| "template_pieces C fuel (Pair r s inner # pairs) ps hint rp =
     (case r of
        RTemplateExpression \<Rightarrow>
          res_bind (parse_expression C fuel inner rp) (\<lambda>(e, rp').
          template_pieces C fuel pairs (add_piece (pc_ext C) ps e) hint rp')
      | RTemplateNotExpression \<Rightarrow>
          template_pieces C fuel pairs (ps @ [NotExpression s]) (hint + length s) rp
      | _ \<Rightarrow> Inl Panics)"
  by pat_completeness auto

termination
  by (relation "measures [\<lambda>x. case x of
      Inl (Inl (Inl (_, n, _))) \<Rightarrow> n
    | Inl (Inl (Inr (_, n, _))) \<Rightarrow> n
    | Inl (Inr (Inl (_, n, _))) \<Rightarrow> n
    | Inl (Inr (Inr (_, n, _))) \<Rightarrow> n
    | Inr (Inl (Inl (_, n, _))) \<Rightarrow> n
    | Inr (Inl (Inr (_, n, _))) \<Rightarrow> n
    | Inr (Inr (Inl (_, n, _))) \<Rightarrow> n
    | Inr (Inr (Inr (Inl (_, n, _)))) \<Rightarrow> n
    | Inr (Inr (Inr (Inr (_, n, _)))) \<Rightarrow> n,
    \<lambda>x. case x of
      Inl (Inl (Inl (_, _, ps, _))) \<Rightarrow> 2 * size_list size ps + 1
    | Inl (Inl (Inr (_, _, _, _, ps, _))) \<Rightarrow> 2 * size_list size ps
    | Inl (Inr (Inl (_, _, ps, _))) \<Rightarrow> 2 * size_list size ps + 2
    | Inl (Inr (Inr (_, _, ps, _))) \<Rightarrow> 2 * size_list size ps + 2
    | Inr (Inl (Inl (_, _, ps, _))) \<Rightarrow> 2 * size_list size ps + 2
    | Inr (Inl (Inr (_, _, ps, _))) \<Rightarrow> 2 * size_list size ps + 2
    | Inr (Inr (Inl _)) \<Rightarrow> 1
    | Inr (Inr (Inr (Inl _))) \<Rightarrow> 0
    | Inr (Inr (Inr (Inr (_, _, ps, _)))) \<Rightarrow> 2 * size_list size ps + 2]") auto

subsection \<open>Entry points\<close>

text \<open>\<open>Parser::parse(Rule::entry_point, ..)\<close> and \<open>parse_expression\<close>.\<close>

definition expression_from_str :: "parse_ctx \<Rightarrow> nat \<Rightarrow> string \<Rightarrow> required_providers \<Rightarrow> expression parsing" where
  "expression_from_str C fuel expr rp =
     (case pc_entry_point C expr of
        Inl e \<Rightarrow> Inl (Error (InvalidExpression e (pc_marker C)))
      | Inr pairs \<Rightarrow> parse_expression C fuel pairs rp)"

definition voe_new :: "parse_ctx \<Rightarrow> nat \<Rightarrow> string \<Rightarrow> required_providers \<Rightarrow> value_or_expression parsing" where
  "voe_new C fuel expr rp = res_map (\<lambda>(e, rp'). (from_expression e, rp')) (expression_from_str C fuel expr rp)"

function parse_select :: "parse_ctx \<Rightarrow> nat \<Rightarrow> json \<Rightarrow> required_providers \<Rightarrow> parsed_select parsing"
  and parse_selects :: "parse_ctx \<Rightarrow> nat \<Rightarrow> json list \<Rightarrow> required_providers \<Rightarrow> parsed_select list parsing"
  and parse_select_entries :: "parse_ctx \<Rightarrow> nat \<Rightarrow> (string \<times> json) list \<Rightarrow> required_providers \<Rightarrow>
        (string \<times> parsed_select) list parsing"
where
  "parse_select C fuel JNull rp = Inr (SelNull, rp)"
| "parse_select C fuel (JBool b) rp = Inr (SelBool b, rp)"
| "parse_select C fuel (JNumber n) rp = Inr (SelNumber n, rp)"
| "parse_select C fuel (JString s) rp = res_map (\<lambda>(v, rp'). (SelExpression v, rp')) (voe_new C fuel s rp)"
| "parse_select C fuel (JArray a) rp = res_map (\<lambda>(ps, rp'). (SelArray ps, rp')) (parse_selects C fuel a rp)"
| "parse_select C fuel (JObject m) rp =
     res_map (\<lambda>(ps, rp'). (SelObject ps, rp')) (parse_select_entries C fuel m rp)"
| "parse_selects C fuel [] rp = Inr ([], rp)"
| "parse_selects C fuel (v # vs) rp =
     res_bind (parse_select C fuel v rp) (\<lambda>(p, rp').
     res_map (\<lambda>(ps, rp''). (p # ps, rp'')) (parse_selects C fuel vs rp'))"
| "parse_select_entries C fuel [] rp = Inr ([], rp)"
| "parse_select_entries C fuel ((k, v) # m) rp =
     res_bind (parse_select C fuel v rp) (\<lambda>(p, rp').
     res_map (\<lambda>(ps, rp''). ((k, p) # ps, rp'')) (parse_select_entries C fuel m rp'))"
  by pat_completeness auto

termination
  by (relation "measure (\<lambda>x. case x of
      Inl (_, _, v, _) \<Rightarrow> size v
    | Inr (Inl (_, _, vs, _)) \<Rightarrow> size_list size vs
    | Inr (Inr (_, _, m, _)) \<Rightarrow> size_list (size_prod (\<lambda>_. 0) size) m)") auto

subsection \<open>\<open>Select::new\<close>\<close>

record provides =
  pv_for_each :: "(string \<times> marker) list"
  pv_select :: "json \<times> marker"
  pv_send :: "send_options option"
  pv_where_clause :: "(string \<times> marker) option"

definition expression_err :: "'a creating \<Rightarrow> config_error failure + 'a" where
  "expression_err r =
     (case r of
        Inr a \<Rightarrow> Inr a
      | Inl (Error e) \<Rightarrow> Inl (Error (ExpressionErr e))
      | Inl Panics \<Rightarrow> Inl Panics
      | Inl OutOfFuel \<Rightarrow> Inl OutOfFuel)"

definition references_for_each :: "required_providers \<Rightarrow> bool" where
  "references_for_each rp \<longleftrightarrow> rp_special rp AND FOR_EACH \<noteq> 0"

fun select_join ::
    "parse_ctx \<Rightarrow> nat \<Rightarrow> (string \<times> marker) list \<Rightarrow> required_providers \<Rightarrow>
     config_error failure + value_or_expression list \<times> required_providers" where
  "select_join C fuel [] rp = Inr ([], rp)"
| "select_join C fuel ((expr, m) # vs) rp =
     res_bind (expression_err (expression_from_str (C\<lparr>pc_marker := m\<rparr>) fuel expr rp_new)) (\<lambda>(e, rp2).
       if references_for_each rp2 then Inl (Error (RecursiveForEachReference m))
       else res_map (\<lambda>(es, rp'). (from_expression e # es, rp')) (select_join C fuel vs (rp_extend rp rp2)))"

definition select_where ::
    "parse_ctx \<Rightarrow> nat \<Rightarrow> (string \<times> marker) option \<Rightarrow> bool \<Rightarrow> required_providers \<Rightarrow>
     config_error failure + expression option \<times> bool \<times> required_providers" where
  "select_where C fuel clause no_join rp =
     (case clause of
        None \<Rightarrow> Inr (None, False, rp)
      | Some (expr, m) \<Rightarrow>
          res_bind (expression_err (expression_from_str (C\<lparr>pc_marker := m\<rparr>) fuel expr (rp_set_where rp_new)))
            (\<lambda>(e, rp2).
             if references_for_each rp2 \<and> no_join then Inl (Error (MissingForEach m))
             else Inr (Some e, references_for_each rp2, rp_extend rp rp2)))"

definition select_new ::
    "parse_ctx \<Rightarrow> nat \<Rightarrow> provides \<Rightarrow> required_providers \<Rightarrow> config_error failure + select \<times> required_providers" where
  "select_new C fuel pv rp =
     res_bind (select_join C fuel (pv_for_each pv) rp) (\<lambda>(join, rp1).
     res_bind (select_where C fuel (pv_where_clause pv) (join = []) rp1) (\<lambda>(clause, where_refs, rp2).
     let (sel, m) = pv_select pv
     in res_bind (expression_err (parse_select (C\<lparr>pc_marker := m\<rparr>) fuel sel rp_new)) (\<lambda>(parsed, rp3).
        if references_for_each rp3 \<and> join = [] then Inl (Error (MissingForEach m))
        else Inr (\<lparr>sel_join = join, sel_references_for_each = references_for_each rp3,
               sel_where_references_for_each = where_refs,
               sel_send_behavior = (case pv_send pv of Some b \<Rightarrow> b | None \<Rightarrow> send_options_default),
               sel_select = parsed, sel_where_clause = clause, sel_nre = pc_nre C\<rparr>,
             rp_extend rp2 rp3))))"

end
