(* ===== verification/ExprEnv.thy ===== *)
theory ExprEnv
  imports ExprParse
begin

text \<open>
  A concrete choice for the third-party parts of expressions, for examples: graphemes are bytes, numbers are
  decimal naturals, a regex matches any text and captures it whole and up to the first dot or bracket.
\<close>

fun ref_display :: "json \<Rightarrow> string" where
  "ref_display JNull = ''null''"
| "ref_display (JBool b) = (if b then ''true'' else ''false'')"
| "ref_display (JNumber (PosInt n)) = nat_to_string (unat n)"
| "ref_display (JString s) = CHR 0x22 # s @ [CHR 0x22]"
| "ref_display _ = ''?''"

definition ref_number :: "string \<Rightarrow> json_number option" where
  "ref_number s = (case parse_usize s of Some n \<Rightarrow> Some (PosInt (of_nat n)) | None \<Rightarrow> None)"

definition ref_expr_ext :: expr_ext where
  "ref_expr_ext =
     \<lparr>x_display = ref_display,
      x_number_from_str = ref_number,
      x_base64 = (\<lambda>s. s),
      x_percent = (\<lambda>s set. concat (map (\<lambda>c. if set c then ''%'' else [c]) s)),
      x_controls = (\<lambda>c. of_char c < (32 :: nat)),
      x_non_alphanumeric = (\<lambda>c. \<not> is_digit c),
      x_graphemes = map (\<lambda>c. [c]),
      x_regex_new = (\<lambda>s. Some (Regex s)),
      x_capture_names = (\<lambda>r. [None, None]),
      x_captures = (\<lambda>r s. Some [Some s, Some (takeWhile (\<lambda>c. c \<notin> {CHR ''.'', CHR ''[''}) s)]),
      x_jsonpath_compile = (\<lambda>s. Some (Node s)),
      x_jsonpath_select = (\<lambda>n v. Some [v]),
      x_sample_u64 = fst,
      x_sample_f64 = fst,
      x_since_epoch = Some (0, 0)\<rparr>"

text \<open>A parser for examples: a template is one literal piece, an expression an integer.\<close>

definition ref_ctx :: parse_ctx where
  "ref_ctx =
     \<lparr>pc_ext = ref_expr_ext,
      pc_entry_point = (\<lambda>s. Inr [Pair RValue s [Pair RInteger s []]]),
      pc_template = (\<lambda>s. Inr (if s = [] then [] else [Pair RTemplateNotExpression s []])),
      pc_static_vars = Map.empty,
      pc_nre = False,
      pc_marker = Marker 0 1 0\<rparr>"

lemma ref_ctx_simps [simp]:
  "pc_ext ref_ctx = ref_expr_ext"
  "pc_entry_point ref_ctx s = Inr [Pair RValue s [Pair RInteger s []]]"
  "pc_template ref_ctx s = Inr (if s = [] then [] else [Pair RTemplateNotExpression s []])"
  "pc_static_vars ref_ctx k = None"
  "pc_nre ref_ctx = False"
  "pc_marker ref_ctx = Marker 0 1 0"
  "x_display ref_expr_ext = ref_display"
  "x_number_from_str ref_expr_ext = ref_number"
  "x_graphemes ref_expr_ext = map (\<lambda>c. [c])"
  by (simp_all add: ref_ctx_def ref_expr_ext_def)

text \<open>The pairs of a value, an integer and a name.\<close>

abbreviation int_pair :: "string \<Rightarrow> pair" where
  "int_pair s \<equiv> Pair RValue s [Pair RInteger s []]"

abbreviation name_pair :: "string \<Rightarrow> pair" where
  "name_pair s \<equiv> Pair RValue s [Pair RJsonPath s [Pair RJsonIdent s []]]"

abbreviation string_pair :: "string \<Rightarrow> pair" where
  "string_pair s \<equiv> Pair RValue s [Pair RString s []]"

lemma ref_number_digit: "ref_number ''5'' = Some (PosInt 5)" "ref_number ''2'' = Some (PosInt 2)"
  by (simp_all add: ref_number_def parse_usize_def parse_unsigned_def digits_value_def is_digit_def)

end
