(* ===== verification/ExprOps.thy ===== *)
theory ExprOps
  imports ExprParse
begin

text \<open>Properties of the operators: arithmetic and comparison of integers, and errors of the right operand.\<close>

lemma f64_value_u64: "f64_value (json_of_u64 n) = f64_of_int (uint n)"
  by (simp add: json_of_u64_def f64_of_nat_int)

lemma uint_of_nat_small: "n < 2 ^ 53 \<Longrightarrow> uint (of_nat n :: u64) = int n"
  by (simp add: unsigned_of_nat take_bit_nat_eq_self)

text \<open>An operator on two unsigned integers.\<close>

definition int_operator :: "infix_operator \<Rightarrow> nat \<Rightarrow> nat \<Rightarrow> exec_error + json" where
  "int_operator opr a b = infix_evaluate opr (json_of_u64 (of_nat a)) (Inr (Owned (json_of_u64 (of_nat b))))"

lemma int_operator_sub:
  assumes "a < 2 ^ 53" "b < 2 ^ 53"
  shows "int_operator Subtract a b = Inr (json_of_u64 (of_nat (a - b)))"
proof -
  have "\<bar>int a - int b\<bar> < 2 ^ 53" using assms by (simp add: abs_if)
  then have "to_json_number (f64_of_int (int a - int b)) = json_of_u64 (of_nat (nat (int a - int b)))"
    by (rule to_json_number_int)
  moreover have "nat (int a - int b) = a - b" by simp
  ultimately show ?thesis
    using assms by (simp add: int_operator_def f64_value_u64 uint_of_nat_small f64_sub_int)
qed

lemma int_operator_add:
  assumes "a < 2 ^ 53" "b < 2 ^ 53" "a + b < 2 ^ 53"
  shows "int_operator Add a b = Inr (json_of_u64 (of_nat (a + b)))"
  using assms to_json_number_int [of "int a + int b"]
  by (simp add: int_operator_def f64_value_u64 uint_of_nat_small f64_add_int nat_add_distrib)

lemma int_operator_mul:
  assumes "a < 2 ^ 53" "b < 2 ^ 53" "a * b < 2 ^ 53"
  shows "int_operator Multiply a b = Inr (json_of_u64 (of_nat (a * b)))"
  using assms to_json_number_nat [OF assms(3)] f64_mul_nat [OF assms(1,2)]
  by (simp add: int_operator_def f64_value_u64 uint_of_nat_small f64_of_nat_int)

lemma int_operator_cmp:
  assumes "a < 2 ^ 53" "b < 2 ^ 53"
  shows "int_operator Lt a b = Inr (JBool (a < b))" "int_operator Lte a b = Inr (JBool (a \<le> b))"
    "int_operator Gt a b = Inr (JBool (b < a))" "int_operator Gte a b = Inr (JBool (b \<le> a))"
  using assms f64_partial_cmp_int [of "int a" "int b"]
  by (auto simp: int_operator_def f64_value_u64 uint_of_nat_small f64_lt_def f64_gt_def f64_le_def f64_ge_def
      int_cmp_def)

lemma int_operator_eq:
  assumes "a < 2 ^ 53" "b < 2 ^ 53"
  shows "int_operator Eq a b = Inr (JBool (a = b))" "int_operator Ne a b = Inr (JBool (a \<noteq> b))"
proof -
  have "(of_nat a :: u64) = of_nat b \<longleftrightarrow> a = b"
    using uint_of_nat_small [OF assms(1)] uint_of_nat_small [OF assms(2)] by (metis of_nat_eq_iff)
  then show "int_operator Eq a b = Inr (JBool (a = b))" "int_operator Ne a b = Inr (JBool (a \<noteq> b))"
    by (simp_all add: int_operator_def json_of_u64_def)
qed



text \<open>
  An error in the right operand is the error of the operator, except that \<open>&&\<close> with a false and \<open>||\<close>
  with a true left operand do not look at it.
\<close>

theorem infix_right_error:
  "infix_evaluate opr left (Inl e) =
     (if opr = And \<and> \<not> bool_value left then Inr (JBool False)
      else if opr = Or \<and> bool_value left then Inr (JBool True)
      else Inl e)"
  by (cases opr) simp_all

end
