(* ===== verification/ExprPrec.thy ===== *)
theory ExprPrec
  imports ExprOps
begin

text \<open>
  \<open>expression_helper\<close> against a reference: a binary tree over the operands with the operators where
  precedence and association to the left put them, and its evaluation.
\<close>

datatype op_tree = Leaf expression | Node op_tree infix_operator op_tree

fun tree_items :: "op_tree \<Rightarrow> expression_or_operator list" where
  "tree_items (Leaf e) = [Operand e]"
| "tree_items (Node l opr r) = tree_items l @ Operator opr # tree_items r"

fun eval_tree :: "expr_ext \<Rightarrow> op_tree evaluator" where
  "eval_tree E (Leaf e) d nre fe = evaluate_expression E e d nre fe"
| "eval_tree E (Node l opr r) d nre fe =
     res_bind (eval_tree E l (borrow d) nre fe) (\<lambda>v.
     res_map Owned (infix_evaluate opr (into_owned v) (eval_tree E r (borrow d) nre fe)))"

fun tree_level :: "op_tree \<Rightarrow> nat" where
  "tree_level (Leaf e) = 6"
| "tree_level (Node l opr r) = precedence opr"

text \<open>Operators below a node bind at least as tight on its left, and tighter on its right.\<close>

fun tree_ok :: "op_tree \<Rightarrow> bool" where
  "tree_ok (Leaf e) \<longleftrightarrow> True"
| "tree_ok (Node l opr r) \<longleftrightarrow>
     tree_ok l \<and> tree_ok r \<and> precedence opr \<le> tree_level l \<and> precedence opr < tree_level r"

fun of_tree :: "op_tree \<Rightarrow> expression" where
  "of_tree (Leaf e) = e"
| "of_tree (Node l opr r) = attach (of_tree l) opr (of_tree r)"

text \<open>Operands with operators between them.\<close>

fun alternating :: "expression_or_operator list \<Rightarrow> bool" where
  "alternating [Operand e] = True"
| "alternating (Operand e # Operator opr # rest) = alternating rest"
| "alternating _ = False"

definition operators :: "expression_or_operator list \<Rightarrow> infix_operator set" where
  "operators items = {opr. Operator opr \<in> set items}"

lemma operators_simps [simp]:
  "operators [] = {}"
  "operators (Operator opr # xs) = insert opr (operators xs)"
  "operators (Operand e # xs) = operators xs"
  "operators (xs @ ys) = operators xs \<union> operators ys"
  by (auto simp: operators_def)

lemma alternating_split:
  "alternating (left @ Operator opr # right) \<Longrightarrow> alternating left \<and> alternating right"
proof (induction left rule: alternating.induct)
  case (1 e)
  then show ?case by simp
next
  case (2 e opr' rest)
  then show ?case by (cases rest rule: alternating.cases) auto
qed auto

lemma split_last_None: "split_last level items = None \<longleftrightarrow> (\<forall>opr \<in> operators items. precedence opr \<noteq> level)"
  by (induction items) (auto split: option.splits expression_or_operator.splits)

lemma split_last_right:
  "split_last level items = Some (left, opr, right) \<Longrightarrow> \<forall>opr' \<in> operators right. precedence opr' \<noteq> level"
  by (induction items arbitrary: left)
    (auto simp: split_last_None split: option.splits expression_or_operator.splits if_splits)

lemma precedence_range: "1 \<le> precedence opr \<and> precedence opr \<le> 5"
  by (cases opr) simp_all

lemma tree_level_operators: "tree_level t = 6 \<or> tree_level t \<in> precedence ` operators (tree_items t)"
  by (cases t) auto

lemma alternating_no_operators: "alternating items \<Longrightarrow> operators items = {} \<Longrightarrow> \<exists>e. items = [Operand e]"
  by (cases items rule: alternating.cases) auto

lemma alternating_length_1: "alternating items \<Longrightarrow> length items = 1 \<Longrightarrow> \<exists>e. items = [Operand e]"
  by (cases items rule: alternating.cases) auto

lemma helper_tree:
  "alternating items \<Longrightarrow> level \<le> 5 \<Longrightarrow> \<forall>opr \<in> operators items. level \<le> precedence opr \<Longrightarrow>
   \<exists>t. expression_helper items level = Inr (of_tree t) \<and> tree_items t = items \<and> tree_ok t \<and> level \<le> tree_level t"
proof (induction "7 * length items + (5 - level)" arbitrary: items level rule: less_induct)
  case less
  show ?case
  proof (cases "split_last level items")
    case None
    then have up: "\<forall>opr \<in> operators items. level + 1 \<le> precedence opr"
      using less.prems(3) by (auto simp: split_last_None) (metis le_neq_implies_less Suc_leI)
    show ?thesis
    proof (cases "5 \<le> level \<or> length items = 1")
      case True
      have "\<exists>e. items = [Operand e]"
      proof (cases "length items = 1")
        case False
        have "False" if "opr \<in> operators items" for opr
          using False True up precedence_range [of opr] that by fastforce
        then have "operators items = {}" by blast
        then show ?thesis using less.prems(1) alternating_no_operators by blast
      qed (use less.prems(1) alternating_length_1 in blast)
      then obtain e where "items = [Operand e]" ..
      with None True less.prems(2) show ?thesis by (intro exI [of _ "Leaf e"]) (simp add: expression_helper.simps [of _ level])
    next
      case False
      then have lt: "7 * length items + (5 - (level + 1)) < 7 * length items + (5 - level)"
        using less.prems(2) by auto
      have "level + 1 \<le> 5" using False less.prems(2) by simp
      from less.hyps [OF lt less.prems(1) this up]
      obtain t where "expression_helper items (level + 1) = Inr (of_tree t)" "tree_items t = items"
        "tree_ok t" "level + 1 \<le> tree_level t"
        by auto
      with None False show ?thesis by (intro exI [of _ t]) (simp add: expression_helper.simps [of _ level])
    qed
  next
    case (Some p)
    then obtain left opr right where sp: "split_last level items = Some (left, opr, right)" by (cases p) auto
    note ap = split_last_append [OF sp]
    have alt: "alternating left" "alternating right" using alternating_split less.prems(1) ap by blast+
    have ops: "\<forall>opr \<in> operators left. level \<le> precedence opr" "\<forall>opr \<in> operators right. level \<le> precedence opr"
      using less.prems(3) ap by auto
    have len: "7 * length left + (5 - level) < 7 * length items + (5 - level)"
      "7 * length right + (5 - level) < 7 * length items + (5 - level)" using ap by auto
    obtain l where l: "(case left of [Operand e] \<Rightarrow> Inr e | [Operator _] \<Rightarrow> Inl Panics
        | _ \<Rightarrow> expression_helper left level) = Inr (of_tree l)"
      "tree_items l = left" "tree_ok l" "level \<le> tree_level l"
    proof (cases left rule: alternating.cases)
      case (1 e)
      then show ?thesis using that [of "Leaf e"] \<open>level \<le> 5\<close> by simp
    next
      case (2 e opr' rest)
      then show ?thesis using less.hyps [OF _ alt(1) less.prems(2) ops(1)] len(1) that by auto
    qed (use alt(1) in auto)
    obtain r where r: "expression_helper right level = Inr (of_tree r)" "tree_items r = right" "tree_ok r"
      "level \<le> tree_level r"
      using less.hyps [OF _ alt(2) less.prems(2) ops(2)] len(2) by auto
    have "level < tree_level r"
    proof (rule ccontr)
      assume "\<not> level < tree_level r"
      with r(4) have "tree_level r = level" by simp
      with tree_level_operators [of r] \<open>level \<le> 5\<close> r(2) split_last_right [OF sp] show False by auto
    qed
    with sp l r ap show ?thesis 
      by (intro exI [of _ "Node l opr r"]) (simp add: expression_helper.simps [of _ level])
  qed
qed

subsection \<open>Evaluation\<close>

lemma negate_None [simp]: "negate None = (\<lambda>v. v)"
  by (simp add: negate_def fun_eq_iff)

lemma expr_op_attach [simp]: "expr_op (attach e opr r) = Some (opr, r)"
  by (simp add: attach_def split: option.splits)

lemma evaluate_attach:
  assumes "expr_not e = None"
  shows "evaluate_expression E (attach e opr r) d nre fe =
    res_bind (evaluate_expression E e (borrow d) nre fe) (\<lambda>v.
    res_map Owned (infix_evaluate opr (into_owned v) (evaluate_expression E r (borrow d) nre fe)))"
proof (cases e)
  case (Expr no lhs rhs)
  with assms show ?thesis by (cases rhs) (auto simp: attach_def)
qed

lemma of_tree_not: "\<forall>e. Operand e \<in> set (tree_items t) \<longrightarrow> expr_not e = None \<Longrightarrow> expr_not (of_tree t) = None"
  by (induction t) (auto simp: attach_def split: option.splits)

lemma evaluate_of_tree:
  "\<forall>e. Operand e \<in> set (tree_items t) \<longrightarrow> expr_not e = None \<Longrightarrow>
   evaluate_expression E (of_tree t) d nre fe = eval_tree E t d nre fe"
proof (induction t arbitrary: d)
  case (Node l opr r)
  then have "expr_not (of_tree l) = None" by (intro of_tree_not) auto
  with Node show ?case by (simp add: evaluate_attach)
qed simp


text \<open>\<open>1 + 2 * 3 == 7 || false\<close>.\<close>

abbreviation num_operand :: "nat \<Rightarrow> expression_or_operator" where
  "num_operand n \<equiv> Operand (Expr None (ValueLhs (JsonV (json_of_u64 (of_nat n)))) None)"


text \<open>
  A \<open>not\<close> on the left operand, however, is kept by the whole operation: the model of \<open>!a && b\<close> is
  \<open>!(a && b)\<close>. The grammar has \<open>unary_operator\<close> as a silent rule, for which the generated parser gives no
  pair, so that it does not come to this: a \<open>!\<close> is accepted and has no effect.
\<close>

lemma not_takes_whole_operation:
  "evaluate_expression E (attach (Expr (Some True) lhs None) opr r) d nre fe =
   res_bind (evaluate_lhs E lhs (borrow d) nre fe) (\<lambda>v.
   res_map (\<lambda>j. Owned (JBool (\<not> bool_value j)))
     (infix_evaluate opr (into_owned v) (evaluate_expression E r (borrow d) nre fe)))"
  by (simp add: attach_def negate_def)

end
