(* ===== verification/ExprFold.thy ===== *)
theory ExprFold
  imports ExprPrec ExprEnv
begin

text \<open>
  Constant folding: what \<open>simplify_to_json\<close> makes of a parsed expression evaluates as the expression does,
  and the functions fold literal arguments to what they would evaluate to.
\<close>

subsection \<open>Expressions\<close>

text \<open>
  \<open>simplify_to_json\<close> drops the \<open>not\<close> of an expression that is only a group. The parser never makes one.
\<close>

definition top_ok :: "expression \<Rightarrow> bool" where
  "top_ok e \<longleftrightarrow> expr_op e \<noteq> None \<or> (\<exists>v. expr_lhs e = ValueLhs v)"

definition items_ok :: "expression_or_operator list \<Rightarrow> bool" where
  "items_ok items \<longleftrightarrow> (\<forall>e. Operand e \<in> set items \<longrightarrow> top_ok e)"

lemma top_ok_attach [simp]: "top_ok (attach e opr r)"
  by (simp add: top_ok_def)

lemma top_ok_with_not [simp]: "top_ok (with_not no e) = top_ok e"
  by (simp add: top_ok_def with_not_def)

lemma items_ok_simps [simp]:
  "items_ok []" "items_ok (xs @ ys) \<longleftrightarrow> items_ok xs \<and> items_ok ys"
  "items_ok [Operator opr]" "items_ok [Operand e] \<longleftrightarrow> top_ok e"
  by (auto simp: items_ok_def)

lemma helper_top_ok: "expression_helper items level = Inr e \<Longrightarrow> items_ok items \<Longrightarrow> top_ok e"
proof (induction "5 - level" arbitrary: level rule: less_induct)
  case less
  show ?case
  proof (cases "split_last level items")
    case None
    show ?thesis
    proof (cases "5 \<le> level \<or> length items = 1")
      case True
      with less.prems None show ?thesis
        by (auto simp: expression_helper.simps [of _ level] items_ok_def split: list.splits expression_or_operator.splits)
    next
      case False
      with less.prems None have "expression_helper items (level + 1) = Inr e"
        by (auto simp: expression_helper.simps [of _ level])
      with False show ?thesis by (intro less.hyps [OF _ _ less.prems(2)]) auto
    qed
  next
    case (Some p)
    with less.prems show ?thesis
      by (cases p) (auto simp: expression_helper.simps [of _ level] res_simps)
  qed
qed

lemma parse_pieces_ok:
  "parse_expression_pieces C fuel not_count start_len pairs items rp = Inr (items', rp') \<Longrightarrow> items_ok items \<Longrightarrow>
   items_ok items'"
proof (induction "size_list size pairs" arbitrary: not_count start_len pairs items rp items' rp' rule: less_induct)
  case less
  show ?case
  proof (cases pairs)
    case (Cons p rest)
    obtain r s inner where p: "p = Pair r s inner" by (cases p) auto
    have sz: "size_list size rest < size_list size pairs" "size_list size inner < size_list size pairs"
      by (simp_all add: Cons p)
    note IH = less.hyps [OF sz(1)] and IH2 = less.hyps [OF sz(2)]
    show ?thesis
    proof (cases r)
      case RValue
      with less.prems Cons p obtain v rp1 where
        "parse_expression_pieces C fuel 0 start_len rest
           (items @ [Operand (Expr (not_of_count not_count) (ValueLhs v) None)]) rp1 = Inr (items', rp')"
        by (auto simp: res_simps)
      from IH [OF this] less.prems(2) show ?thesis by (simp add: top_ok_def)
    next
      case RExpression
      show ?thesis
      proof (cases "length items = start_len")
        case True
        with RExpression less.prems Cons p obtain items2 rp1 e where
          *: "parse_expression_pieces C fuel 0 0 inner [] rp = Inr (items2, rp1)"
          "expression_helper items2 0 = Inr e"
          "parse_expression_pieces C fuel not_count start_len rest
             (items @ [Operand (with_not (not_of_count not_count) e)]) rp1 = Inr (items', rp')"
          by (auto simp: res_simps)
        have "top_ok e" using helper_top_ok [OF *(2)] IH2 [OF *(1)] by simp
        then show ?thesis using less.prems(2) by (intro IH [OF *(3)]) auto
      next
        case False
        with RExpression less.prems Cons p obtain items1 rp1 where
          *: "parse_expression_pieces C fuel 0 (length items) inner items rp = Inr (items1, rp1)"
          "parse_expression_pieces C fuel not_count start_len rest items1 rp1 = Inr (items', rp')"
          by (auto simp: res_simps)
        show ?thesis using IH [OF *(2)] IH2 [OF *(1) less.prems(2)] by simp
      qed
    next
      case RInfixOperator
      with less.prems(1) Cons p obtain opr where
        "parse_expression_pieces C fuel not_count start_len rest (items @ [Operator opr]) rp = Inr (items', rp')"
        by (auto split: option.splits)
      from IH [OF this] less.prems(2) show ?thesis by simp
    next
      case RUnaryOperator
      with less.prems(1) Cons p
      have "parse_expression_pieces C fuel (not_count + 1) start_len rest items rp = Inr (items', rp')" by simp
      from IH [OF this less.prems(2)] show ?thesis .
    next
      case REOI
      with less.prems(1) Cons p
      have "parse_expression_pieces C fuel not_count start_len rest items rp = Inr (items', rp')" by simp
      from IH [OF this less.prems(2)] show ?thesis .
    qed (use less.prems(1) Cons p in simp_all)
  qed (use less.prems in simp)
qed

lemma simplify_sound:
  assumes "top_ok e"
  shows "res_map into_owned (evaluate_voe E (from_expression e) d nre fe) =
    res_map into_owned (evaluate_expression E e d nre fe)"
proof (cases e rule: simplify_to_json.cases)
  case (1 no v)
  then show ?thesis by (cases no) (auto simp: from_expression_def negate_def)
next
  case (2 no e')
  with assms show ?thesis by (simp add: top_ok_def)
qed (simp_all add: from_expression_def)

text \<open>
  C9. A parsed expression may be simplified: what is kept of it has the same value, or the same error,
  as the expression itself, on every document.
\<close>

theorem from_expression_sound:
  assumes "parse_expression C fuel pairs rp = Inr (e, rp')"
  shows "res_map into_owned (evaluate_voe E (from_expression e) d nre fe) =
    res_map into_owned (evaluate_expression E e d nre fe)"
proof -
  obtain items where "parse_expression_pieces C fuel 0 0 pairs [] rp = Inr (items, rp')"
    "expression_helper items 0 = Inr e"
    using assms by (auto simp: res_simps)
  with parse_pieces_ok helper_top_ok have "top_ok e" by fastforce
  then show ?thesis by (rule simplify_sound)
qed

text \<open>\<open>5 + 2\<close>.\<close>

theorem from_expression_sound_witness:
  "\<exists>e rp'. parse_expression ref_ctx 1 [int_pair ''5'', Pair RInfixOperator ''+'' [], Pair RExpression ''2'' [int_pair ''2'']]
      rp_new = Inr (e, rp') \<and>
     res_map into_owned (evaluate_voe ref_expr_ext (from_expression e) (Owned JNull) False None) =
     res_map into_owned (evaluate_expression ref_expr_ext e (Owned JNull) False None)"
proof -
  have "\<exists>e. parse_expression ref_ctx 1
      [int_pair ''5'', Pair RInfixOperator ''+'' [], Pair RExpression ''2'' [int_pair ''2'']] rp_new = Inr (e, rp_new)"
    by (simp add: ref_number_digit infix_of_def expression_helper.simps numeral_eq_Suc attach_def not_of_count_def)
  with from_expression_sound show ?thesis by blast
qed

end
