(* ===== verification/ExprStream.thy ===== *)
theory ExprStream
  imports ExprEval
begin

text \<open>
  \<open>into_stream\<close> of expressions: an expression over provider streams becomes a stream of values, each with the
  auto-returns of the provider items it came from. A stream is given by its items: \<open>s n\<close> is the \<open>n\<close>-th, \<open>None\<close>
  when the stream has ended before; waiting is left out. The combinators of \<open>futures\<close> are what they are
  documented to be on items: \<open>map\<close> maps, \<open>zip\<close> pairs up and ends with the shorter stream, \<open>repeat\<close> repeats.
  \<open>E n\<close> are the third-party parts when item \<open>n\<close> is made, and \<open>None\<close> in place of a stream is the panic of
  \<open>unreachable!("provider should be available")\<close>.
\<close>

subsection \<open>Streams by their items\<close>

type_synonym 'i seq = "nat \<Rightarrow> 'i option"

type_synonym 'ar returns = "json \<times> 'ar list"

type_synonym 'ar item = "exec_error + json \<times> 'ar list"

definition seq_map :: "(nat \<Rightarrow> 'i \<Rightarrow> 'j) \<Rightarrow> 'i seq \<Rightarrow> 'j seq" where
  "seq_map f s = (\<lambda>n. map_option (f n) (s n))"

definition seq_map_ok :: "(nat \<Rightarrow> 'a \<Rightarrow> 'b) \<Rightarrow> ('e + 'a) seq \<Rightarrow> ('e + 'b) seq" where
  "seq_map_ok f s = seq_map (\<lambda>n. res_map (f n)) s"

definition seq_zip :: "'i seq \<Rightarrow> 'j seq \<Rightarrow> ('i \<times> 'j) seq" where
  "seq_zip s t = (\<lambda>n. case (s n, t n) of (Some a, Some b) \<Rightarrow> Some (a, b) | _ \<Rightarrow> None)"

definition seq_repeat :: "'i \<Rightarrow> 'i seq" where
  "seq_repeat x = (\<lambda>n. Some x)"

text \<open>
  A row of \<open>zip_all\<close>: \<open>Inl\<close> when a stream has ended or failed at this place, the first one in order (the
  order of \<open>ZipAll::poll_next\<close>). After such a row \<open>ZipAll\<close> has ended, and it has if there are no streams.
\<close>

fun zip_row :: "('e + 'v) option list \<Rightarrow> 'e option + 'v list" where
  "zip_row [] = Inr []"
| "zip_row (None # rs) = Inl None"
| "zip_row (Some (Inl e) # rs) = Inl (Some e)"
| "zip_row (Some (Inr v) # rs) = res_map (\<lambda>vs. v # vs) (zip_row rs)"

definition seq_zip_all :: "('e + 'v) seq list \<Rightarrow> ('e + 'v list) seq" where
  "seq_zip_all ss =
     (\<lambda>n. let row = (\<lambda>m. zip_row (map (\<lambda>s. s m) ss))
          in if ss = [] \<or> list_ex (\<lambda>m. \<not> is_ok (row m)) [0..<n] then None
             else (case row n of Inl q \<Rightarrow> map_option Inl q | Inr vs \<Rightarrow> Some (Inr vs)))"

type_synonym ('a, 'ar) streamer = "'a \<Rightarrow> 'ar item seq option"

subsection \<open>Functions of one argument\<close>

definition encode_into_stream :: "(nat \<Rightarrow> expr_ext) \<Rightarrow> ('a, 'ar) streamer \<Rightarrow> ('a encode, 'ar) streamer" where
  "encode_into_stream E is c =
     map_option (seq_map_ok (\<lambda>n. \<lambda>(d, returns). (JString (encoding_encode (E n) (encode_encoding c) d), returns))) (is (encode_arg c))"

definition join_into_stream :: "(nat \<Rightarrow> expr_ext) \<Rightarrow> ('a, 'ar) streamer \<Rightarrow> ('a join_fn, 'ar) streamer" where
  "join_into_stream E is c =
     map_option (seq_map_ok (\<lambda>n. \<lambda>(d, returns). (join_with_arg (E n) (join_sep c) (join_sep2 c) d, returns))) (is (join_arg c))"

definition match_into_stream :: "(nat \<Rightarrow> expr_ext) \<Rightarrow> ('a, 'ar) streamer \<Rightarrow> ('a match_fn, 'ar) streamer" where
  "match_into_stream E is c =
     map_option (seq_map_ok (\<lambda>n. \<lambda>(d, returns). (match_with_arg (E n) (match_regex c) (match_capture_names c) d, returns))) (is (match_arg c))"

definition pad_into_stream :: "(nat \<Rightarrow> expr_ext) \<Rightarrow> ('a, 'ar) streamer \<Rightarrow> ('a pad, 'ar) streamer" where
  "pad_into_stream E is c =
     map_option (seq_map_ok (\<lambda>n. \<lambda>(d, returns). (pad_with_arg (E n) (pad_padding c) (pad_min_length c) (pad_start c) d, returns))) (is (pad_arg c))"

definition entries_into_stream :: "(nat \<Rightarrow> expr_ext) \<Rightarrow> ('a, 'ar) streamer \<Rightarrow> ('a entries, 'ar) streamer" where
  "entries_into_stream E is c =
     map_option (seq_map_ok (\<lambda>n. \<lambda>(d, returns). (into_owned (either_unwrap (map_b (\<lambda>i. Owned (JArray (map into_owned i))) (entries_with_arg (E n) (Owned d)))), returns))) (is (entries_arg c))"

subsection \<open>\<open>epoch\<close>, \<open>random\<close>, \<open>repeat\<close> and \<open>json_path\<close>\<close>

definition epoch_into_stream :: "(nat \<Rightarrow> expr_ext) \<Rightarrow> epoch \<Rightarrow> 'ar item seq" where
  "epoch_into_stream E e = (\<lambda>n. Some (res_map (\<lambda>v. (into_owned v, [])) (epoch_evaluate (E n) e)))"

definition random_into_stream :: "(nat \<Rightarrow> expr_ext) \<Rightarrow> random \<Rightarrow> 'ar item seq" where
  "random_into_stream E r = (\<lambda>n. Some (Inr (into_owned (random_evaluate (E n) r), [])))"

text \<open>The value is made once, when the stream is.\<close>

definition repeat_into_stream :: "(nat \<Rightarrow> expr_ext) \<Rightarrow> repeat \<Rightarrow> 'ar item seq" where
  "repeat_into_stream E r = seq_repeat (Inr (into_owned (repeat_evaluate (E 0) r), []))"

definition json_path_into_stream ::
    "(nat \<Rightarrow> expr_ext) \<Rightarrow> (string \<rightharpoonup> 'ar item seq) \<Rightarrow> json_path \<Rightarrow> 'ar item seq option" where
  "json_path_into_stream E providers j =
     map_option (seq_map_ok (\<lambda>n. \<lambda>(v, outgoing).
       (JArray (json_path_to_vec (E n) j (JObject [(jp_provider j, v)])), outgoing)))
       (providers (jp_provider j))"

subsection \<open>\<open>min\<close> and \<open>max\<close>, \<open>range\<close>, \<open>replace\<close>\<close>

definition min_max_into_stream :: "('a, 'ar) streamer \<Rightarrow> ('a min_max, 'ar) streamer" where
  "min_max_into_stream is c =
     map_option (\<lambda>ss. seq_map (\<lambda>n values.
         res_bind values (\<lambda>values.
         res_map (\<lambda>(v, count). (into_owned v, concat (map snd values)))
           (eval_iter (min_max_min c) (Owned JNull, 0) (map (\<lambda>v. Inr (Borrowed (fst v))) values))))
         (seq_zip_all ss))
       (those (map is (min_max_args c)))"

fun range_into_stream :: "('a, 'ar) streamer \<Rightarrow> ('a range_fn, 'ar) streamer" where
  "range_into_stream is (Args first second marker) =
     Option.bind (is first) (\<lambda>s1.
     map_option (\<lambda>s2. seq_map (\<lambda>n. \<lambda>(l, r).
       res_bind l (\<lambda>(v1, returns).
       res_bind r (\<lambda>(v2, returns2).
       res_bind (range_arg marker v1) (\<lambda>a.
       res_map (\<lambda>b. (JArray (map into_owned (range_into_iter (reversible_range_new a b))), returns @ returns2))
         (range_arg marker v2))))) (seq_zip s1 s2)) (is second))"
| "range_into_stream is (Range r) = Some (seq_repeat (Inr (JArray (map into_owned (range_into_iter r)), [])))"

definition replace_into_stream :: "(nat \<Rightarrow> expr_ext) \<Rightarrow> ('a, 'ar) streamer \<Rightarrow> ('a replace_fn, 'ar) streamer" where
  "replace_into_stream E is c =
     Option.bind (is (replace_haystack c)) (\<lambda>haystack.
     Option.bind (is (replace_needle c)) (\<lambda>needle.
     map_option (\<lambda>replacer. seq_map (\<lambda>n. \<lambda>((h, ne), re).
       res_bind h (\<lambda>(hv, returns).
       res_bind ne (\<lambda>(nv, returns2).
       res_map (\<lambda>(rv, returns3).
         (replace_in (json_value_to_string (E n) nv) (json_value_to_string (E n) rv) hv, returns @ returns2 @ returns3)) re)))
       (seq_zip (seq_zip haystack needle) replacer)) (is (replace_replacer c))))"

subsection \<open>\<open>if\<close>\<close>

text \<open>
  Each item takes one of the condition and one of the branch it chooses; the state is how many items the
  branches have given, \<open>None\<close> when the stream is done.
\<close>

fun if_state :: "'ar item seq \<Rightarrow> 'ar item seq \<Rightarrow> 'ar item seq \<Rightarrow> nat \<Rightarrow> (nat \<times> nat) option"
  and if_item :: "'ar item seq \<Rightarrow> 'ar item seq \<Rightarrow> 'ar item seq \<Rightarrow> nat \<Rightarrow> 'ar item option" where
  "if_state first second third 0 = Some (0, 0)"
| "if_state first second third (Suc n) =
     (case (if_state first second third n, if_item first second third n, first n) of
        (Some (i, j), Some (Inr _), Some (Inr (v, _))) \<Rightarrow> Some (if bool_value v then (i + 1, j) else (i, j + 1))
      | _ \<Rightarrow> None)"
| "if_item first second third n =
     (case if_state first second third n of
        None \<Rightarrow> None
      | Some (i, j) \<Rightarrow>
          (case first n of
             None \<Rightarrow> None
           | Some (Inl e) \<Rightarrow> Some (Inl e)
           | Some (Inr (v, returns)) \<Rightarrow>
               map_option (res_map (\<lambda>(w, returns2). (w, returns @ returns2)))
                 (if bool_value v then second i else third j)))"

definition if_into_stream :: "('a, 'ar) streamer \<Rightarrow> ('a if_fn, 'ar) streamer" where
  "if_into_stream is c =
     Option.bind (is (if_first c)) (\<lambda>first.
     Option.bind (is (if_second c)) (\<lambda>second.
     map_option (\<lambda>third. if_item first second third) (is (if_third c))))"

subsection \<open>\<open>collect\<close>\<close>

text \<open>
  Each array takes as many items as the vector made for it has room for: \<open>Vec::with_capacity(n)\<close> has room
  for \<open>n\<close>, and a vector without room grows to room for four at its first \<open>push\<close>.
\<close>

definition collect_size :: "(nat \<Rightarrow> expr_ext) \<Rightarrow> 'a collect \<Rightarrow> nat \<Rightarrow> nat" where
  "collect_size E c n =
     (let len = unat (case collect_random c of Some r \<Rightarrow> x_sample_u64 (E n) r | None \<Rightarrow> collect_min c)
      in if len = 0 then 4 else len)"

definition collect_row :: "(nat \<Rightarrow> expr_ext) \<Rightarrow> 'a collect \<Rightarrow> 'ar item seq \<Rightarrow> nat \<Rightarrow>
    exec_error option + (json \<times> 'ar list) list" where
  "collect_row E c arg n =
     (let start = sum_list (map (collect_size E c) [0..<n])
      in zip_row (map arg [start..<start + collect_size E c n]))"

definition collect_into_stream :: "(nat \<Rightarrow> expr_ext) \<Rightarrow> ('a, 'ar) streamer \<Rightarrow> ('a collect, 'ar) streamer" where
  "collect_into_stream E is c =
     map_option (\<lambda>arg n.
       if list_ex (\<lambda>m. \<not> is_ok (collect_row E c arg m)) [0..<n] then None
       else (case collect_row E c arg n of
               Inl q \<Rightarrow> map_option Inl q
             | Inr vs \<Rightarrow> Some (Inr (JArray (map fst vs), concat (map snd vs)))))
       (is (collect_arg c))"

subsection \<open>The streams of the arguments\<close>

lemma encode_into_stream_cong [fundef_cong]:
  assumes "c = c'" and "\<And>x. x \<in> set_encode c' \<Longrightarrow> is x = is' x"
  shows "encode_into_stream E is c = encode_into_stream E is' c'"
  using assms by (cases c') (simp add: encode_into_stream_def)

lemma entries_into_stream_cong [fundef_cong]:
  assumes "c = c'" and "\<And>x. x \<in> set_entries c' \<Longrightarrow> is x = is' x"
  shows "entries_into_stream E is c = entries_into_stream E is' c'"
  using assms by (cases c') (simp add: entries_into_stream_def)

lemma join_into_stream_cong [fundef_cong]:
  assumes "c = c'" and "\<And>x. x \<in> set_join_fn c' \<Longrightarrow> is x = is' x"
  shows "join_into_stream E is c = join_into_stream E is' c'"
  using assms by (cases c') (simp add: join_into_stream_def)

lemma match_into_stream_cong [fundef_cong]:
  assumes "c = c'" and "\<And>x. x \<in> set_match_fn c' \<Longrightarrow> is x = is' x"
  shows "match_into_stream E is c = match_into_stream E is' c'"
  using assms by (cases c') (simp add: match_into_stream_def)

lemma pad_into_stream_cong [fundef_cong]:
  assumes "c = c'" and "\<And>x. x \<in> set_pad c' \<Longrightarrow> is x = is' x"
  shows "pad_into_stream E is c = pad_into_stream E is' c'"
  using assms by (cases c') (simp add: pad_into_stream_def)

lemma replace_into_stream_cong [fundef_cong]:
  assumes "c = c'" and "\<And>x. x \<in> set_replace_fn c' \<Longrightarrow> is x = is' x"
  shows "replace_into_stream E is c = replace_into_stream E is' c'"
  using assms by (cases c') (simp add: replace_into_stream_def)

lemma collect_into_stream_cong [fundef_cong]:
  assumes "c = c'" and "\<And>x. x \<in> set_collect c' \<Longrightarrow> is x = is' x"
  shows "collect_into_stream E is c = collect_into_stream E is' c'"
  using assms by (cases c') (simp add: collect_into_stream_def)

lemma if_into_stream_cong [fundef_cong]:
  assumes "c = c'" and "\<And>x. x \<in> set_if_fn c' \<Longrightarrow> is x = is' x"
  shows "if_into_stream is c = if_into_stream is' c'"
  using assms by (cases c') (simp add: if_into_stream_def)

lemma range_into_stream_cong [fundef_cong]:
  assumes "c = c'" and "\<And>x. x \<in> set_range_fn c' \<Longrightarrow> is x = is' x"
  shows "range_into_stream is c = range_into_stream is' c'"
  using assms by (cases c') simp_all

lemma min_max_into_stream_cong [fundef_cong]:
  assumes "c = c'" and "\<And>x. x \<in> set_min_max c' \<Longrightarrow> is x = is' x"
  shows "min_max_into_stream is c = min_max_into_stream is' c'"
  using assms by (cases c') (simp add: min_max_into_stream_def cong: map_cong)

subsection \<open>\<open>into_stream\<close>\<close>

definition apply_not :: "bool option \<Rightarrow> json \<Rightarrow> json" where
  "apply_not no v =
     (case no of Some n \<Rightarrow> (let b = bool_value v in JBool (if n then \<not> b else b)) | None \<Rightarrow> v)"

function into_stream_voe ::
      "(nat \<Rightarrow> expr_ext) \<Rightarrow> (string \<rightharpoonup> 'ar item seq) \<Rightarrow> bool \<Rightarrow> (value_or_expression, 'ar) streamer"
  and into_stream_value :: "(nat \<Rightarrow> expr_ext) \<Rightarrow> (string \<rightharpoonup> 'ar item seq) \<Rightarrow> bool \<Rightarrow> (val, 'ar) streamer"
  and into_stream_path :: "(nat \<Rightarrow> expr_ext) \<Rightarrow> (string \<rightharpoonup> 'ar item seq) \<Rightarrow> bool \<Rightarrow> (path, 'ar) streamer"
  and into_stream_call :: "(nat \<Rightarrow> expr_ext) \<Rightarrow> (string \<rightharpoonup> 'ar item seq) \<Rightarrow> bool \<Rightarrow> (function_call, 'ar) streamer"
  and into_stream_expression :: "(nat \<Rightarrow> expr_ext) \<Rightarrow> (string \<rightharpoonup> 'ar item seq) \<Rightarrow> bool \<Rightarrow> (expression, 'ar) streamer"
  and into_stream_lhs :: "(nat \<Rightarrow> expr_ext) \<Rightarrow> (string \<rightharpoonup> 'ar item seq) \<Rightarrow> bool \<Rightarrow> (expression_lhs, 'ar) streamer"
  and into_stream_template :: "(nat \<Rightarrow> expr_ext) \<Rightarrow> (string \<rightharpoonup> 'ar item seq) \<Rightarrow> template \<Rightarrow>
      (exec_error + string \<times> 'ar list) seq option"
  and into_stream_piece :: "(nat \<Rightarrow> expr_ext) \<Rightarrow> (string \<rightharpoonup> 'ar item seq) \<Rightarrow> bool \<Rightarrow> template_piece \<Rightarrow>
      (exec_error + string \<times> 'ar list) seq option"
where
  "into_stream_voe E providers nre (Value v) = into_stream_value E providers nre v"
| "into_stream_voe E providers nre (Expression e) = into_stream_expression E providers nre e"
| "into_stream_value E providers nre (PathV p) = into_stream_path E providers nre p"
| "into_stream_value E providers nre (JsonV j) = Some (seq_repeat (Inr (j, [])))"
| "into_stream_value E providers nre (TemplateV t) =
     map_option (seq_map_ok (\<lambda>n. \<lambda>(s, v). (JString s, v))) (into_stream_template E providers t)"
| "into_stream_path E providers nre (Path start rest marker) =
     (let follow = (\<lambda>s. seq_map (\<lambda>n r. res_bind r (\<lambda>(j, returns).
            res_map (\<lambda>v. (into_owned v, returns)) (index_json2 (E n) (Owned j) rest nre None marker))) s)
      in case start of
           FunctionCall f \<Rightarrow> map_option follow (into_stream_call E providers nre f)
         | Ident s \<Rightarrow> map_option follow (providers s)
         | ValueStart v \<Rightarrow>
             Some (seq_repeat (res_map (\<lambda>v. (into_owned v, [])) (index_json2 (E 0) (Owned v) rest nre None marker))))"
| "into_stream_call E providers nre (CallCollect c) = collect_into_stream E (into_stream_voe E providers nre) c"
| "into_stream_call E providers nre (CallEncode e) = encode_into_stream E (into_stream_voe E providers nre) e"
| "into_stream_call E providers nre (CallEntries e) = entries_into_stream E (into_stream_voe E providers nre) e"
| "into_stream_call E providers nre (CallEpoch e) = Some (epoch_into_stream E e)"
| "into_stream_call E providers nre (CallIf i) = if_into_stream (into_stream_voe E providers nre) i"
| "into_stream_call E providers nre (CallJoin j) = join_into_stream E (into_stream_voe E providers nre) j"
| "into_stream_call E providers nre (CallJsonPath j) = json_path_into_stream E providers j"
| "into_stream_call E providers nre (CallMatch m) = match_into_stream E (into_stream_voe E providers nre) m"
| "into_stream_call E providers nre (CallMinMax m) = min_max_into_stream (into_stream_voe E providers nre) m"
| "into_stream_call E providers nre (CallPad p) = pad_into_stream E (into_stream_voe E providers nre) p"
| "into_stream_call E providers nre (CallRandom r) = Some (random_into_stream E r)"
| "into_stream_call E providers nre (CallRange r) = range_into_stream (into_stream_voe E providers nre) r"
| "into_stream_call E providers nre (CallRepeat r) = Some (repeat_into_stream E r)"
| "into_stream_call E providers nre (CallReplace r) = replace_into_stream E (into_stream_voe E providers nre) r"
| "into_stream_expression E providers nre (Expr no lhs None) =
     map_option (seq_map_ok (\<lambda>n. \<lambda>(v, returns). (apply_not no v, returns))) (into_stream_lhs E providers nre lhs)"
| "into_stream_expression E providers nre (Expr no lhs (Some (opr, rhs))) =
     Option.bind (into_stream_lhs E providers nre lhs) (\<lambda>v.
     map_option (\<lambda>w. seq_map (\<lambda>n. \<lambda>(a, b).
       res_bind a (\<lambda>(l, returns).
       res_bind b (\<lambda>(r, returns2).
       res_map (\<lambda>v. (apply_not no v, returns @ returns2)) (infix_evaluate opr l (Inr (Owned r))))))
       (seq_zip v w)) (into_stream_expression E providers nre rhs))"
| "into_stream_lhs E providers nre (ExprLhs e) = into_stream_expression E providers nre e"
| "into_stream_lhs E providers nre (ValueLhs v) = into_stream_value E providers nre v"
| "into_stream_template E providers (Template ps hint tnre) =
     map_option (\<lambda>ss. seq_map_ok (\<lambda>n values. (concat (map fst values), concat (map snd values))) (seq_zip_all ss))
       (those (map (into_stream_piece E providers tnre) ps))"
| "into_stream_piece E providers tnre (ExpressionPiece voe) =
     map_option (seq_map_ok (\<lambda>n. \<lambda>(v, returns). (json_value_to_string (E n) v, returns)))
       (into_stream_voe E providers tnre voe)"
| "into_stream_piece E providers tnre (NotExpression s) = Some (seq_repeat (Inr (s, [])))"
  by pat_completeness auto

termination
  by (relation "measure (\<lambda>x. case x of
      Inl (Inl (Inl (_, _, _, t))) \<Rightarrow> size t
    | Inl (Inl (Inr (_, _, _, t))) \<Rightarrow> size t
    | Inl (Inr (Inl (_, _, _, t))) \<Rightarrow> size t
    | Inl (Inr (Inr (_, _, _, t))) \<Rightarrow> size t
    | Inr (Inl (Inl (_, _, _, t))) \<Rightarrow> size t
    | Inr (Inl (Inr (_, _, _, t))) \<Rightarrow> size t
    | Inr (Inr (Inl (_, _, t))) \<Rightarrow> size t
    | Inr (Inr (Inr (_, _, _, t))) \<Rightarrow> size t)")
    (auto simp: less_Suc_eq_le termination_simp)

text \<open>A template without pieces, which the empty string is, has no items.\<close>

lemma empty_template_stream: "into_stream_template E providers (Template [] hint tnre) = Some (\<lambda>n. None)"
  by (simp add: seq_map_ok_def seq_map_def seq_zip_all_def)

end
