(* ===== verification/F64Real.thy ===== *)
theory F64Real
  imports Complex_Main F64
begin

text \<open>
  Rounding of \<open>f64\<close> as real numbers: to the nearest representable number, exact on representable ones and
  finite within the range; with the square root, \<open>recip\<close> and \<open>abs\<close>.
\<close>

subsection \<open>More operations\<close>

fun f64_abs :: "f64 \<Rightarrow> f64" where
  "f64_abs NaN = NaN"
| "f64_abs (Infinite s) = Infinite False"
| "f64_abs (Finite s m e) = Finite False m e"

definition f64_recip :: "f64 \<Rightarrow> f64" where
  "f64_recip x = f64_div (f64_of_nat 1) x"

fun isqrt :: "nat \<Rightarrow> nat" where
  "isqrt n =
     (if n = 0 then 0
      else let r = 2 * isqrt (n div 4) in if (r + 1) * (r + 1) \<le> n then r + 1 else r)"

declare isqrt.simps [simp del]

text \<open>
  The root of a mantissa widened to at least 109 bits has at least 54, and a last bit says whether it is exact:
  rounding that to 53 bits is rounding the root.
\<close>

fun f64_sqrt :: "f64 \<Rightarrow> f64" where
  "f64_sqrt NaN = NaN"
| "f64_sqrt (Infinite s) = (if s then NaN else Infinite False)"
| "f64_sqrt (Finite s m e) =
     (if m = 0 then Finite s m e
      else if s then NaN
      else let j = (if even e then 110 else 111 :: nat);
               p = m * 2 ^ j;
               r = isqrt p
           in f64_round False (2 * r + (if r * r = p then 0 else 1)) 1 ((e - int j) div 2 - 1))"

subsection \<open>Rounding is to the nearest\<close>

definition f64_real :: "nat \<Rightarrow> int \<Rightarrow> real" where
  "f64_real m e = real m * 2 powi e"

lemma bit_length_real:
  assumes "0 < n"
  shows "2 powi (int (bit_length n) - 1) \<le> real n" "real n < 2 powi int (bit_length n)"
proof -
  obtain k where k: "bit_length n = Suc k" using bit_length_pos [OF assms] by blast
  have b: "2 ^ k \<le> n" "n < 2 ^ Suc k" using bit_length_bounds [OF assms] by (auto simp: k)
  have e: "2 powi (int (bit_length n) - 1) = real (2 ^ k)" "2 powi int (bit_length n) = real (2 ^ Suc k)"
    using power_int_of_nat [of "2 :: real" k] power_int_of_nat [of "2 :: real" "Suc k"] by (simp_all add: k)
  show "2 powi (int (bit_length n) - 1) \<le> real n" "real n < 2 powi int (bit_length n)"
    unfolding e using b by (simp_all only: of_nat_le_iff of_nat_less_iff)
qed

lemma scaled_real:
  assumes "scaled p q k = (a, b)" "0 < q"
  shows "real a / real b = real p / real q * 2 powi k" "0 < b"
proof -
  have ab: "a = p * 2 ^ nat k" "b = q * 2 ^ nat (- k)" using assms(1) by (simp_all add: scaled_def)
  show "0 < b" using assms(2) by (simp add: ab)
  show "real a / real b = real p / real q * 2 powi k"
    by (cases "0 \<le> k") (simp_all add: ab power_int_def field_simps)
qed

lemma div_half_even_near:
  assumes "0 < b"
  shows "\<bar>real (div_half_even a b) - real a / real b\<bar> \<le> 1 / 2"
    "a div b \<le> div_half_even a b" "div_half_even a b \<le> a div b + 1"
proof -
  have "real a = real (a div b) * real b + real (a mod b)"
    by (metis div_mult_mod_eq of_nat_add of_nat_mult)
  with assms have d: "real a / real b = real (a div b) + real (a mod b) / real b" by (simp add: field_simps)
  define t where "t = real (a mod b) / real b"
  have "2 * (a mod b) \<le> b \<Longrightarrow> t \<le> 1 / 2" "b \<le> 2 * (a mod b) \<Longrightarrow> 1 / 2 \<le> t"
    using assms by (simp_all add: t_def field_simps flip: of_nat_le_iff [where 'a = real])
  moreover have "t \<le> 1" "0 \<le> t" using assms by (simp_all add: t_def less_imp_le)
  ultimately show "\<bar>real (div_half_even a b) - real a / real b\<bar> \<le> 1 / 2"
    unfolding d t_def [symmetric] by (auto simp: div_half_even_def Let_def abs_if)
  show "a div b \<le> div_half_even a b" "div_half_even a b \<le> a div b + 1"
    by (auto simp: div_half_even_def Let_def)
qed


lemma powi_2_mono: "e \<le> f \<Longrightarrow> (2 :: real) powi e \<le> 2 powi f"
  by (rule power_int_increasing) auto

lemma powi_2_add: "(2 :: real) powi e * 2 powi f = 2 powi (e + f)"
  by (simp add: power_int_add)

lemma le_div_real: "0 < d \<Longrightarrow> k \<le> c div d \<longleftrightarrow> real k \<le> real c / real d"
  by (simp add: less_eq_div_iff_mult_less_eq field_simps flip: of_nat_mult)

lemma unit_exp_bounds:
  assumes "0 < p" "0 < q" "scaled p q (e - unit_exp p q e) = (a, b)"
  shows "- 1074 \<le> unit_exp p q e" "a div b < 2 ^ 53" "unit_exp p q e = - 1074 \<or> 2 ^ 52 \<le> a div b"
proof -
  define e1 where "e1 = max (int (bit_length p) - int (bit_length q) + e - 53) (- 1074)"
  define v where "v = real p / real q * 2 powi e"
  obtain a1 b1 where s1: "scaled p q (e - e1) = (a1, b1)" by (metis surj_pair)
  have low: "x < v" if "x = 2 powi (int (bit_length p) - int (bit_length q) + e - 1)" for x
  proof -
    have "2 powi (int (bit_length p) - 1) / 2 powi int (bit_length q) < real p / real q"
      using bit_length_real [OF assms(1)] bit_length_real [OF assms(2)] assms(1,2)
      by (intro frac_less2) auto
    from mult_strict_right_mono [OF this, of "2 powi e"] show ?thesis
      unfolding that v_def by (simp add: power_int_add power_int_diff mult_ac)
  qed
  have high: "v < x" if "x = 2 powi (int (bit_length p) - int (bit_length q) + e + 1)" for x
  proof -
    have "real p / real q < 2 powi int (bit_length p) / 2 powi (int (bit_length q) - 1)"
      using bit_length_real [OF assms(1)] bit_length_real [OF assms(2)] assms(1,2)
      by (intro frac_less) auto
    from mult_strict_right_mono [OF this, of "2 powi e"] show ?thesis
      unfolding that v_def by (simp add: power_int_add power_int_diff mult_ac)
  qed
  have v1: "real a1 / real b1 = v / 2 powi e1" "0 < b1"
    using scaled_real [OF s1 assms(2)] by (simp_all add: v_def power_int_diff)
  have vb: "real a / real b = v / 2 powi unit_exp p q e" "0 < b"
    using scaled_real [OF assms(3,2)] by (simp_all add: v_def power_int_diff)
  have unit: "unit_exp p q e = (if 2 ^ 53 \<le> a1 div b1 then e1 + 1 else e1)"
    by (simp add: unit_exp_def Let_def e1_def [symmetric] s1)
  have big: "2 ^ 52 \<le> v / 2 powi e1" if "e1 \<noteq> - 1074"
  proof -
    have "e1 = int (bit_length p) - int (bit_length q) + e - 53" using that by (simp add: e1_def max_def split: if_splits)
    then have "e1 + 52 = int (bit_length p) - int (bit_length q) + e - 1" by simp
    then have "2 powi (e1 + 52) < v" by (intro low) (simp only:)
    then show ?thesis by (simp add: power_int_add field_simps)
  qed
  have small: "v / 2 powi e1 < 2 ^ 54"
  proof -
    have "v < 2 powi (int (bit_length p) - int (bit_length q) + e + 1)" by (rule high) simp
    also have "\<dots> \<le> 2 powi (e1 + 54)" by (rule powi_2_mono) (simp add: e1_def)
    finally show ?thesis by (simp add: power_int_add field_simps)
  qed
  show "- 1074 \<le> unit_exp p q e" by (auto simp: unit e1_def)
  show "a div b < 2 ^ 53"
    using small le_div_real [OF vb(2), of "2 ^ 53" a] le_div_real [OF v1(2), of "2 ^ 53" a1]
    by (auto simp: unit vb(1) v1(1) power_int_add not_le [symmetric] split: if_splits)
  show "unit_exp p q e = - 1074 \<or> 2 ^ 52 \<le> a div b"
    using big le_div_real [OF vb(2), of "2 ^ 52" a] le_div_real [OF v1(2), of "2 ^ 53" a1]
    by (auto simp: unit vb(1) v1(1) power_int_add split: if_splits)
qed


lemma f64_round_near:
  assumes "0 < q" "0 < p" "f64_round s p q e = Finite s' m e'"
  shows "\<bar>f64_real m e' - real p / real q * 2 powi e\<bar> \<le> 2 powi (e' - 1)"
    "e' = - 1074 \<and> m < 2 ^ 53 \<or> 2 ^ 52 \<le> m \<and> m < 2 ^ 53 \<and> - 1074 \<le> e'" "s' = s"
proof -
  define u where "u = unit_exp p q e"
  obtain a b where ab: "scaled p q (e - u) = (a, b)" by (metis surj_pair)
  define d where "d = div_half_even a b"
  have ub: "- 1074 \<le> u" "a div b < 2 ^ 53" "u = - 1074 \<or> 2 ^ 52 \<le> a div b"
    using unit_exp_bounds [OF assms(2,1) ab [unfolded u_def]] by (simp_all add: u_def)
  have v: "real a / real b = real p / real q * 2 powi e / 2 powi u" "0 < b"
    using scaled_real [OF ab assms(1)] by (simp_all add: power_int_diff)
  have dd: "a div b \<le> d" "d \<le> a div b + 1" using div_half_even_near [OF v(2)] by (simp_all add: d_def)
  have near: "\<bar>real d * 2 powi u - real p / real q * 2 powi e\<bar> \<le> 2 powi (u - 1)"
  proof -
    have "real d * 2 powi u - real p / real q * 2 powi e = (real d - real a / real b) * 2 powi u"
      by (simp add: v left_diff_distrib)
    moreover have "\<bar>real d - real a / real b\<bar> * 2 powi u \<le> 1 / 2 * 2 powi u"
      using div_half_even_near(1) [OF v(2), of a] by (intro mult_right_mono) (simp_all add: d_def)
    ultimately show ?thesis by (simp add: abs_mult power_int_diff)
  qed
  have r: "s' = s" "m = (if d = 2 ^ 53 then 2 ^ 52 else d)" "e' = (if d = 2 ^ 53 then u + 1 else u)"
    using assms by (auto simp: f64_round_def Let_def u_def [symmetric] ab d_def split: if_splits)
  show "s' = s" by (rule r)
  show "e' = - 1074 \<and> m < 2 ^ 53 \<or> 2 ^ 52 \<le> m \<and> m < 2 ^ 53 \<and> - 1074 \<le> e'"
    using ub dd by (auto simp: r)
  have "2 powi (u - 1) \<le> (2 :: real) powi (e' - 1)" by (rule powi_2_mono) (simp add: r)
  moreover have "f64_real m e' = real d * 2 powi u" by (simp add: f64_real_def r power_int_add)
  ultimately show "\<bar>f64_real m e' - real p / real q * 2 powi e\<bar> \<le> 2 powi (e' - 1)" using near by simp
qed


lemma f64_of_nat_finite:
  assumes "n < 2 ^ 53"
  obtains m e where "f64_of_nat n = Finite False m e" "e \<le> 0" "m = n * 2 ^ nat (- e)"
proof -
  have "\<bar>int n\<bar> < 2 ^ 53" using assms by simp
  then obtain m e where "f64_of_int (int n) = Finite (int n < 0) m e" "e \<le> 0" "m = nat \<bar>int n\<bar> * 2 ^ nat (- e)"
    by (rule f64_of_int_cases)
  then show ?thesis by (intro that [of m e]) (simp_all add: f64_of_nat_int)
qed

lemma f64_round_finite:
  assumes "0 < q" "0 < p" "real p / real q * 2 powi e < 2 powi 1023"
  obtains m e' where "f64_round s p q e = Finite s m e'"
proof -
  define u where "u = unit_exp p q e"
  obtain a b where ab: "scaled p q (e - u) = (a, b)" by (metis surj_pair)
  have ub: "u = - 1074 \<or> 2 ^ 52 \<le> a div b"
    using unit_exp_bounds [OF assms(2,1) ab [unfolded u_def]] by (simp add: u_def)
  have v: "real a / real b = real p / real q * 2 powi e / 2 powi u" "0 < b"
    using scaled_real [OF ab assms(1)] by (simp_all add: power_int_diff)
  have "u < 971"
  proof (rule ccontr)
    assume "\<not> u < 971"
    with ub have "2 ^ 52 \<le> a div b" by auto
    then have "2 ^ 52 \<le> real a / real b"
      using le_div_real [OF v(2), of "2 ^ 52" a] by simp
    moreover have "(2 :: real) powi 971 \<le> 2 powi u" using \<open>\<not> u < 971\<close> by (intro powi_2_mono) simp
    ultimately have "2 ^ 52 * 2 powi 971 \<le> real a / real b * 2 powi u" by (intro mult_mono) simp_all
    also have "\<dots> = real p / real q * 2 powi e" by (simp add: v(1))
    finally have "2 powi 52 * 2 powi 971 \<le> real p / real q * 2 powi e" by simp
    moreover have "(2 :: real) powi 52 * 2 powi 971 = 2 powi 1023" unfolding powi_2_add by simp
    ultimately show False using assms(3) by linarith
  qed
  then have r: "f64_round s p q e = (if div_half_even a b = 2 ^ 53 then Finite s (2 ^ 52) (u + 1) else Finite s (div_half_even a b) u)"
    using assms(2) by (simp add: f64_round_def Let_def u_def [symmetric] ab)
  show ?thesis by (cases "div_half_even a b = 2 ^ 53") (rule that, simp only: r simp_thms if_True if_False)+
qed

text \<open>What is representable is not rounded.\<close>

lemma f64_round_representable:
  assumes "0 < q" "0 < p" "f64_ok (Finite s m e')" "real p / real q * 2 powi e = f64_real m e'"
  shows "f64_round s p q e = Finite s m e'"
proof -
  define u where "u = unit_exp p q e"
  obtain a b where ab: "scaled p q (e - u) = (a, b)" by (metis surj_pair)
  have ub: "- 1074 \<le> u" "a div b < 2 ^ 53" "u = - 1074 \<or> 2 ^ 52 \<le> a div b"
    using unit_exp_bounds [OF assms(2,1) ab [unfolded u_def]] by (simp_all add: u_def)
  have v: "real a / real b = f64_real m e' / 2 powi u" "0 < b"
    using scaled_real [OF ab assms(1)] by (simp_all add: assms(4) [symmetric] power_int_diff)
  have ok: "m < 2 ^ 53" "- 1074 \<le> e'" "e' = - 1074 \<or> 2 ^ 52 \<le> m" "e' \<le> 971" using assms(3) by auto
  have val: "real a / real b = real m * 2 powi (e' - u)" using v(1) by (simp add: f64_real_def power_int_diff)
  have "u = e'"
  proof (rule ccontr)
    assume "u \<noteq> e'"
    then consider "e' < u" | "u < e'" by linarith
    then show False
    proof cases
      case 1
      with ub ok have "2 ^ 52 \<le> a div b" by auto
      then have "2 ^ 52 \<le> real m * 2 powi (e' - u)" using le_div_real [OF v(2), of "2 ^ 52" a] by (simp add: val)
      also have "\<dots> \<le> real m * 2 powi (- 1)" using 1 by (intro mult_left_mono powi_2_mono) auto
      finally have "2 ^ 53 \<le> real m" by simp
      moreover have "real m < real (2 ^ 53)" using ok(1) by (simp only: of_nat_less_iff)
      ultimately show False by simp
    next
      case 2
      with ub ok have "2 ^ 52 \<le> m" by auto
      then have "real (2 ^ 52) \<le> real m" by (simp only: of_nat_le_iff)
      then have "2 ^ 52 * 2 powi 1 \<le> real m * 2 powi (e' - u)" using 2 by (intro mult_mono powi_2_mono) auto
      then have "2 ^ 53 \<le> a div b" using le_div_real [OF v(2), of "2 ^ 53" a] by (simp add: val)
      with ub show False by simp
    qed
  qed
  then have "real a = real m * real b" using val v(2) by (simp add: field_simps)
  then have "a = m * b" by (simp only: of_nat_mult [symmetric] of_nat_eq_iff)
  then have "div_half_even a b = m" using v(2) by (simp add: div_half_even_def)
  then show ?thesis using assms(2) ok \<open>u = e'\<close> by (simp add: f64_round_def Let_def u_def [symmetric] ab [unfolded \<open>u = e'\<close>])
qed

lemma f64_of_nat_real:
  assumes "0 < n" "n < 2 ^ 53"
  obtains m e where "f64_of_nat n = Finite False m e" "f64_ok (Finite False m e)" "f64_real m e = real n" "0 < m"
proof -
  let ?l = "bit_length n"
  have l: "?l \<le> 53" "0 < ?l" using bit_length_le [OF assms(2)] bit_length_pos [OF assms(1)] by auto
  have r: "f64_of_nat n = Finite False (n * 2 ^ (53 - ?l)) (int ?l - 53)"
    unfolding f64_of_nat_def by (rule f64_round_exact [OF assms])
  have "real (n * 2 ^ (53 - ?l)) * 2 powi (int ?l - 53) = real n"
  proof -
    have "(2 :: real) ^ (53 - ?l) = 2 powi (53 - int ?l)" using l by (simp add: power_int_def nat_diff_distrib)
    then show ?thesis using powi_2_add [of "53 - int ?l" "int ?l - 53"] by simp
  qed
  moreover have "f64_ok (Finite False (n * 2 ^ (53 - ?l)) (int ?l - 53))"
    using f64_round_near(2) [of 1 n False 0 False "n * 2 ^ (53 - ?l)" "int ?l - 53"] r assms l
    by (auto simp: f64_of_nat_def)
  ultimately show ?thesis using assms(1) by (intro that [OF r]) (simp_all add: f64_real_def)
qed

lemma f64_div_nat:
  assumes "0 < a" "0 < b" "a * b < 2 ^ 53"
  shows "f64_div (f64_of_nat (a * b)) (f64_of_nat b) = f64_of_nat a"
proof -
  have lt: "a < 2 ^ 53" "b < 2 ^ 53"
    using assms by (metis le_less_trans nat_le_linear mult_le_mono nat_mult_1 nat_mult_1_right less_eq_Suc_le One_nat_def)+
  obtain m e where ab: "f64_of_nat (a * b) = Finite False m e" "f64_real m e = real (a * b)" "0 < m"
    by (rule f64_of_nat_real [of "a * b"]) (use assms in auto)
  obtain n f where b: "f64_of_nat b = Finite False n f" "f64_real n f = real b" "0 < n"
    by (rule f64_of_nat_real [of b]) (use assms lt in auto)
  obtain k g where a: "f64_of_nat a = Finite False k g" "f64_ok (Finite False k g)" "f64_real k g = real a"
    by (rule f64_of_nat_real [of a]) (use assms lt in auto)
  have "real m / real n * 2 powi (e - f) = f64_real m e / f64_real n f"
    by (simp add: f64_real_def power_int_diff)
  also have "\<dots> = f64_real k g" using ab b a assms by simp
  finally have "f64_round False m n (e - f) = Finite False k g"
    using ab b a by (intro f64_round_representable)
  then show ?thesis using b(3) by (simp add: ab(1) b(1) a(1))
qed

lemma f64_lt_real: "f64_lt (Finite False m e) (Finite False n f) \<longleftrightarrow> f64_real m e < f64_real n f"
proof -
  let ?k = "min e f"
  have u: "real_of_int (signed_units False m e ?k) = f64_real m e / 2 powi ?k"
    "real_of_int (signed_units False n f ?k) = f64_real n f / 2 powi ?k"
    by (simp_all add: signed_units_def f64_real_def power_int_of_nat [symmetric] power_int_diff)
  have "f64_lt (Finite False m e) (Finite False n f) \<longleftrightarrow> signed_units False m e ?k < signed_units False n f ?k"
    by (simp add: f64_lt_def int_cmp_def Let_def)
  also have "\<dots> \<longleftrightarrow> f64_real m e / 2 powi ?k < f64_real n f / 2 powi ?k"
    by (simp only: u [symmetric] of_int_less_iff)
  also have "\<dots> \<longleftrightarrow> f64_real m e < f64_real n f" by (subst divide_less_cancel) (use zero_less_power_int [of "2 :: real" ?k] in linarith)
  finally show ?thesis .
qed

subsection \<open>Bounds\<close>

definition f64_within :: "real \<Rightarrow> f64 \<Rightarrow> bool" where
  "f64_within b x \<longleftrightarrow> (\<exists>m e. x = Finite False m e \<and> f64_real m e \<le> b)"

lemma f64_zero_within: "0 \<le> b \<Longrightarrow> f64_within b (f64_zero False)"
  by (simp add: f64_within_def f64_real_def)

lemma f64_round_within:
  assumes "0 < q" "real p / real q * 2 powi e \<le> b" "b < 2 powi 1000" "0 \<le> b"
  shows "f64_within (2 * b + 1) (f64_round False p q e)"
proof (cases "p = 0")
  case True
  then show ?thesis using f64_zero_within [of "2 * b + 1"] assms(4) by (simp add: f64_round_def)
next
  case False
  then have p: "0 < p" by simp
  have "(2 :: real) powi 1000 \<le> 2 powi 1023" by (rule powi_2_mono) simp
  with assms(2,3) have "real p / real q * 2 powi e < 2 powi 1023" by linarith
  then obtain m e' where r: "f64_round False p q e = Finite False m e'"
    using f64_round_finite [OF assms(1) p] by blast
  note near = f64_round_near [OF assms(1) p r]
  have half: "(2 :: real) powi e' = 2 * 2 powi (e' - 1)" by (simp add: power_int_diff)
  have "f64_real m e' \<le> 2 * b + 1"
  proof (cases "m = 0")
    case True
    then show ?thesis using assms(4) by (simp add: f64_real_def)
  next
    case False
    then have "1 * (2 * 2 powi (e' - 1)) \<le> real m * (2 * 2 powi (e' - 1))" by (intro mult_right_mono) auto
    then show ?thesis using near(1) assms(2) unfolding f64_real_def half by argo
  qed
  then show ?thesis by (simp add: f64_within_def r)
qed

lemma f64_of_nat_within: "n < 2 ^ 53 \<Longrightarrow> f64_within (real n) (f64_of_nat n)"
proof (cases "n = 0")
  case True
  then show ?thesis using f64_zero_within [of 0] by (simp add: f64_of_nat_def f64_round_def)
next
  case False
  assume "n < 2 ^ 53"
  with False obtain m e where "f64_of_nat n = Finite False m e" "f64_real m e = real n"
    using f64_of_nat_real [of n] by (metis gr0I)
  then show ?thesis by (simp add: f64_within_def)
qed

lemma f64_add_within:
  assumes "f64_within a x" "f64_within b y" "a + b < 2 powi 1000"
  shows "f64_within (2 * (a + b) + 1) (f64_add x y)"
proof -
  obtain m e n f where x: "x = Finite False m e" "f64_real m e \<le> a" and y: "y = Finite False n f" "f64_real n f \<le> b"
    using assms by (auto simp: f64_within_def)
  define k where "k = min e f"
  define v where "v = m * 2 ^ nat (e - k) + n * 2 ^ nat (f - k)"
  have "signed_units False m e k + signed_units False n f k = int v" by (simp add: signed_units_def v_def)
  then have add: "f64_add x y = f64_round False v 1 k"
    by (simp add: x(1) y(1) k_def [symmetric] Let_def) (simp add: f64_round_def)
  have "real v = f64_real m e / 2 powi k + f64_real n f / 2 powi k"
    by (simp add: v_def f64_real_def k_def power_int_of_nat [symmetric] power_int_diff)
  then have v: "real v / real 1 * 2 powi k = f64_real m e + f64_real n f" by (simp add: distrib_right)
  have "0 \<le> f64_real m e" "0 \<le> f64_real n f" by (simp_all add: f64_real_def)
  then show ?thesis
    unfolding add using x(2) y(2) assms(3) by (intro f64_round_within) (simp_all only: v)
qed


lemma f64_add_zero: "n < 2 ^ 53 \<Longrightarrow> f64_add (f64_of_nat n) (f64_zero False) = f64_of_nat n"
  using f64_add_int [of "int n" 0] by (simp add: f64_of_int_zero f64_of_nat_int)

lemma f64_zero_add: "n < 2 ^ 53 \<Longrightarrow> f64_add (f64_zero False) (f64_of_nat n) = f64_of_nat n"
  using f64_add_int [of 0 "int n"] by (simp add: f64_of_int_zero f64_of_nat_int)

lemma f64_of_nat_zero: "f64_of_nat 0 = f64_zero False"
  by (simp add: f64_of_nat_def f64_round_def)

lemma f64_zero_div: "0 < n \<Longrightarrow> n < 2 ^ 53 \<Longrightarrow> f64_div (f64_zero False) (f64_of_nat n) = f64_zero False"
  by (rule f64_of_nat_real [of n]) (auto simp: f64_round_def)

lemma f64_zero_mul: "f64_within b x \<Longrightarrow> f64_mul (f64_zero False) x = f64_zero False"
  by (auto simp: f64_within_def f64_round_def)

lemma f64_zero_add_ok:
  assumes "f64_ok (Finite False m e)"
  shows "f64_add (f64_zero False) (Finite False m e) = Finite False m e"
proof (cases "m = 0")
  case True
  then show ?thesis using assms by (auto simp: signed_units_def)
next
  case False
  have k: "min (- 1074) e = - 1074" using assms by auto
  have v: "signed_units False m e (- 1074) = int (m * 2 ^ nat (e + 1074))" by (simp add: signed_units_def)
  have "real (m * 2 ^ nat (e + 1074)) * 2 powi (- 1074) = f64_real m e"
  proof -
    have "(2 :: real) ^ nat (e + 1074) = 2 powi (e + 1074)" using assms by (auto simp: power_int_def)
    then show ?thesis using powi_2_add [of "e + 1074" "- 1074"] by (simp add: f64_real_def mult.assoc)
  qed
  then have "f64_round False (m * 2 ^ nat (e + 1074)) 1 (- 1074) = Finite False m e"
    using False assms by (intro f64_round_representable) simp_all
  moreover have "signed_units False 0 (- 1074) (- 1074) = 0" by (simp add: signed_units_def)
  ultimately show ?thesis using False by (simp only: f64_add.simps k v Let_def) (simp add: nat_mult_distrib nat_power_eq mult_less_0_iff)
qed

end
