(* ===== verification/Time.thy ===== *)
theory Time
  imports F64Real
begin

text \<open>
  The parts of \<open>std::time\<close> the load pattern and the statistics use. A \<open>Duration\<close> is its
  nanoseconds, below \<open>2^64\<close> seconds; its \<open>+\<close> and \<open>-\<close> panic out of range, which is \<open>None\<close>. An \<open>Instant\<close> is
  nanoseconds from some origin, and its range (\<open>2^63\<close> seconds) is not modelled.
\<close>

type_synonym duration = nat

type_synonym instant = int

definition nanos_per_sec :: nat where
  "nanos_per_sec = 1000000000"

definition duration_limit :: nat where
  "duration_limit = 2 ^ 64 * nanos_per_sec"

definition dur_add :: "duration \<Rightarrow> duration \<Rightarrow> duration option" where
  "dur_add a b = (if a + b < duration_limit then Some (a + b) else None)"

definition dur_sub :: "duration \<Rightarrow> duration \<Rightarrow> duration option" where
  "dur_sub a b = (if b \<le> a then Some (a - b) else None)"

text \<open>\<open>Instant - Instant\<close> saturates.\<close>

definition since :: "instant \<Rightarrow> instant \<Rightarrow> duration" where
  "since a b = nat (a - b)"

definition checked_since :: "instant \<Rightarrow> instant \<Rightarrow> duration option" where
  "checked_since a b = (if b \<le> a then Some (nat (a - b)) else None)"

subsection \<open>Seconds\<close>

definition as_secs_f64 :: "duration \<Rightarrow> f64" where
  "as_secs_f64 d =
     f64_add (f64_of_nat (d div nanos_per_sec)) (f64_div (f64_of_nat (d mod nanos_per_sec)) (f64_of_nat nanos_per_sec))"

text \<open>\<open>Duration::from_secs_f64\<close> rounds to the nearest nanosecond, ties to even.\<close>

fun from_secs_f64 :: "f64 \<Rightarrow> duration option" where
  "from_secs_f64 (Finite s m e) =
     (let n = div_half_even (m * nanos_per_sec * 2 ^ nat e) (2 ^ nat (- e))
      in if s \<and> m \<noteq> 0 \<or> duration_limit \<le> n then None else Some n)"
| "from_secs_f64 _ = None"

lemma as_secs_whole:
  assumes "k < 2 ^ 53"
  shows "as_secs_f64 (k * nanos_per_sec) = f64_of_nat k"
  using assms by (simp add: as_secs_f64_def f64_of_nat_zero f64_add_zero f64_zero_div nanos_per_sec_def)

lemma as_secs_within:
  assumes "d < 2 ^ 53 * nanos_per_sec"
  shows "f64_within (2 powi 60) (as_secs_f64 d)"
proof -
  have s: "d div nanos_per_sec < 2 ^ 53" using assms by (simp add: nanos_per_sec_def less_mult_imp_div_less)
  have n: "d mod nanos_per_sec < nanos_per_sec" by (simp add: nanos_per_sec_def)
  then have lt: "d mod nanos_per_sec < 2 ^ 53" by (simp add: nanos_per_sec_def)
  have "f64_within 3 (f64_div (f64_of_nat (d mod nanos_per_sec)) (f64_of_nat nanos_per_sec))"
  proof (cases "d mod nanos_per_sec = 0")
    case True
    then show ?thesis using f64_zero_within [of 3] by (simp add: f64_of_nat_zero f64_zero_div nanos_per_sec_def)
  next
    case False
    obtain m e where a: "f64_of_nat (d mod nanos_per_sec) = Finite False m e" "f64_real m e = real (d mod nanos_per_sec)"
      by (rule f64_of_nat_real [of "d mod nanos_per_sec"]) (use False lt in auto)
    obtain k f where b: "f64_of_nat nanos_per_sec = Finite False k f" "f64_real k f = real nanos_per_sec" "0 < k"
      by (rule f64_of_nat_real [of nanos_per_sec]) (auto simp: nanos_per_sec_def)
    have "real m / real k * 2 powi (e - f) = f64_real m e / f64_real k f" by (simp add: f64_real_def power_int_diff)
    also have "\<dots> \<le> 1" using n by (simp add: a(2) b(2) nanos_per_sec_def)
    finally have "f64_within (2 * 1 + 1) (f64_round False m k (e - f))"
      by (intro f64_round_within) (use b(3) in auto)
    then show ?thesis using b(3) by (simp add: a(1) b(1))
  qed
  moreover have "f64_within (real (d div nanos_per_sec)) (f64_of_nat (d div nanos_per_sec))"
    using s by (rule f64_of_nat_within)
  moreover have le: "real (d div nanos_per_sec) \<le> real (2 ^ 53)" using s by (simp only: of_nat_le_iff)
  moreover have "real (2 ^ 53) + 3 < 2 powi 1000" by simp
  then have "real (d div nanos_per_sec) + 3 < 2 powi 1000" using le by (rule le_less_trans [rotated, OF _ add_right_mono])
  ultimately have "f64_within (2 * (real (d div nanos_per_sec) + 3) + 1) (as_secs_f64 d)"
    unfolding as_secs_f64_def by (intro f64_add_within)
  then show ?thesis using le by (auto simp: f64_within_def)
qed

subsection \<open>Waiting one over a whole rate\<close>

text \<open>\<open>1.0 / n\<close> seconds in nanoseconds, to the nearest.\<close>

lemma nearest_nanosecond:
  fixes x n :: real and k :: int
  assumes "\<bar>x - 1 / n\<bar> \<le> d" "d * n \<le> 1 / 4503599627370496" "\<bar>real_of_int k - x * 1000000000\<bar> \<le> 1 / 2" "0 < n"
  shows "2 * \<bar>real_of_int k * n - 1000000000\<bar> < n + 1"
proof -
  have "\<bar>real_of_int k - 1 / n * 1000000000\<bar> \<le> 1 / 2 + d * 1000000000" using assms(1,3) by argo
  then have "\<bar>real_of_int k - 1 / n * 1000000000\<bar> * n \<le> (1 / 2 + d * 1000000000) * n"
    using assms(4) by (intro mult_right_mono) auto
  moreover have "\<bar>real_of_int k - 1 / n * 1000000000\<bar> * n = \<bar>real_of_int k * n - 1000000000\<bar>"
  proof -
    have "real_of_int k * n - 1000000000 = (real_of_int k - 1 / n * 1000000000) * n"
      using assms(4) by (simp add: left_diff_distrib)
    then show ?thesis using assms(4) by (simp only: abs_mult abs_of_pos)
  qed
  ultimately show ?thesis using assms(2) by (simp add: distrib_right)
qed

lemma recip_near:
  assumes "0 < n" "n < 2 ^ 53"
  obtains m g where "f64_recip (f64_of_nat n) = Finite False m g" "\<bar>f64_real m g - 1 / real n\<bar> \<le> 2 powi (g - 1)"
    "2 powi (g - 1) * real n \<le> 1 / 4503599627370496"
proof -
  obtain a e where a: "f64_of_nat 1 = Finite False a e" "f64_real a e = 1" "0 < a"
    by (rule f64_of_nat_real [of 1]) auto
  obtain b f where b: "f64_of_nat n = Finite False b f" "f64_real b f = real n" "0 < b"
    by (rule f64_of_nat_real [of n]) (use assms in auto)
  have "real a / real b * 2 powi (e - f) = f64_real a e / f64_real b f" by (simp add: f64_real_def power_int_diff)
  then have ratio: "real a / real b * 2 powi (e - f) = 1 / real n" by (simp add: a(2) b(2))
  have "real a / real b * 2 powi (e - f) < 2 powi 1023"
    unfolding ratio using assms by (simp add: power_int_def field_simps)
  then obtain m g where r: "f64_round False a b (e - f) = Finite False m g"
    using f64_round_finite [OF b(3) a(3)] by blast
  then have rec: "f64_recip (f64_of_nat n) = Finite False m g"
    using b(3) by (simp only: f64_recip_def a(1) b(1) f64_div.simps) simp
  note near = f64_round_near [OF b(3) a(3) r, unfolded ratio]
  have "2 powi (g - 1) * real n \<le> 1 / 4503599627370496"
    using near(2)
  proof
    assume g: "g = - 1074 \<and> m < 2 ^ 53"
    have "real n \<le> real (2 ^ 53)" using assms(2) by (simp only: of_nat_le_iff)
    then have "(2 :: real) powi (- 1075) * real n \<le> 2 powi (- 1075) * 2 powi 53"
      by (intro mult_left_mono) simp_all
    also have "\<dots> = 2 powi (- 1022)" unfolding powi_2_add by simp
    also have "\<dots> \<le> 2 powi (- 52)" by (rule powi_2_mono) simp
    finally show ?thesis using g by simp
  next
    assume "2 ^ 52 \<le> m \<and> m < 2 ^ 53 \<and> - 1074 \<le> g"
    then have "real (2 ^ 52) \<le> real m" by (simp only: of_nat_le_iff)
    then have m: "4503599627370496 \<le> real m" by simp
    have g: "(2 :: real) powi g = 2 * 2 powi (g - 1)" by (simp add: power_int_diff)
    have "4503599627370496 * (2 * 2 powi (g - 1)) \<le> real m * (2 * 2 powi (g - 1))"
      using m by (intro mult_right_mono) simp_all
    with near(1) have "4503599627370496 * (2 * 2 powi (g - 1)) - 2 powi (g - 1) \<le> 1 / real n"
      unfolding g f64_real_def by argo
    moreover have "0 < (2 :: real) powi (g - 1)" by simp
    ultimately have "4503599627370496 * 2 powi (g - 1) \<le> 1 / real n" by argo
    then show ?thesis using assms(1) by (simp add: field_simps)
  qed
  with rec near(1) show ?thesis by (intro that)
qed

lemma recip_le_1:
  assumes "0 < k" "k < 2 ^ 53"
  obtains m e where "f64_recip (f64_of_nat k) = Finite False m e" "f64_real m e \<le> 1"
proof (cases "k = 1")
  case True
  obtain m e where m: "f64_of_nat 1 = Finite False m e" "f64_real m e = 1" by (rule f64_of_nat_real [of 1]) auto
  have "f64_recip (f64_of_nat 1) = f64_of_nat 1" using f64_div_nat [of 1 1] by (simp add: f64_recip_def)
  with m True show ?thesis by (intro that [of m e]) simp_all
next
  case False
  obtain m g where r: "f64_recip (f64_of_nat k) = Finite False m g" "\<bar>f64_real m g - 1 / real k\<bar> \<le> 2 powi (g - 1)"
    "2 powi (g - 1) * real k \<le> 1 / 4503599627370496"
    using recip_near [OF assms] by blast
  have k: "2 \<le> real k" using False assms(1) by simp
  have "1 / real k \<le> 1 / 2" using k by (simp add: field_simps)
  moreover have "2 powi (g - 1) * 2 \<le> 2 powi (g - 1) * real k" using k by (intro mult_left_mono) simp_all
  with r(3) have "2 powi (g - 1) \<le> (1 / 2 :: real)" by linarith
  ultimately have "f64_real m g \<le> 1" using r(2) by linarith
  with r(1) show ?thesis by (rule that)
qed

lemma recip_wait:
  assumes "0 < n" "n \<le> 1000000000"
  obtains w where "from_secs_f64 (f64_recip (f64_of_nat n)) = Some w" "2 * \<bar>int w * int n - 1000000000\<bar> \<le> int n"
proof -
  have lt: "n < 2 ^ 53" using assms(2) by simp
  obtain m g where rec: "f64_recip (f64_of_nat n) = Finite False m g"
    and near: "\<bar>f64_real m g - 1 / real n\<bar> \<le> 2 powi (g - 1)"
    and eps: "2 powi (g - 1) * real n \<le> 1 / 4503599627370496"
    using recip_near [OF assms(1) lt] by blast
  define k where "k = div_half_even (m * nanos_per_sec * 2 ^ nat g) (2 ^ nat (- g))"
  have "scaled (m * nanos_per_sec) 1 g = (m * nanos_per_sec * 2 ^ nat g, 2 ^ nat (- g))" by (simp add: scaled_def)
  from scaled_real(1) [OF this]
  have "real (m * nanos_per_sec * 2 ^ nat g) / real (2 ^ nat (- g)) = real m * 2 powi g * 1000000000"
    by (simp add: nanos_per_sec_def)
  with div_half_even_near(1) [of "2 ^ nat (- g)" "m * nanos_per_sec * 2 ^ nat g"]
  have k: "\<bar>real_of_int (int k) - real m * 2 powi g * 1000000000\<bar> \<le> 1 / 2" by (simp add: k_def)
  have "2 * \<bar>real_of_int (int k) * real n - 1000000000\<bar> < real n + 1"
    using near eps k assms(1) by (intro nearest_nanosecond) (auto simp: f64_real_def)
  then have "real_of_int (2 * \<bar>int k * int n - 1000000000\<bar>) < real_of_int (int n + 1)" by simp
  then have w: "2 * \<bar>int k * int n - 1000000000\<bar> \<le> int n" by (simp only: of_int_less_iff)
  moreover have "k < duration_limit"
  proof -
    define x where "x = int k * int n"
    have "int n \<le> 1000000000" using assms(2) by simp
    with w have "x \<le> 2000000000" unfolding x_def [symmetric] by arith
    moreover have "int k * 1 \<le> x" unfolding x_def using assms(1) by (intro mult_left_mono) simp_all
    ultimately show ?thesis by (simp add: duration_limit_def nanos_per_sec_def)
  qed
  ultimately show ?thesis by (intro that) (simp_all add: rec k_def [symmetric])
qed

end
