(* ===== verification/LoadPattern.thy ===== *)
theory LoadPattern
  imports Time
begin

text \<open>
  Load patterns (\<open>lib/mod_interval/src/lib.rs\<close>): linear segments of a rate over time, and the stream of the
  instants at which requests start. \<open>None\<close> is a panic of the \<open>Duration\<close> arithmetic, or of an \<open>unreachable!\<close>;
  the clock is read once for each item, and its value is an argument.
\<close>

subsection \<open>Segments\<close>

record linear_segment =
  seg_m :: f64
  seg_b :: f64
  seg_min_y :: f64
  seg_y_limit :: f64
  seg_duration :: duration

definition segment_new :: "f64 \<Rightarrow> f64 \<Rightarrow> duration \<Rightarrow> linear_segment" where
  "segment_new start_hps end_hps duration =
     (let seconds = as_secs_f64 duration;
          m = f64_div (f64_sub end_hps start_hps) seconds;
          a = f64_abs m;
          zero_x = f64_recip (f64_div (f64_sqrt (f64_mul (f64_of_nat 8) a)) (f64_mul (f64_of_nat 2) a))
      in \<lparr>seg_m = m, seg_b = start_hps, seg_min_y = zero_x, seg_y_limit = f64_recip seconds, seg_duration = duration\<rparr>)"

definition get_hps_at :: "linear_segment \<Rightarrow> duration \<Rightarrow> f64" where
  "get_hps_at s time =
     (let y = f64_add (f64_mul (seg_m s) (as_secs_f64 time)) (seg_b s);
          y' = (if y = NaN \<or> f64_lt y (seg_y_limit s) then seg_min_y s else y)
      in if f64_is_finite y' then y' else f64_zero False)"

text \<open>\<open>PerX\<close> holds a rate per minute.\<close>

datatype per_x = PerX f64

definition per_minute :: "f64 \<Rightarrow> per_x" where
  "per_minute minute = PerX minute"

definition per_second :: "f64 \<Rightarrow> per_x" where
  "per_second sec = PerX (f64_mul sec (f64_of_nat 60))"

fun as_per_second :: "per_x \<Rightarrow> f64" where
  "as_per_second (PerX x) = f64_div x (f64_of_nat 60)"

subsection \<open>\<open>ModInterval\<close>\<close>

record mod_interval =
  mi_segments :: "linear_segment list"
  mi_duration :: duration

definition mod_interval_new :: mod_interval where
  "mod_interval_new = \<lparr>mi_segments = [], mi_duration = 0\<rparr>"

definition append_segment :: "per_x \<Rightarrow> duration \<Rightarrow> per_x \<Rightarrow> mod_interval \<Rightarrow> mod_interval option" where
  "append_segment start duration stop mi =
     map_option (\<lambda>total. \<lparr>mi_segments = mi_segments mi @ [segment_new (as_per_second start) (as_per_second stop) duration],
        mi_duration = total\<rparr>)
       (dur_add (mi_duration mi) duration)"

text \<open>The segment at a time, by its place and its start; the last one for any time after it.\<close>

fun find_segment :: "linear_segment list \<Rightarrow> duration \<Rightarrow> nat \<Rightarrow> duration \<Rightarrow> (nat \<times> linear_segment \<times> duration) option" where
  "find_segment [] time i x_offset = None"
| "find_segment (s # ss) time i x_offset =
     Option.bind (dur_add (seg_duration s) x_offset) (\<lambda>stop.
       if time < stop \<or> ss = [] then Some (i, s, x_offset) else find_segment ss time (i + 1) stop)"

definition transition_from :: "mod_interval \<Rightarrow> duration \<Rightarrow> duration \<Rightarrow> mod_interval \<Rightarrow> mod_interval option" where
  "transition_from old from_t over mi =
     (if mi_duration old < from_t \<or> mi_duration mi < from_t then Some mi
      else
        Option.bind (dur_add from_t over) (\<lambda>stop.
        let over = (if mi_duration mi < stop then mi_duration mi - from_t else over)
        in Option.bind (find_segment (mi_segments old) from_t 0 0) (\<lambda>(_, segment, x_offset).
        Option.bind (dur_sub from_t x_offset) (\<lambda>x.
        Option.bind (find_segment (mi_segments mi) (from_t + over) 0 0) (\<lambda>(i, post, x_offset2).
        Option.bind (dur_sub (from_t + over) x_offset2) (\<lambda>segment_x.
        Option.bind (dur_sub (seg_duration post) segment_x) (\<lambda>after.
        let start_hps = get_hps_at segment x;
            end_hps = get_hps_at post segment_x;
            segments = (if after = 0 then butlast (mi_segments mi)
                        else (mi_segments mi)[i := segment_new end_hps (get_hps_at post (seg_duration post)) after])
        in Some \<lparr>mi_segments = segment_new start_hps end_hps over # drop i segments,
             mi_duration = mi_duration mi - from_t\<rparr>)))))))"

subsection \<open>The stream of start times\<close>

record stream_state =
  ss_end_time :: instant
  ss_current_segment :: linear_segment
  ss_segments :: "linear_segment list"
  ss_start_time :: instant
  ss_x_offset :: duration
  ss_next_start :: instant
  ss_following_start :: "instant option"

text \<open>The end of the current segment takes the next one, at most one in a call; \<open>None\<close> inside is the end.\<close>

definition next_segment :: "duration \<Rightarrow> stream_state \<Rightarrow> (duration \<times> stream_state) option option" where
  "next_segment wait_time st =
     (if seg_duration (ss_current_segment st) \<le> wait_time
      then (case ss_segments st of
              [] \<Rightarrow> Some None
            | s # ss \<Rightarrow>
                map_option (\<lambda>offset. Some (wait_time - seg_duration (ss_current_segment st),
                    st\<lparr>ss_segments := ss, ss_x_offset := offset, ss_current_segment := s\<rparr>))
                  (dur_add (ss_x_offset st) (seg_duration (ss_current_segment st))))
      else Some (Some (wait_time, st)))"

definition wait_in_segment :: "duration \<Rightarrow> stream_state \<Rightarrow> duration option option" where
  "wait_in_segment wait_time st =
     (let hps = get_hps_at (ss_current_segment st) wait_time
      in if f64_eq hps (f64_zero False)
         then if ss_segments st = [] then Some None
              else map_option Some (dur_sub (seg_duration (ss_current_segment st)) wait_time)
         else map_option Some (from_secs_f64 (f64_recip hps)))"

definition calculate_next_start :: "instant \<Rightarrow> stream_state \<Rightarrow> (instant option \<times> stream_state) option" where
  "calculate_next_start time st =
     Option.bind (dur_sub (since time (ss_start_time st)) (ss_x_offset st)) (\<lambda>wait_time.
     Option.bind (next_segment wait_time st) (\<lambda>next.
       case next of
         None \<Rightarrow> Some (None, st)
       | Some (wait_time, st') \<Rightarrow>
           map_option (\<lambda>wait. case wait of
               None \<Rightarrow> (None, st')
             | Some w \<Rightarrow> (if time + int w \<le> ss_end_time st' then Some (time + int w) else None, st'))
             (wait_in_segment wait_time st')))"

record mod_stream =
  ms_state :: "stream_state option"
  ms_segments :: "linear_segment list"
  ms_duration :: duration

definition into_stream :: "mod_interval \<Rightarrow> mod_stream" where
  "into_stream mi = \<lparr>ms_state = None, ms_segments = mi_segments mi, ms_duration = mi_duration mi\<rparr>"

text \<open>The state at the first item, \<open>None\<close> when there are no segments.\<close>

definition stream_setup :: "duration option \<Rightarrow> instant \<Rightarrow> mod_stream \<Rightarrow> stream_state option option" where
  "stream_setup start_at now ms =
     (case ms_state ms of
        Some st \<Rightarrow> Some (Some st)
      | None \<Rightarrow>
          (case ms_segments ms of
             [] \<Rightarrow> Some None
           | s # ss \<Rightarrow>
               map_option (\<lambda>(following, st). Some (st\<lparr>ss_following_start := following\<rparr>))
                 (calculate_next_start now
                   \<lparr>ss_end_time = now + int (ms_duration ms), ss_current_segment = s, ss_segments = ss,
                    ss_start_time = now - int (case start_at of Some d \<Rightarrow> d | None \<Rightarrow> 0), ss_x_offset = 0,
                    ss_next_start = now, ss_following_start = None\<rparr>)))"

text \<open>An item with the sleep before it; \<open>None\<close> inside is the end of the stream.\<close>

definition stream_next :: "duration option \<Rightarrow> instant \<Rightarrow> mod_stream \<Rightarrow>
    ((duration option \<times> instant \<times> instant option) option \<times> mod_stream) option" where
  "stream_next start_at now ms =
     Option.bind (stream_setup start_at now ms) (\<lambda>st.
       case st of
         None \<Rightarrow> Some (None, ms)
       | Some st \<Rightarrow>
           let latency = (case checked_since now (ss_next_start st) of Some l \<Rightarrow> l | None \<Rightarrow> 0);
               ms = ms\<lparr>ms_state := Some st, ms_segments := []\<rparr>
           in (case ss_following_start st of
                 None \<Rightarrow> Some (None, ms)
               | Some next_start \<Rightarrow>
                   map_option (\<lambda>(following, st'). (Some (checked_since (next_start - int latency) now, next_start, following),
                       ms\<lparr>ms_state := Some (st'\<lparr>ss_following_start := following\<rparr>)\<rparr>))
                     (calculate_next_start next_start (st\<lparr>ss_next_start := next_start\<rparr>))))"

end
