(* ===== verification/LoadProps.thy ===== *)
theory LoadProps
  imports LoadPattern
begin

text \<open>The rate of a constant load, the times of the stream, and transitions between load patterns.\<close>

subsection \<open>A constant rate\<close>

abbreviation constant_segment :: "nat \<Rightarrow> nat \<Rightarrow> linear_segment" where
  "constant_segment h k \<equiv>
     segment_new (as_per_second (per_second (f64_of_nat h))) (as_per_second (per_second (f64_of_nat h))) (k * nanos_per_sec)"

lemma as_per_second_nat:
  assumes "0 < h" "h * 60 < 2 ^ 53"
  shows "as_per_second (per_second (f64_of_nat h)) = f64_of_nat h"
  using assms f64_mul_nat [of h 60] f64_div_nat [of h 60] by (simp add: per_second_def)

lemma constant_hps:
  assumes "0 < h" "h * 60 < 2 ^ 53" "0 < k" "k < 2 ^ 53" "x < k * nanos_per_sec"
  shows "get_hps_at (constant_segment h k) x = f64_of_nat h"
proof -
  have h: "h < 2 ^ 53" using assms by simp
  have "x < 2 ^ 53 * nanos_per_sec" using assms by (meson less_imp_le less_le_trans mult_le_mono1)
  then have x: "f64_within (2 powi 60) (as_secs_f64 x)" by (rule as_secs_within)
  have m: "seg_m (constant_segment h k) = f64_zero False"
    using assms h f64_sub_int [of "int h" "int h"]
    by (simp add: segment_new_def Let_def as_per_second_nat as_secs_whole f64_zero_div f64_of_int_zero f64_of_nat_int [symmetric])
  have y: "f64_add (f64_mul (f64_zero False) (as_secs_f64 x)) (f64_of_nat h) = f64_of_nat h"
    using x h by (simp add: f64_zero_mul f64_zero_add)
  obtain n f where n: "f64_of_nat h = Finite False n f" "f64_real n f = real h"
    using f64_of_nat_real [of h] assms h by blast
  obtain r e where r: "f64_recip (f64_of_nat k) = Finite False r e" "f64_real r e \<le> 1"
    using recip_le_1 [of k] assms by blast
  have "\<not> f64_lt (f64_of_nat h) (f64_recip (f64_of_nat k))"
    using n r assms(1) by (simp add: f64_lt_real)
  then show ?thesis
    using assms h unfolding get_hps_at_def m
    by (simp add: segment_new_def Let_def as_per_second_nat as_secs_whole y) (simp add: n)
qed


lemma constant_wait:
  assumes "0 < h" "h \<le> 1000000000" "0 < k" "k < 2 ^ 53" "x < k * nanos_per_sec"
    and "ss_current_segment st = constant_segment h k"
  obtains w where "wait_in_segment x st = Some (Some w)" "2 * \<bar>int w * int h - 1000000000\<bar> \<le> int h"
proof -
  obtain w where w: "from_secs_f64 (f64_recip (f64_of_nat h)) = Some w" "2 * \<bar>int w * int h - 1000000000\<bar> \<le> int h"
    using recip_wait [OF assms(1,2)] by blast
  have hps: "get_hps_at (ss_current_segment st) x = f64_of_nat h"
    using assms by (simp only: assms(6)) (rule constant_hps; simp)
  have "\<not> f64_eq (f64_of_nat h) (f64_zero False)"
    using f64_partial_cmp_int [of "int h" 0] assms(1,2)
    by (simp add: f64_eq_def f64_of_nat_int f64_of_int_zero int_cmp_def)
  then show ?thesis using w by (intro that) (simp_all add: wait_in_segment_def hps)
qed

lemma seg_duration_new [simp]: "seg_duration (segment_new a b d) = d"
  by (simp add: segment_new_def Let_def)




subsection \<open>The times of the stream\<close>

lemma calculate_next_start_bounds:
  assumes "calculate_next_start time st = Some (following, st')"
  shows "ss_end_time st' = ss_end_time st" "\<And>f. following = Some f \<Longrightarrow> time \<le> f \<and> f \<le> ss_end_time st"
  using assms
  by (auto simp: calculate_next_start_def next_segment_def dur_sub_def dur_add_def
      split: option.splits if_splits list.splits bind_splits)

text \<open>The items of polls at the given times, until the stream ends.\<close>

fun stream_run :: "duration option \<Rightarrow> instant list \<Rightarrow> mod_stream \<Rightarrow> (instant \<times> instant option) list option" where
  "stream_run start_at [] ms = Some []"
| "stream_run start_at (now # nows) ms =
     Option.bind (stream_next start_at now ms) (\<lambda>(r, ms').
       case r of
         None \<Rightarrow> Some []
       | Some (sleep, item) \<Rightarrow> map_option (\<lambda>items. item # items) (stream_run start_at nows ms'))"

text \<open>Each item announces the start of the next one.\<close>

fun announced :: "instant option \<Rightarrow> (instant \<times> instant option) list \<Rightarrow> bool" where
  "announced following [] = True"
| "announced following ((start, following') # items) = (following = Some start \<and> announced following' items)"


lemma stream_next_running:
  assumes "stream_next start_at now ms = Some (Some (sleep, start, following), ms')" "ms_state ms = Some st"
  obtains st' where "ss_following_start st = Some start" "ms_state ms' = Some st'" "ss_following_start st' = following"
    "ss_end_time st' = ss_end_time st" "\<And>f. following = Some f \<Longrightarrow> start \<le> f \<and> f \<le> ss_end_time st"
proof -
  from assms obtain st2 where "ss_following_start st = Some start"
    "calculate_next_start start (st\<lparr>ss_next_start := start\<rparr>) = Some (following, st2)"
    "ms_state ms' = Some (st2\<lparr>ss_following_start := following\<rparr>)"
    by (auto simp: stream_next_def stream_setup_def Let_def split: option.splits)
  with calculate_next_start_bounds [OF this(2)] that [of "st2\<lparr>ss_following_start := following\<rparr>"] show ?thesis by simp
qed

lemma stream_run_running:
  assumes "stream_run start_at nows ms = Some items" "ms_state ms = Some st"
    and "\<And>f. ss_following_start st = Some f \<Longrightarrow> t0 \<le> f \<and> f \<le> ss_end_time st"
  shows "announced (ss_following_start st) items \<and> sorted (map fst items) \<and>
    list_all (\<lambda>i. t0 \<le> fst i \<and> fst i \<le> ss_end_time st) items"
  using assms
proof (induction nows arbitrary: ms items st t0)
  case (Cons now nows)
  show ?case
  proof (cases items)
    case it: (Cons item rest)
    then obtain start following sleep ms' where nx: "stream_next start_at now ms = Some (Some (sleep, start, following), ms')"
      and run: "stream_run start_at nows ms' = Some rest" and item: "item = (start, following)"
      using Cons.prems(1) it by (auto split: option.splits bind_splits)
    obtain st' where st': "ss_following_start st = Some start" "ms_state ms' = Some st'" "ss_following_start st' = following"
      "ss_end_time st' = ss_end_time st" "\<And>f. following = Some f \<Longrightarrow> start \<le> f \<and> f \<le> ss_end_time st"
      using stream_next_running [OF nx Cons.prems(2)] by metis
    have "announced following rest \<and> sorted (map fst rest) \<and> list_all (\<lambda>i. start \<le> fst i \<and> fst i \<le> ss_end_time st) rest"
      using Cons.IH [OF run st'(2), of start] st'(3-5) by simp
    with st'(1) Cons.prems(3) [OF st'(1)] show ?thesis
      by (auto simp: it item list_all_iff)
  qed simp
qed simp


lemma stream_setup_new:
  assumes "stream_setup start_at now (into_stream mi) = Some (Some st)"
  shows "ss_end_time st = now + int (mi_duration mi)"
    "\<And>f. ss_following_start st = Some f \<Longrightarrow> now \<le> f \<and> f \<le> now + int (mi_duration mi)"
  using assms
  by (auto simp: stream_setup_def into_stream_def split: option.splits list.splits dest: calculate_next_start_bounds)

lemma stream_setup_same:
  "stream_setup start_at now ms = Some (Some st) \<Longrightarrow>
   stream_next start_at now ms = stream_next start_at now (ms\<lparr>ms_state := Some st\<rparr>)"
  by (simp add: stream_next_def stream_setup_def)

text \<open>
  C15. The starts that the stream of a load pattern gives never go back, lie within the duration of the pattern
  from the first poll, and each is announced by the item before it.
\<close>

theorem start_times:
  assumes "stream_run start_at (now # nows) (into_stream mi) = Some items"
  shows "sorted (map fst items) \<and>
    list_all (\<lambda>i. now \<le> fst i \<and> fst i \<le> now + int (mi_duration mi)) items \<and>
    (items = [] \<or> announced (snd (hd items)) (tl items))"
proof (cases items)
  case (Cons item rest)
  then obtain st where st: "stream_setup start_at now (into_stream mi) = Some (Some st)"
    using assms by (auto simp: stream_next_def split: option.splits bind_splits)
  have "stream_run start_at (now # nows) ((into_stream mi)\<lparr>ms_state := Some st\<rparr>) = Some items"
    using assms by (simp only: stream_run.simps stream_setup_same [OF st])
  from stream_run_running [OF this, of st now] stream_setup_new [OF st]
  have "announced (ss_following_start st) items \<and> sorted (map fst items) \<and>
    list_all (\<lambda>i. now \<le> fst i \<and> fst i \<le> now + int (mi_duration mi)) items" by simp
  then show ?thesis by (cases item) (simp add: Cons)
qed simp


subsection \<open>Transitions\<close>

definition wf_mod :: "mod_interval \<Rightarrow> bool" where
  "wf_mod mi \<longleftrightarrow> mi_duration mi = sum_list (map seg_duration (mi_segments mi)) \<and> mi_duration mi < duration_limit"

text \<open>The rate of a pattern at a time; after its end the last segment goes on.\<close>

fun rate_at :: "linear_segment list \<Rightarrow> duration \<Rightarrow> f64" where
  "rate_at [] t = f64_zero False"
| "rate_at (s # ss) t = (if t < seg_duration s \<or> ss = [] then get_hps_at s t else rate_at ss (t - seg_duration s))"

lemma find_segment_spec:
  assumes "segs \<noteq> []" "x0 + sum_list (map seg_duration segs) < duration_limit" "x0 \<le> t"
  shows "\<exists>i x. find_segment segs t i0 x0 = Some (i0 + i, segs ! i, x) \<and> i < length segs \<and>
    x = x0 + sum_list (map seg_duration (take i segs)) \<and> x \<le> t \<and> rate_at segs (t - x0) = get_hps_at (segs ! i) (t - x) \<and>
    (x + seg_duration (segs ! i) \<le> t \<longrightarrow> i = length segs - 1)"
  using assms
proof (induction segs arbitrary: i0 x0)
  case (Cons s ss)
  have sum: "dur_add (seg_duration s) x0 = Some (seg_duration s + x0)"
    using Cons.prems(2) by (simp add: dur_add_def)
  show ?case
  proof (cases "t < seg_duration s + x0 \<or> ss = []")
    case True
    moreover from this have "t - x0 < seg_duration s \<or> ss = []" using Cons.prems(3) by auto
    ultimately show ?thesis
      using Cons.prems(3) by (intro exI [of _ 0] exI [of _ x0]) (auto simp: sum)
  next
    case False
    then obtain i x where IH: "find_segment ss t (i0 + 1) (seg_duration s + x0) = Some (i0 + 1 + i, ss ! i, x)"
      "i < length ss" "x = seg_duration s + x0 + sum_list (map seg_duration (take i ss))" "x \<le> t"
      "rate_at ss (t - (seg_duration s + x0)) = get_hps_at (ss ! i) (t - x)"
      "x + seg_duration (ss ! i) \<le> t \<longrightarrow> i = length ss - 1"
      using Cons.IH [of "seg_duration s + x0" "i0 + 1"] Cons.prems(2) by auto
    have "\<not> t - x0 < seg_duration s" using False by auto
    with False IH show ?thesis
      by (intro exI [of _ "Suc i"] exI [of _ x]) (auto simp: sum algebra_simps diff_diff_eq)
  qed
qed simp


lemma sum_list_split: "i < length xs \<Longrightarrow> sum_list xs = sum_list (take i xs) + xs ! i + sum_list (drop (Suc i) xs)" for xs :: "nat list"
  by (metis append_take_drop_id Cons_nth_drop_Suc sum_list.append sum_list.Cons add.assoc)

lemma butlast_drop_last: "xs \<noteq> [] \<Longrightarrow> drop (length xs - 1) (butlast xs) = []"
  by simp

text \<open>
  A transition from one load pattern to another does not panic, keeps the duration the sum of those of the
  segments, and begins with a segment from the rate the old pattern has then to the rate the new one has when the
  transition is over.
\<close>

theorem transition_from_ok:
  assumes "wf_mod old" "wf_mod mi" "mi_segments old \<noteq> []" "mi_segments mi \<noteq> []"
    and "t \<le> mi_duration old" "t \<le> mi_duration mi" "t + over < duration_limit"
  shows "\<exists>rest. transition_from old t over mi =
      (let over = min over (mi_duration mi - t)
       in Some \<lparr>mi_segments = segment_new (rate_at (mi_segments old) t) (rate_at (mi_segments mi) (t + over)) over # rest,
            mi_duration = mi_duration mi - t\<rparr>) \<and>
    wf_mod (the (transition_from old t over mi))"
proof -
  define over' where "over' = min over (mi_duration mi - t)"
  have over: "(if mi_duration mi < t + over then mi_duration mi - t else over) = over'" "t + over' \<le> mi_duration mi"
    using assms(6) by (auto simp: over'_def)
  obtain i x where i: "find_segment (mi_segments old) t 0 0 = Some (i, mi_segments old ! i, x)" "x \<le> t"
    "rate_at (mi_segments old) t = get_hps_at (mi_segments old ! i) (t - x)"
    using find_segment_spec [of "mi_segments old" 0 t 0] assms(1,3) by (auto simp: wf_mod_def)
  obtain j y where j: "find_segment (mi_segments mi) (t + over') 0 0 = Some (j, mi_segments mi ! j, y)"
    "j < length (mi_segments mi)" "y = sum_list (map seg_duration (take j (mi_segments mi)))" "y \<le> t + over'"
    "rate_at (mi_segments mi) (t + over') = get_hps_at (mi_segments mi ! j) (t + over' - y)"
    "y + seg_duration (mi_segments mi ! j) \<le> t + over' \<longrightarrow> j = length (mi_segments mi) - 1"
    using find_segment_spec [of "mi_segments mi" 0 "t + over'" 0] assms(2,4) by (auto simp: wf_mod_def)
  let ?d = "seg_duration (mi_segments mi ! j)"
  have sum: "mi_duration mi = y + ?d + sum_list (map seg_duration (drop (Suc j) (mi_segments mi)))"
    using sum_list_split [of j "map seg_duration (mi_segments mi)"] assms(2) j(2,3)
    by (simp add: wf_mod_def take_map drop_map)
  have last: "drop (Suc j) (mi_segments mi) = []" if "y + ?d \<le> t + over'" using j(2,6) that by auto
  have le: "t + over' - y \<le> ?d" using sum over(2) last by (cases "y + ?d \<le> t + over'") auto
  define after where "after = ?d - (t + over' - y)"
  define segs where "segs = (if after = 0 then butlast (mi_segments mi)
    else (mi_segments mi)[j := segment_new (get_hps_at (mi_segments mi ! j) (t + over' - y))
      (get_hps_at (mi_segments mi ! j) ?d) after])"
  have rest: "sum_list (map seg_duration (drop j segs)) = mi_duration mi - (t + over')"
  proof (cases "after = 0")
    case True
    then have "y + ?d \<le> t + over'" using le j(4) by (auto simp: after_def)
    with last sum over(2) j(6) True show ?thesis by (simp add: segs_def butlast_drop_last)
  next
    case False
    then have "drop j segs = segs ! j # drop (Suc j) (mi_segments mi)"
      using j(2) by (simp add: segs_def Cons_nth_drop_Suc [symmetric])
    with False sum le j(2,4) show ?thesis by (simp add: segs_def after_def)
  qed
  have t: "transition_from old t over mi = Some \<lparr>mi_segments =
      segment_new (rate_at (mi_segments old) t) (rate_at (mi_segments mi) (t + over')) over' # drop j segs,
      mi_duration = mi_duration mi - t\<rparr>"
    using assms(5-7) i j(1,4,5) le over(1)
    by (simp add: transition_from_def dur_add_def dur_sub_def after_def [symmetric] segs_def Let_def)
  moreover have "wf_mod (the (transition_from old t over mi))"
    using rest over(2) assms(2) by (auto simp: t wf_mod_def)
  ultimately show ?thesis by (intro exI [of _ "drop j segs"]) (simp add: over'_def [symmetric] Let_def)
qed


definition rising_pattern :: mod_interval where
  "rising_pattern = \<lparr>mi_segments = [segment_new (f64_of_nat 1) (f64_of_nat 2) 10000000000], mi_duration = 10000000000\<rparr>"

theorem transition_from_ok_witness:
  "\<exists>rest. transition_from rising_pattern 2000000000 9000000000 rising_pattern =
      (let over = min 9000000000 (mi_duration rising_pattern - 2000000000)
       in Some \<lparr>mi_segments = segment_new (rate_at (mi_segments rising_pattern) 2000000000)
              (rate_at (mi_segments rising_pattern) (2000000000 + over)) over # rest,
            mi_duration = mi_duration rising_pattern - 2000000000\<rparr>) \<and>
    wf_mod (the (transition_from rising_pattern 2000000000 9000000000 rising_pattern))"
  by (rule transition_from_ok) (simp_all add: rising_pattern_def wf_mod_def duration_limit_def nanos_per_sec_def)

end
