(* ===== verification/LoadPanic.thy ===== *)
theory LoadPanic
  imports LoadProps
begin

text \<open>
  A load pattern whose stream panics: six hits a minute for 15 seconds, none for one second, then one a second.
\<close>

definition stalled_pattern :: "mod_interval option" where
  "stalled_pattern =
     Option.bind (append_segment (per_minute (f64_of_nat 6)) (15 * nanos_per_sec) (per_minute (f64_of_nat 6)) mod_interval_new) (\<lambda>a.
     Option.bind (append_segment (per_minute (f64_of_nat 0)) (1 * nanos_per_sec) (per_minute (f64_of_nat 0)) a) (\<lambda>b.
     append_segment (per_minute (f64_of_nat 60)) (10 * nanos_per_sec) (per_minute (f64_of_nat 60)) b))"

lemma flat_segment:
  assumes "x = Finite False m e" "as_secs_f64 d = Finite False k f" "0 < k"
  shows "segment_new x x d = \<lparr>seg_m = f64_zero False, seg_b = x, seg_min_y = NaN,
    seg_y_limit = f64_recip (as_secs_f64 d), seg_duration = d\<rparr>"
proof -
  have "f64_sub x x = f64_zero False"
    by (simp add: assms(1) f64_sub_def signed_units_def Let_def)
  moreover have "f64_mul (f64_of_nat n) (f64_zero False) = f64_zero False" if "n < 2 ^ 53" for n
    using f64_of_nat_within [OF that] by (auto simp: f64_within_def f64_round_def)
  from this [of 8] this [of 2] have "f64_mul (f64_of_nat 8) (f64_zero False) = f64_zero False"
    "f64_mul (f64_of_nat 2) (f64_zero False) = f64_zero False" by simp_all
  moreover have "f64_recip NaN = NaN" by (cases "f64_of_nat 1") (simp_all add: f64_recip_def)
  ultimately show ?thesis
    using assms(3) by (simp add: segment_new_def Let_def assms(2) f64_round_def)
qed

lemma six_nats:
  "f64_of_nat 6 = Finite False 6755399441055744 (-50)" "f64_of_nat 60 = Finite False 8444249301319680 (-47)"
  "f64_of_nat 15 = Finite False 8444249301319680 (-49)" "f64_of_nat 1 = Finite False 4503599627370496 (-52)"
  "f64_of_nat 5 = Finite False 5629499534213120 (-50)" "f64_of_nat 10 = Finite False 5629499534213120 (-49)"
  by (simp_all add: f64_eval)

lemma pattern_secs: "as_secs_f64 0 = f64_zero False" "as_secs_f64 15000000000 = f64_of_nat 15" "as_secs_f64 1000000000 = f64_of_nat 1"
  "as_secs_f64 10000000000 = f64_of_nat 10" "as_secs_f64 5000000000 = f64_of_nat 5"
  using as_secs_whole [of 0] as_secs_whole [of 15] as_secs_whole [of 1] as_secs_whole [of 10] as_secs_whole [of 5]
  by (simp_all add: nanos_per_sec_def f64_of_nat_zero)

lemma tenth: "f64_div (f64_of_nat 6) (f64_of_nat 60) = Finite False 7205759403792794 (-56)"
  by (simp add: six_nats) (simp add: f64_eval)

lemma pattern_segments: "segment_new (Finite False 7205759403792794 (-56)) (Finite False 7205759403792794 (-56)) 15000000000 =
    \<lparr>seg_m = f64_zero False, seg_b = Finite False 7205759403792794 (-56), seg_min_y = NaN,
      seg_y_limit = f64_recip (f64_of_nat 15), seg_duration = 15000000000\<rparr>"
  "segment_new (f64_zero False) (f64_zero False) 1000000000 =
    \<lparr>seg_m = f64_zero False, seg_b = f64_zero False, seg_min_y = NaN,
      seg_y_limit = f64_recip (f64_of_nat 1), seg_duration = 1000000000\<rparr>"
  by (simp_all add: flat_segment pattern_secs six_nats del: One_nat_def)

lemma pattern_recip: "f64_recip (f64_of_nat 15) = Finite False 4803839602528529 (- 56)" "f64_recip (f64_of_nat 1) = f64_of_nat 1"
  by (simp_all add: f64_recip_def six_nats del: One_nat_def) (simp_all add: f64_eval del: One_nat_def)

lemma pattern_hps: "get_hps_at \<lparr>seg_m = f64_zero False, seg_b = Finite False 7205759403792794 (-56), seg_min_y = NaN,
      seg_y_limit = Finite False 4803839602528529 (- 56), seg_duration = 15000000000\<rparr> 0 = Finite False 7205759403792794 (-56)"
  "get_hps_at \<lparr>seg_m = f64_zero False, seg_b = Finite False 7205759403792794 (-56), seg_min_y = NaN,
      seg_y_limit = Finite False 4803839602528529 (- 56), seg_duration = 15000000000\<rparr> 10000000000 = Finite False 7205759403792794 (-56)"
  "get_hps_at \<lparr>seg_m = f64_zero False, seg_b = f64_zero False, seg_min_y = NaN,
      seg_y_limit = f64_of_nat 1, seg_duration = 1000000000\<rparr> 5000000000 = f64_zero False"
   by (simp_all add: get_hps_at_def pattern_secs six_nats Let_def f64_zero_add_ok f64_round_def del: One_nat_def f64_add.simps) (simp_all add: f64_lt_real f64_real_def  f64_eq_def del: One_nat_def)
lemma tenth_wait: "from_secs_f64 (f64_recip (Finite False 7205759403792794 (-56))) = Some 10000000000" by (simp add: f64_recip_def f64_eval nanos_per_sec_def duration_limit_def)

lemma tenth_eq: "f64_eq (Finite False 7205759403792794 (-56)) (f64_zero False) = False" "f64_eq (f64_zero False) (f64_zero False) = True"
  by (simp_all add: f64_eq_def int_cmp_def signed_units_def Let_def)

lemmas pattern_eval = Let_def tenth_eq append_segment_def per_minute_def stalled_pattern_def f64_of_nat_zero f64_zero_div pattern_secs pattern_segments pattern_recip tenth pattern_hps tenth_wait
   into_stream_def stream_next_def stream_setup_def calculate_next_start_def next_segment_def wait_in_segment_def
   dur_add_def dur_sub_def since_def checked_since_def nanos_per_sec_def duration_limit_def mod_interval_new_def

lemma stalled_run: "stream_run None [0] (into_stream (the stalled_pattern)) = Some [(10000000000, Some 20000000000)]"
  by (simp add: pattern_eval del: One_nat_def)

theorem start_times_witness:
  "sorted (map fst [(10000000000 :: instant, Some (20000000000 :: instant))]) \<and>
    list_all (\<lambda>i. 0 \<le> fst i \<and> fst i \<le> 0 + int (mi_duration (the stalled_pattern)))
      [(10000000000 :: instant, Some (20000000000 :: instant))]"
  using start_times [OF stalled_run] by simp

text \<open>
  The start after the one at 20 seconds is in the segment without hits. Four of the five seconds that the
  wait went past the end of the first segment are left over after the second, and the rest of the second
  segment, one second less five, panics.
\<close>

theorem skipped_segment_panics:
  "stream_run None [0] (into_stream (the stalled_pattern)) = Some [(10000000000, Some 20000000000)] \<and>
    stream_run None [0, 10000000000] (into_stream (the stalled_pattern)) = None"
  by (simp add: pattern_eval del: One_nat_def)

end
