(* ===== verification/Yaml.thy ===== *)
theory Yaml
  imports ExprParse
begin

text \<open>
  Reading a YAML document (\<open>lib/config/src/from_yaml.rs\<close>). The events come from \<open>yaml_rust\<close>'s parser, a list
  with the error after the last; \<open>decode\<close> resolves aliases. What a parser sees of the decoder is the events its
  next calls of \<open>next\<close> will give (\<open>yaml\<close>), so \<open>FromYaml::parse\<close> of a type is a function on those.
\<close>

subsection \<open>Events\<close>

datatype scalar_style = AnyStyle | Plain | SingleQuoted | DoubleQuoted | LiteralStyle | Folded

datatype yaml_event =
    MappingEnd
  | MappingStart
  | SequenceEnd
  | SequenceStart
  | Scalar string scalar_style "(string \<times> string) option"

fun is_scalar :: "yaml_event \<Rightarrow> bool" where
  "is_scalar (Scalar _ _ _) = True"
| "is_scalar _ = False"

fun is_nested_end :: "yaml_event \<Rightarrow> bool" where
  "is_nested_end e = (e = MappingEnd \<or> e = SequenceEnd)"

fun is_nested_start :: "yaml_event \<Rightarrow> bool" where
  "is_nested_start e = (e = MappingStart \<or> e = SequenceStart)"

fun event_as_str :: "yaml_event \<Rightarrow> string option" where
  "event_as_str (Scalar s _ _) = Some s"
| "event_as_str _ = None"

fun event_as_x :: "(string \<Rightarrow> 'a option) \<Rightarrow> yaml_event \<Rightarrow> 'a option" where
  "event_as_x from_str (Scalar s Plain _) = from_str s"
| "event_as_x from_str _ = None"

fun event_as_bool :: "yaml_event \<Rightarrow> bool option" where
  "event_as_bool (Scalar s Plain _) = (if s = ''true'' then Some True else if s = ''false'' then Some False else None)"
| "event_as_bool _ = None"

subsection \<open>The decoder\<close>

text \<open>\<open>yaml_rust::Event\<close>; an anchor or alias is its number, 0 for none.\<close>

datatype raw_event =
    Nothing | StreamStart | StreamEnd | DocumentStart | DocumentEnd
  | Alias nat
  | RawScalar string scalar_style nat "(string \<times> string) option"
  | RawSequenceStart nat
  | RawSequenceEnd
  | RawMappingStart nat
  | RawMappingEnd

datatype alias_or_event = AliasRange nat nat | AnEvent yaml_event marker

record decoder =
  aliased_events :: "alias_or_event list"
  alias_map :: "nat \<rightharpoonup> nat \<times> nat"
  reference_stack :: "(nat \<times> nat) option list"

definition decoder_new :: decoder where
  "decoder_new = \<lparr>aliased_events = [], alias_map = Map.empty, reference_stack = []\<rparr>"

text \<open>
  Replaying a range of recorded events. A range recorded at a place ends before it
  (\<open>wf_events\<close> of \<open>YamlProps\<close>), so the condition \<open>b \<le> i\<close> always holds.
\<close>

function replay :: "alias_or_event list \<Rightarrow> nat \<Rightarrow> nat \<Rightarrow> (yaml_event \<times> marker) list" where
  "replay evs i j =
     (if i < j
      then (case evs ! i of
              AnEvent e m \<Rightarrow> [(e, m)]
            | AliasRange a b \<Rightarrow> if b \<le> i then replay evs a b else []) @ replay evs (i + 1) j
      else [])"
  by pat_completeness auto

termination by (relation "measures [\<lambda>(evs, i, j). j, \<lambda>(evs, i, j). j - i]") auto

declare replay.simps [simp del]

definition record_event :: "nat \<Rightarrow> yaml_event \<Rightarrow> marker \<Rightarrow> decoder \<Rightarrow> decoder" where
  "record_event alias_id event marker d =
     (let in_reference = reference_stack d \<noteq> [];
          d = (if in_reference \<or> 0 < alias_id then d\<lparr>aliased_events := aliased_events d @ [AnEvent event marker]\<rparr> else d)
      in if 0 < alias_id
         then (let i = length (aliased_events d) - 1
               in if is_scalar event then d\<lparr>alias_map := (alias_map d)(alias_id \<mapsto> (i, i))\<rparr>
                  else d\<lparr>reference_stack := Some (alias_id, i) # reference_stack d\<rparr>)
         else if is_nested_end event
         then (case reference_stack d of
                 [] \<Rightarrow> d
               | None # stack \<Rightarrow> d\<lparr>reference_stack := stack\<rparr>
               | Some (alias, i) # stack \<Rightarrow>
                   d\<lparr>reference_stack := stack, alias_map := (alias_map d)(alias \<mapsto> (i, length (aliased_events d)))\<rparr>)
         else if is_nested_start event \<and> in_reference then d\<lparr>reference_stack := None # reference_stack d\<rparr>
         else d)"

definition resolve_alias :: "nat \<Rightarrow> decoder \<Rightarrow> (yaml_event \<times> marker) list \<times> decoder" where
  "resolve_alias i d =
     (case alias_map d i of
        None \<Rightarrow> ([], d)
      | Some (a, b) \<Rightarrow>
          (replay (aliased_events d) a b,
           if reference_stack d \<noteq> [] then d\<lparr>aliased_events := aliased_events d @ [AliasRange a b]\<rparr> else d))"

type_synonym yaml = "(yaml_event \<times> marker) list \<times> config_error"

definition yaml_then :: "(yaml_event \<times> marker) list \<Rightarrow> yaml \<Rightarrow> yaml" where
  "yaml_then evs y = (evs @ fst y, snd y)"

fun decode :: "(raw_event \<times> marker) list \<Rightarrow> string \<Rightarrow> decoder \<Rightarrow> yaml" where
  "decode [] scan_error d = ([], InvalidYaml scan_error)"
| "decode ((r, m) # rs) scan_error d =
     (let emit = (\<lambda>alias_id event. yaml_then [(event, m)] (decode rs scan_error (record_event alias_id event m d)))
      in case r of
           Nothing \<Rightarrow> decode rs scan_error d
         | StreamStart \<Rightarrow> decode rs scan_error d
         | DocumentStart \<Rightarrow> decode rs scan_error d
         | StreamEnd \<Rightarrow> ([], YamlDeserialize None m)
         | DocumentEnd \<Rightarrow> ([], YamlDeserialize None m)
         | Alias i \<Rightarrow> (case resolve_alias i d of (evs, d') \<Rightarrow> yaml_then evs (decode rs scan_error d'))
         | RawScalar s style alias_id tag \<Rightarrow> emit alias_id (Scalar s style tag)
         | RawMappingStart alias_id \<Rightarrow> emit alias_id MappingStart
         | RawMappingEnd \<Rightarrow> emit 0 MappingEnd
         | RawSequenceStart alias_id \<Rightarrow> emit alias_id SequenceStart
         | RawSequenceEnd \<Rightarrow> emit 0 SequenceEnd)"

subsection \<open>Parsers\<close>

type_synonym 'a yaml_result = "config_error failure + 'a"

type_synonym 'a parser = "yaml \<Rightarrow> ('a \<times> marker \<times> yaml) yaml_result"

fun yaml_peek :: "yaml \<Rightarrow> (yaml_event \<times> marker) yaml_result" where
  "yaml_peek ([], e) = Inl (Error e)"
| "yaml_peek (x # xs, e) = Inr x"

fun yaml_next :: "yaml \<Rightarrow> ((yaml_event \<times> marker) \<times> yaml) yaml_result" where
  "yaml_next ([], e) = Inl (Error e)"
| "yaml_next (x # xs, e) = Inr (x, (xs, e))"

abbreviation yaml_error :: "marker \<Rightarrow> 'a yaml_result" where
  "yaml_error m \<equiv> Inl (Error (YamlDeserialize None m))"

definition parse_event :: "(yaml_event \<Rightarrow> 'a option) \<Rightarrow> 'a parser" where
  "parse_event f y =
     res_bind (yaml_next y) (\<lambda>((event, m), y').
       case f event of Some v \<Rightarrow> Inr (v, m, y') | None \<Rightarrow> yaml_error m)"

definition parse_bool :: "bool parser" where
  "parse_bool = parse_event event_as_bool"

definition parse_string :: "string parser" where
  "parse_string = parse_event event_as_str"

text \<open>\<open>i64::from_str\<close>, and those of the unsigned and non-zero types.\<close>

definition i64_from_str :: "string \<Rightarrow> i64 option" where
  "i64_from_str s =
     (case s of
        c # cs \<Rightarrow>
          if c = CHR ''-''
          then (case digits_value cs of Some n \<Rightarrow> if n \<le> 2 ^ 63 then Some (- of_nat n) else None | None \<Rightarrow> None)
          else map_option of_nat (parse_unsigned (2 ^ 63) s)
      | [] \<Rightarrow> None)"

definition non_zero :: "nat option \<Rightarrow> nat option" where
  "non_zero r = (case r of Some n \<Rightarrow> if n = 0 then None else Some n | None \<Rightarrow> None)"

definition parse_i64 :: "i64 parser" where
  "parse_i64 = parse_event (event_as_x i64_from_str)"

definition parse_yaml_usize :: "nat parser" where
  "parse_yaml_usize = parse_event (event_as_x parse_usize)"

definition parse_non_zero_u16 :: "nat parser" where
  "parse_non_zero_u16 = parse_event (event_as_x (\<lambda>s. non_zero (parse_unsigned (2 ^ 16) s)))"

definition parse_non_zero_usize :: "nat parser" where
  "parse_non_zero_usize = parse_event (event_as_x (\<lambda>s. non_zero (parse_usize s)))"

subsection \<open>JSON values\<close>

text \<open>\<open>from_str\<close> is \<open>serde_json\<close>'s parser.\<close>

definition get_value :: "(string \<Rightarrow> json option) \<Rightarrow> scalar_style \<Rightarrow> string \<Rightarrow> json" where
  "get_value from_str ttype s =
     (if ttype = Plain \<and> (s = ''null'' \<or> s = ''NaN'') then JNull
      else if ttype = Plain \<and> s = ''true'' then JBool True
      else if ttype = Plain \<and> s = ''false'' then JBool False
      else if ttype = Plain then (case from_str s of Some v \<Rightarrow> v | None \<Rightarrow> JString s)
      else JString s)"

text \<open>
  The loop of \<open>parse\<close>, with fuel: each round takes an event, or starts a nested value that does
  (\<open>json_loop_reads\<close>).
\<close>

fun json_loop :: "(string \<Rightarrow> json option) \<Rightarrow> nat \<Rightarrow> json option \<Rightarrow> marker option \<Rightarrow> json parser" where
  "json_loop from_str 0 root first y = Inl OutOfFuel"
| "json_loop from_str (Suc n) root first y =
     res_bind (yaml_peek y) (\<lambda>(event, m).
     res_bind (yaml_next y) (\<lambda>(_, y').
     let first = Some (case first of Some f \<Rightarrow> f | None \<Rightarrow> m);
         done = (\<lambda>v. Inr (v, the first, y'));
         nested = (\<lambda>initial.
           case root of
             None \<Rightarrow> json_loop from_str n (Some initial) first y'
           | Some (JArray a) \<Rightarrow>
               res_bind (json_loop from_str n None None y) (\<lambda>(v, _, y2).
               json_loop from_str n (Some (JArray (a @ [v]))) first y2)
           | _ \<Rightarrow> yaml_error m)
     in case event of
          MappingStart \<Rightarrow> nested (JObject [])
        | SequenceStart \<Rightarrow> nested (JArray [])
        | SequenceEnd \<Rightarrow> done (case root of Some v \<Rightarrow> v | None \<Rightarrow> JNull)
        | MappingEnd \<Rightarrow> done (case root of Some v \<Rightarrow> v | None \<Rightarrow> JNull)
        | Scalar s ttype _ \<Rightarrow>
            (case root of
               Some (JObject ob) \<Rightarrow>
                 res_bind (json_loop from_str n None None y') (\<lambda>(v, _, y2).
                 json_loop from_str n (Some (JObject (obj_insert s v ob))) first y2)
             | Some (JArray a) \<Rightarrow> json_loop from_str n (Some (JArray (a @ [get_value from_str ttype s]))) first y'
             | _ \<Rightarrow> done (get_value from_str ttype s))))"

definition json_parse :: "(string \<Rightarrow> json option) \<Rightarrow> json parser" where
  "json_parse from_str y = json_loop from_str (2 * length (fst y) + 2) None None y"

subsection \<open>Lists and maps\<close>

text \<open>
  \<open>parse\<close> of the collections: the first event says whether it is a sequence or a mapping, and \<open>ins\<close> is
  \<open>Insert::insert\<close>, which refuses the wrong one. After the opening event an item is read at once, even if the
  collection is empty.
\<close>

fun container_loop ::
    "('c \<Rightarrow> 'v \<Rightarrow> yaml_event \<Rightarrow> 'c option) \<Rightarrow> 'v parser \<Rightarrow> nat \<Rightarrow> 'c \<Rightarrow> (marker \<times> yaml_event) option \<Rightarrow> 'c parser" where
  "container_loop ins item 0 ret first y = Inl OutOfFuel"
| "container_loop ins item (Suc n) ret first y =
     res_bind (yaml_peek y) (\<lambda>(event, m).
     res_bind (yaml_next y) (\<lambda>(_, y').
     let (fm, fe) = (case first of Some f \<Rightarrow> f | None \<Rightarrow> (m, event));
         add = (\<lambda>y. res_bind (item y) (\<lambda>(v, _, y2).
           case ins ret v fe of
             Some ret' \<Rightarrow> container_loop ins item n ret' (Some (fm, fe)) y2
           | None \<Rightarrow> yaml_error m))
     in if is_scalar event then add y
        else if is_nested_start event then add (if first = None then y' else y)
        else Inr (ret, fm, y')))"

definition container_parse :: "('c \<Rightarrow> 'v \<Rightarrow> yaml_event \<Rightarrow> 'c option) \<Rightarrow> 'c \<Rightarrow> 'v parser \<Rightarrow> 'c parser" where
  "container_parse ins initial item y = container_loop ins item (Suc (length (fst y))) initial None y"

definition vec_insert :: "'v list \<Rightarrow> 'v \<Rightarrow> yaml_event \<Rightarrow> 'v list option" where
  "vec_insert ret v start = (if start = SequenceStart then Some (ret @ [v]) else None)"

definition tuple_vec_insert :: "(string \<times> 'v) list \<Rightarrow> string \<times> 'v \<Rightarrow> yaml_event \<Rightarrow> (string \<times> 'v) list option" where
  "tuple_vec_insert ret t start = (if start = MappingStart then Some (ret @ [t]) else None)"

definition map_insert :: "(string \<times> 'v) list \<Rightarrow> string \<times> 'v \<Rightarrow> yaml_event \<Rightarrow> (string \<times> 'v) list option" where
  "map_insert ret t start = (if start = MappingStart then Some (bt_insert (fst t) (snd t) ret) else None)"

definition parse_entry :: "'v parser \<Rightarrow> (string \<times> 'v) parser" where
  "parse_entry item y =
     res_bind (parse_string y) (\<lambda>(k, _, y').
     res_bind (item y') (\<lambda>(v, m, y2). Inr ((k, v), m, y2)))"

definition parse_vec :: "'v parser \<Rightarrow> 'v list parser" where
  "parse_vec item = container_parse vec_insert [] item"

definition parse_tuple_vec :: "'v parser \<Rightarrow> (string \<times> 'v) list parser" where
  "parse_tuple_vec item = container_parse tuple_vec_insert [] (parse_entry item)"

definition parse_map :: "'v parser \<Rightarrow> (string \<times> 'v) list parser" where
  "parse_map item = container_parse map_insert [] (parse_entry item)"

subsection \<open>\<open>Nullable\<close>\<close>

definition is_null_event :: "yaml_event \<Rightarrow> bool" where
  "is_null_event event =
     (case event of
        Scalar s style (Some (bang_bang, null)) \<Rightarrow> bang_bang = ''!!'' \<and> null = ''null''
      | Scalar s style None \<Rightarrow> style = Plain \<and> s = ''null''
      | _ \<Rightarrow> False)"

definition parse_nullable :: "'a parser \<Rightarrow> 'a option parser" where
  "parse_nullable item y =
     res_bind (yaml_peek y) (\<lambda>(event, m).
       if is_null_event event then res_map (\<lambda>(_, y'). (None, m, y')) (yaml_next y)
       else res_map (\<lambda>(v, m, y'). (Some v, m, y')) (item y))"

end
