(* ===== verification/YamlProps.thy ===== *)
theory YamlProps
  imports Yaml
begin

text \<open>What the decoder makes of anchors and aliases, JSON values in YAML, and the collections.\<close>

subsection \<open>Replaying recorded events\<close>

text \<open>A recorded range ends before the place it is recorded at.\<close>

definition wf_events :: "alias_or_event list \<Rightarrow> bool" where
  "wf_events evs \<longleftrightarrow> (\<forall>i<length evs. \<forall>a b. evs ! i = AliasRange a b \<longrightarrow> b \<le> i)"

lemma wf_events_append [simp]:
  "wf_events (evs @ [AnEvent e m]) = wf_events evs"
  "wf_events (evs @ [AliasRange a b]) = (wf_events evs \<and> b \<le> length evs)"
  by (auto simp: wf_events_def nth_append less_Suc_eq)

lemma replay_refl [simp]: "replay evs i i = []"
  by (simp add: replay.simps)

lemma replay_step:
  "i < j \<Longrightarrow> replay evs i j = (case evs ! i of AnEvent e m \<Rightarrow> [(e, m)] | AliasRange a b \<Rightarrow> if b \<le> i then replay evs a b else []) @
     replay evs (i + 1) j"
  by (subst replay.simps) simp

lemma replay_append_list: "j \<le> length evs \<Longrightarrow> replay (evs @ extra) i j = replay evs i j"
proof (induction evs i j rule: replay.induct)
  case (1 evs i j)
  show ?case
  proof (cases "i < j")
    case True
    then have "(evs @ extra) ! i = evs ! i" using "1.prems" by (simp add: nth_append)
    then show ?thesis
      using 1 True by (simp add: replay_step split: alias_or_event.splits)
  qed (simp add: replay.simps)
qed

lemma replay_append_range: "i \<le> j \<Longrightarrow> j \<le> k \<Longrightarrow> replay evs i k = replay evs i j @ replay evs j k"
proof (induction "j - i" arbitrary: i)
  case (Suc n)
  then have "i < j" "i < k" by auto
  with Suc.hyps(1) [of "i + 1"] Suc.hyps(2) Suc.prems show ?case by (simp add: replay_step)
qed simp

lemma replay_snoc [simp]:
  "i \<le> length evs \<Longrightarrow> replay (evs @ [AnEvent e m]) i (Suc (length evs)) = replay evs i (length evs) @ [(e, m)]"
  "i \<le> length evs \<Longrightarrow> b \<le> length evs \<Longrightarrow>
     replay (evs @ [AliasRange a b]) i (Suc (length evs)) = replay evs i (length evs) @ replay evs a b"
  using replay_append_range [of i "length evs" "Suc (length evs)"]
  by (simp_all add: replay_step [of "length evs"] replay_append_list)

subsection \<open>What a document means\<close>

text \<open>
  The nodes of a document with their anchors (0 for none), their events in the order of the parser, and the events
  they stand for. A node with an anchor gives it its events; only a scalar gives it none.
\<close>

datatype node =
    ScalarNode string scalar_style nat "(string \<times> string) option" marker
  | SequenceNode nat "node list" marker marker
  | MappingNode nat "node list" marker marker
  | AliasNode nat marker

fun raw_node :: "node \<Rightarrow> (raw_event \<times> marker) list" and raw_nodes :: "node list \<Rightarrow> (raw_event \<times> marker) list" where
  "raw_node (ScalarNode s style a tag m) = [(RawScalar s style a tag, m)]"
| "raw_node (SequenceNode a ns m m') = (RawSequenceStart a, m) # raw_nodes ns @ [(RawSequenceEnd, m')]"
| "raw_node (MappingNode a ns m m') = (RawMappingStart a, m) # raw_nodes ns @ [(RawMappingEnd, m')]"
| "raw_node (AliasNode i m) = [(Alias i, m)]"
| "raw_nodes [] = []"
| "raw_nodes (n # ns) = raw_node n @ raw_nodes ns"

type_synonym anchors = "nat \<rightharpoonup> (yaml_event \<times> marker) list"

definition anchored :: "nat \<Rightarrow> (yaml_event \<times> marker) list \<Rightarrow> anchors \<Rightarrow> anchors" where
  "anchored a evs env = (if 0 < a then env(a \<mapsto> evs) else env)"

fun expand :: "anchors \<Rightarrow> node \<Rightarrow> (yaml_event \<times> marker) list \<times> anchors"
  and expands :: "anchors \<Rightarrow> node list \<Rightarrow> (yaml_event \<times> marker) list \<times> anchors" where
  "expand env (ScalarNode s style a tag m) = ([(Scalar s style tag, m)], anchored a [] env)"
| "expand env (SequenceNode a ns m m') =
     (let (evs, env') = expands env ns; whole = (SequenceStart, m) # evs @ [(SequenceEnd, m')]
      in (whole, anchored a whole env'))"
| "expand env (MappingNode a ns m m') =
     (let (evs, env') = expands env ns; whole = (MappingStart, m) # evs @ [(MappingEnd, m')]
      in (whole, anchored a whole env'))"
| "expand env (AliasNode i m) = (case env i of Some evs \<Rightarrow> evs | None \<Rightarrow> [], env)"
| "expands env [] = ([], env)"
| "expands env (n # ns) =
     (let (evs, env') = expand env n; (evs2, env2) = expands env' ns in (evs @ evs2, env2))"

subsection \<open>The decoder follows it\<close>

fun entry_ok :: "alias_or_event list \<Rightarrow> (nat \<times> nat) option \<Rightarrow> (yaml_event \<times> marker) list option \<Rightarrow> bool" where
  "entry_ok evs None v \<longleftrightarrow> v = None"
| "entry_ok evs (Some (a, b)) v \<longleftrightarrow> b \<le> length evs \<and> v = Some (replay evs a b)"

lemma entry_ok_append: "entry_ok evs r v \<Longrightarrow> entry_ok (evs @ extra) r v"
  by (cases "(evs, r, v)" rule: entry_ok.cases) (auto simp: replay_append_list)

definition dec_ok :: "decoder \<Rightarrow> anchors \<Rightarrow> bool" where
  "dec_ok d env \<longleftrightarrow> wf_events (aliased_events d) \<and> (\<forall>n. entry_ok (aliased_events d) (alias_map d n) (env n))"

text \<open>From \<open>d\<close> to \<open>d'\<close> the decoder has read what stands for \<open>evs\<close>, and recorded it if it is inside an anchored node.\<close>

definition reads :: "decoder \<Rightarrow> (yaml_event \<times> marker) list \<Rightarrow> decoder \<Rightarrow> bool" where
  "reads d evs d' \<longleftrightarrow> reference_stack d' = reference_stack d \<and> (\<exists>new. aliased_events d' = aliased_events d @ new) \<and>
     (reference_stack d \<noteq> [] \<longrightarrow>
        replay (aliased_events d') (length (aliased_events d)) (length (aliased_events d')) = evs)"

lemma reads_trans:
  assumes "reads d evs d'" "reads d' evs2 d''"
  shows "reads d (evs @ evs2) d''"
proof -
  from assms have st: "reference_stack d'' = reference_stack d" "reference_stack d' = reference_stack d"
    by (simp_all add: reads_def)
  from assms(1) obtain new where n: "aliased_events d' = aliased_events d @ new" by (auto simp: reads_def)
  from assms(2) obtain new2 where n2: "aliased_events d'' = aliased_events d' @ new2" by (auto simp: reads_def)
  from n have "length (aliased_events d) \<le> length (aliased_events d')" by simp
  then have "replay (aliased_events d'') (length (aliased_events d)) (length (aliased_events d'')) =
      replay (aliased_events d') (length (aliased_events d)) (length (aliased_events d')) @
      replay (aliased_events d'') (length (aliased_events d')) (length (aliased_events d''))"
    by (subst replay_append_range [of _ "length (aliased_events d')"]) (simp_all add: n2 replay_append_list)
  with assms st n n2 show ?thesis by (simp add: reads_def)
qed

lemma dec_ok_append:
  assumes "dec_ok d env" "aliased_events d' = aliased_events d @ [AnEvent e m]" "alias_map d' = alias_map d"
  shows "dec_ok d' env"
  using assms by (simp add: dec_ok_def entry_ok_append)

lemma expand_start:
  assumes "dec_ok d env" "is_nested_start e" "d1 = record_event a e m d"
  shows "dec_ok d1 env \<and>
    (if reference_stack d \<noteq> [] \<or> 0 < a
     then aliased_events d1 = aliased_events d @ [AnEvent e m] \<and>
          reference_stack d1 = (if 0 < a then Some (a, length (aliased_events d)) else None) # reference_stack d
     else aliased_events d1 = aliased_events d \<and> reference_stack d1 = [])"
proof -
  have "\<not> is_scalar e" "\<not> is_nested_end e" using assms(2) by (cases e; simp)+
  with assms(2,3) show ?thesis
    by (auto simp: record_event_def Let_def intro: dec_ok_append [OF assms(1)] assms(1))
qed


lemma expand_end:
  assumes "dec_ok d env" "reads d1 evs d2" "dec_ok d2 env'" "is_nested_start e" "is_nested_end e'"
    and d1: "d1 = record_event a e m d" and d3: "d3 = record_event 0 e' m' d2"
  shows "dec_ok d3 (anchored a ((e, m) # evs @ [(e', m')]) env') \<and> reads d ((e, m) # evs @ [(e', m')]) d3"
proof (cases "reference_stack d \<noteq> [] \<or> 0 < a")
  case True
  with expand_start [OF assms(1,4) d1]
  have s: "aliased_events d1 = aliased_events d @ [AnEvent e m]"
      "reference_stack d1 = (if 0 < a then Some (a, length (aliased_events d)) else None) # reference_stack d"
    by simp_all
  have "\<not> is_scalar e'" "\<not> is_nested_start e'" using assms(5) by (cases e'; simp)+
  moreover from assms(2) s(2) have r2: "reference_stack d2 = reference_stack d1" by (simp add: reads_def)
  ultimately have a3: "aliased_events d3 = aliased_events d2 @ [AnEvent e' m']" "reference_stack d3 = reference_stack d"
      "alias_map d3 = (if 0 < a then (alias_map d2)(a \<mapsto> (length (aliased_events d), length (aliased_events d3)))
         else alias_map d2)"
    using assms(5) s(2) d3 by (auto simp: record_event_def Let_def)
  obtain new where n: "aliased_events d2 = aliased_events d1 @ new" using assms(2) by (auto simp: reads_def)
  have "replay (aliased_events d2) (length (aliased_events d)) (length (aliased_events d2)) = (e, m) # evs"
    using assms(2) s n by (simp add: replay_step [of "length (aliased_events d)"] nth_append reads_def)
  moreover have "length (aliased_events d) \<le> length (aliased_events d2)" using s n by simp
  ultimately have whole: "replay (aliased_events d3) (length (aliased_events d)) (length (aliased_events d3)) =
      (e, m) # evs @ [(e', m')]"
    by (simp add: a3(1))
  have "dec_ok d3 (anchored a ((e, m) # evs @ [(e', m')]) env')"
    using assms(3) whole by (auto simp: dec_ok_def a3 anchored_def entry_ok_append)
  with whole s n a3 show ?thesis by (simp add: reads_def)
next
  case False
  with expand_start [OF assms(1,4) d1]
  have s: "aliased_events d1 = aliased_events d" "reference_stack d1 = []" by simp_all
  have "\<not> is_scalar e'" "\<not> is_nested_start e'" using assms(5) by (cases e'; simp)+
  moreover from assms(2) s(2) have "reference_stack d2 = []" by (simp add: reads_def)
  ultimately have "d3 = d2" using assms(5) d3 by (simp add: record_event_def Let_def)
  with False assms(2,3) s show ?thesis by (simp add: anchored_def reads_def)
qed

lemma yaml_then_then [simp]: "yaml_then a (yaml_then b y) = yaml_then (a @ b) y" "yaml_then [] y = y"
  by (simp_all add: yaml_then_def)

lemma decode_scalar:
  assumes "dec_ok d env" "d' = record_event a (Scalar s style tag) m d"
  shows "dec_ok d' (anchored a [] env) \<and> reads d [(Scalar s style tag, m)] d'"
  using assms
  by (auto simp: dec_ok_def reads_def record_event_def Let_def anchored_def entry_ok_append replay_step)

lemma decode_alias:
  assumes "dec_ok d env" "(evs, d') = resolve_alias i d"
  shows "dec_ok d' env \<and> reads d evs d' \<and> (case env i of Some evs \<Rightarrow> evs | None \<Rightarrow> []) = evs"
proof -
  have e: "entry_ok (aliased_events d) (alias_map d i) (env i)" using assms(1) by (simp add: dec_ok_def)
  show ?thesis
  proof (cases "alias_map d i")
    case None
    with e assms show ?thesis by (simp add: resolve_alias_def reads_def)
  next
    case (Some r)
    then obtain a b where r: "alias_map d i = Some (a, b)" by (cases r) auto
    with e have b: "b \<le> length (aliased_events d)" "env i = Some (replay (aliased_events d) a b)" by simp_all
    with r assms show ?thesis by (auto simp: resolve_alias_def dec_ok_def reads_def entry_ok_append)
  qed
qed

lemma decode_follows:
  "dec_ok d env \<Longrightarrow> \<exists>d'. dec_ok d' (snd (expand env n)) \<and> reads d (fst (expand env n)) d' \<and>
     (\<forall>rest. decode (raw_node n @ rest) err d = yaml_then (fst (expand env n)) (decode rest err d'))"
  "dec_ok d env \<Longrightarrow> \<exists>d'. dec_ok d' (snd (expands env ns)) \<and> reads d (fst (expands env ns)) d' \<and>
     (\<forall>rest. decode (raw_nodes ns @ rest) err d = yaml_then (fst (expands env ns)) (decode rest err d'))"
proof (induction n and ns arbitrary: d env and d env rule: raw_node_raw_nodes.induct)
  case (1 s style a tag m)
  then show ?case using decode_scalar [OF 1 refl, of a s style tag m] by (auto simp: Let_def)
next
  case (2 a ns m m')
  let ?d1 = "record_event a SequenceStart m d"
  from expand_start [OF "2.prems" _ refl, of SequenceStart a m] have "dec_ok ?d1 env" by simp
  from "2.IH" [OF this] obtain d2 where d2: "dec_ok d2 (snd (expands env ns))" "reads ?d1 (fst (expands env ns)) d2"
      "\<And>rest. decode (raw_nodes ns @ rest) err ?d1 = yaml_then (fst (expands env ns)) (decode rest err d2)"
    by blast
  show ?case using expand_end [OF "2.prems" d2(2,1) _ _ refl refl, of SequenceEnd m'] d2(3)
    by (auto simp: Let_def case_prod_beta)
next
  case (3 a ns m m')
  let ?d1 = "record_event a MappingStart m d"
  from expand_start [OF "3.prems" _ refl, of MappingStart a m] have "dec_ok ?d1 env" by simp
  from "3.IH" [OF this] obtain d2 where d2: "dec_ok d2 (snd (expands env ns))" "reads ?d1 (fst (expands env ns)) d2"
      "\<And>rest. decode (raw_nodes ns @ rest) err ?d1 = yaml_then (fst (expands env ns)) (decode rest err d2)"
    by blast
  show ?case using expand_end [OF "3.prems" d2(2,1) _ _ refl refl, of MappingEnd m'] d2(3)
    by (auto simp: Let_def case_prod_beta)
next
  case (4 i m)
  obtain evs d' where "(evs, d') = resolve_alias i d" by (metis surj_pair)
  with decode_alias [OF 4 this] show ?case by (auto split: prod.splits)
next
  case 5
  then show ?case by (auto simp: reads_def)
next
  case (6 n ns)
  obtain d1 where d1: "dec_ok d1 (snd (expand env n))" "reads d (fst (expand env n)) d1"
      "\<And>rest. decode (raw_node n @ rest) err d = yaml_then (fst (expand env n)) (decode rest err d1)"
    using "6.IH"(1) [OF "6.prems"] by blast
  obtain d2 where d2: "dec_ok d2 (snd (expands (snd (expand env n)) ns))"
      "reads d1 (fst (expands (snd (expand env n)) ns)) d2"
      "\<And>rest. decode (raw_nodes ns @ rest) err d1 =
         yaml_then (fst (expands (snd (expand env n)) ns)) (decode rest err d2)"
    using "6.IH"(2) [OF d1(1)] by blast
  from d1 d2 show ?case
    by (auto simp: Let_def case_prod_beta intro!: exI [of _ d2] intro: reads_trans)
qed

text \<open>
  C12. The decoder gives the events of a document with every alias replaced by the events of the node its
  anchor is on, whatever the nesting of anchors and aliases; an alias of a scalar, whose recorded range is empty,
  gives no event.
\<close>

theorem decoder_expands_aliases:
  "decode (raw_nodes ns @ (StreamEnd, m) # rest) err decoder_new = (fst (expands Map.empty ns), YamlDeserialize None m)"
proof -
  have "dec_ok decoder_new Map.empty" by (simp add: dec_ok_def decoder_new_def wf_events_def)
  from decode_follows(2) [OF this, of ns err] obtain d' where
    "\<forall>rest. decode (raw_nodes ns @ rest) err decoder_new = yaml_then (fst (expands Map.empty ns)) (decode rest err d')"
    by blast
  then show ?thesis by (simp add: yaml_then_def)
qed


subsection \<open>Parsers read on and return\<close>

text \<open>A result that is not for want of fuel and leaves, in \<open>left\<close> of what it gives, fewer than \<open>n\<close> events.\<close>

definition reads_below :: "('a \<Rightarrow> yaml) \<Rightarrow> nat \<Rightarrow> 'a yaml_result \<Rightarrow> bool" where
  "reads_below left n r \<longleftrightarrow> r \<noteq> Inl OutOfFuel \<and> (\<forall>a. r = Inr a \<longrightarrow> length (fst (left a)) < n)"

named_theorems reads_intros

lemma reads_below_simps [simp]:
  "reads_below left n (Inl e) \<longleftrightarrow> e \<noteq> OutOfFuel"
  "reads_below left n (Inr a) \<longleftrightarrow> length (fst (left a)) < n"
  by (auto simp: reads_below_def)

lemma reads_below_mono: "reads_below left k r \<Longrightarrow> k \<le> n \<Longrightarrow> reads_below left n r"
  by (auto simp: reads_below_def)

lemma reads_below_bind:
  assumes "reads_below left k r" "\<And>a. r = Inr a \<Longrightarrow> length (fst (left a)) < k \<Longrightarrow> reads_below left' n (f a)"
  shows "reads_below left' n (res_bind r f)"
  using assms by (cases r) (auto simp: reads_below_def)

lemma reads_below_bind_pure:
  assumes "r \<noteq> Inl OutOfFuel" "\<And>a. r = Inr a \<Longrightarrow> reads_below left' n (f a)"
  shows "reads_below left' n (res_bind r f)"
  using assms by (cases r) auto

lemma reads_below_map:
  assumes "reads_below left k r" "k \<le> n" "\<And>a. length (fst (left' (f a))) \<le> length (fst (left a))"
  shows "reads_below left' n (res_map f r)"
  using assms by (cases r) (auto intro: le_less_trans less_le_trans)

lemma reads_below_next:
  assumes "\<And>em y'. length (fst y') < length (fst y) \<Longrightarrow> reads_below left n (f (em, y'))"
  shows "reads_below left n (res_bind (yaml_next y) f)"
  using assms by (cases y rule: yaml_next.cases) auto

lemma reads_below_peek:
  assumes "\<And>em y'. yaml_next y = Inr (em, y') \<Longrightarrow> length (fst y') < length (fst y) \<Longrightarrow> reads_below left n (f em)"
  shows "reads_below left n (res_bind (yaml_peek y) f)"
  using assms by (cases y rule: yaml_next.cases) auto

text \<open>What a parser of a collection or of a field needs of the parser of its parts.\<close>

locale reading_parser =
  fixes item :: "'a parser"
  assumes item_reads: "reads_below (\<lambda>(v, m, y'). y') (length (fst y)) (item y)"

lemma json_loop_reads:
  "2 * length (fst y) + (if root = None then 1 else 2) \<le> n \<Longrightarrow>
     reads_below (\<lambda>(v, m, y'). y') (length (fst y)) (json_loop from_str n root first y)"
proof (induction n arbitrary: root first y)
  case (Suc n)
  have on: "reads_below (\<lambda>(v, m, y'). y') (length (fst y)) (json_loop from_str n (Some v) f y2)"
    if "length (fst y2) < length (fst y)" for v f y2
    using Suc.IH [of y2 "Some v" f] Suc.prems that by (auto intro: reads_below_mono split: if_splits)
  have item: "reads_below (\<lambda>(v, m, y'). y') (length (fst y2)) (json_loop from_str n None None y2)"
    if "length (fst y2) < length (fst y) \<or> y2 = y \<and> root \<noteq> None" for y2
    using Suc.IH [of y2 None None] Suc.prems that by (auto split: if_splits)
  have nested: "reads_below (\<lambda>(v, m, y'). y') (length (fst y))
       (res_bind (json_loop from_str n None None y2) (\<lambda>(v, _, y3). json_loop from_str n (Some (g v)) f y3))"
    if "length (fst y2) < length (fst y) \<or> y2 = y \<and> root \<noteq> None" for y2 g f
    using that by (intro reads_below_bind [OF item]) (auto intro: on)
  show ?case
    by (auto intro!: reads_below_peek reads_below_next on nested simp: Let_def split: yaml_event.splits option.splits json.splits)
qed (simp split: if_splits)

interpretation json: reading_parser "json_parse from_str" for from_str
  by unfold_locales (simp add: json_parse_def json_loop_reads del: json_loop.simps)

context reading_parser begin

lemma container_loop_reads:
  "length (fst y) < n \<Longrightarrow> reads_below (\<lambda>(v, m, y'). y') (length (fst y)) (container_loop ins item n ret first y)"
proof (induction n arbitrary: ret first y)
  case (Suc n)
  have on: "reads_below (\<lambda>(v, m, y'). y') (length (fst y)) (container_loop ins item n ret' f y2)"
    if "length (fst y2) < length (fst y)" for ret' f y2
    using Suc.IH [of y2 ret' f] Suc.prems that by (auto intro: reads_below_mono)
  show ?case
    by (auto intro!: reads_below_peek reads_below_next reads_below_bind [OF item_reads] on simp: Let_def
        split: option.splits)
qed simp

lemma container_reads: "reading_parser (container_parse ins initial item)"
  by unfold_locales (simp add: container_parse_def container_loop_reads del: container_loop.simps)

end


lemma parse_event_reads: "reading_parser (parse_event f)"
  by unfold_locales (auto simp: parse_event_def intro!: reads_below_next split: option.splits)

lemma parser_bind:
  assumes "reading_parser p" "\<And>v m y'. length (fst y') < length (fst y) \<Longrightarrow> reads_below left n (f (v, m, y'))"
  shows "reads_below left n (res_bind (p y) f)"
  by (rule reads_below_bind [OF reading_parser.item_reads [OF assms(1)]]) (auto intro: assms(2))

lemma parser_map:
  assumes "reading_parser p" "\<And>v m y'. reads_below left (length (fst y)) (Inr (f (v, m, y'))) \<longleftrightarrow> length (fst y') < length (fst y)"
  shows "reads_below left (length (fst y)) (res_map f (p y))"
  using assms by (simp add: res_map_def parser_bind)

lemma parse_entry_reads: "reading_parser item \<Longrightarrow> reading_parser (parse_entry item)"
  by (rule reading_parser.intro) (auto simp: parse_entry_def parse_string_def intro!: parser_bind parse_event_reads)

lemma parse_nullable_reads: "reading_parser item \<Longrightarrow> reading_parser (parse_nullable item)"
  by (rule reading_parser.intro)
    (auto simp: parse_nullable_def res_map_def intro!: reads_below_peek reads_below_next parser_bind)

lemmas collection_reads =
  json.reading_parser_axioms parse_event_reads parse_entry_reads parse_nullable_reads reading_parser.container_reads

subsection \<open>JSON values in YAML\<close>

text \<open>The events of a JSON value: strings and keys quoted, everything else plain, numbers by \<open>text\<close>.\<close>

fun json_events :: "(json_number \<Rightarrow> string) \<Rightarrow> marker \<Rightarrow> json \<Rightarrow> (yaml_event \<times> marker) list"
  and json_list_events :: "(json_number \<Rightarrow> string) \<Rightarrow> marker \<Rightarrow> json list \<Rightarrow> (yaml_event \<times> marker) list"
  and json_entry_events :: "(json_number \<Rightarrow> string) \<Rightarrow> marker \<Rightarrow> (string \<times> json) list \<Rightarrow> (yaml_event \<times> marker) list" where
  "json_events number m JNull = [(Scalar ''null'' Plain None, m)]"
| "json_events number m (JBool b) = [(Scalar (if b then ''true'' else ''false'') Plain None, m)]"
| "json_events number m (JNumber n) = [(Scalar (number n) Plain None, m)]"
| "json_events number m (JString s) = [(Scalar s DoubleQuoted None, m)]"
| "json_events number m (JArray vs) = (SequenceStart, m) # json_list_events number m vs @ [(SequenceEnd, m)]"
| "json_events number m (JObject kvs) = (MappingStart, m) # json_entry_events number m kvs @ [(MappingEnd, m)]"
| "json_list_events number m [] = []"
| "json_list_events number m (v # vs) = json_events number m v @ json_list_events number m vs"
| "json_entry_events number m [] = []"
| "json_entry_events number m ((k, v) # kvs) =
     (Scalar k DoubleQuoted None, m) # json_events number m v @ json_entry_events number m kvs"

text \<open>No object in the value has a key twice, and the texts of its numbers are read back by \<open>from_str\<close>.\<close>

fun wf_json :: "(string \<Rightarrow> json option) \<Rightarrow> (json_number \<Rightarrow> string) \<Rightarrow> json \<Rightarrow> bool"
  and wf_json_list :: "(string \<Rightarrow> json option) \<Rightarrow> (json_number \<Rightarrow> string) \<Rightarrow> json list \<Rightarrow> bool"
  and wf_json_entries :: "(string \<Rightarrow> json option) \<Rightarrow> (json_number \<Rightarrow> string) \<Rightarrow> (string \<times> json) list \<Rightarrow> bool" where
  "wf_json from_str number (JArray vs) \<longleftrightarrow> wf_json_list from_str number vs"
| "wf_json from_str number (JObject kvs) \<longleftrightarrow> distinct (map fst kvs) \<and> wf_json_entries from_str number kvs"
| "wf_json from_str number (JNumber n) \<longleftrightarrow>
     from_str (number n) = Some (JNumber n) \<and> number n \<notin> {''null'', ''NaN'', ''true'', ''false''}"
| "wf_json from_str number _ \<longleftrightarrow> True"
| "wf_json_list from_str number [] \<longleftrightarrow> True"
| "wf_json_list from_str number (v # vs) \<longleftrightarrow> wf_json from_str number v \<and> wf_json_list from_str number vs"
| "wf_json_entries from_str number [] \<longleftrightarrow> True"
| "wf_json_entries from_str number ((k, v) # kvs) \<longleftrightarrow> wf_json from_str number v \<and> wf_json_entries from_str number kvs"

lemma json_events_nonempty: "0 < length (json_events number m v)"
  by (cases v) simp_all

lemma obj_insert_new: "k \<notin> fst ` set ob \<Longrightarrow> obj_insert k v ob = ob @ [(k, v)]"
  by (induction ob) auto

lemma json_loop_scalar:
  "2 \<le> n \<Longrightarrow> json_loop from_str n None None ((Scalar s style tag, m) # rest, err) =
     Inr (get_value from_str style s, m, (rest, err))"
  by (cases n) auto

lemma json_loop_events:
  "wf_json from_str number v \<Longrightarrow> 2 * length (json_events number m v) \<le> n \<Longrightarrow>
     json_loop from_str n None None (json_events number m v @ rest, err) = Inr (v, m, (rest, err))"
  "wf_json_list from_str number vs \<Longrightarrow> 2 * length (json_list_events number m vs) + 1 \<le> n \<Longrightarrow>
     json_loop from_str n (Some (JArray a)) (Some f) (json_list_events number m vs @ (SequenceEnd, m) # rest, err) =
     Inr (JArray (a @ vs), f, (rest, err))"
  "wf_json_entries from_str number kvs \<Longrightarrow> distinct (map fst (ob @ kvs)) \<Longrightarrow>
     2 * length (json_entry_events number m kvs) + 1 \<le> n \<Longrightarrow>
     json_loop from_str n (Some (JObject ob)) (Some f) (json_entry_events number m kvs @ (MappingEnd, m) # rest, err) =
     Inr (JObject (ob @ kvs), f, (rest, err))"
proof (induction number m v and number m vs and number m kvs
    arbitrary: n rest and a f n rest and ob f n rest rule: json_events_json_list_events_json_entry_events.induct)
  case (5 number m vs)
  then show ?case by (cases n) auto
next
  case (6 number m kvs)
  then show ?case by (cases n) auto
next
  case (8 number m v vs)
  obtain n' where n: "n = Suc n'" "2 * length (json_events number m v) \<le> n'"
      "2 * length (json_list_events number m vs) + 1 \<le> n'"
    using "8.prems" json_events_nonempty [of number m v] by (cases n) (auto simp del: length_greater_0_conv)
  from "8.IH"(1) [OF _ n(2)] "8.IH"(2) [OF _ n(3)] "8.prems"(1) show ?case
    by (cases v) (simp_all add: n(1) get_value_def)
next
  case (10 number m k v kvs)
  obtain n' where n: "n = Suc n'" "2 * length (json_events number m v) \<le> n'"
      "2 * length (json_entry_events number m kvs) + 1 \<le> n'"
    using "10.prems" by (cases n) auto
  from "10.IH"(1) [OF _ n(2)] "10.IH"(2) [OF _ _ n(3)] "10.prems"(1,2) show ?case
    by (auto simp: n(1) obj_insert_new)
qed (auto simp: json_loop_scalar get_value_def Suc_le_eq gr0_conv_Suc)


text \<open>
  C31. A JSON value without repeated keys is read back from its YAML events, and the reader stops right after
  them. Strings and keys are quoted; \<open>number\<close> writes numbers in a way \<open>serde_json\<close> reads back.
\<close>

theorem json_yaml_roundtrip:
  assumes "wf_json from_str number v"
  shows "json_parse from_str (json_events number m v @ rest, err) = Inr (v, m, (rest, err))"
  unfolding json_parse_def using assms by (intro json_loop_events(1)) auto

theorem json_yaml_roundtrip_witness:
  "json_parse (\<lambda>s. if s = ''7'' then Some (JNumber (PosInt 7)) else None)
     (json_events (\<lambda>_. ''7'') (Marker 0 1 0) (JObject [(''a'', JArray [JString ''true'', JBool True, JNumber (PosInt 7)])]),
      YamlDeserialize None (Marker 9 9 9)) =
   Inr (JObject [(''a'', JArray [JString ''true'', JBool True, JNumber (PosInt 7)])], Marker 0 1 0, [],
     YamlDeserialize None (Marker 9 9 9))"
  using json_yaml_roundtrip [of "\<lambda>s. if s = ''7'' then Some (JNumber (PosInt 7)) else None" "\<lambda>_. ''7''"
      "JObject [(''a'', JArray [JString ''true'', JBool True, JNumber (PosInt 7)])]" "Marker 0 1 0" "[]"]
  by simp

subsection \<open>Collections\<close>

context reading_parser begin

text \<open>\<open>evs\<close> is how an item \<open>v\<close> is written: it does not begin with the end of a collection.\<close>

definition written :: "(yaml_event \<times> marker) list \<Rightarrow> 'a \<Rightarrow> bool" where
  "written evs v \<longleftrightarrow> (\<exists>e m evs'. evs = (e, m) # evs' \<and> \<not> is_nested_end e) \<and>
     (\<exists>m. \<forall>rest err. item (evs @ rest, err) = Inr (v, m, (rest, err)))"

lemma container_items:
  assumes "list_all2 written evss vs" "Suc (length vs) \<le> n" "\<And>ret v. ins ret v fe = Some (add ret v)"
    and "is_nested_end e"
  shows "container_loop ins item n ret (Some (m, fe)) (concat evss @ (e, m') # rest, err) =
    Inr (foldl add ret vs, m, (rest, err))"
  using assms(1,2)
proof (induction evss vs arbitrary: n ret rule: list_all2_induct)
  case Nil
  with assms(4) show ?case by (cases n; cases e) auto
next
  case (Cons evs evss v vs)
  then obtain e1 m1 evs' where evs: "evs = (e1, m1) # evs'" "\<not> is_nested_end e1" by (auto simp: written_def)
  from Cons.hyps(1) obtain m2 where "item (evs @ rest', err') = Inr (v, m2, (rest', err'))" for rest' err'
    unfolding written_def by blast
  with evs Cons.IH Cons.prems show ?case
    by (cases n; cases e1) (simp_all add: assms(3))
qed

lemma written_length: "list_all2 written evss vs \<Longrightarrow> length vs \<le> length (concat evss)"
  by (induction evss vs rule: list_all2_induct) (auto simp: written_def)

lemma container_parse_items:
  assumes "list_all2 written evss vs" "vs \<noteq> []" "\<And>ret v. ins ret v fe = Some (add ret v)"
    and "is_nested_start fe" "is_nested_end e"
  shows "container_parse ins initial item ((fe, m) # concat evss @ (e, m') # rest, err) =
    Inr (foldl add initial vs, m, (rest, err))"
proof -
  obtain evs evss' v vs' where c: "evss = evs # evss'" "vs = v # vs'" "written evs v" "list_all2 written evss' vs'"
    using assms(1,2) by (cases evss; cases vs) auto
  from c(3) obtain m2 where "item (evs @ rest', err') = Inr (v, m2, (rest', err'))" for rest' err'
    unfolding written_def by blast
  moreover have "\<not> is_scalar fe" using assms(4) by (cases fe) simp_all
  ultimately have loop: "container_loop ins item (Suc k) initial None ((fe, m) # evs @ concat evss' @ (e, m') # rest, err) =
      Inr (foldl add (add initial v) vs', m, (rest, err))" if "Suc (length vs') \<le> k" for k
    using container_items [where ins = ins and fe = fe and add = add, OF c(4) that assms(3,5), where m = m and m' = m'] assms(4)
    by (simp add: assms(3))
  have "Suc (length vs') \<le> length ((fe, m) # evs @ concat evss' @ (e, m') # rest)"
    using written_length [OF assms(1)] by (simp add: c(1,2))
  from loop [OF this] show ?thesis by (simp add: container_parse_def c(1,2) del: container_loop.simps)
qed

lemma foldl_snoc: "foldl (\<lambda>vs v. vs @ [v]) ws vs = ws @ vs"
  by (induction vs arbitrary: ws) simp_all

lemma vec_insert_items:
  "list_all2 written evss vs \<Longrightarrow> vs \<noteq> [] \<Longrightarrow>
     parse_vec item ((SequenceStart, m) # concat evss @ (SequenceEnd, m') # rest, err) = Inr (vs, m, (rest, err))"
  using container_parse_items [of evss vs vec_insert SequenceStart "\<lambda>vs v. vs @ [v]" SequenceEnd "[]" m m' rest err]
  by (simp add: parse_vec_def vec_insert_def foldl_snoc)

end

lemma json_events_written:
  assumes "wf_json from_str number v"
  shows "reading_parser.written (json_parse from_str) (json_events number m v) v"
proof -
  have "\<exists>e m' evs'. json_events number m v = (e, m') # evs' \<and> \<not> is_nested_end e" by (cases v) auto
  moreover have "json_parse from_str (json_events number m v @ rest, err) = Inr (v, m, (rest, err))" for rest err
    unfolding json_parse_def using assms by (intro json_loop_events(1)) auto
  ultimately show ?thesis by (auto simp: json.written_def)
qed

text \<open>
  A sequence of at least one JSON value is read as the list of the values.
\<close>

theorem json_list_yaml:
  assumes "wf_json_list from_str number vs" "vs \<noteq> []"
  shows "parse_vec (json_parse from_str) (json_events number m (JArray vs) @ rest, err) = Inr (vs, m, (rest, err))"
proof -
  have "list_all2 (reading_parser.written (json_parse from_str)) (map (json_events number m) vs) vs"
    using assms(1) by (induction vs) (simp_all add: json_events_written)
  moreover have "json_list_events number m vs = concat (map (json_events number m) vs)"
    by (induction vs) simp_all
  ultimately show ?thesis using json.vec_insert_items [of from_str "map (json_events number m) vs" vs] assms(2) by simp
qed


theorem json_list_yaml_witness:
  "parse_vec (json_parse (\<lambda>_. None)) (json_events (\<lambda>_. ''x'') (Marker 0 1 0) (JArray [JNull, JString ''b'']),
     YamlDeserialize None (Marker 9 9 9)) =
   Inr ([JNull, JString ''b''], Marker 0 1 0, [], YamlDeserialize None (Marker 9 9 9))"
  using json_list_yaml [of "\<lambda>_. None" "\<lambda>_. ''x''" "[JNull, JString ''b'']" "Marker 0 1 0" "[]"] by simp

end
