(* ===== verification/ConfigParse.thy ===== *)
theory ConfigParse
  imports Yaml Time
begin

text \<open>
  \<open>FromYaml\<close> of the parts of a configuration file (\<open>lib/config/src/lib.rs\<close>), up to the whole file,
  \<open>LoadTestPreProcessed\<close>. The structs share one loop over the keys of a mapping, \<open>fields_loop\<close>; the local
  variables of each \<open>parse\<close> are its record of options. The third-party parts are in \<open>config_ext\<close>.
\<close>

subsection \<open>Third-party parts and shared types\<close>

text \<open>
  Beside those of expressions: the parser of \<open>select.pest\<close>, \<open>serde_json::from_str\<close>, \<open>Regex::captures_iter\<close>,
  \<open>LevelFilter::from_str\<close> (a level is its number), the mark of a new scanner and the YAML parser.
\<close>

record config_ext =
  cx_ext :: expr_ext
  cx_entry_point :: "string \<Rightarrow> string + pair list"
  cx_template :: "string \<Rightarrow> string + pair list"
  cx_json_from_str :: "string \<Rightarrow> json option"
  cx_captures_iter :: "regex \<Rightarrow> string \<Rightarrow> string option list list"
  cx_level_filter :: "string \<Rightarrow> nat option"
  cx_start_mark :: marker
  cx_scan :: "string \<Rightarrow> (raw_event \<times> marker) list \<times> string"

type_synonym 'a with_marker = "'a \<times> marker"

definition parse_with_marker :: "'a parser \<Rightarrow> 'a with_marker parser" where
  "parse_with_marker item y = res_map (\<lambda>(v, m, y'). ((v, m), m, y')) (item y)"

text \<open>A template, an expression, a duration, a percentage or a rate before it is evaluated; the flag is \<open>no_fail\<close>.\<close>

datatype pre_template = PreTemplate (pre_text: string) (pre_marker: marker) (pre_no_fail: bool)

definition pre_template_new :: "string with_marker \<Rightarrow> pre_template" where
  "pre_template_new w = PreTemplate (fst w) (snd w) False"

fun no_fail :: "pre_template \<Rightarrow> pre_template" where
  "no_fail (PreTemplate s m _) = PreTemplate s m True"

definition parse_pre_template :: "pre_template parser" where
  "parse_pre_template y = res_map (\<lambda>(w, m, y'). (pre_template_new w, m, y')) (parse_with_marker parse_string y)"

definition map_yaml_deserialize_err :: "string \<Rightarrow> 'a yaml_result \<Rightarrow> 'a yaml_result" where
  "map_yaml_deserialize_err name r =
     (case r of
        Inl (Error (YamlDeserialize None m)) \<Rightarrow> Inl (Error (YamlDeserialize (Some name) m))
      | Inl (Error (UnrecognizedKey k None m)) \<Rightarrow> Inl (Error (UnrecognizedKey k (Some name) m))
      | _ \<Rightarrow> r)"

definition yaml_of_str :: "config_ext \<Rightarrow> string \<Rightarrow> yaml" where
  "yaml_of_str X s = (case cx_scan X s of (raw, scan_error) \<Rightarrow> decode raw scan_error decoder_new)"

definition from_yaml_str :: "config_ext \<Rightarrow> 'a parser \<Rightarrow> string \<Rightarrow> 'a yaml_result" where
  "from_yaml_str X item s = res_map fst (item (yaml_of_str X s))"

subsection \<open>The keys of a mapping\<close>

text \<open>The \<open>loop\<close> of the structs. A mapping may also start at its first key; the end is the next \<open>MappingEnd\<close>.\<close>

fun fields_loop ::
    "('s \<Rightarrow> string \<Rightarrow> marker \<Rightarrow> yaml \<Rightarrow> ('s \<times> yaml) yaml_result) \<Rightarrow> nat \<Rightarrow> 's \<Rightarrow> marker option \<Rightarrow> bool \<Rightarrow> 's parser" where
  "fields_loop key 0 st first saw_opening y = Inl OutOfFuel"
| "fields_loop key (Suc n) st first saw_opening y =
     res_bind (yaml_next y) (\<lambda>((event, m), y').
     let first = Some (case first of Some f \<Rightarrow> f | None \<Rightarrow> m)
     in case event of
          MappingStart \<Rightarrow> if saw_opening then yaml_error m else fields_loop key n st first True y'
        | SequenceStart \<Rightarrow> yaml_error m
        | MappingEnd \<Rightarrow> Inr (st, the first, y')
        | SequenceEnd \<Rightarrow> Inl Panics
        | Scalar s _ _ \<Rightarrow> res_bind (key st s m y') (\<lambda>(st', y2). fields_loop key n st' first saw_opening y2))"

definition parse_fields ::
    "('s \<Rightarrow> string \<Rightarrow> marker \<Rightarrow> yaml \<Rightarrow> ('s \<times> yaml) yaml_result) \<Rightarrow> 's \<Rightarrow> 's parser" where
  "parse_fields key st y = fields_loop key (Suc (length (fst y))) st None False y"

definition plain_field :: "'a parser \<Rightarrow> ('a \<Rightarrow> 's) \<Rightarrow> yaml \<Rightarrow> ('s \<times> yaml) yaml_result" where
  "plain_field item upd y = res_map (\<lambda>(v, _, y'). (upd v, y')) (item y)"

definition field :: "string \<Rightarrow> 'a parser \<Rightarrow> ('a \<Rightarrow> 's) \<Rightarrow> yaml \<Rightarrow> ('s \<times> yaml) yaml_result" where
  "field name item upd y = res_map (\<lambda>(v, _, y'). (upd v, y')) (map_yaml_deserialize_err name (item y))"

abbreviation unrecognized :: "string \<Rightarrow> marker \<Rightarrow> 'a yaml_result" where
  "unrecognized s m \<equiv> Inl (Error (UnrecognizedKey s None m))"

definition required :: "string \<Rightarrow> marker \<Rightarrow> 'a option \<Rightarrow> 'a yaml_result" where
  "required name m v = (case v of Some a \<Rightarrow> Inr a | None \<Rightarrow> Inl (Error (MissingYamlField name m)))"

definition or_default :: "'a \<Rightarrow> 'a option \<Rightarrow> 'a" where
  "or_default d v = (case v of Some a \<Rightarrow> a | None \<Rightarrow> d)"

subsection \<open>Enumerations\<close>

text \<open>The Unicode white space that \<open>str::trim\<close> removes, in UTF-8.\<close>

definition white_space :: "string list" where
  "white_space = map (map char_of) ([[n] . n \<leftarrow> [9, 10, 11, 12, 13, 32 :: nat]] @ [[0xC2, 0x85], [0xC2, 0xA0], [0xE1, 0x9A, 0x80]] @
     map (\<lambda>n. [0xE2, 0x80, n]) ([0x80..<0x8B] @ [0xA8, 0xA9, 0xAF]) @ [[0xE2, 0x81, 0x9F], [0xE3, 0x80, 0x80]])"

function trim_with :: "string list \<Rightarrow> string \<Rightarrow> string" where
  "trim_with ws s =
     (case List.find (\<lambda>w. w \<noteq> [] \<and> take (length w) s = w) ws of
        Some w \<Rightarrow> trim_with ws (drop (length w) s)
      | None \<Rightarrow> s)"
  by pat_completeness auto

termination
proof (relation "measure (\<lambda>(ws, s). length s)")
  fix ws s w
  assume "List.find (\<lambda>w. w \<noteq> [] \<and> take (length w) s = w) ws = Some w"
  then have "w \<noteq> []" "take (length w) s = w" by (auto simp: find_Some_iff)
  then have "s \<noteq> []" by auto
  with \<open>w \<noteq> []\<close> show "((ws, drop (length w) s), ws, s) \<in> measure (\<lambda>(ws, s). length s)" by simp
qed simp

declare trim_with.simps [simp del]

definition str_trim :: "string \<Rightarrow> string" where
  "str_trim s = rev (trim_with (map rev white_space) (rev (trim_with white_space s)))"

datatype http_method = POST | GET | PUT | HEAD | DELETE | OPTIONS | CONNECT | PATCH | TRACE

definition method_names :: "(string \<times> http_method) list" where
  "method_names = [(''POST'', POST), (''GET'', GET), (''PUT'', PUT), (''HEAD'', HEAD), (''DELETE'', DELETE),
     (''OPTIONS'', OPTIONS), (''CONNECT'', CONNECT), (''PATCH'', PATCH), (''TRACE'', TRACE)]"

definition parse_method :: "http_method parser" where
  "parse_method = parse_event (\<lambda>event. Option.bind (event_as_str event) (\<lambda>s. map_of method_names (str_trim s)))"

datatype buffer_limit = DynamicLimit nat | StaticLimit nat

fun buffer_limit_eq :: "buffer_limit \<Rightarrow> buffer_limit \<Rightarrow> bool" where
  "buffer_limit_eq (DynamicLimit _) (DynamicLimit _) = True"
| "buffer_limit_eq (StaticLimit n) (StaticLimit n2) = (n = n2)"
| "buffer_limit_eq _ _ = False"

definition buffer_limit_dynamic :: buffer_limit where
  "buffer_limit_dynamic = DynamicLimit 5"

fun buffer_limit_get :: "buffer_limit \<Rightarrow> nat" where
  "buffer_limit_get (DynamicLimit n) = n"
| "buffer_limit_get (StaticLimit n) = n"

definition parse_limit :: "buffer_limit parser" where
  "parse_limit = parse_event (\<lambda>event.
     case event_as_x parse_usize event of
       Some i \<Rightarrow> Some (StaticLimit i)
     | None \<Rightarrow> if event_as_str event = Some ''auto'' then Some buffer_limit_dynamic else None)"

datatype file_format = Csv | JsonFormat | Line

definition parse_file_format :: "file_format parser" where
  "parse_file_format = parse_event (\<lambda>event. Option.bind (event_as_str event)
     (\<lambda>s. map_of [(''csv'', Csv), (''json'', JsonFormat), (''line'', Line)] s))"

datatype csv_header = HeaderBool bool | HeaderString string

definition parse_csv_header :: "csv_header parser" where
  "parse_csv_header = parse_event (\<lambda>event.
     case event_as_bool event of
       Some b \<Rightarrow> Some (HeaderBool b)
     | None \<Rightarrow> map_option HeaderString (event_as_str event))"

text \<open>A single ASCII character, of a plain scalar only.\<close>

definition parse_char_u8 :: "char parser" where
  "parse_char_u8 = parse_event (event_as_x (\<lambda>s.
     case s of [c] \<Rightarrow> if of_char c < (128 :: nat) then Some c else None | _ \<Rightarrow> None))"

definition parse_send_options :: "send_options parser" where
  "parse_send_options = parse_event (\<lambda>event. Option.bind (event_as_str event)
     (\<lambda>s. map_of [(''block'', Block), (''force'', Force), (''if_not_full'', IfNotFull)] s))"

subsection \<open>Load patterns\<close>

record linear_pre =
  linear_from :: "pre_template option"
  linear_to :: pre_template
  linear_over :: pre_template

record linear_locals =
  ll_from :: "pre_template option"
  ll_to :: "pre_template option"
  ll_over :: "pre_template option"

definition linear_key :: "linear_locals \<Rightarrow> string \<Rightarrow> marker \<Rightarrow> yaml \<Rightarrow> (linear_locals \<times> yaml) yaml_result" where
  "linear_key st s m =
     (if s = ''from'' then plain_field parse_pre_template (\<lambda>v. st\<lparr>ll_from := Some v\<rparr>)
      else if s = ''to'' then plain_field parse_pre_template (\<lambda>v. st\<lparr>ll_to := Some v\<rparr>)
      else if s = ''over'' then plain_field parse_pre_template (\<lambda>v. st\<lparr>ll_over := Some v\<rparr>)
      else (\<lambda>_. unrecognized s m))"

definition parse_linear :: "linear_pre parser" where
  "parse_linear y =
     res_bind (parse_fields linear_key \<lparr>ll_from = None, ll_to = None, ll_over = None\<rparr> y) (\<lambda>(l, m, y').
     res_bind (required ''to'' m (ll_to l)) (\<lambda>to.
     res_bind (required ''over'' m (ll_over l)) (\<lambda>over.
     Inr (\<lparr>linear_from = ll_from l, linear_to = to, linear_over = over\<rparr>, m, y'))))"

text \<open>\<open>LoadPatternPreProcessed::Linear\<close>, the only constructor: a mapping with the one key \<open>linear\<close>.\<close>

datatype load_pattern_pre = Linear linear_pre

definition expect_event :: "yaml_event \<Rightarrow> yaml \<Rightarrow> yaml yaml_result" where
  "expect_event e y = res_bind (yaml_next y) (\<lambda>((event, m), y'). if event = e then Inr y' else yaml_error m)"

definition parse_load_pattern_piece :: "load_pattern_pre parser" where
  "parse_load_pattern_piece y =
     res_bind (expect_event MappingStart y) (\<lambda>y1.
     res_bind (yaml_next y1) (\<lambda>((event, m), y2).
       case event_as_str event of
         Some s \<Rightarrow>
           if s = ''linear''
           then res_bind (parse_linear y2) (\<lambda>(linear, lm, y3).
                res_map (\<lambda>y4. (Linear linear, lm, y4)) (expect_event MappingEnd y3))
           else unrecognized s m
       | None \<Rightarrow> yaml_error m))"

type_synonym pre_load_pattern = "load_pattern_pre list \<times> marker"

definition parse_pre_load_pattern :: "pre_load_pattern parser" where
  "parse_pre_load_pattern = parse_with_marker (parse_vec parse_load_pattern_piece)"

subsection \<open>Providers\<close>

record list_with_options =
  list_random :: bool
  list_repeat :: bool
  list_values :: "json list"
  list_unique :: bool

record list_locals =
  li_random :: "bool"
  li_repeat :: "bool"
  li_values :: "json list option"
  li_unique :: "bool"

definition list_key :: "config_ext \<Rightarrow> list_locals \<Rightarrow> string \<Rightarrow> marker \<Rightarrow> yaml \<Rightarrow> (list_locals \<times> yaml) yaml_result" where
  "list_key X st s m =
     (if s = ''random'' then field s parse_bool (\<lambda>v. st\<lparr>li_random := v\<rparr>)
      else if s = ''repeat'' then field s parse_bool (\<lambda>v. st\<lparr>li_repeat := v\<rparr>)
      else if s = ''values'' then field s (parse_vec (json_parse (cx_json_from_str X))) (\<lambda>v. st\<lparr>li_values := Some v\<rparr>)
      else if s = ''unique'' then field s parse_bool (\<lambda>v. st\<lparr>li_unique := v\<rparr>)
      else (\<lambda>_. unrecognized s m))"

definition parse_list_with_options :: "config_ext \<Rightarrow> list_with_options parser" where
  "parse_list_with_options X y =
     res_bind (parse_fields (list_key X) \<lparr>li_random = False, li_repeat = True, li_values = None, li_unique = False\<rparr> y)
       (\<lambda>(l, m, y').
     res_bind (required ''values'' m (li_values l)) (\<lambda>values.
     Inr (\<lparr>list_random = li_random l, list_repeat = li_repeat l, list_values = values, list_unique = li_unique l\<rparr>, m, y')))"

datatype list_provider = WithOptions list_with_options | DefaultOptions "json list"

definition list_provider_unique :: "list_provider \<Rightarrow> bool" where
  "list_provider_unique p = (case p of WithOptions l \<Rightarrow> list_unique l | DefaultOptions _ \<Rightarrow> False)"

definition parse_list_provider :: "config_ext \<Rightarrow> list_provider parser" where
  "parse_list_provider X y =
     res_bind (yaml_peek y) (\<lambda>(event, m).
       case event of
         SequenceStart \<Rightarrow> res_map (\<lambda>(e, m, y'). (DefaultOptions e, m, y')) (parse_vec (json_parse (cx_json_from_str X)) y)
       | MappingStart \<Rightarrow> res_map (\<lambda>(i, m, y'). (WithOptions i, m, y')) (parse_list_with_options X y)
       | _ \<Rightarrow> yaml_error m)"

record range_provider_pre =
  rg_start :: "i64"
  rg_end :: "i64"
  rg_step :: "nat"
  rg_repeat :: "bool"
  rg_unique :: "bool"

definition range_provider_key :: "range_provider_pre \<Rightarrow> string \<Rightarrow> marker \<Rightarrow> yaml \<Rightarrow> (range_provider_pre \<times> yaml) yaml_result" where
  "range_provider_key st s m =
     (if s = ''start'' then field s parse_i64 (\<lambda>v. st\<lparr>rg_start := v\<rparr>)
      else if s = ''end'' then field s parse_i64 (\<lambda>v. st\<lparr>rg_end := v\<rparr>)
      else if s = ''step'' then field s parse_non_zero_u16 (\<lambda>v. st\<lparr>rg_step := v\<rparr>)
      else if s = ''repeat'' then field s parse_bool (\<lambda>v. st\<lparr>rg_repeat := v\<rparr>)
      else if s = ''unique'' then field s parse_bool (\<lambda>v. st\<lparr>rg_unique := v\<rparr>)
      else (\<lambda>_. unrecognized s m))"

definition parse_range_provider :: "range_provider_pre parser" where
  "parse_range_provider =
     parse_fields range_provider_key
       \<lparr>rg_start = 0, rg_end = 2 ^ 63 - 1, rg_step = 1, rg_repeat = False, rg_unique = False\<rparr>"

record csv_settings =
  csv_comment :: "char option"
  csv_delimiter :: "char option"
  csv_double_quote :: "bool option"
  csv_escape :: "char option"
  csv_headers :: csv_header
  csv_terminator :: "char option"
  csv_quote :: "char option"

definition csv_settings_default :: csv_settings where
  "csv_settings_default = \<lparr>csv_comment = None, csv_delimiter = None, csv_double_quote = None, csv_escape = None,
     csv_headers = HeaderBool False, csv_terminator = None, csv_quote = None\<rparr>"

record csv_locals =
  cs_comment :: "char option"
  cs_delimiter :: "char option"
  cs_double_quote :: "bool option"
  cs_escape :: "char option"
  cs_headers :: "csv_header option"
  cs_terminator :: "char option"
  cs_quote :: "char option"

definition csv_key :: "csv_locals \<Rightarrow> string \<Rightarrow> marker \<Rightarrow> yaml \<Rightarrow> (csv_locals \<times> yaml) yaml_result" where
  "csv_key st s m =
     (if s = ''comment'' then field s parse_char_u8 (\<lambda>v. st\<lparr>cs_comment := Some v\<rparr>)
      else if s = ''delimiter'' then field s parse_char_u8 (\<lambda>v. st\<lparr>cs_delimiter := Some v\<rparr>)
      else if s = ''double_quote'' then field s parse_bool (\<lambda>v. st\<lparr>cs_double_quote := Some v\<rparr>)
      else if s = ''escape'' then field s parse_char_u8 (\<lambda>v. st\<lparr>cs_escape := Some v\<rparr>)
      else if s = ''headers'' then field s parse_csv_header (\<lambda>v. st\<lparr>cs_headers := Some v\<rparr>)
      else if s = ''terminator'' then field s parse_char_u8 (\<lambda>v. st\<lparr>cs_terminator := Some v\<rparr>)
      else if s = ''quote'' then field s parse_char_u8 (\<lambda>v. st\<lparr>cs_quote := Some v\<rparr>)
      else (\<lambda>_. unrecognized s m))"

definition parse_csv_settings :: "csv_settings parser" where
  "parse_csv_settings y =
     res_map (\<lambda>(l, m, y').
         (\<lparr>csv_comment = cs_comment l, csv_delimiter = cs_delimiter l, csv_double_quote = cs_double_quote l,
           csv_escape = cs_escape l, csv_headers = or_default (HeaderBool False) (cs_headers l),
           csv_terminator = cs_terminator l, csv_quote = cs_quote l\<rparr>, m, y'))
       (parse_fields csv_key \<lparr>cs_comment = None, cs_delimiter = None, cs_double_quote = None, cs_escape = None,
          cs_headers = None, cs_terminator = None, cs_quote = None\<rparr> y)"

record file_provider_pre =
  fp_csv :: csv_settings
  fp_auto_return :: "send_options option"
  fp_buffer :: buffer_limit
  fp_format :: file_format
  fp_path :: pre_template
  fp_random :: bool
  fp_repeat :: bool
  fp_unique :: bool

record file_locals =
  fl_csv :: "csv_settings option"
  fl_auto_return :: "send_options option"
  fl_buffer :: "buffer_limit option"
  fl_format :: "file_format option"
  fl_path :: "pre_template option"
  fl_random :: "bool"
  fl_repeat :: "bool"
  fl_unique :: "bool"

definition file_key :: "file_locals \<Rightarrow> string \<Rightarrow> marker \<Rightarrow> yaml \<Rightarrow> (file_locals \<times> yaml) yaml_result" where
  "file_key st s m =
     (if s = ''csv'' then field s parse_csv_settings (\<lambda>v. st\<lparr>fl_csv := Some v\<rparr>)
      else if s = ''auto_return'' then field s parse_send_options (\<lambda>v. st\<lparr>fl_auto_return := Some v\<rparr>)
      else if s = ''buffer'' then field s parse_limit (\<lambda>v. st\<lparr>fl_buffer := Some v\<rparr>)
      else if s = ''format'' then field s parse_file_format (\<lambda>v. st\<lparr>fl_format := Some v\<rparr>)
      else if s = ''path'' then field s (parse_with_marker parse_string) (\<lambda>v. st\<lparr>fl_path := Some (pre_template_new v)\<rparr>)
      else if s = ''random'' then field s parse_bool (\<lambda>v. st\<lparr>fl_random := v\<rparr>)
      else if s = ''repeat'' then field s parse_bool (\<lambda>v. st\<lparr>fl_repeat := v\<rparr>)
      else if s = ''unique'' then field s parse_bool (\<lambda>v. st\<lparr>fl_unique := v\<rparr>)
      else (\<lambda>_. unrecognized s m))"

definition parse_file_provider :: "file_provider_pre parser" where
  "parse_file_provider y =
     res_bind (parse_fields file_key \<lparr>fl_csv = None, fl_auto_return = None, fl_buffer = None, fl_format = None,
         fl_path = None, fl_random = False, fl_repeat = False, fl_unique = False\<rparr> y) (\<lambda>(l, m, y').
     res_bind (required ''path'' m (fl_path l)) (\<lambda>path.
     Inr (\<lparr>fp_csv = or_default csv_settings_default (fl_csv l), fp_auto_return = fl_auto_return l,
           fp_buffer = or_default buffer_limit_dynamic (fl_buffer l), fp_format = or_default Line (fl_format l),
           fp_path = path, fp_random = fl_random l, fp_repeat = fl_repeat l, fp_unique = fl_unique l\<rparr>, m, y')))"

record response_provider =
  resp_auto_return :: "send_options option"
  resp_buffer :: buffer_limit
  resp_unique :: bool

record response_locals =
  re_auto_return :: "send_options option"
  re_buffer :: "buffer_limit option"
  re_unique :: "bool"

definition response_key :: "response_locals \<Rightarrow> string \<Rightarrow> marker \<Rightarrow> yaml \<Rightarrow> (response_locals \<times> yaml) yaml_result" where
  "response_key st s m =
     (if s = ''auto_return'' then field s parse_send_options (\<lambda>v. st\<lparr>re_auto_return := Some v\<rparr>)
      else if s = ''buffer'' then field s parse_limit (\<lambda>v. st\<lparr>re_buffer := Some v\<rparr>)
      else if s = ''unique'' then field s parse_bool (\<lambda>v. st\<lparr>re_unique := v\<rparr>)
      else (\<lambda>_. unrecognized s m))"

definition parse_response_provider :: "response_provider parser" where
  "parse_response_provider y =
     res_map (\<lambda>(l, m, y').
         (\<lparr>resp_auto_return = re_auto_return l, resp_buffer = or_default buffer_limit_dynamic (re_buffer l),
           resp_unique = re_unique l\<rparr>, m, y'))
       (parse_fields response_key \<lparr>re_auto_return = None, re_buffer = None, re_unique = False\<rparr> y)"

datatype provider_pre =
    FilePre file_provider_pre
  | RangePre range_provider_pre
  | ResponsePre response_provider
  | ListPre list_provider

definition is_response_provider :: "provider_pre \<Rightarrow> bool" where
  "is_response_provider p = (case p of ResponsePre _ \<Rightarrow> True | _ \<Rightarrow> False)"

text \<open>The loop ends at the first key; what follows its value must be the end of the mapping.\<close>

fun provider_loop :: "config_ext \<Rightarrow> nat \<Rightarrow> bool \<Rightarrow> provider_pre parser" where
  "provider_loop X 0 saw_opening y = Inl OutOfFuel"
| "provider_loop X (Suc n) saw_opening y =
     res_bind (yaml_next y) (\<lambda>((event, m), y').
       case event of
         MappingStart \<Rightarrow> if saw_opening then yaml_error m else provider_loop X n True y'
       | SequenceStart \<Rightarrow> yaml_error m
       | MappingEnd \<Rightarrow> yaml_error m
       | SequenceEnd \<Rightarrow> Inl Panics
       | Scalar s _ _ \<Rightarrow>
           if s = ''file'' then res_map (\<lambda>(c, m, y'). (FilePre c, m, y')) (map_yaml_deserialize_err s (parse_file_provider y'))
           else if s = ''range'' then res_map (\<lambda>(c, m, y'). (RangePre c, m, y')) (map_yaml_deserialize_err s (parse_range_provider y'))
           else if s = ''response'' then res_map (\<lambda>(c, m, y'). (ResponsePre c, m, y')) (map_yaml_deserialize_err s (parse_response_provider y'))
           else if s = ''list'' then res_map (\<lambda>(c, m, y'). (ListPre c, m, y')) (map_yaml_deserialize_err s (parse_list_provider X y'))
           else unrecognized s m)"

definition parse_provider :: "config_ext \<Rightarrow> provider_pre parser" where
  "parse_provider X y =
     res_bind (provider_loop X (Suc (length (fst y))) False y) (\<lambda>(p, m, y').
     res_map (\<lambda>y2. (p, m, y2)) (expect_event MappingEnd y'))"

subsection \<open>Loggers, provides and logs\<close>

record logger_pre =
  lgp_select :: "json with_marker option"
  lgp_for_each :: "string with_marker list"
  lgp_where_clause :: "string with_marker option"
  lgp_to :: pre_template
  lgp_pretty :: bool
  lgp_limit :: "nat option"
  lgp_kill :: bool

record logger_locals =
  lg_select :: "json with_marker option"
  lg_for_each :: "string with_marker list option"
  lg_where_clause :: "string with_marker option"
  lg_to :: "pre_template option"
  lg_pretty :: "bool"
  lg_limit :: "nat option"
  lg_kill :: "bool"

definition logger_key :: "config_ext \<Rightarrow> logger_locals \<Rightarrow> string \<Rightarrow> marker \<Rightarrow> yaml \<Rightarrow> (logger_locals \<times> yaml) yaml_result" where
  "logger_key X st s m =
     (if s = ''select'' then field s (parse_with_marker (json_parse (cx_json_from_str X))) (\<lambda>v. st\<lparr>lg_select := Some v\<rparr>)
      else if s = ''for_each'' then field s (parse_vec (parse_with_marker parse_string)) (\<lambda>v. st\<lparr>lg_for_each := Some v\<rparr>)
      else if s = ''where'' then field s (parse_with_marker parse_string) (\<lambda>v. st\<lparr>lg_where_clause := Some v\<rparr>)
      else if s = ''to'' then field s parse_pre_template (\<lambda>v. st\<lparr>lg_to := Some v\<rparr>)
      else if s = ''pretty'' then field s parse_bool (\<lambda>v. st\<lparr>lg_pretty := v\<rparr>)
      else if s = ''limit'' then field s parse_yaml_usize (\<lambda>v. st\<lparr>lg_limit := Some v\<rparr>)
      else if s = ''kill'' then field s parse_bool (\<lambda>v. st\<lparr>lg_kill := v\<rparr>)
      else (\<lambda>_. unrecognized s m))"

definition logger_from_str :: "config_ext \<Rightarrow> string \<Rightarrow> string \<Rightarrow> logger_pre yaml_result" where
  "logger_from_str X select to =
     res_bind (from_yaml_str X (parse_with_marker (json_parse (cx_json_from_str X))) select) (\<lambda>select.
     res_bind (from_yaml_str X parse_pre_template to) (\<lambda>to.
     Inr \<lparr>lgp_select = Some select, lgp_for_each = [], lgp_where_clause = None, lgp_to = to, lgp_pretty = False,
       lgp_limit = None, lgp_kill = False\<rparr>))"

definition parse_logger :: "config_ext \<Rightarrow> logger_pre parser" where
  "parse_logger X y =
     res_bind (parse_fields (logger_key X) \<lparr>lg_select = None, lg_for_each = None, lg_where_clause = None, lg_to = None,
         lg_pretty = False, lg_limit = None, lg_kill = False\<rparr> y) (\<lambda>(l, m, y').
     res_bind (required ''to'' m (lg_to l)) (\<lambda>to.
     Inr (\<lparr>lgp_select = lg_select l, lgp_for_each = or_default [] (lg_for_each l), lgp_where_clause = lg_where_clause l,
           lgp_to = to, lgp_pretty = lg_pretty l, lgp_limit = lg_limit l, lgp_kill = lg_kill l\<rparr>, m, y')))"

record logs_pre =
  lo_select :: "json with_marker"
  lo_for_each :: "string with_marker list"
  lo_where_clause :: "string with_marker option"

record logs_locals =
  lc_select :: "json with_marker option"
  lc_for_each :: "string with_marker list option"
  lc_where_clause :: "string with_marker option"

definition logs_key :: "config_ext \<Rightarrow> logs_locals \<Rightarrow> string \<Rightarrow> marker \<Rightarrow> yaml \<Rightarrow> (logs_locals \<times> yaml) yaml_result" where
  "logs_key X st s m =
     (if s = ''select'' then field s (parse_with_marker (json_parse (cx_json_from_str X))) (\<lambda>v. st\<lparr>lc_select := Some v\<rparr>)
      else if s = ''for_each'' then field s (parse_vec (parse_with_marker parse_string)) (\<lambda>v. st\<lparr>lc_for_each := Some v\<rparr>)
      else if s = ''where'' then field s (parse_with_marker parse_string) (\<lambda>v. st\<lparr>lc_where_clause := Some v\<rparr>)
      else (\<lambda>_. unrecognized s m))"

definition parse_logs :: "config_ext \<Rightarrow> logs_pre parser" where
  "parse_logs X y =
     res_bind (parse_fields (logs_key X) \<lparr>lc_select = None, lc_for_each = None, lc_where_clause = None\<rparr> y) (\<lambda>(l, m, y').
     res_bind (required ''select'' m (lc_select l)) (\<lambda>select.
     Inr (\<lparr>lo_select = select, lo_for_each = or_default [] (lc_for_each l), lo_where_clause = lc_where_clause l\<rparr>, m, y')))"

record provides_locals =
  pl_send :: "send_options option"
  pl_select :: "json with_marker option"
  pl_for_each :: "string with_marker list option"
  pl_where_clause :: "string with_marker option"

definition provides_key :: "config_ext \<Rightarrow> provides_locals \<Rightarrow> string \<Rightarrow> marker \<Rightarrow> yaml \<Rightarrow> (provides_locals \<times> yaml) yaml_result" where
  "provides_key X st s m =
     (if s = ''send'' then field s parse_send_options (\<lambda>v. st\<lparr>pl_send := Some v\<rparr>)
      else if s = ''select'' then field s (parse_with_marker (json_parse (cx_json_from_str X))) (\<lambda>v. st\<lparr>pl_select := Some v\<rparr>)
      else if s = ''for_each'' then field s (parse_vec (parse_with_marker parse_string)) (\<lambda>v. st\<lparr>pl_for_each := Some v\<rparr>)
      else if s = ''where'' then field s (parse_with_marker parse_string) (\<lambda>v. st\<lparr>pl_where_clause := Some v\<rparr>)
      else (\<lambda>_. unrecognized s m))"

definition parse_provides :: "config_ext \<Rightarrow> provides parser" where
  "parse_provides X y =
     res_bind (parse_fields (provides_key X) \<lparr>pl_send = None, pl_select = None, pl_for_each = None, pl_where_clause = None\<rparr> y)
       (\<lambda>(l, m, y').
     res_bind (required ''select'' m (pl_select l)) (\<lambda>select.
     Inr (\<lparr>pv_for_each = or_default [] (pl_for_each l), pv_select = select, pv_send = pl_send l,
           pv_where_clause = pl_where_clause l\<rparr>, m, y')))"

subsection \<open>Bodies\<close>

text \<open>An untagged file, after \<open>MappingStart\<close>: one key and its value.\<close>

definition parse_one_key :: "(string \<Rightarrow> yaml \<Rightarrow> ('a \<times> marker \<times> yaml) yaml_result option) \<Rightarrow> 'a parser" where
  "parse_one_key value_of y =
     res_bind (yaml_next y) (\<lambda>((event, m), y1).
       case event_as_str event of
         Some s \<Rightarrow>
           (case value_of s y1 of
              Some r \<Rightarrow> res_bind r (\<lambda>(v, vm, y2). res_map (\<lambda>y3. (v, vm, y3)) (expect_event MappingEnd y2))
            | None \<Rightarrow> unrecognized s m)
       | None \<Rightarrow> yaml_error m)"

definition has_file_tag :: "yaml_event \<Rightarrow> bool" where
  "has_file_tag event = (case event of Scalar _ _ (Some (_, tag)) \<Rightarrow> tag = ''file'' | _ \<Rightarrow> False)"

datatype piece_body = PieceString pre_template | PieceFile pre_template

definition parse_piece_body :: "piece_body parser" where
  "parse_piece_body y =
     res_bind (yaml_peek y) (\<lambda>(event, m).
     let file = (\<lambda>y. res_map (\<lambda>(t, m, y'). (PieceFile t, m, y')) (parse_pre_template y))
     in if has_file_tag event then file y
        else if is_scalar event then res_map (\<lambda>(t, m, y'). (PieceString t, m, y')) (parse_pre_template y)
        else if event = MappingStart
        then res_bind (yaml_next y) (\<lambda>(_, y1). parse_one_key (\<lambda>s y. if s = ''file'' then Some (file y) else None) y1)
        else yaml_error m)"

record body_piece =
  bp_headers :: "(string \<times> pre_template) list"
  bp_body :: piece_body

record piece_locals =
  pi_headers :: "(string \<times> pre_template) list option"
  pi_body :: "piece_body option"

definition piece_key :: "piece_locals \<Rightarrow> string \<Rightarrow> marker \<Rightarrow> yaml \<Rightarrow> (piece_locals \<times> yaml) yaml_result" where
  "piece_key st s m =
     (if s = ''headers'' then field s (parse_tuple_vec parse_pre_template) (\<lambda>v. st\<lparr>pi_headers := Some v\<rparr>)
      else if s = ''body'' then field s parse_piece_body (\<lambda>v. st\<lparr>pi_body := Some v\<rparr>)
      else (\<lambda>_. unrecognized s m))"

definition parse_body_piece :: "body_piece parser" where
  "parse_body_piece y =
     res_bind (parse_fields piece_key \<lparr>pi_headers = None, pi_body = None\<rparr> y) (\<lambda>(l, m, y').
     res_bind (required ''body'' m (pi_body l)) (\<lambda>body.
     Inr (\<lparr>bp_headers = or_default [] (pi_headers l), bp_body = body\<rparr>, m, y')))"

datatype body_pre =
    BodyString pre_template
  | BodyFile pre_template
  | BodyMultipart "(string \<times> body_piece) list"

definition parse_body :: "body_pre parser" where
  "parse_body y =
     res_bind (yaml_peek y) (\<lambda>(event, m).
     let file = (\<lambda>y. res_map (\<lambda>(t, m, y'). (BodyFile t, m, y')) (parse_pre_template y));
         multipart = (\<lambda>y. res_map (\<lambda>(t, m, y'). (BodyMultipart t, m, y')) (parse_tuple_vec parse_body_piece y))
     in if has_file_tag event then file y
        else if is_scalar event then res_map (\<lambda>(t, m, y'). (BodyString t, m, y')) (parse_pre_template y)
        else if event = SequenceStart then multipart y
        else if event = MappingStart
        then res_bind (yaml_next y) (\<lambda>(_, y1). parse_one_key (\<lambda>s y.
               if s = ''file'' then Some (file y) else if s = ''multipart'' then Some (multipart y) else None) y1)
        else yaml_error m)"

subsection \<open>Endpoints\<close>

record endpoint_pre =
  ep_declare :: "(string \<times> string with_marker) list"
  ep_headers :: "(string \<times> pre_template option) list"
  ep_body :: "body_pre option"
  ep_load_pattern :: "pre_load_pattern option"
  ep_method :: http_method
  ep_on_demand :: bool
  ep_peak_load :: "pre_template option"
  ep_tags :: "(string \<times> pre_template) list"
  ep_url :: pre_template
  ep_provides :: "(string \<times> provides) list"
  ep_logs :: "(string \<times> logs_pre) list"
  ep_max_parallel_requests :: "nat option"
  ep_no_auto_returns :: bool
  ep_request_timeout :: "pre_template option"
  ep_marker :: marker

record endpoint_locals =
  el_declare :: "(string \<times> string with_marker) list option"
  el_headers :: "(string \<times> pre_template option) list option"
  el_body :: "body_pre option"
  el_load_pattern :: "pre_load_pattern option"
  el_method :: "http_method option"
  el_on_demand :: "bool option"
  el_peak_load :: "pre_template option"
  el_tags :: "(string \<times> pre_template) list option"
  el_url :: "pre_template option"
  el_provides :: "(string \<times> provides) list option"
  el_logs :: "(string \<times> logs_pre) list option"
  el_max_parallel_requests :: "nat option"
  el_no_auto_returns :: "bool option"
  el_request_timeout :: "pre_template option"

definition endpoint_key :: "config_ext \<Rightarrow> endpoint_locals \<Rightarrow> string \<Rightarrow> marker \<Rightarrow> yaml \<Rightarrow> (endpoint_locals \<times> yaml) yaml_result" where
  "endpoint_key X st s m =
     (if s = ''declare'' then field s (parse_map (parse_with_marker parse_string)) (\<lambda>v. st\<lparr>el_declare := Some v\<rparr>)
      else if s = ''headers'' then field s (parse_tuple_vec (parse_nullable parse_pre_template)) (\<lambda>v. st\<lparr>el_headers := Some v\<rparr>)
      else if s = ''body'' then field s parse_body (\<lambda>v. st\<lparr>el_body := Some v\<rparr>)
      else if s = ''load_pattern'' then field s parse_pre_load_pattern (\<lambda>v. st\<lparr>el_load_pattern := Some v\<rparr>)
      else if s = ''method'' then field s parse_method (\<lambda>v. st\<lparr>el_method := Some v\<rparr>)
      else if s = ''on_demand'' then field s parse_bool (\<lambda>v. st\<lparr>el_on_demand := Some v\<rparr>)
      else if s = ''peak_load'' then field s parse_pre_template (\<lambda>v. st\<lparr>el_peak_load := Some v\<rparr>)
      else if s = ''tags'' then field s (parse_map parse_pre_template) (\<lambda>v. st\<lparr>el_tags := Some v\<rparr>)
      else if s = ''url'' then field s parse_pre_template (\<lambda>v. st\<lparr>el_url := Some v\<rparr>)
      else if s = ''provides'' then field s (parse_tuple_vec (parse_provides X)) (\<lambda>v. st\<lparr>el_provides := Some v\<rparr>)
      else if s = ''logs'' then field s (parse_tuple_vec (parse_logs X)) (\<lambda>v. st\<lparr>el_logs := Some v\<rparr>)
      else if s = ''max_parallel_requests'' then field s parse_non_zero_usize (\<lambda>v. st\<lparr>el_max_parallel_requests := Some v\<rparr>)
      else if s = ''no_auto_returns'' then field s parse_bool (\<lambda>v. st\<lparr>el_no_auto_returns := Some v\<rparr>)
      else if s = ''request_timeout'' then field s parse_pre_template (\<lambda>v. st\<lparr>el_request_timeout := Some v\<rparr>)
      else (\<lambda>_. unrecognized s m))"

definition endpoint_locals_new :: endpoint_locals where
  "endpoint_locals_new = \<lparr>el_declare = None, el_headers = None, el_body = None, el_load_pattern = None, el_method = None,
     el_on_demand = None, el_peak_load = None, el_tags = None, el_url = None, el_provides = None, el_logs = None,
     el_max_parallel_requests = None, el_no_auto_returns = None, el_request_timeout = None\<rparr>"

definition parse_endpoint :: "config_ext \<Rightarrow> endpoint_pre parser" where
  "parse_endpoint X y =
     res_bind (parse_fields (endpoint_key X) endpoint_locals_new y) (\<lambda>(l, m, y').
     res_bind (required ''url'' m (el_url l)) (\<lambda>url.
     Inr (\<lparr>ep_declare = or_default [] (el_declare l), ep_headers = or_default [] (el_headers l), ep_body = el_body l,
           ep_load_pattern = el_load_pattern l, ep_method = or_default GET (el_method l),
           ep_on_demand = or_default False (el_on_demand l), ep_peak_load = el_peak_load l,
           ep_tags = or_default [] (el_tags l), ep_url = url, ep_provides = or_default [] (el_provides l),
           ep_logs = or_default [] (el_logs l), ep_max_parallel_requests = el_max_parallel_requests l,
           ep_no_auto_returns = or_default False (el_no_auto_returns l), ep_request_timeout = el_request_timeout l,
           ep_marker = m\<rparr>, m, y')))"

subsection \<open>Durations\<close>

definition duration_base_re :: string where
  "duration_base_re = ''(?i)('' @ [CHR 0x5C] @ ''d+)'' @ [CHR 0x5C] @
     ''s*(d|h|m|s|days?|hrs?|mins?|secs?|hours?|minutes?|seconds?)''"

definition duration_sanity_re :: string where
  "duration_sanity_re = ''^(?:'' @ duration_base_re @ [CHR 0x5C] @ ''s*)+$''"

text \<open>The seconds of one number and unit; the arithmetic wraps, and a number that is not a \<open>u64\<close> panics.\<close>

definition capture_secs :: "string option list \<Rightarrow> u64 yaml_result" where
  "capture_secs captures =
     (case captures of
        _ # Some digits # Some unit # _ \<Rightarrow>
          (case parse_unsigned (2 ^ 64) digits of
             Some n \<Rightarrow>
               (let n = of_nat n; u = take 1 unit
                in Inr (if u = ''d'' \<or> u = ''D'' then n * 60 * 60 * 24
                        else if u = ''h'' \<or> u = ''H'' then n * 60 * 60
                        else if u = ''m'' \<or> u = ''M'' then n * 60 else n))
           | None \<Rightarrow> Inl Panics)
      | _ \<Rightarrow> Inl Panics)"

definition duration_from_string2 :: "config_ext \<Rightarrow> string \<Rightarrow> marker \<Rightarrow> duration yaml_result" where
  "duration_from_string2 X dur m =
     (case (x_regex_new (cx_ext X) duration_sanity_re, x_regex_new (cx_ext X) duration_base_re) of
        (Some sanity_re, Some re) \<Rightarrow>
          if x_captures (cx_ext X) sanity_re dur = None then Inl (Error (InvalidDuration dur m))
          else res_map (\<lambda>secs. unat (sum_list secs) * nanos_per_sec)
                 (collect_res (map capture_secs (cx_captures_iter X re dur)))
      | _ \<Rightarrow> Inl Panics)"

definition duration_from_string :: "config_ext \<Rightarrow> string \<Rightarrow> duration yaml_result" where
  "duration_from_string X dur = duration_from_string2 X dur (cx_start_mark X)"

subsection \<open>\<open>config\<close>\<close>

definition default_keepalive :: "marker \<Rightarrow> pre_template" where
  "default_keepalive m = pre_template_new (''90s'', m)"

definition default_request_timeout :: "marker \<Rightarrow> pre_template" where
  "default_request_timeout m = pre_template_new (''60s'', m)"

definition default_bucket_size :: "marker \<Rightarrow> pre_template" where
  "default_bucket_size m = pre_template_new (''60s'', m)"

record client_pre =
  cl_headers :: "(string \<times> pre_template) list"
  cl_keepalive :: pre_template
  cl_request_timeout :: pre_template

definition client_default :: "marker \<Rightarrow> client_pre" where
  "client_default m = \<lparr>cl_headers = [], cl_keepalive = default_keepalive m, cl_request_timeout = default_request_timeout m\<rparr>"

record client_locals =
  cc_request_timeout :: "pre_template option"
  cc_keepalive :: "pre_template option"
  cc_headers :: "(string \<times> pre_template) list option"

definition client_key :: "client_locals \<Rightarrow> string \<Rightarrow> marker \<Rightarrow> yaml \<Rightarrow> (client_locals \<times> yaml) yaml_result" where
  "client_key st s m =
     (if s = ''request_timeout'' then field s parse_pre_template (\<lambda>v. st\<lparr>cc_request_timeout := Some v\<rparr>)
      else if s = ''keepalive'' then field s parse_pre_template (\<lambda>v. st\<lparr>cc_keepalive := Some v\<rparr>)
      else if s = ''headers'' then field s (parse_tuple_vec parse_pre_template) (\<lambda>v. st\<lparr>cc_headers := Some v\<rparr>)
      else (\<lambda>_. unrecognized s m))"

definition parse_client :: "client_pre parser" where
  "parse_client y =
     res_map (\<lambda>(l, m, y').
         (\<lparr>cl_headers = or_default [] (cc_headers l), cl_keepalive = or_default (default_keepalive m) (cc_keepalive l),
           cl_request_timeout = or_default (default_request_timeout m) (cc_request_timeout l)\<rparr>, m, y'))
       (parse_fields client_key \<lparr>cc_request_timeout = None, cc_keepalive = None, cc_headers = None\<rparr> y)"

record general_pre =
  ge_auto_buffer_start_size :: nat
  ge_bucket_size :: pre_template
  ge_log_provider_stats :: bool
  ge_watch_transition_time :: "pre_template option"
  ge_log_level :: "nat option"

definition default_log_provider_stats :: bool where
  "default_log_provider_stats = True"

definition default_auto_buffer_start_size :: nat where
  "default_auto_buffer_start_size = 5"

definition general_default :: "marker \<Rightarrow> general_pre" where
  "general_default m = \<lparr>ge_auto_buffer_start_size = default_auto_buffer_start_size, ge_bucket_size = default_bucket_size m,
     ge_log_provider_stats = default_log_provider_stats, ge_watch_transition_time = None, ge_log_level = None\<rparr>"

text \<open>A duration in place of the boolean means \<open>true\<close>.\<close>

definition parse_log_provider_stats :: "config_ext \<Rightarrow> string \<Rightarrow> marker \<Rightarrow> string \<Rightarrow> bool yaml_result" where
  "parse_log_provider_stats X s m d =
     (if d = ''true'' then Inr True
      else if d = ''false'' then Inr False
      else (case duration_from_string X d of
              Inl (Error _) \<Rightarrow> Inl (Error (YamlDeserialize (Some s) m))
            | Inl e \<Rightarrow> Inl e
            | Inr _ \<Rightarrow> Inr True))"

text \<open>A string that is read further; an error of that is at the key.\<close>

definition string_field :: "string \<Rightarrow> (string \<Rightarrow> 'a yaml_result) \<Rightarrow> ('a \<Rightarrow> 's) \<Rightarrow> yaml \<Rightarrow> ('s \<times> yaml) yaml_result" where
  "string_field s read upd y =
     res_bind (map_yaml_deserialize_err s (parse_string y)) (\<lambda>(d, _, y'). res_map (\<lambda>v. (upd v, y')) (read d))"

record general_locals =
  gl_auto_buffer_start_size :: "nat"
  gl_bucket_size :: "pre_template option"
  gl_log_provider_stats :: "bool"
  gl_watch_transition_time :: "pre_template option"
  gl_log_level :: "nat option"

definition general_key :: "config_ext \<Rightarrow> general_locals \<Rightarrow> string \<Rightarrow> marker \<Rightarrow> yaml \<Rightarrow> (general_locals \<times> yaml) yaml_result" where
  "general_key X st s m =
     (if s = ''auto_buffer_start_size'' then field s parse_yaml_usize (\<lambda>v. st\<lparr>gl_auto_buffer_start_size := v\<rparr>)
      else if s = ''bucket_size'' then field s parse_pre_template (\<lambda>v. st\<lparr>gl_bucket_size := Some v\<rparr>)
      else if s = ''log_provider_stats'' then string_field s (parse_log_provider_stats X s m) (\<lambda>v. st\<lparr>gl_log_provider_stats := v\<rparr>)
      else if s = ''watch_transition_time'' then field s parse_pre_template (\<lambda>v. st\<lparr>gl_watch_transition_time := Some v\<rparr>)
      else if s = ''log_level'' then string_field s (\<lambda>d. case cx_level_filter X d of
          Some level \<Rightarrow> Inr level | None \<Rightarrow> Inl (Error (YamlDeserialize (Some s) m))) (\<lambda>v. st\<lparr>gl_log_level := Some v\<rparr>)
      else (\<lambda>_. unrecognized s m))"

definition parse_general :: "config_ext \<Rightarrow> general_pre parser" where
  "parse_general X y =
     res_map (\<lambda>(l, m, y').
         (\<lparr>ge_auto_buffer_start_size = gl_auto_buffer_start_size l,
           ge_bucket_size = or_default (default_bucket_size m) (gl_bucket_size l),
           ge_log_provider_stats = gl_log_provider_stats l, ge_watch_transition_time = gl_watch_transition_time l,
           ge_log_level = gl_log_level l\<rparr>, m, y'))
       (parse_fields (general_key X) \<lparr>gl_auto_buffer_start_size = default_auto_buffer_start_size, gl_bucket_size = None,
          gl_log_provider_stats = default_log_provider_stats, gl_watch_transition_time = None, gl_log_level = None\<rparr> y)"

record config_pre =
  co_client :: client_pre
  co_general :: general_pre

definition config_default :: "marker \<Rightarrow> config_pre" where
  "config_default m = \<lparr>co_client = client_default m, co_general = general_default m\<rparr>"

record config_locals =
  cf_client :: "client_pre option"
  cf_general :: "general_pre option"

definition config_key :: "config_ext \<Rightarrow> config_locals \<Rightarrow> string \<Rightarrow> marker \<Rightarrow> yaml \<Rightarrow> (config_locals \<times> yaml) yaml_result" where
  "config_key X st s m =
     (if s = ''client'' then field s parse_client (\<lambda>v. st\<lparr>cf_client := Some v\<rparr>)
      else if s = ''general'' then field s (parse_general X) (\<lambda>v. st\<lparr>cf_general := Some v\<rparr>)
      else (\<lambda>_. unrecognized s m))"

definition parse_config :: "config_ext \<Rightarrow> config_pre parser" where
  "parse_config X y =
     res_map (\<lambda>(l, m, y').
         (\<lparr>co_client = or_default (client_default m) (cf_client l), co_general = or_default (general_default m) (cf_general l)\<rparr>,
          m, y'))
       (parse_fields (config_key X) \<lparr>cf_client = None, cf_general = None\<rparr> y)"

subsection \<open>The whole file\<close>

record load_test_pre =
  lt_config :: config_pre
  lt_endpoints :: "endpoint_pre list"
  lt_load_pattern :: "pre_load_pattern option"
  lt_providers :: "(string \<times> provider_pre) list"
  lt_loggers :: "(string \<times> logger_pre) list"
  lt_vars :: "(string \<times> json with_marker) list"

record load_test_locals =
  lt2_config :: "config_pre option"
  lt2_endpoints :: "endpoint_pre list option"
  lt2_load_pattern :: "pre_load_pattern option"
  lt2_providers :: "(string \<times> provider_pre) list option"
  lt2_loggers :: "(string \<times> logger_pre) list option"
  lt2_vars :: "(string \<times> json with_marker) list option"

definition load_test_key :: "config_ext \<Rightarrow> load_test_locals \<Rightarrow> string \<Rightarrow> marker \<Rightarrow> yaml \<Rightarrow> (load_test_locals \<times> yaml) yaml_result" where
  "load_test_key X st s m =
     (if s = ''config'' then field s (parse_config X) (\<lambda>v. st\<lparr>lt2_config := Some v\<rparr>)
      else if s = ''endpoints'' then field s (parse_vec (parse_endpoint X)) (\<lambda>v. st\<lparr>lt2_endpoints := Some v\<rparr>)
      else if s = ''load_pattern'' then field s parse_pre_load_pattern (\<lambda>v. st\<lparr>lt2_load_pattern := Some v\<rparr>)
      else if s = ''providers'' then field s (parse_map (parse_provider X)) (\<lambda>v. st\<lparr>lt2_providers := Some v\<rparr>)
      else if s = ''loggers'' then field s (parse_map (parse_logger X)) (\<lambda>v. st\<lparr>lt2_loggers := Some v\<rparr>)
      else if s = ''vars'' then field s (parse_map (parse_with_marker (json_parse (cx_json_from_str X)))) (\<lambda>v. st\<lparr>lt2_vars := Some v\<rparr>)
      else (\<lambda>_. unrecognized s m))"

definition parse_load_test :: "config_ext \<Rightarrow> load_test_pre parser" where
  "parse_load_test X y =
     res_bind (parse_fields (load_test_key X) \<lparr>lt2_config = None, lt2_endpoints = None, lt2_load_pattern = None,
         lt2_providers = None, lt2_loggers = None, lt2_vars = None\<rparr> y) (\<lambda>(l, m, y').
     res_bind (required ''endpoints'' m (lt2_endpoints l)) (\<lambda>endpoints.
     Inr (\<lparr>lt_config = or_default (config_default m) (lt2_config l), lt_endpoints = endpoints,
           lt_load_pattern = lt2_load_pattern l, lt_providers = or_default [] (lt2_providers l),
           lt_loggers = or_default [] (lt2_loggers l), lt_vars = or_default [] (lt2_vars l)\<rparr>, m, y')))"

end
