(* ===== verification/Config.thy ===== *)
theory Config
  imports ConfigParse
begin

text \<open>
  A configuration from its file (\<open>lib/config/src/lib.rs\<close>): variables, templates, durations, percentages and rates
  are evaluated, endpoints and loggers are put together, and what they refer to is checked. \<open>F\<close> is the fuel for
  templates nested in strings; \<open>None\<close> of the expression parts' results is a panic, as \<open>Panics\<close> is here.
\<close>

subsection \<open>Templates and variables\<close>

definition exec_err :: "exec_error + 'a \<Rightarrow> 'a yaml_result" where
  "exec_err r = (case r of Inl e \<Rightarrow> Inl (Error (ExpressionErr (Executing e))) | Inr a \<Rightarrow> Inr a)"

type_synonym vars = "(string \<times> json) list"

definition ctx_of :: "config_ext \<Rightarrow> vars \<Rightarrow> bool \<Rightarrow> marker \<Rightarrow> parse_ctx" where
  "ctx_of X vars nre m = \<lparr>pc_ext = cx_ext X, pc_entry_point = cx_entry_point X, pc_template = cx_template X,
     pc_static_vars = map_of vars, pc_nre = nre, pc_marker = m\<rparr>"

definition as_template :: "config_ext \<Rightarrow> nat \<Rightarrow> vars \<Rightarrow> pre_template \<Rightarrow> required_providers \<Rightarrow>
    (template \<times> required_providers) yaml_result" where
  "as_template X F vars p rp =
     expression_err (template_new (ctx_of X vars (pre_no_fail p) (pre_marker p)) F (pre_text p) rp)"

definition pre_template_evaluate :: "config_ext \<Rightarrow> nat \<Rightarrow> vars \<Rightarrow> pre_template \<Rightarrow> required_providers \<Rightarrow>
    (string \<times> required_providers) yaml_result" where
  "pre_template_evaluate X F vars p rp =
     res_bind (as_template X F vars p rp) (\<lambda>(t, rp').
     res_map (\<lambda>s. (s, rp')) (exec_err (evaluate_template (cx_ext X) t (Owned JNull) None)))"

definition pre_evaluate :: "config_ext \<Rightarrow> nat \<Rightarrow> vars \<Rightarrow> pre_template \<Rightarrow> string yaml_result" where
  "pre_evaluate X F vars p = res_map fst (pre_template_evaluate X F vars p rp_new)"

definition pre_voe_evaluate :: "config_ext \<Rightarrow> nat \<Rightarrow> vars \<Rightarrow> string with_marker \<Rightarrow> required_providers \<Rightarrow>
    (value_or_expression \<times> required_providers) yaml_result" where
  "pre_voe_evaluate X F vars w rp = expression_err (voe_new (ctx_of X vars False (snd w)) F (fst w) rp)"

text \<open>\<open>PreVar::evaluate\<close>: the strings in a variable are templates over the environment.\<close>

definition env_string :: "config_ext \<Rightarrow> nat \<Rightarrow> vars \<Rightarrow> marker \<Rightarrow> string \<Rightarrow> json yaml_result" where
  "env_string X F env m s =
     res_bind (expression_err (template_new (ctx_of X env False m) F s rp_new)) (\<lambda>(t, _).
       case evaluate_template (cx_ext X) t (Owned JNull) None of
         Inr s \<Rightarrow> Inr (case cx_json_from_str X s of Some v \<Rightarrow> v | None \<Rightarrow> JString s)
       | Inl (IndexingIntoJson s _ m') \<Rightarrow> Inl (Error (MissingEnvironmentVariable s m'))
       | Inl e \<Rightarrow> exec_err (Inl e))"

function json_transform :: "config_ext \<Rightarrow> nat \<Rightarrow> vars \<Rightarrow> marker \<Rightarrow> json \<Rightarrow> json yaml_result"
  and json_transforms :: "config_ext \<Rightarrow> nat \<Rightarrow> vars \<Rightarrow> marker \<Rightarrow> json list \<Rightarrow> json list yaml_result"
  and json_transform_entries :: "config_ext \<Rightarrow> nat \<Rightarrow> vars \<Rightarrow> marker \<Rightarrow> (string \<times> json) list \<Rightarrow>
        (string \<times> json) list yaml_result"
where
  "json_transform X F env m (JString s) = env_string X F env m s"
| "json_transform X F env m (JArray a) = res_map JArray (json_transforms X F env m a)"
| "json_transform X F env m (JObject ob) = res_map JObject (json_transform_entries X F env m ob)"
| "json_transform X F env m JNull = Inr JNull"
| "json_transform X F env m (JBool b) = Inr (JBool b)"
| "json_transform X F env m (JNumber n) = Inr (JNumber n)"
| "json_transforms X F env m [] = Inr []"
| "json_transforms X F env m (v # vs) =
     res_bind (json_transform X F env m v) (\<lambda>v'. res_map (\<lambda>vs'. v' # vs') (json_transforms X F env m vs))"
| "json_transform_entries X F env m [] = Inr []"
| "json_transform_entries X F env m ((k, v) # kvs) =
     res_bind (json_transform X F env m v) (\<lambda>v'. res_map (\<lambda>kvs'. (k, v') # kvs') (json_transform_entries X F env m kvs))"
  by pat_completeness auto

termination
  by (relation "measure (\<lambda>x. case x of
      Inl (_, _, _, _, v) \<Rightarrow> size v
    | Inr (Inl (_, _, _, _, vs)) \<Rightarrow> size_list size vs
    | Inr (Inr (_, _, _, _, kvs)) \<Rightarrow> size_list (size_prod (\<lambda>_. 0) size) kvs)") auto

definition pre_var_evaluate :: "config_ext \<Rightarrow> nat \<Rightarrow> vars \<Rightarrow> json with_marker \<Rightarrow> json yaml_result" where
  "pre_var_evaluate X F env w = json_transform X F env (snd w) (fst w)"

subsection \<open>Durations, percentages and rates\<close>

definition pre_duration_evaluate :: "config_ext \<Rightarrow> nat \<Rightarrow> vars \<Rightarrow> pre_template \<Rightarrow> duration yaml_result" where
  "pre_duration_evaluate X F vars p =
     res_bind (pre_evaluate X F vars p) (\<lambda>dur. duration_from_string2 X dur (pre_marker p))"

text \<open>\<open>f64::from_str\<close> and \<open>f32::from_str\<close> on digits with an optional fraction; an \<open>f32\<close> is kept as an \<open>f64\<close>.\<close>

definition decimal_parts :: "string \<Rightarrow> (nat \<times> nat) option" where
  "decimal_parts s =
     (let whole = takeWhile (\<lambda>c. c \<noteq> CHR ''.'') s; rest = dropWhile (\<lambda>c. c \<noteq> CHR ''.'') s
      in if whole = [] \<or> rest = ''.'' then None
         else map_option (\<lambda>n. (n, 10 ^ length (tl rest))) (digits_value (whole @ tl rest)))"

definition f64_from_str :: "string \<Rightarrow> f64 option" where
  "f64_from_str s = map_option (\<lambda>(n, d). f64_round False n d 0) (decimal_parts s)"

definition f32_round :: "nat \<Rightarrow> nat \<Rightarrow> f64" where
  "f32_round p q =
     (let e1 = max (int (bit_length p) - int (bit_length q) - 24) (- 149);
          (a1, b1) = scaled p q (- e1);
          e = (if 2 ^ 24 \<le> a1 div b1 then e1 + 1 else e1);
          (a, b) = scaled p q (- e);
          m = div_half_even a b
      in if 104 < e \<or> e = 104 \<and> m = 2 ^ 24 then Infinite False
         else f64_round False m 1 e)"

definition f32_from_str :: "string \<Rightarrow> f64 option" where
  "f32_from_str s = map_option (\<lambda>(n, d). f32_round n d) (decimal_parts s)"

definition percent_re :: string where
  "percent_re = ''^('' @ [CHR 0x5C] @ ''d+(?:'' @ [CHR 0x5C] @ ''.'' @ [CHR 0x5C] @ ''d+)?)%$''"

definition hits_per_re :: string where
  "hits_per_re = ''^(?i)('' @ [CHR 0x5C] @ ''d+(?:'' @ [CHR 0x5C] @ ''.'' @ [CHR 0x5C] @ ''d+)?)'' @ [CHR 0x5C] @ ''s*hp([ms])$''"

definition pre_percent_evaluate :: "config_ext \<Rightarrow> nat \<Rightarrow> vars \<Rightarrow> pre_template \<Rightarrow> f64 yaml_result" where
  "pre_percent_evaluate X F vars p =
     res_bind (pre_evaluate X F vars p) (\<lambda>s.
       case x_regex_new (cx_ext X) percent_re of
         None \<Rightarrow> Inl Panics
       | Some re \<Rightarrow>
           (case x_captures (cx_ext X) re s of
              None \<Rightarrow> Inl (Error (InvalidPercent s (pre_marker p)))
            | Some (_ # Some digits # _) \<Rightarrow> (case f64_from_str digits of Some x \<Rightarrow> Inr x | None \<Rightarrow> Inl Panics)
            | Some _ \<Rightarrow> Inl Panics))"

datatype hits_per = PerSecond f64 | PerMinute f64

definition pre_hits_per_evaluate :: "config_ext \<Rightarrow> nat \<Rightarrow> vars \<Rightarrow> pre_template \<Rightarrow> hits_per yaml_result" where
  "pre_hits_per_evaluate X F vars p =
     res_bind (pre_evaluate X F vars p) (\<lambda>s.
       case x_regex_new (cx_ext X) hits_per_re of
         None \<Rightarrow> Inl Panics
       | Some re \<Rightarrow>
           (case x_captures (cx_ext X) re s of
              None \<Rightarrow> Inl (Error (InvalidPeakLoad s (pre_marker p)))
            | Some (_ # Some digits # Some unit # _) \<Rightarrow>
                (case f32_from_str digits of
                   Some n \<Rightarrow> Inr (if take 1 unit = ''m'' \<or> take 1 unit = ''M'' then PerMinute n else PerSecond n)
                 | None \<Rightarrow> Inl Panics)
            | Some _ \<Rightarrow> Inl Panics))"

subsection \<open>Load patterns\<close>

record linear_builder_piece =
  pc_start_percent :: f64
  pc_end_percent :: f64
  pc_duration :: duration

record linear_builder =
  lb_pieces :: "linear_builder_piece list"
  lb_duration :: duration

definition linear_builder_append :: "f64 \<Rightarrow> f64 \<Rightarrow> duration \<Rightarrow> linear_builder \<Rightarrow> linear_builder yaml_result" where
  "linear_builder_append start stop duration lb =
     (case dur_add (lb_duration lb) duration of
        None \<Rightarrow> Inl Panics
      | Some whole \<Rightarrow>
          Inr \<lparr>lb_pieces = lb_pieces lb @ [\<lparr>pc_start_percent = start, pc_end_percent = stop, pc_duration = duration\<rparr>],
            lb_duration = whole\<rparr>)"

definition linear_builder_new :: "f64 \<Rightarrow> f64 \<Rightarrow> duration \<Rightarrow> linear_builder yaml_result" where
  "linear_builder_new start stop duration = linear_builder_append start stop duration \<lparr>lb_pieces = [], lb_duration = 0\<rparr>"

fun load_pattern_pieces :: "config_ext \<Rightarrow> nat \<Rightarrow> vars \<Rightarrow> load_pattern_pre list \<Rightarrow> f64 \<Rightarrow> linear_builder option \<Rightarrow>
    linear_builder option yaml_result" where
  "load_pattern_pieces X F vars [] last_end builder = Inr builder"
| "load_pattern_pieces X F vars (Linear p # ps) last_end builder =
     res_bind (case linear_from p of
                 Some q \<Rightarrow> res_map (\<lambda>x. f64_div x (f64_of_nat 100)) (pre_percent_evaluate X F vars q)
               | None \<Rightarrow> Inr last_end) (\<lambda>start.
     res_bind (pre_percent_evaluate X F vars (linear_to p)) (\<lambda>to.
     let stop = f64_div to (f64_of_nat 100)
     in res_bind (pre_duration_evaluate X F vars (linear_over p)) (\<lambda>over.
        res_bind (case builder of
                    Some lb \<Rightarrow> linear_builder_append start stop over lb
                  | None \<Rightarrow> linear_builder_new start stop over) (\<lambda>lb.
        load_pattern_pieces X F vars ps stop (Some lb)))))"

definition pre_load_pattern_evaluate :: "config_ext \<Rightarrow> nat \<Rightarrow> vars \<Rightarrow> pre_load_pattern \<Rightarrow> linear_builder yaml_result" where
  "pre_load_pattern_evaluate X F vars p =
     res_bind (load_pattern_pieces X F vars (fst p) (f64_zero False) None) (\<lambda>builder.
       case builder of Some lb \<Rightarrow> Inr lb | None \<Rightarrow> Inl (Error (InvalidLoadPattern (snd p))))"


subsection \<open>Endpoints\<close>

text \<open>\<open>map\<close> and \<open>collect\<close> where the closure adds to the required providers.\<close>

fun collect_with :: "('a \<Rightarrow> 's \<Rightarrow> ('b \<times> 's) yaml_result) \<Rightarrow> 'a list \<Rightarrow> 's \<Rightarrow> ('b list \<times> 's) yaml_result" where
  "collect_with f [] s = Inr ([], s)"
| "collect_with f (x # xs) s =
     res_bind (f x s) (\<lambda>(y, s1). res_map (\<lambda>(ys, s2). (y # ys, s2)) (collect_with f xs s1))"

definition with_key :: "('a \<Rightarrow> 's \<Rightarrow> ('b \<times> 's) yaml_result) \<Rightarrow> string \<times> 'a \<Rightarrow> 's \<Rightarrow> ((string \<times> 'b) \<times> 's) yaml_result" where
  "with_key f kv s = res_map (\<lambda>(v, s'). ((fst kv, v), s')) (f (snd kv) s)"

record multipart_piece =
  mp_name :: string
  mp_headers :: "(string \<times> template) list"
  mp_is_file :: bool
  mp_template :: template

datatype body_template =
    TemplateFile string template
  | TemplateMultipart string "multipart_piece list"
  | TemplateNone
  | TemplateString template

record endpoint =
  e_body :: body_template
  e_declare :: "(string \<times> value_or_expression) list"
  e_headers :: "(string \<times> template) list"
  e_load_pattern :: "linear_builder option"
  e_logs :: "(string \<times> select) list"
  e_max_parallel_requests :: "nat option"
  e_method :: http_method
  e_no_auto_returns :: bool
  e_on_demand :: bool
  e_peak_load :: "hits_per option"
  e_provides :: "(string \<times> select) list"
  e_providers_to_stream :: required_providers
  e_required_providers :: required_providers
  e_request_timeout :: "duration option"
  e_tags :: "(string \<times> template) list"
  e_url :: template

text \<open>The headers of an endpoint that are set, and the global ones it does not remove, with their providers.\<close>

fun own_headers :: "config_ext \<Rightarrow> nat \<Rightarrow> vars \<Rightarrow> (string \<times> pre_template option) list \<Rightarrow> required_providers \<Rightarrow>
    ((string \<times> template) list \<times> required_providers) yaml_result" where
  "own_headers X F vars [] rp = Inr ([], rp)"
| "own_headers X F vars ((k, None) # hs) rp = own_headers X F vars hs rp"
| "own_headers X F vars ((k, Some v) # hs) rp =
     res_bind (as_template X F vars v rp) (\<lambda>(t, rp1).
     res_map (\<lambda>(ts, rp2). ((k, t) # ts, rp2)) (own_headers X F vars hs rp1))"

definition removed_headers :: "(string \<times> pre_template option) list \<Rightarrow> string list" where
  "removed_headers hs = map fst (filter (\<lambda>(k, v). v = None) hs)"

type_synonym global_headers = "(string \<times> template \<times> required_providers) list"

definition kept_headers :: "string list \<Rightarrow> global_headers \<Rightarrow> global_headers" where
  "kept_headers removed hs = filter (\<lambda>(k, _). k \<notin> set removed) hs"

definition add_global_headers :: "global_headers \<Rightarrow> required_providers \<Rightarrow> (string \<times> template) list \<times> required_providers" where
  "add_global_headers hs rp = (map (\<lambda>(k, t, _). (k, t)) hs, fold (\<lambda>(_, _, hrp) rp. rp_extend rp hrp) hs rp)"

definition new_select :: "config_ext \<Rightarrow> nat \<Rightarrow> vars \<Rightarrow> bool \<Rightarrow> provides \<Rightarrow> required_providers \<Rightarrow>
    (select \<times> required_providers) yaml_result" where
  "new_select X F vars nre pv rp = select_new (ctx_of X vars nre (cx_start_mark X)) F pv rp"

definition send_default :: "bool \<Rightarrow> provides \<Rightarrow> provides" where
  "send_default has_peak_load pv =
     pv\<lparr>pv_send := Some (case pv_send pv of
        Some b \<Rightarrow> b
      | None \<Rightarrow> if has_peak_load then IfNotFull else Block)\<rparr>"

definition method_to_string :: "http_method \<Rightarrow> string" where
  "method_to_string m = fst (hd (filter (\<lambda>(_, m'). m' = m) method_names))"

definition endpoint_tags :: "nat \<Rightarrow> http_method \<Rightarrow> marker \<Rightarrow> template \<Rightarrow> (string \<times> pre_template) list \<Rightarrow>
    (string \<times> pre_template) list" where
  "endpoint_tags endpoint_id method url_marker url tags =
     (let tag = (\<lambda>s. pre_template_new (s, url_marker));
          tags = (if map_of tags ''url'' = None then bt_insert ''url'' (tag (evaluate_with_star url)) tags else tags)
      in bt_insert ''method'' (tag (method_to_string method)) (bt_insert ''_id'' (tag (nat_to_string endpoint_id)) tags))"

definition endpoint_piece :: "config_ext \<Rightarrow> nat \<Rightarrow> vars \<Rightarrow> string \<times> body_piece \<Rightarrow> required_providers \<Rightarrow>
    (multipart_piece \<times> required_providers) yaml_result" where
  "endpoint_piece X F vars piece rp =
     (let (is_file, t) = (case bp_body (snd piece) of PieceFile t \<Rightarrow> (True, t) | PieceString t \<Rightarrow> (False, t))
      in res_bind (as_template X F vars t rp) (\<lambda>(template, rp1).
         res_map (\<lambda>(headers, rp2). (\<lparr>mp_name = fst piece, mp_headers = headers, mp_is_file = is_file, mp_template = template\<rparr>, rp2))
           (collect_with (with_key (as_template X F vars)) (bp_headers (snd piece)) rp1)))"

definition endpoint_body :: "config_ext \<Rightarrow> nat \<Rightarrow> vars \<Rightarrow> string \<Rightarrow> body_pre option \<Rightarrow> required_providers \<Rightarrow>
    (body_template \<times> required_providers) yaml_result" where
  "endpoint_body X F vars config_path body rp =
     (case body of
        None \<Rightarrow> Inr (TemplateNone, rp)
      | Some (BodyFile t) \<Rightarrow> res_map (\<lambda>(t, rp). (TemplateFile config_path t, rp)) (as_template X F vars t rp)
      | Some (BodyString t) \<Rightarrow> res_map (\<lambda>(t, rp). (TemplateString t, rp)) (as_template X F vars t rp)
      | Some (BodyMultipart ps) \<Rightarrow>
          res_map (\<lambda>(ps, rp). (TemplateMultipart config_path ps, rp)) (collect_with (endpoint_piece X F vars) ps rp))"

definition optional :: "('a \<Rightarrow> 'b yaml_result) \<Rightarrow> 'a option \<Rightarrow> 'b option yaml_result" where
  "optional f v = (case v of Some a \<Rightarrow> res_map Some (f a) | None \<Rightarrow> Inr None)"

text \<open>The declared names are no providers to stream; what their expressions need is required.\<close>

definition endpoint_declare :: "config_ext \<Rightarrow> nat \<Rightarrow> vars \<Rightarrow> (string \<times> string with_marker) list \<Rightarrow> required_providers \<Rightarrow>
    ((string \<times> value_or_expression) list \<times> required_providers \<times> required_providers) yaml_result" where
  "endpoint_declare X F vars declare providers_to_stream =
     res_map (\<lambda>(ds, rp2).
         let to_stream = fold (\<lambda>(k, _). rp_remove k) declare providers_to_stream
         in (ds, to_stream, rp_extend rp2 to_stream))
       (collect_with (with_key (pre_voe_evaluate X F vars)) declare rp_new)"

definition append_processed_logger :: "string \<Rightarrow> select \<Rightarrow> required_providers option \<Rightarrow> endpoint \<Rightarrow> endpoint" where
  "append_processed_logger key value rp e =
     (let e = e\<lparr>e_logs := e_logs e @ [(key, value)]\<rparr>
      in case rp of
           None \<Rightarrow> e
         | Some rp \<Rightarrow> e\<lparr>e_providers_to_stream := rp_extend (e_providers_to_stream e) rp,
             e_required_providers := rp_extend (e_required_providers e) rp\<rparr>)"

definition append_logger :: "config_ext \<Rightarrow> nat \<Rightarrow> vars \<Rightarrow> string \<Rightarrow> provides \<Rightarrow> endpoint \<Rightarrow> endpoint yaml_result" where
  "append_logger X F vars key value e =
     res_map (\<lambda>(s, rp). append_processed_logger key s None (e\<lparr>e_providers_to_stream := rp\<rparr>))
       (new_select X F vars True value (e_providers_to_stream e))"

fun append_logs :: "config_ext \<Rightarrow> nat \<Rightarrow> vars \<Rightarrow> (string \<times> logs_pre) list \<Rightarrow> endpoint \<Rightarrow> endpoint yaml_result" where
  "append_logs X F vars [] e = Inr e"
| "append_logs X F vars ((key, l) # ls) e =
     res_bind (append_logger X F vars key
         \<lparr>pv_for_each = lo_for_each l, pv_select = lo_select l, pv_send = Some Block, pv_where_clause = lo_where_clause l\<rparr> e)
       (append_logs X F vars ls)"

definition endpoint_from_preprocessed ::
    "config_ext \<Rightarrow> nat \<Rightarrow> endpoint_pre \<Rightarrow> nat \<Rightarrow> vars \<Rightarrow> linear_builder option \<Rightarrow> global_headers \<Rightarrow> string \<Rightarrow>
     endpoint yaml_result" where
  "endpoint_from_preprocessed X F ep endpoint_id vars global_load_pattern global_headers config_path =
     res_bind (own_headers X F vars (ep_headers ep) rp_new) (\<lambda>(own, rp1).
     let (globals, rp2) = add_global_headers (kept_headers (removed_headers (ep_headers ep)) global_headers) rp1
     in res_bind (collect_with (with_key (\<lambda>pv. new_select X F vars False (send_default (ep_peak_load ep \<noteq> None) pv)))
            (ep_provides ep) rp2) (\<lambda>(provides, rp3).
     res_bind (optional (pre_load_pattern_evaluate X F vars) (ep_load_pattern ep)) (\<lambda>load_pattern.
     res_bind (optional (pre_hits_per_evaluate X F vars) (ep_peak_load ep)) (\<lambda>peak_load.
     res_bind (as_template X F vars (ep_url ep) rp3) (\<lambda>(url, rp4).
     let tags = endpoint_tags endpoint_id (ep_method ep) (pre_marker (ep_url ep)) url (ep_tags ep)
     in res_bind (collect_with (with_key (\<lambda>t. as_template X F vars (no_fail t))) tags rp4) (\<lambda>(tags, rp5).
     res_bind (endpoint_body X F vars config_path (ep_body ep) rp5) (\<lambda>(body, rp6).
     res_bind (endpoint_declare X F vars (ep_declare ep) rp6) (\<lambda>(declare, to_stream, required).
     res_bind (optional (pre_duration_evaluate X F vars) (ep_request_timeout ep)) (\<lambda>request_timeout.
     append_logs X F vars (ep_logs ep)
       \<lparr>e_body = body, e_declare = declare, e_headers = globals @ own,
        e_load_pattern = (case load_pattern of Some l \<Rightarrow> Some l | None \<Rightarrow> global_load_pattern), e_logs = [],
        e_max_parallel_requests = ep_max_parallel_requests ep, e_method = ep_method ep,
        e_no_auto_returns = ep_no_auto_returns ep, e_on_demand = ep_on_demand ep, e_peak_load = peak_load,
        e_provides = provides, e_providers_to_stream = to_stream, e_required_providers = required,
        e_request_timeout = request_timeout, e_tags = tags, e_url = url\<rparr>)))))))))"

subsection \<open>Loggers and providers\<close>

record logger =
  lg_to' :: string
  lg_pretty' :: bool
  lg_limit' :: "nat option"
  lg_kill' :: bool

definition logger_from_pre_processed :: "config_ext \<Rightarrow> nat \<Rightarrow> logger_pre \<Rightarrow> vars \<Rightarrow> required_providers \<Rightarrow>
    ((logger \<times> select option) \<times> required_providers) yaml_result" where
  "logger_from_pre_processed X F l vars rp =
     res_bind (case lgp_select l of
         None \<Rightarrow> Inr (None, rp)
       | Some s \<Rightarrow> res_map (\<lambda>(s, rp). (Some s, rp))
           (new_select X F vars True \<lparr>pv_for_each = lgp_for_each l, pv_select = s, pv_send = Some Block,
              pv_where_clause = lgp_where_clause l\<rparr> rp)) (\<lambda>(select, rp').
     res_map (\<lambda>to. ((\<lparr>lg_to' = to, lg_pretty' = lgp_pretty l, lg_limit' = lgp_limit l, lg_kill' = lgp_kill l\<rparr>, select), rp'))
       (pre_evaluate X F vars (lgp_to l)))"

record file_provider =
  fi_csv :: csv_settings
  fi_auto_return :: "send_options option"
  fi_buffer :: buffer_limit
  fi_format :: file_format
  fi_path :: string
  fi_random :: bool
  fi_repeat :: bool
  fi_unique :: bool

datatype provider =
    FileProvider file_provider
  | RangeProvider range_provider_pre
  | ResponseProvider response_provider
  | ListProvider list_provider

definition provider_of :: "config_ext \<Rightarrow> nat \<Rightarrow> vars \<Rightarrow> provider_pre \<Rightarrow> provider yaml_result" where
  "provider_of X F vars p =
     (case p of
        FilePre f \<Rightarrow>
          res_map (\<lambda>path. FileProvider \<lparr>fi_csv = fp_csv f, fi_auto_return = fp_auto_return f, fi_buffer = fp_buffer f,
              fi_format = fp_format f, fi_path = path, fi_random = fp_random f, fi_repeat = fp_repeat f,
              fi_unique = fp_unique f\<rparr>)
            (pre_evaluate X F vars (fp_path f))
      | RangePre r \<Rightarrow> Inr (RangeProvider r)
      | ResponsePre r \<Rightarrow> Inr (ResponseProvider r)
      | ListPre l \<Rightarrow> Inr (ListProvider l))"

text \<open>
  The values of a range and a list provider. An inclusive range with a step, cycled or not; a list in its order,
  cycled, in the order \<open>shuffle\<close> gives it, or sampled. Position \<open>n\<close> is the \<open>n\<close>-th value, \<open>None\<close> when the iterator has
  ended before; sampling from an empty list panics, here \<open>None\<close> instead of an iterator.
\<close>

definition range_values :: "range_provider_pre \<Rightarrow> int list" where
  "range_values r =
     (let start = sint (rg_start r); stop = sint (rg_end r); step = int (rg_step r)
      in if stop < start then [] else map (\<lambda>k. start + int k * step) [0..<nat ((stop - start) div step) + 1])"

definition once_at :: "'a list \<Rightarrow> nat \<Rightarrow> 'a option" where
  "once_at xs n = nth_opt xs n"

definition cycle_at :: "'a list \<Rightarrow> nat \<Rightarrow> 'a option" where
  "cycle_at xs n = (if xs = [] then None else Some (xs ! (n mod length xs)))"

definition range_provider_iter :: "range_provider_pre \<Rightarrow> nat \<Rightarrow> int option" where
  "range_provider_iter r = (if rg_repeat r then cycle_at (range_values r) else once_at (range_values r))"

definition list_provider_iter :: "(json list \<Rightarrow> json list) \<Rightarrow> (nat \<Rightarrow> nat) \<Rightarrow> list_provider \<Rightarrow> (nat \<Rightarrow> json option) option" where
  "list_provider_iter shuffle sample p =
     (case p of
        DefaultOptions v \<Rightarrow> Some (cycle_at v)
      | WithOptions e \<Rightarrow>
          (case (list_repeat e, list_random e) of
             (True, True) \<Rightarrow> if list_values e = [] then None else Some (\<lambda>n. nth_opt (list_values e) (sample n))
           | (False, False) \<Rightarrow> Some (once_at (list_values e))
           | (False, True) \<Rightarrow> Some (once_at (shuffle (list_values e)))
           | (True, False) \<Rightarrow> Some (cycle_at (list_values e))))"

end
