(* ===== verification/LoadTest.thy ===== *)
theory LoadTest
  imports Config
begin

text \<open>
  A whole load test from its file (\<open>LoadTest\<close> of \<open>lib/config/src/lib.rs\<close>): the parts are built in the order the code
  builds them, with the errors that only forbid a full test set aside, and the names they use are verified. The
  text of the file is its UTF-8 bytes; \<open>from_utf8\<close> has panicked before if it is not UTF-8.
\<close>

record client_config =
  cc_keepalive' :: duration
  cc_request_timeout' :: duration

record general_config =
  gc_auto_buffer_start_size :: nat
  gc_bucket_size :: duration
  gc_log_provider_stats :: bool
  gc_watch_transition_time :: "duration option"
  gc_log_level :: "nat option"

record config_settings =
  cs_client :: client_config
  cs_general :: general_config

record load_test =
  l_config :: config_settings
  l_endpoints :: "endpoint list"
  l_providers :: "(string \<times> provider) list"
  l_loggers :: "(string \<times> logger) list"
  l_vars :: vars
  l_errors :: "config_error list"

subsection \<open>The names that must exist\<close>

definition verify_loggers :: "(string \<times> marker) list \<Rightarrow> load_test \<Rightarrow> unit yaml_result" where
  "verify_loggers ls lt =
     (case List.find (\<lambda>(l, _). map_of (l_loggers lt) l = None) ls of
        Some (l, m) \<Rightarrow> Inl (Error (UnknownLogger l m))
      | None \<Rightarrow> Inr ())"

definition verify_providers :: "(string \<times> marker) list \<Rightarrow> load_test \<Rightarrow> unit yaml_result" where
  "verify_providers ps lt =
     (case List.find (\<lambda>(p, _). map_of (l_providers lt) p = None) ps of
        Some (p, m) \<Rightarrow> Inl (Error (ExpressionErr (UnknownProvider p m)))
      | None \<Rightarrow> Inr ())"

fun verify_endpoints :: "(endpoint \<times> marker) list \<Rightarrow> load_test \<Rightarrow> unit yaml_result" where
  "verify_endpoints [] lt = Inr ()"
| "verify_endpoints ((e, m) # es) lt =
     res_bind (verify_loggers (map (\<lambda>(l, _). (l, m)) (e_logs e)) lt) (\<lambda>_.
     res_bind (verify_providers (rp_inner (e_required_providers e) @ map (\<lambda>(k, _). (k, m)) (e_provides e)) lt) (\<lambda>_.
     verify_endpoints es lt))"

subsection \<open>Loggers\<close>

definition add_logger :: "config_ext \<Rightarrow> nat \<Rightarrow> string \<Rightarrow> logger_pre \<Rightarrow> load_test \<Rightarrow> load_test yaml_result" where
  "add_logger X F key value lt =
     res_bind (logger_from_pre_processed X F value (l_vars lt) rp_new) (\<lambda>((l, select), rp).
     let lt = lt\<lparr>l_loggers := bt_insert key l (l_loggers lt)\<rparr>
     in res_map (\<lambda>_. case select of
            Some s \<Rightarrow> lt\<lparr>l_endpoints := map (append_processed_logger key s (Some rp)) (l_endpoints lt)\<rparr>
          | None \<Rightarrow> lt)
          (verify_providers (rp_inner rp) lt))"

fun add_loggers :: "config_ext \<Rightarrow> nat \<Rightarrow> (string \<times> logger_pre) list \<Rightarrow> load_test \<Rightarrow> load_test yaml_result" where
  "add_loggers X F [] lt = Inr lt"
| "add_loggers X F ((k, l) # ls) lt = res_bind (add_logger X F k l lt) (add_loggers X F ls)"

definition clear_loggers :: "load_test \<Rightarrow> load_test" where
  "clear_loggers lt = lt\<lparr>l_loggers := [], l_endpoints := map (\<lambda>e. e\<lparr>e_logs := []\<rparr>) (l_endpoints lt)\<rparr>"

subsection \<open>The parts of a load test\<close>

fun map_values :: "('a \<Rightarrow> 'b yaml_result) \<Rightarrow> (string \<times> 'a) list \<Rightarrow> (string \<times> 'b) list yaml_result" where
  "map_values f [] = Inr []"
| "map_values f ((k, v) # kvs) = res_bind (f v) (\<lambda>w. res_map (\<lambda>kws. (k, w) # kws) (map_values f kvs))"

definition global_header :: "config_ext \<Rightarrow> nat \<Rightarrow> vars \<Rightarrow> pre_template \<Rightarrow> (template \<times> required_providers) yaml_result" where
  "global_header X F vars v = as_template X F vars v rp_new"

definition config_evaluate :: "config_ext \<Rightarrow> nat \<Rightarrow> vars \<Rightarrow> config_pre \<Rightarrow> config_settings yaml_result" where
  "config_evaluate X F vars c =
     res_bind (pre_duration_evaluate X F vars (cl_keepalive (co_client c))) (\<lambda>keepalive.
     res_bind (pre_duration_evaluate X F vars (cl_request_timeout (co_client c))) (\<lambda>request_timeout.
     res_bind (pre_duration_evaluate X F vars (ge_bucket_size (co_general c))) (\<lambda>bucket_size.
     res_bind (optional (pre_duration_evaluate X F vars) (ge_watch_transition_time (co_general c))) (\<lambda>watch.
     Inr \<lparr>cs_client = \<lparr>cc_keepalive' = keepalive, cc_request_timeout' = request_timeout\<rparr>,
       cs_general = \<lparr>gc_auto_buffer_start_size = ge_auto_buffer_start_size (co_general c), gc_bucket_size = bucket_size,
         gc_log_provider_stats = ge_log_provider_stats (co_general c), gc_watch_transition_time = watch,
         gc_log_level = ge_log_level (co_general c)\<rparr>\<rparr>))))"

text \<open>What prevents a load test but not a try run.\<close>

definition requires_response :: "(string \<times> provider_pre) list \<Rightarrow> endpoint \<Rightarrow> bool" where
  "requires_response providers e \<longleftrightarrow>
     (\<exists>(p, _)\<in>set (rp_inner (e_required_providers e)).
        case map_of providers p of Some v \<Rightarrow> is_response_provider v | None \<Rightarrow> False)"

definition load_test_error :: "(string \<times> provider_pre) list \<Rightarrow> marker \<Rightarrow> endpoint \<Rightarrow> config_error list" where
  "load_test_error providers m e =
     (if e_peak_load e = None
      then if \<not> (\<exists>(_, s)\<in>set (e_provides e). is_block (sel_send_behavior s)) \<and> \<not> requires_response providers e
           then [MissingPeakLoad m] else []
      else if e_load_pattern e = None then [MissingLoadPattern m] else [])"

fun build_endpoints :: "config_ext \<Rightarrow> nat \<Rightarrow> (string \<times> provider_pre) list \<Rightarrow> endpoint_pre list \<Rightarrow> nat \<Rightarrow> vars \<Rightarrow>
    linear_builder option \<Rightarrow> global_headers \<Rightarrow> string \<Rightarrow> (endpoint list \<times> config_error list) yaml_result" where
  "build_endpoints X F providers [] i vars load_pattern headers path = Inr ([], [])"
| "build_endpoints X F providers (ep # eps) i vars load_pattern headers path =
     res_bind (endpoint_from_preprocessed X F ep i vars load_pattern headers path) (\<lambda>e.
     res_map (\<lambda>(es, errors). (e # es, load_test_error providers (ep_marker ep) e @ errors))
       (build_endpoints X F providers eps (i + 1) vars load_pattern headers path))"

definition load_test_from_preprocessed ::
    "config_ext \<Rightarrow> nat \<Rightarrow> string \<Rightarrow> (string \<times> string) list \<Rightarrow> load_test_pre \<Rightarrow> load_test yaml_result" where
  "load_test_from_preprocessed X F config_path env_vars c =
     (let env = map (\<lambda>(k, v). (k, JString v)) env_vars
      in res_bind (map_values (pre_var_evaluate X F env) (lt_vars c)) (\<lambda>vars.
         res_bind (optional (pre_load_pattern_evaluate X F vars) (lt_load_pattern c)) (\<lambda>load_pattern.
         res_bind (map_values (global_header X F vars) (cl_headers (co_client (lt_config c)))) (\<lambda>headers.
         res_bind (config_evaluate X F vars (lt_config c)) (\<lambda>config.
         res_bind (build_endpoints X F (lt_providers c) (lt_endpoints c) 0 vars load_pattern headers config_path)
           (\<lambda>(endpoints, errors).
         res_bind (map_values (provider_of X F vars) (lt_providers c)) (\<lambda>providers.
         res_bind (add_loggers X F (lt_loggers c)
             \<lparr>l_config = config, l_endpoints = endpoints, l_providers = providers, l_loggers = [], l_vars = vars,
              l_errors = errors\<rparr>) (\<lambda>lt.
         res_map (\<lambda>_. lt) (verify_endpoints (zip (l_endpoints lt) (map ep_marker (lt_endpoints c))) lt)))))))))"

definition load_test_from_config ::
    "config_ext \<Rightarrow> nat \<Rightarrow> string \<Rightarrow> (string \<times> string) list \<Rightarrow> string \<Rightarrow> load_test yaml_result" where
  "load_test_from_config X F config_path env_vars s =
     res_bind (from_yaml_str X (parse_load_test X) s) (load_test_from_preprocessed X F config_path env_vars)"

definition get_duration :: "load_test \<Rightarrow> duration" where
  "get_duration lt = fold max (map lb_duration (List.map_filter e_load_pattern (l_endpoints lt))) 0"

definition ok_for_loadtest :: "load_test \<Rightarrow> unit yaml_result" where
  "ok_for_loadtest lt = (case l_errors lt of e # _ \<Rightarrow> Inl (Error e) | [] \<Rightarrow> Inr ())"

end
