(* ===== verification/ConfigReads.thy ===== *)
theory ConfigReads
  imports YamlProps LoadTest
begin

text \<open>
  Reading a configuration always returns: the loops of the structs end, whatever events the YAML parser gives, and
  the fuel given to each loop is enough. Empty lists and mappings do not do well.
\<close>

subsection \<open>The loop over the keys\<close>

text \<open>What the loop needs of the match on a key: the value is read, or the key refused.\<close>

locale reading_key =
  fixes key :: "'s \<Rightarrow> string \<Rightarrow> marker \<Rightarrow> yaml \<Rightarrow> ('s \<times> yaml) yaml_result"
  assumes key_reads: "reads_below snd (length (fst y)) (key st s m y)"

context reading_key begin

lemma fields_loop_reads:
  "length (fst y) < n \<Longrightarrow> reads_below (\<lambda>(v, m, y'). y') (length (fst y)) (fields_loop key n st first saw_opening y)"
proof (induction n arbitrary: st first saw_opening y)
  case (Suc n)
  have on: "reads_below (\<lambda>(v, m, y'). y') (length (fst y)) (fields_loop key n st' f b y2)"
    if "length (fst y2) < length (fst y)" for st' f b y2
    using Suc.IH [of y2 st' f b] Suc.prems that by (auto intro: reads_below_mono)
  show ?case
    by (auto intro!: reads_below_next reads_below_bind [OF key_reads] on simp: Let_def split: yaml_event.splits)
qed simp

lemma parse_fields_reads: "reading_parser (parse_fields key st)"
  by unfold_locales (simp add: parse_fields_def fields_loop_reads del: fields_loop.simps)

end

named_theorems parser_intros

lemma map_err_reads: "reading_parser item \<Longrightarrow> reading_parser (\<lambda>y. map_yaml_deserialize_err s (item y))"
proof (rule reading_parser.intro)
  fix y
  assume "reading_parser item"
  then have "reads_below (\<lambda>(v, m, y'). y') (length (fst y)) (item y)" by (rule reading_parser.item_reads)
  then show "reads_below (\<lambda>(v, m, y'). y') (length (fst y)) (map_yaml_deserialize_err s (item y))"
    by (cases "item y") (auto simp: map_yaml_deserialize_err_def split: failure.splits config_error.splits option.splits)
qed

lemma field_reads [parser_intros]:
  "reading_parser item \<Longrightarrow> reads_below snd (length (fst y)) (field s item upd y)"
  "reading_parser item \<Longrightarrow> reads_below snd (length (fst y)) (plain_field item upd y)"
  unfolding field_def plain_field_def res_map_def
  by (auto intro!: parser_bind [OF map_err_reads] intro: parser_bind)

lemma string_field_reads [parser_intros]:
  "(\<And>d. read d \<noteq> Inl OutOfFuel) \<Longrightarrow> reads_below snd (length (fst y)) (string_field s read upd y)"
  unfolding string_field_def res_map_def
  by (auto simp: parse_string_def intro!: parser_bind [OF map_err_reads [OF parse_event_reads]] reads_below_bind_pure)

lemma unrecognized_reads [parser_intros]: "reads_below snd (length (fst y)) (unrecognized s m)"
  by simp

lemma if_reads [parser_intros]:
  "reads_below left n (p y) \<Longrightarrow> reads_below left n (q y) \<Longrightarrow> reads_below left n ((if b then p else q) y)"
  by simp

lemma required_reads: "required name m v \<noteq> Inl OutOfFuel"
  by (simp add: required_def split: option.splits)

lemma required_bind:
  "(\<And>v. reads_below left n (f v)) \<Longrightarrow> reads_below left n (res_bind (required name m v) f)"
  by (auto intro: reads_below_bind_pure simp: required_reads)

lemma with_marker_reads: "reading_parser item \<Longrightarrow> reading_parser (parse_with_marker item)"
  by (rule reading_parser.intro) (auto simp: parse_with_marker_def res_map_def intro!: parser_bind)

lemma expect_bind:
  "(\<And>y'. length (fst y') < length (fst y) \<Longrightarrow> reads_below left n (f y')) \<Longrightarrow>
     reads_below left n (res_bind (expect_event e y) f)"
  unfolding expect_event_def
  by (rule reads_below_bind [of "\<lambda>y'. y'" "length (fst y)"]) (auto intro!: reads_below_next)

subsection \<open>The parsers\<close>

lemma simple_parsers [parser_intros]:
  "reading_parser parse_bool" "reading_parser parse_string" "reading_parser parse_i64" "reading_parser parse_yaml_usize"
  "reading_parser parse_non_zero_u16" "reading_parser parse_non_zero_usize" "reading_parser parse_method"
  "reading_parser parse_limit" "reading_parser parse_file_format" "reading_parser parse_csv_header"
  "reading_parser parse_char_u8" "reading_parser parse_send_options"
  by (simp_all add: parse_bool_def parse_string_def parse_i64_def parse_yaml_usize_def parse_non_zero_u16_def
      parse_non_zero_usize_def parse_method_def parse_limit_def parse_file_format_def parse_csv_header_def
      parse_char_u8_def parse_send_options_def parse_event_reads)

lemma collection_parsers [parser_intros]:
  "reading_parser item \<Longrightarrow> reading_parser (parse_vec item)"
  "reading_parser item \<Longrightarrow> reading_parser (parse_tuple_vec item)"
  "reading_parser item \<Longrightarrow> reading_parser (parse_map item)"
  by (simp_all add: parse_vec_def parse_tuple_vec_def parse_map_def reading_parser.container_reads parse_entry_reads)

lemma pre_template_reads [parser_intros]: "reading_parser parse_pre_template"
  by (rule reading_parser.intro)
    (auto simp: parse_pre_template_def res_map_def intro!: parser_bind with_marker_reads parser_intros)

lemmas more_parsers [parser_intros] = with_marker_reads json.reading_parser_axioms parse_nullable_reads

text \<open>A struct is read by its keys, and the fields it requires are checked after.\<close>

lemma struct_reads:
  assumes "reading_key key" "\<And>l m y'. reads_below (\<lambda>(v, m, y'). y') (Suc (length (fst y'))) (f (l, m, y'))"
  shows "reading_parser (\<lambda>y. res_bind (parse_fields key st y) f)"
proof (rule reading_parser.intro)
  fix y
  show "reads_below (\<lambda>(v, m, y'). y') (length (fst y)) (res_bind (parse_fields key st y) f)"
    by (rule parser_bind [OF reading_key.parse_fields_reads [OF assms(1)]])
      (auto intro: reads_below_mono [OF assms(2)])
qed

lemma linear_key_reads: "reading_key linear_key"
  by (rule reading_key.intro) (simp only: linear_key_def, intro parser_intros)

lemma parse_linear_reads: "reading_parser parse_linear"
  unfolding parse_linear_def [abs_def] by (intro struct_reads linear_key_reads) (auto intro!: required_bind)

lemma parse_load_pattern_piece_reads [parser_intros]: "reading_parser parse_load_pattern_piece"
  by (rule reading_parser.intro)
    (auto simp: parse_load_pattern_piece_def res_map_def split: option.splits
      intro!: expect_bind reads_below_next parser_bind parse_linear_reads)

lemma parse_pre_load_pattern_reads [parser_intros]: "reading_parser parse_pre_load_pattern"
  unfolding parse_pre_load_pattern_def by (intro parser_intros)

lemma list_key_reads: "reading_key (list_key X)"
  by (rule reading_key.intro) (simp only: list_key_def, intro parser_intros)

lemma parse_list_with_options_reads [parser_intros]: "reading_parser (parse_list_with_options X)"
  unfolding parse_list_with_options_def [abs_def] res_map_def by (intro struct_reads list_key_reads) (auto intro!: required_bind)

lemma parse_list_provider_reads: "reading_parser (parse_list_provider X)"
  by (rule reading_parser.intro)
    (auto simp: parse_list_provider_def res_map_def split: yaml_event.splits
      intro!: reads_below_peek parser_bind parser_intros)

lemma range_provider_key_reads: "reading_key range_provider_key"
  by (rule reading_key.intro) (simp only: range_provider_key_def, intro parser_intros)

lemma parse_range_provider_reads: "reading_parser parse_range_provider"
  unfolding parse_range_provider_def by (rule reading_key.parse_fields_reads [OF range_provider_key_reads])

lemma csv_key_reads: "reading_key csv_key"
  by (rule reading_key.intro) (simp only: csv_key_def, intro parser_intros)

lemma parse_csv_settings_reads [parser_intros]: "reading_parser parse_csv_settings"
  unfolding parse_csv_settings_def [abs_def] res_map_def by (intro struct_reads csv_key_reads) (auto intro!: required_bind)

lemma file_key_reads: "reading_key file_key"
  by (rule reading_key.intro) (simp only: file_key_def, intro parser_intros)

lemma parse_file_provider_reads [parser_intros]: "reading_parser parse_file_provider"
  unfolding parse_file_provider_def [abs_def] res_map_def by (intro struct_reads file_key_reads) (auto intro!: required_bind)

lemma response_key_reads: "reading_key response_key"
  by (rule reading_key.intro) (simp only: response_key_def, intro parser_intros)

lemma parse_response_provider_reads [parser_intros]: "reading_parser parse_response_provider"
  unfolding parse_response_provider_def [abs_def] res_map_def by (intro struct_reads response_key_reads) (auto intro!: required_bind)

lemma provider_loop_reads:
  "length (fst y) < n \<Longrightarrow> reads_below (\<lambda>(v, m, y'). y') (length (fst y)) (provider_loop X n saw_opening y)"
proof (induction n arbitrary: saw_opening y)
  case (Suc n)
  have on: "reads_below (\<lambda>(v, m, y'). y') (length (fst y)) (provider_loop X n b y2)"
    if "length (fst y2) < length (fst y)" for b y2
    using Suc.IH [of y2 b] Suc.prems that by (auto intro: reads_below_mono)
  show ?case
    by (auto simp: res_map_def split: yaml_event.splits
        intro!: reads_below_next on parser_bind [OF map_err_reads] parser_intros parse_range_provider_reads
          parse_list_provider_reads)
qed simp

lemma parse_provider_reads [parser_intros]: "reading_parser (parse_provider X)"
proof (rule reading_parser.intro)
  fix y
  have "reads_below (\<lambda>(v, m, y'). y') (length (fst y)) (provider_loop X (Suc (length (fst y))) False y)"
    by (rule provider_loop_reads) simp
  then show "reads_below (\<lambda>(v, m, y'). y') (length (fst y)) (parse_provider X y)"
    unfolding parse_provider_def res_map_def
    by (rule reads_below_bind) (auto intro!: expect_bind)
qed

lemma logger_key_reads: "reading_key (logger_key X)"
  by (rule reading_key.intro) (simp only: logger_key_def, intro parser_intros)

lemma parse_logger_reads [parser_intros]: "reading_parser (parse_logger X)"
  unfolding parse_logger_def [abs_def] res_map_def by (intro struct_reads logger_key_reads) (auto intro!: required_bind)

lemma logs_key_reads: "reading_key (logs_key X)"
  by (rule reading_key.intro) (simp only: logs_key_def, intro parser_intros)

lemma parse_logs_reads [parser_intros]: "reading_parser (parse_logs X)"
  unfolding parse_logs_def [abs_def] res_map_def by (intro struct_reads logs_key_reads) (auto intro!: required_bind)

lemma provides_key_reads: "reading_key (provides_key X)"
  by (rule reading_key.intro) (simp only: provides_key_def, intro parser_intros)

lemma parse_provides_reads [parser_intros]: "reading_parser (parse_provides X)"
  unfolding parse_provides_def [abs_def] res_map_def by (intro struct_reads provides_key_reads) (auto intro!: required_bind)

lemma one_key_reads:
  assumes "\<And>s y r. value_of s y = Some r \<Longrightarrow> reads_below (\<lambda>(v, m, y'). y') (length (fst y)) r" "length (fst y) \<le> n"
  shows "reads_below (\<lambda>(v, m, y'). y') n (parse_one_key value_of y)"
proof -
  have one: "reads_below (\<lambda>(v, m, y'). y') n (res_bind r (\<lambda>(v, vm, y2). res_map (\<lambda>y3. (v, vm, y3)) (expect_event e y2)))"
    if "value_of s y1 = Some r" "length (fst y1) < length (fst y)" for s y1 r e
    by (rule reads_below_bind [OF assms(1) [OF that(1)]])
      (use that(2) assms(2) in \<open>auto simp: res_map_def intro!: expect_bind\<close>)
  show ?thesis
    by (auto simp: parse_one_key_def split: option.splits intro!: reads_below_next one)
qed

lemma parse_piece_body_reads [parser_intros]: "reading_parser parse_piece_body"
  by (rule reading_parser.intro)
    (auto simp: parse_piece_body_def res_map_def Let_def split: if_splits
      intro!: reads_below_peek reads_below_next one_key_reads parser_bind parser_intros)

lemma piece_key_reads: "reading_key piece_key"
  by (rule reading_key.intro) (simp only: piece_key_def, intro parser_intros)

lemma parse_body_piece_reads [parser_intros]: "reading_parser parse_body_piece"
  unfolding parse_body_piece_def [abs_def] res_map_def by (intro struct_reads piece_key_reads) (auto intro!: required_bind)

lemma parse_body_reads [parser_intros]: "reading_parser parse_body"
  by (rule reading_parser.intro)
    (auto simp: parse_body_def res_map_def Let_def split: if_splits
      intro!: reads_below_peek reads_below_next one_key_reads parser_bind parser_intros)

lemma endpoint_key_reads: "reading_key (endpoint_key X)"
  by (rule reading_key.intro) (simp only: endpoint_key_def, intro parser_intros)

lemma parse_endpoint_reads [parser_intros]: "reading_parser (parse_endpoint X)"
  unfolding parse_endpoint_def [abs_def] res_map_def by (intro struct_reads endpoint_key_reads) (auto intro!: required_bind)

lemma client_key_reads: "reading_key client_key"
  by (rule reading_key.intro) (simp only: client_key_def, intro parser_intros)

lemma parse_client_reads [parser_intros]: "reading_parser parse_client"
  unfolding parse_client_def [abs_def] res_map_def by (intro struct_reads client_key_reads) (auto intro!: required_bind)

lemma capture_secs_fuel: "capture_secs c \<noteq> Inl OutOfFuel"
  by (auto simp: capture_secs_def Let_def split: list.splits option.splits)

lemma collect_res_fuel: "(\<And>r. r \<in> set rs \<Longrightarrow> r \<noteq> Inl e) \<Longrightarrow> collect_res rs \<noteq> Inl e"
  by (induction rs) (auto simp: res_bind_eq_Inl)

lemma duration_fuel: "duration_from_string2 X d m \<noteq> Inl OutOfFuel"
  by (auto simp: duration_from_string2_def split: option.splits dest!: collect_res_fuel [THEN notE, rotated]
      dest: capture_secs_fuel [THEN notE, OF sym])

lemma log_provider_stats_fuel: "parse_log_provider_stats X s m d \<noteq> Inl OutOfFuel"
  using duration_fuel [of X d "cx_start_mark X"]
  by (auto simp: parse_log_provider_stats_def duration_from_string_def split: sum.splits failure.splits)

lemma general_key_reads: "reading_key (general_key X)"
  by (rule reading_key.intro)
    (simp only: general_key_def, intro parser_intros log_provider_stats_fuel, simp split: option.splits)

lemma parse_general_reads [parser_intros]: "reading_parser (parse_general X)"
  unfolding parse_general_def [abs_def] res_map_def by (intro struct_reads general_key_reads) (auto intro!: required_bind)

lemma config_key_reads: "reading_key (config_key X)"
  by (rule reading_key.intro) (simp only: config_key_def, intro parser_intros)

lemma parse_config_reads [parser_intros]: "reading_parser (parse_config X)"
  unfolding parse_config_def [abs_def] res_map_def by (intro struct_reads config_key_reads) (auto intro!: required_bind)

lemma load_test_key_reads: "reading_key (load_test_key X)"
  by (rule reading_key.intro) (simp only: load_test_key_def, intro parser_intros)

lemma parse_load_test_reads [parser_intros]: "reading_parser (parse_load_test X)"
  unfolding parse_load_test_def [abs_def] res_map_def by (intro struct_reads load_test_key_reads) (auto intro!: required_bind)

text \<open>
  C32. Reading a configuration file returns, whatever the YAML parser makes of it: the loops of the nested parsers
  end, since each round takes an event, and the fuel of the model is enough.
\<close>

theorem reading_returns: "from_yaml_str X (parse_load_test X) s \<noteq> Inl OutOfFuel"
  using reading_parser.item_reads [OF parse_load_test_reads [of X], of "yaml_of_str X s"]
  by (auto simp: from_yaml_str_def reads_below_def)

subsection \<open>Empty collections\<close>

text \<open>
  An empty list or mapping is not read as one. After the opening event an item is read although there is none:
  an empty list of endpoints panics, an empty list of values gets a null and takes the end of the mapping it is in,
  and an empty mapping is an error.
\<close>

theorem empty_collections:
  "parse_vec (parse_endpoint X) ((SequenceStart, m) # (SequenceEnd, m1) # rest, err) = Inl Panics \<and>
   parse_vec (json_parse from_str) ((SequenceStart, m) # (SequenceEnd, m1) # (MappingEnd, m2) # rest, err) =
     Inr ([JNull], m, (rest, err)) \<and>
   parse_map item ((MappingStart, m) # (MappingEnd, m1) # rest, err) = yaml_error m1"
  by (simp add: parse_vec_def parse_map_def container_parse_def parse_endpoint_def parse_fields_def Let_def
      json_parse_def vec_insert_def parse_entry_def parse_string_def parse_event_def)

end
