(* ===== verification/LoadTestProps.thy ===== *)
theory LoadTestProps
  imports ConfigReads ExprEnv
begin

text \<open>What holds of a configuration once it is accepted: its names, load patterns and durations.\<close>

subsection \<open>Names\<close>

lemma verify_loggers_ok: "verify_loggers ls lt = Inr u \<Longrightarrow> fst ` set ls \<subseteq> dom (map_of (l_loggers lt))"
  by (auto simp: verify_loggers_def find_None_iff split: option.splits)

lemma verify_providers_ok: "verify_providers ps lt = Inr u \<Longrightarrow> fst ` set ps \<subseteq> dom (map_of (l_providers lt))"
  by (auto simp: verify_providers_def find_None_iff split: option.splits)

definition names_exist :: "load_test \<Rightarrow> endpoint \<Rightarrow> bool" where
  "names_exist lt e \<longleftrightarrow> fst ` set (e_logs e) \<subseteq> dom (map_of (l_loggers lt)) \<and>
     bt_keys (rp_inner (e_required_providers e)) \<subseteq> dom (map_of (l_providers lt)) \<and>
     fst ` set (e_provides e) \<subseteq> dom (map_of (l_providers lt))"

lemma verify_endpoints_ok: "verify_endpoints ems lt = Inr u \<Longrightarrow> (e, m) \<in> set ems \<Longrightarrow> names_exist lt e"
proof (induction ems lt rule: verify_endpoints.induct)
  case (2 e' m' es lt)
  then have l: "verify_loggers (map (\<lambda>(l, _). (l, m')) (e_logs e')) lt = Inr ()"
    and p: "verify_providers (rp_inner (e_required_providers e') @ map (\<lambda>(k, _). (k, m')) (e_provides e')) lt = Inr ()"
    and v: "verify_endpoints es lt = Inr u"
    by (auto simp: res_bind_eq_Inr)
  have "names_exist lt e'"
    using verify_loggers_ok [OF l] verify_providers_ok [OF p]
    by (simp add: names_exist_def image_image case_prod_beta image_Un)
  with "2.IH" [OF _ _ v] "2.prems" l p show ?case by auto
qed simp

text \<open>\<open>required\<close> covers what an endpoint streams.\<close>

definition covered :: "endpoint \<Rightarrow> bool" where
  "covered e \<longleftrightarrow> bt_keys (rp_inner (e_providers_to_stream e)) \<subseteq> bt_keys (rp_inner (e_required_providers e))"

lemma rp_extend_keys: "bt_keys (rp_inner (rp_extend p q)) = bt_keys (rp_inner p) \<union> bt_keys (rp_inner q)"
  by (simp add: rp_extend_def bt_extend_keys)

lemma append_processed_covered: "covered e \<Longrightarrow> covered (append_processed_logger k s (Some rp) e)"
  by (auto simp: covered_def append_processed_logger_def rp_extend_keys)

lemma add_logger_keeps:
  assumes "add_logger X F k l lt = Inr lt'"
  shows "length (l_endpoints lt') = length (l_endpoints lt) \<and> l_providers lt' = l_providers lt \<and>
    (list_all covered (l_endpoints lt) \<longrightarrow> list_all covered (l_endpoints lt'))"
  using assms
  by (auto simp: add_logger_def res_bind_eq_Inr res_map_eq_Inr Let_def list_all_iff append_processed_covered
      split: option.splits)

lemma add_loggers_keeps:
  "add_loggers X F ls lt = Inr lt' \<Longrightarrow>
    length (l_endpoints lt') = length (l_endpoints lt) \<and> l_providers lt' = l_providers lt \<and>
    (list_all covered (l_endpoints lt) \<longrightarrow> list_all covered (l_endpoints lt'))"
proof (induction X F ls lt rule: add_loggers.induct)
  case (2 X F k l ls lt)
  then obtain lt1 where "add_logger X F k l lt = Inr lt1" "add_loggers X F ls lt1 = Inr lt'"
    by (auto simp: res_bind_eq_Inr)
  with "2.IH" add_logger_keeps show ?case by metis
qed simp

lemma endpoint_declare_covers:
  "endpoint_declare X F vars ds rp = Inr (es, streamed, needed) \<Longrightarrow> bt_keys (rp_inner streamed) \<subseteq> bt_keys (rp_inner needed)"
  unfolding endpoint_declare_def Let_def by (simp add: res_map_eq_Inr case_prod_beta) (metis Un_upper2 rp_extend_keys)

lemma endpoint_covered:
  assumes "endpoint_from_preprocessed X F ep i vars lp hs path = Inr e" "ep_logs ep = []"
  shows "covered e"
proof -
  from assms obtain ds rp where
    "endpoint_declare X F vars (ep_declare ep) rp = Inr (ds, e_providers_to_stream e, e_required_providers e)"
    by (auto simp: endpoint_from_preprocessed_def res_bind_eq_Inr Let_def case_prod_beta)
  from endpoint_declare_covers [OF this] show ?thesis by (simp add: covered_def)
qed

lemma build_endpoints_keeps:
  "build_endpoints X F ps eps i vars lp hs path = Inr (es, errs) \<Longrightarrow>
    length es = length eps \<and> ((\<forall>ep\<in>set eps. ep_logs ep = []) \<longrightarrow> list_all covered es)"
  by (induction eps arbitrary: i es errs) (auto simp: res_bind_eq_Inr res_map_eq_Inr endpoint_covered)

lemma from_preprocessed_ok:
  assumes "load_test_from_preprocessed X F path env c = Inr lt"
  shows "(\<forall>e\<in>set (l_endpoints lt). names_exist lt e) \<and>
    ((\<forall>ep\<in>set (lt_endpoints c). ep_logs ep = []) \<longrightarrow> list_all covered (l_endpoints lt))"
proof -
  from assms obtain vars lp hs cfg es errs ps where
    es: "build_endpoints X F (lt_providers c) (lt_endpoints c) 0 vars lp hs path = Inr (es, errs)"
    and lt: "add_loggers X F (lt_loggers c) \<lparr>l_config = cfg, l_endpoints = es, l_providers = ps, l_loggers = [],
      l_vars = vars, l_errors = errs\<rparr> = Inr lt"
    and v: "verify_endpoints (zip (l_endpoints lt) (map ep_marker (lt_endpoints c))) lt = Inr ()"
    by (auto simp: load_test_from_preprocessed_def Let_def res_bind_eq_Inr res_map_eq_Inr)
  from build_endpoints_keeps [OF es] add_loggers_keeps [OF lt]
  have l: "length (l_endpoints lt) = length (lt_endpoints c)"
    and c: "(\<forall>ep\<in>set (lt_endpoints c). ep_logs ep = []) \<longrightarrow> list_all covered (l_endpoints lt)" by auto
  have "names_exist lt e" if "e \<in> set (l_endpoints lt)" for e
  proof -
    from that obtain k where "k < length (l_endpoints lt)" "l_endpoints lt ! k = e" by (auto simp: in_set_conv_nth)
    with l have "(e, map ep_marker (lt_endpoints c) ! k) \<in> set (zip (l_endpoints lt) (map ep_marker (lt_endpoints c)))"
      by (auto simp: in_set_zip)
    with verify_endpoints_ok [OF v] show ?thesis .
  qed
  with c show ?thesis by blast
qed


text \<open>A concrete choice for the third-party parts, and a configuration: a text is split at the end of its digits.\<close>

definition ref_config_ext :: config_ext where
  "ref_config_ext =
     \<lparr>cx_ext = ref_expr_ext,
      cx_entry_point = pc_entry_point ref_ctx,
      cx_template = pc_template ref_ctx,
      cx_json_from_str = (\<lambda>s. None),
      cx_captures_iter = (\<lambda>r s. [[Some s, Some (takeWhile is_digit s), Some (dropWhile is_digit s)]]),
      cx_level_filter = (\<lambda>s. None),
      cx_start_mark = Marker 2 2 2,
      cx_scan = (\<lambda>s. ([], ''end''))\<rparr>"

lemma ref_config_simps [simp]:
  "cx_ext ref_config_ext = ref_expr_ext"
  "cx_entry_point ref_config_ext = pc_entry_point ref_ctx"
  "cx_template ref_config_ext = pc_template ref_ctx"
  "cx_start_mark ref_config_ext = Marker 2 2 2"
  "cx_captures_iter ref_config_ext r s = [[Some s, Some (takeWhile is_digit s), Some (dropWhile is_digit s)]]"
  "x_regex_new ref_expr_ext s = Some (Regex s)"
  "x_captures ref_expr_ext r s = Some [Some s, Some (takeWhile (\<lambda>c. c \<notin> {CHR ''.'', CHR ''[''}) s)]"
  by (simp_all add: ref_config_ext_def ref_expr_ext_def)

abbreviation plain_text :: "string \<Rightarrow> pre_template" where
  "plain_text s \<equiv> PreTemplate s (Marker 2 2 2) False"

lemma ref_as_template:
  "s \<noteq> [] \<Longrightarrow> as_template ref_config_ext (Suc F) vars (PreTemplate s m b) rp =
     Inr (Template [NotExpression s] (length s) b, rp)"
  by (simp add: as_template_def ctx_of_def expression_err_def)

lemma ref_evaluate:
  "s \<noteq> [] \<Longrightarrow> pre_evaluate ref_config_ext (Suc F) vars (PreTemplate s m b) = Inr s"
  by (simp add: pre_evaluate_def pre_template_evaluate_def ref_as_template exec_err_def)

lemma ref_duration:
  "pre_duration_evaluate ref_config_ext (Suc F) vars (plain_text ''60s'') = Inr 60000000000"
  "pre_duration_evaluate ref_config_ext (Suc F) vars (plain_text ''90s'') = Inr 90000000000"
  by (simp_all add: pre_duration_evaluate_def ref_evaluate duration_from_string2_def capture_secs_def parse_unsigned_def
      digits_value_def is_digit_def nanos_per_sec_def)

lemma ref_select:
  "new_select ref_config_ext (Suc F) vars nre \<lparr>pv_for_each = [], pv_select = (JNull, m), pv_send = b,
     pv_where_clause = None\<rparr> rp = Inr (\<lparr>sel_join = [], sel_references_for_each = False,
       sel_where_references_for_each = False,
               sel_send_behavior = (case b of Some b \<Rightarrow> b | None \<Rightarrow> send_options_default),
               sel_select = SelNull, sel_where_clause = None, sel_nre = nre\<rparr>,
             rp_extend rp rp_new)"
  by (simp add: new_select_def select_new_def select_where_def expression_err_def ctx_of_def voe_new_def
      references_for_each_def rp_new_def)

definition ref_endpoint :: endpoint_pre where
  "ref_endpoint = \<lparr>ep_declare = [], ep_headers = [], ep_body = None, ep_load_pattern = None, ep_method = GET,
     ep_on_demand = False, ep_peak_load = None, ep_tags = [], ep_url = plain_text ''x'',
     ep_provides = [(''p'', \<lparr>pv_for_each = [], pv_select = (JNull, Marker 2 2 2), pv_send = None, pv_where_clause = None\<rparr>)],
     ep_logs = [], ep_max_parallel_requests = None, ep_no_auto_returns = False, ep_request_timeout = None,
     ep_marker = Marker 2 2 2\<rparr>"

definition ref_file :: load_test_pre where
  "ref_file = \<lparr>lt_config = config_default (Marker 2 2 2), lt_endpoints = [ref_endpoint], lt_load_pattern = None,
     lt_providers = [(''p'', ResponsePre \<lparr>resp_auto_return = None, resp_buffer = buffer_limit_dynamic, resp_unique = False\<rparr>)],
     lt_loggers = [(''l'', \<lparr>lgp_select = Some (JNull, Marker 2 2 2), lgp_for_each = [], lgp_where_clause = None,
       lgp_to = plain_text ''y'', lgp_pretty = False, lgp_limit = None, lgp_kill = False\<rparr>)],
     lt_vars = []\<rparr>"




lemma nat_to_string_0: "nat_to_string 0 = [char_of (48 :: nat)]"
  by (subst nat_to_string.simps) simp

lemma ref_endpoint_built:
  "\<exists>e. endpoint_from_preprocessed ref_config_ext (Suc F) ref_endpoint 0 [] None [] ''/'' = Inr e \<and>
     map fst (e_provides e) = [''p''] \<and> e_logs e = [] \<and> rp_inner (e_required_providers e) = [] \<and> e_peak_load e = None"
  by (simp add: endpoint_from_preprocessed_def ref_endpoint_def removed_headers_def kept_headers_def
      add_global_headers_def with_key_def send_default_def ref_select optional_def ref_as_template endpoint_tags_def
      method_to_string_def method_names_def Let_def endpoint_body_def endpoint_declare_def nat_to_string_0
      pre_template_new_def evaluate_with_star_def rp_extend_def bt_extend_def rp_new_def)

lemma ref_settings:
  "\<exists>cfg. config_evaluate ref_config_ext (Suc F) [] (config_default (Marker 2 2 2)) = Inr cfg"
  by (simp add: config_default_def client_default_def general_default_def default_keepalive_def
      default_request_timeout_def default_bucket_size_def config_evaluate_def pre_template_new_def ref_duration
      optional_def)

lemma ref_logger:
  "logger_from_pre_processed ref_config_ext (Suc F) \<lparr>lgp_select = Some (JNull, Marker 2 2 2), lgp_for_each = [],
     lgp_where_clause = None, lgp_to = plain_text ''y'', lgp_pretty = False, lgp_limit = None, lgp_kill = False\<rparr> [] rp_new =
   Inr ((\<lparr>lg_to' = ''y'', lg_pretty' = False, lg_limit' = None, lg_kill' = False\<rparr>,
     Some \<lparr>sel_join = [], sel_references_for_each = False, sel_where_references_for_each = False,
       sel_send_behavior = Block, sel_select = SelNull, sel_where_clause = None, sel_nre = True\<rparr>), rp_new)"
  by (simp add: logger_from_pre_processed_def ref_select ref_evaluate rp_extend_def rp_new_def bt_extend_def)

lemma ref_file_accepted:
  "\<exists>lt e. load_test_from_preprocessed ref_config_ext (Suc F) ''/'' [] ref_file = Inr lt \<and> l_endpoints lt = [e] \<and>
     map fst (e_provides e) = [''p''] \<and> map fst (e_logs e) = [''l'']"
proof -
  obtain e where e: "endpoint_from_preprocessed ref_config_ext (Suc F) ref_endpoint 0 [] None [] ''/'' = Inr e"
      "map fst (e_provides e) = [''p'']" "e_logs e = []" "rp_inner (e_required_providers e) = []"
    using ref_endpoint_built [of F] by auto
  obtain cfg where c: "config_evaluate ref_config_ext (Suc F) [] (config_default (Marker 2 2 2)) = Inr cfg"
    using ref_settings [of F] by auto
  have h: "cl_headers (co_client (config_default m)) = []" for m by (simp add: config_default_def client_default_def)
  from e obtain v where "e_provides e = [(''p'', v)]" by auto
  with e c h show ?thesis
    by (simp add: load_test_from_preprocessed_def ref_file_def optional_def provider_of_def add_logger_def
      ref_logger append_processed_logger_def Let_def verify_providers_def verify_loggers_def)
      (simp add: rp_extend_def rp_new_def bt_extend_def verify_providers_def verify_loggers_def)
qed



subsection \<open>Load patterns\<close>

definition builder_pieces :: "linear_builder option \<Rightarrow> linear_builder_piece list" where
  "builder_pieces b = (case b of Some lb \<Rightarrow> lb_pieces lb | None \<Rightarrow> [])"

definition builder_duration :: "linear_builder option \<Rightarrow> duration" where
  "builder_duration b = (case b of Some lb \<Rightarrow> lb_duration lb | None \<Rightarrow> 0)"

text \<open>How the pieces of a load pattern follow each other, \<open>last_end\<close> before the first.\<close>

fun pieces_follow :: "f64 \<Rightarrow> load_pattern_pre list \<Rightarrow> linear_builder_piece list \<Rightarrow> bool" where
  "pieces_follow last_end [] [] \<longleftrightarrow> True"
| "pieces_follow last_end (Linear p # ps) (q # qs) \<longleftrightarrow>
     (linear_from p = None \<longrightarrow> pc_start_percent q = last_end) \<and> pieces_follow (pc_end_percent q) ps qs"
| "pieces_follow last_end _ _ \<longleftrightarrow> False"

lemma load_pattern_pieces_follow:
  "load_pattern_pieces X F vars ps last_end b = Inr b' \<Longrightarrow>
    \<exists>qs. builder_pieces b' = builder_pieces b @ qs \<and> pieces_follow last_end ps qs \<and>
      builder_duration b' = builder_duration b + sum_list (map pc_duration qs) \<and>
      (b' \<noteq> None \<longleftrightarrow> b \<noteq> None \<or> ps \<noteq> []) \<and> (builder_duration b < duration_limit \<longrightarrow> builder_duration b' < duration_limit)"
proof (induction X F vars ps last_end b rule: load_pattern_pieces.induct)
  case (2 X F vars p ps last_end b)
  then obtain start to over lb where s:
      "(case linear_from p of Some q \<Rightarrow> res_map (\<lambda>x. f64_div x (f64_of_nat 100)) (pre_percent_evaluate X F vars q)
         | None \<Rightarrow> Inr last_end) = Inr start"
      "pre_percent_evaluate X F vars (linear_to p) = Inr to" "pre_duration_evaluate X F vars (linear_over p) = Inr over"
    and lb: "(case b of Some lb \<Rightarrow> linear_builder_append start (f64_div to (f64_of_nat 100)) over lb
       | None \<Rightarrow> linear_builder_new start (f64_div to (f64_of_nat 100)) over) = Inr lb"
    and rest: "load_pattern_pieces X F vars ps (f64_div to (f64_of_nat 100)) (Some lb) = Inr b'"
    by (auto simp: res_bind_eq_Inr Let_def)
  define q where "q = \<lparr>pc_start_percent = start, pc_end_percent = f64_div to (f64_of_nat 100), pc_duration = over\<rparr>"
  have q: "builder_pieces (Some lb) = builder_pieces b @ [q]" "builder_duration (Some lb) = builder_duration b + over"
      "builder_duration b < duration_limit \<longrightarrow> builder_duration (Some lb) < duration_limit"
    using lb by (auto simp: q_def builder_pieces_def builder_duration_def linear_builder_new_def linear_builder_append_def
        dur_add_def split: option.splits if_splits)
  from "2.IH" [OF s(1,2) refl s(3) lb rest] obtain qs where qs: "builder_pieces b' = builder_pieces (Some lb) @ qs"
      "pieces_follow (f64_div to (f64_of_nat 100)) ps qs"
      "builder_duration b' = builder_duration (Some lb) + sum_list (map pc_duration qs)" "b' \<noteq> None"
      "builder_duration (Some lb) < duration_limit \<longrightarrow> builder_duration b' < duration_limit"
    by auto
  have "linear_from p = None \<longrightarrow> start = last_end" using s(1) by auto
  with q qs show ?case by (intro exI [of _ "q # qs"]) (auto simp: q_def)
qed (auto intro: exI [of _ "[]"])

text \<open>
  C34. An evaluated load pattern has a piece for each one written, in their order. A piece without \<open>from\<close> starts
  where the one before it ends, the first at zero, and the duration is the sum of those of the pieces.
\<close>

theorem load_pattern_continuous:
  assumes "pre_load_pattern_evaluate X F vars (ps, m) = Inr lb"
  shows "pieces_follow (f64_zero False) ps (lb_pieces lb) \<and> lb_duration lb = sum_list (map pc_duration (lb_pieces lb)) \<and>
    lb_duration lb < duration_limit"
proof -
  have "load_pattern_pieces X F vars ps (f64_zero False) None = Inr (Some lb)"
    using assms by (auto simp: pre_load_pattern_evaluate_def res_bind_eq_Inr split: option.splits)
  from load_pattern_pieces_follow [OF this] show ?thesis
    by (auto simp: builder_pieces_def builder_duration_def duration_limit_def nanos_per_sec_def)
qed


theorem load_pattern_continuous_witness:
  "\<exists>lb. pre_load_pattern_evaluate ref_config_ext 1 []
       ([Linear \<lparr>linear_from = None, linear_to = plain_text ''5'', linear_over = plain_text ''60s''\<rparr>,
         Linear \<lparr>linear_from = None, linear_to = plain_text ''7'', linear_over = plain_text ''90s''\<rparr>], Marker 2 2 2) = Inr lb \<and>
     map pc_start_percent (lb_pieces lb) = f64_zero False # map pc_end_percent (butlast (lb_pieces lb)) \<and>
     lb_duration lb = 150000000000"
proof -
  let ?ps = "[Linear \<lparr>linear_from = None, linear_to = plain_text ''5'', linear_over = plain_text ''60s''\<rparr>,
    Linear \<lparr>linear_from = None, linear_to = plain_text ''7'', linear_over = plain_text ''90s''\<rparr>]"
  have p: "pre_percent_evaluate ref_config_ext (Suc 0) [] (plain_text ''5'') = Inr (f64_round False 5 1 0)"
    "pre_percent_evaluate ref_config_ext (Suc 0) [] (plain_text ''7'') = Inr (f64_round False 7 1 0)"
    by (simp_all add: pre_percent_evaluate_def ref_evaluate f64_from_str_def decimal_parts_def digits_value_def is_digit_def
        Let_def)
  obtain lb where lb: "pre_load_pattern_evaluate ref_config_ext 1 [] (?ps, Marker 2 2 2) = Inr lb"
      "length (lb_pieces lb) = 2" "map pc_duration (lb_pieces lb) = [60000000000, 90000000000]"
    by (auto simp: pre_load_pattern_evaluate_def p ref_duration linear_builder_new_def linear_builder_append_def
        dur_add_def duration_limit_def nanos_per_sec_def Let_def)
  then obtain q1 q2 where q: "lb_pieces lb = [q1, q2]" by (auto simp: length_Suc_conv numeral_2_eq_2)
  from load_pattern_continuous [OF lb(1)] lb q show ?thesis by (intro exI [of _ lb]) simp
qed

subsection \<open>Durations\<close>

definition unit_seconds :: "string \<Rightarrow> nat" where
  "unit_seconds u =
     (if take 1 u \<in> {''d'', ''D''} then 86400 else if take 1 u \<in> {''h'', ''H''} then 3600
      else if take 1 u \<in> {''m'', ''M''} then 60 else 1)"

definition parts_seconds :: "(string option \<times> string \<times> string) list \<Rightarrow> nat" where
  "parts_seconds parts = (\<Sum>(w, ds, u)\<leftarrow>parts. the (parse_unsigned (2 ^ 64) ds) * unit_seconds u)"

lemma capture_secs_part:
  "parse_unsigned (2 ^ 64) ds = Some n \<Longrightarrow> capture_secs [w, Some ds, Some u] = Inr (word_of_nat (n * unit_seconds u))"
  by (simp add: capture_secs_def unit_seconds_def Let_def mult.assoc)

lemma captures_secs_sum:
  assumes "\<forall>(w, ds, u)\<in>set parts. parse_unsigned (2 ^ 64) ds \<noteq> None"
  shows "\<exists>secs. collect_res (map (\<lambda>(w, ds, u). capture_secs [w, Some ds, Some u]) parts) = Inr secs \<and>
    sum_list secs = word_of_nat (parts_seconds parts)"
  using assms
  by (induction parts) (auto simp: parts_seconds_def capture_secs_part)

text \<open>
  C35. A duration is the sum of its parts, days, hours, minutes or seconds by the first letter of the unit. The sum
  is taken in 64 bits and wraps around.
\<close>

theorem duration_sum:
  assumes "x_regex_new (cx_ext X) duration_sanity_re = Some sanity_re" "x_captures (cx_ext X) sanity_re dur \<noteq> None"
    and "x_regex_new (cx_ext X) duration_base_re = Some re"
    and "cx_captures_iter X re dur = map (\<lambda>(w, ds, u). [w, Some ds, Some u]) parts"
    and "\<forall>(w, ds, u)\<in>set parts. parse_unsigned (2 ^ 64) ds \<noteq> None"
  shows "duration_from_string2 X dur m = Inr (parts_seconds parts mod 2 ^ 64 * nanos_per_sec)"
proof -
  obtain secs where "collect_res (map (\<lambda>(w, ds, u). capture_secs [w, Some ds, Some u]) parts) = Inr secs"
      "sum_list secs = word_of_nat (parts_seconds parts)"
    using captures_secs_sum [OF assms(5)] by blast
  with assms(1-4) show ?thesis
    by (simp add: duration_from_string2_def comp_def case_prod_beta' unat_of_nat)
qed

theorem duration_sum_witness:
  "duration_from_string2 (ref_config_ext\<lparr>cx_captures_iter := \<lambda>r s.
       [[Some ''5h '', Some ''5'', Some ''h''], [Some ''5 days'', Some ''5'', Some ''days'']]\<rparr>) ''5h 5 days'' (Marker 2 2 2) =
   Inr (450000 * nanos_per_sec)"
proof -
  let ?parts = "[(Some ''5h '', ''5'', ''h''), (Some ''5 days'', ''5'', ''days'')]"
  have d: "parse_unsigned (2 ^ 64) ''5'' = Some 5" by (simp add: parse_unsigned_def digits_value_def is_digit_def)
  then have "parts_seconds ?parts = 450000" by (simp add: parts_seconds_def unit_seconds_def)
  with duration_sum [of "ref_config_ext\<lparr>cx_captures_iter := \<lambda>r s.
       [[Some ''5h '', Some ''5'', Some ''h''], [Some ''5 days'', Some ''5'', Some ''days'']]\<rparr>"
      "Regex duration_sanity_re" "''5h 5 days''" "Regex duration_base_re" ?parts "Marker 2 2 2"] d
  show ?thesis by simp
qed

end
