(* ===== verification/FileIo.thy ===== *)
theory FileIo
  imports Json
begin

text \<open>
  What \<open>std\<close> gives the file readers of \<open>src/providers\<close>: an open file, \<open>read\<close>, \<open>read_exact\<close> and
  \<open>seek\<close>, and \<open>String::from_utf8_lossy\<close>. Bytes are characters, as in strings. A file carries the
  behaviour of its coming reads: an error, or the most bytes the read gives; when the list is used up a read
  gives what it is asked for. A read at the end of the file, and only there, gives nothing.
\<close>

datatype io_error = UnexpectedEof | Interrupted | OtherIoError string

record os_file =
  f_bytes :: string
  f_pos :: nat
  f_reads :: "(io_error + nat) list"

definition file_open :: "string \<Rightarrow> (io_error + nat) list \<Rightarrow> os_file" where
  "file_open bytes reads = \<lparr>f_bytes = bytes, f_pos = 0, f_reads = reads\<rparr>"

definition file_rest :: "os_file \<Rightarrow> string" where
  "file_rest f = drop (f_pos f) (f_bytes f)"

fun read_size :: "nat \<Rightarrow> (io_error + nat) list \<Rightarrow> nat" where
  "read_size len (Inr n # _) = min len (max 1 n)"
| "read_size len _ = len"

definition file_read :: "nat \<Rightarrow> os_file \<Rightarrow> (io_error + string) \<times> os_file" where
  "file_read len f =
     (case f_reads f of
        Inl e # rs \<Rightarrow> (Inl e, f\<lparr>f_reads := rs\<rparr>)
      | rs \<Rightarrow>
          (let bs = take (read_size len rs) (file_rest f) in
           (Inr bs, f\<lparr>f_pos := f_pos f + length bs, f_reads := tl rs\<rparr>)))"

definition file_seek :: "nat \<Rightarrow> os_file \<Rightarrow> os_file" where
  "file_seek p f = f\<lparr>f_pos := p\<rparr>"

lemma file_read_result:
  "file_read len f = (Inr bs, f') \<longleftrightarrow>
     (\<forall>e rs. f_reads f \<noteq> Inl e # rs) \<and> bs = take (read_size len (f_reads f)) (file_rest f) \<and>
     f' = f\<lparr>f_pos := f_pos f + length bs, f_reads := tl (f_reads f)\<rparr>"
  by (auto simp: file_read_def Let_def split: list.split sum.split)

lemma read_size_bounds: "read_size len rs \<le> len" "read_size len rs = 0 \<longleftrightarrow> len = 0"
  by (induction len rs rule: read_size.induct) (auto simp: min_def)

lemma file_rest_after: "drop (p + length (take n (drop p bs))) bs = drop n (drop p bs)"
  by (cases "n \<le> length (drop p bs)") (auto simp: add.commute)

lemma file_read_ok:
  assumes "file_read len f = (Inr bs, f')"
  shows "f_bytes f' = f_bytes f" "file_rest f = bs @ file_rest f'" "length bs \<le> len"
    "bs = [] \<longleftrightarrow> len = 0 \<or> file_rest f = []" "f_reads f' = tl (f_reads f)"
proof -
  from assms have bs: "bs = take (read_size len (f_reads f)) (file_rest f)" and
      f': "f' = f\<lparr>f_pos := f_pos f + length bs, f_reads := tl (f_reads f)\<rparr>"
    by (simp_all add: file_read_result)
  show "f_bytes f' = f_bytes f" "f_reads f' = tl (f_reads f)" by (simp_all add: f')
  have "file_rest f' = drop (read_size len (f_reads f)) (file_rest f)"
    unfolding f' bs by (simp add: file_rest_def file_rest_after del: length_take)
  then show "file_rest f = bs @ file_rest f'" by (simp add: bs)
  show "length bs \<le> len" using read_size_bounds(1) [of len "f_reads f"] by (simp add: bs)
  show "bs = [] \<longleftrightarrow> len = 0 \<or> file_rest f = []" by (simp add: bs read_size_bounds)
qed

lemma file_read_error:
  assumes "file_read len f = (Inl e, f')"
  shows "f' = f\<lparr>f_reads := tl (f_reads f)\<rparr>" "\<exists>rs. f_reads f = Inl e # rs"
  using assms by (auto simp: file_read_def Let_def split: list.splits sum.splits)

text \<open>\<open>read_exact\<close> tries again after an interruption and is an error when the file ends first.\<close>

function read_exact :: "nat \<Rightarrow> os_file \<Rightarrow> (io_error + string) \<times> os_file" where
  "read_exact len f =
     (if len = 0 then (Inr [], f)
      else (case file_read len f of
          (Inl e, f') \<Rightarrow> if e = Interrupted then read_exact len f' else (Inl e, f')
        | (Inr bs, f') \<Rightarrow>
            if bs = [] then (Inl UnexpectedEof, f')
            else (case read_exact (len - length bs) f' of
                (Inl e, f'') \<Rightarrow> (Inl e, f'')
              | (Inr bs', f'') \<Rightarrow> (Inr (bs @ bs'), f''))))"
  by pat_completeness auto

termination
proof (relation "measure (\<lambda>(len, f). len + length (f_reads f))", goal_cases)
  case (2 len f r f' e)
  then show ?case using file_read_error [of len f e f'] by (auto dest!: sym [of _ "f_reads f"])
next
  case (3 len f r f' bs)
  then have "bs \<noteq> []" "file_read len f = (Inr bs, f')" "0 < len" by auto
  then show ?case using file_read_ok(5) [of len f bs f'] by (cases bs) (auto intro: add_less_le_mono)
qed simp

declare read_exact.simps [simp del]

definition no_errors :: "os_file \<Rightarrow> bool" where
  "no_errors f = list_all (\<lambda>r. \<not> isl r) (f_reads f)"

lemma file_read_no_errors:
  assumes "no_errors f"
  obtains bs f' where "file_read len f = (Inr bs, f')" "no_errors f'"
proof
  show "file_read len f = (Inr (take (read_size len (f_reads f)) (file_rest f)),
      f\<lparr>f_pos := f_pos f + length (take (read_size len (f_reads f)) (file_rest f)), f_reads := tl (f_reads f)\<rparr>)"
    using assms by (auto simp: file_read_result no_errors_def)
  show "no_errors (f\<lparr>f_pos := f_pos f + length (take (read_size len (f_reads f)) (file_rest f)), f_reads := tl (f_reads f)\<rparr>)"
    using assms by (cases "f_reads f") (simp_all add: no_errors_def)
qed

lemma read_exact_ok:
  assumes "no_errors f" "len \<le> length (file_rest f)"
  shows "\<exists>f'. read_exact len f = (Inr (take len (file_rest f)), f') \<and> f_bytes f' = f_bytes f \<and>
    file_rest f' = drop len (file_rest f) \<and> no_errors f'"
  using assms
proof (induction len arbitrary: f rule: less_induct)
  case (less len)
  show ?case
  proof (cases "len = 0")
    case False
    obtain bs f' where r: "file_read len f = (Inr bs, f')" "no_errors f'"
      using file_read_no_errors [OF less.prems(1), of len] by metis
    note ok = file_read_ok [OF r(1)]
    have bs: "bs \<noteq> []" using ok(4) False less.prems by auto
    have "len - length bs < len" "len - length bs \<le> length (file_rest f')"
      using bs False less.prems(2) ok(2) by (cases bs; simp)+
    from less.IH [OF this(1) r(2) this(2)] obtain f'' where "read_exact (len - length bs) f' = (Inr (take (len - length bs) (file_rest f')), f'')"
      "f_bytes f'' = f_bytes f" "file_rest f'' = drop (len - length bs) (file_rest f')" "no_errors f''"
      using ok(1) by auto
    with False bs r ok(2,3) show ?thesis by (simp add: read_exact.simps [of len f])
  qed (simp add: read_exact.simps less.prems)
qed

lemma file_seek_simps [simp]:
  "f_bytes (file_seek p f) = f_bytes f"
  "file_rest (file_seek p f) = drop p (f_bytes f)"
  "no_errors (file_seek p f) = no_errors f"
  by (simp_all add: file_seek_def file_rest_def no_errors_def)

subsection \<open>\<open>String::from_utf8_lossy\<close>\<close>

text \<open>
  After its first byte a sequence is read as far as it can be valid; what cannot be is one replacement
  character. \<open>utf8_tail\<close> tells whether the sequence is complete and how many bytes follow the first.
\<close>

definition in_range :: "nat \<Rightarrow> nat \<Rightarrow> string \<Rightarrow> bool" where
  "in_range lo hi s = (case s of [] \<Rightarrow> False | c # _ \<Rightarrow> lo \<le> of_char c \<and> of_char c \<le> hi)"

abbreviation is_cont :: "string \<Rightarrow> bool" where
  "is_cont s \<equiv> in_range 0x80 0xBF s"

definition second_range :: "nat \<Rightarrow> nat \<times> nat" where
  "second_range b =
     (if b = 0xE0 then (0xA0, 0xBF) else if b = 0xED then (0x80, 0x9F)
      else if b = 0xF0 then (0x90, 0xBF) else if b = 0xF4 then (0x80, 0x8F) else (0x80, 0xBF))"

definition utf8_width :: "nat \<Rightarrow> nat" where
  "utf8_width b =
     (if b < 0x80 then 1 else if 0xC2 \<le> b \<and> b \<le> 0xDF then 2 else if 0xE0 \<le> b \<and> b \<le> 0xEF then 3
      else if 0xF0 \<le> b \<and> b \<le> 0xF4 then 4 else 0)"

definition utf8_tail :: "nat \<Rightarrow> string \<Rightarrow> bool \<times> nat" where
  "utf8_tail b s =
     (let w = utf8_width b; second = (case second_range b of (lo, hi) \<Rightarrow> in_range lo hi s) in
      if w = 0 then (False, 0) else if w = 1 then (True, 0)
      else if w = 2 then (is_cont s, if is_cont s then 1 else 0)
      else if \<not> second then (False, 0)
      else if \<not> is_cont (drop 1 s) then (False, 1)
      else if w = 3 then (True, 2)
      else if \<not> is_cont (drop 2 s) then (False, 2) else (True, 3))"

definition replacement_char :: string where
  "replacement_char = [CHR 0xEF, CHR 0xBF, CHR 0xBD]"

function from_utf8_lossy :: "string \<Rightarrow> string" where
  "from_utf8_lossy [] = []"
| "from_utf8_lossy (c # s) =
     (let (valid, n) = utf8_tail (of_char c) s in
      (if valid then c # take n s else replacement_char) @ from_utf8_lossy (drop n s))"
  by pat_completeness auto
termination by (relation "measure length") auto

lemma from_utf8_lossy_ascii: "list_all (\<lambda>c. of_char c < (0x80 :: nat)) s \<Longrightarrow> from_utf8_lossy s = s"
  by (induction s) (auto simp: utf8_tail_def utf8_width_def)

end
