(* ===== verification/Readers.thy ===== *)
theory Readers
  imports FileIo
begin

text \<open>
  What the readers of \<open>src/providers\<close> share: the iterator of a file provider as the task of
  \<open>providers::into_stream\<close> calls it, once per item, and \<open>value_source\<close>, what an iterator of values promises to
  that task.
\<close>

fun take_items :: "('r \<Rightarrow> 's \<Rightarrow> 'o \<times> 's) \<Rightarrow> 'r list \<Rightarrow> 's \<Rightarrow> 'o list" where
  "take_items nxt [] s = []"
| "take_items nxt (r # rs) s = (case nxt r s of (v, s') \<Rightarrow> v # take_items nxt rs s')"

locale value_source =
  fixes nxt :: "'r \<Rightarrow> 's \<Rightarrow> ('e + 'v) option \<times> 's"
    and left :: "'s \<Rightarrow> 'v list"
    and ok :: "'s \<Rightarrow> bool"
  assumes next_value: "ok s \<Longrightarrow> left s = v # vs \<Longrightarrow>
      fst (nxt r s) = Some (Inr v) \<and> ok (snd (nxt r s)) \<and> left (snd (nxt r s)) = vs"
    and next_end: "ok s \<Longrightarrow> left s = [] \<Longrightarrow>
      fst (nxt r s) = None \<and> ok (snd (nxt r s)) \<and> left (snd (nxt r s)) = []"
begin

lemma drained:
  "ok s \<Longrightarrow> take_items nxt rs s =
     map (Some \<circ> Inr) (take (length rs) (left s)) @ replicate (length rs - length (left s)) None"
proof (induction rs arbitrary: s)
  case (Cons r rs)
  obtain o' s' where n: "nxt r s = (o', s')" by fastforce
  show ?case
  proof (cases "left s")
    case Nil
    with next_end [OF Cons.prems this, of r] n Cons.IH [of s'] show ?thesis by simp
  next
    case (Cons v vs)
    with next_value [OF Cons.prems this, of r] n Cons.IH [of s'] show ?thesis by simp
  qed
qed simp

end

end
