(* ===== verification/LineReader.thy ===== *)
theory LineReader
  imports FileIo
begin

text \<open>
  \<open>src/providers/line_reader.rs\<close>: a file provider that yields a value per line, each line parsed as JSON or
  else taken as text. \<open>serde_json::from_str\<close> is a parameter, and so is each sample of the random number
  generator (below the length of the positions). A drain or slice out of range is \<open>LinePanic\<close>. Then what
  \<open>get_value\<close> does to the bytes not yet yielded.
\<close>

subsection \<open>\<open>util.rs\<close>\<close>

definition str_to_json :: "(string \<Rightarrow> json option) \<Rightarrow> string \<Rightarrow> json" where
  "str_to_json from_str s = (case from_str s of Some v \<Rightarrow> v | None \<Rightarrow> JString s)"

subsection \<open>The reader\<close>

definition kb8 :: nat where
  "kb8 = 8 * 2 ^ 10"

record line_reader =
  lr_byte_buffer :: string
  lr_buf_data_len :: nat
  lr_position :: nat
  lr_positions :: "(nat \<times> nat) list"
  lr_random :: "nat option"
  lr_reader :: os_file
  lr_repeat :: bool

datatype 'v read_outcome = ReadValue 'v nat nat | ReadError io_error | ReadEnd | ReadPanic

text \<open>The search for the end of a line, and the line without its trailing \<open>\r\<close> and \<open>\n\<close>.\<close>

definition new_line_index :: "string \<Rightarrow> nat option" where
  "new_line_index s = (if CHR 0x0A \<in> set s then Some (length (takeWhile (\<lambda>c. c \<noteq> CHR 0x0A) s)) else None)"

definition trim_line_end :: "string \<Rightarrow> string" where
  "trim_line_end s = rev (dropWhile (\<lambda>c. c = CHR 0x0A \<or> c = CHR 0x0D) (rev s))"

definition line_value :: "(string \<Rightarrow> json option) \<Rightarrow> string \<Rightarrow> json" where
  "line_value from_str s = str_to_json from_str (from_utf8_lossy (trim_line_end s))"

definition resize :: "nat \<Rightarrow> string \<Rightarrow> string" where
  "resize n s = take n s @ replicate (n - length s) (CHR 0x00)"

text \<open>\<open>read\<close> into a slice of the buffer from \<open>at\<close>.\<close>

definition fill_buffer :: "string \<Rightarrow> nat \<Rightarrow> string \<Rightarrow> string" where
  "fill_buffer buf from bs = take from buf @ bs @ drop (from + length bs) buf"

definition take_line :: "(string \<Rightarrow> json option) \<Rightarrow> nat \<Rightarrow> nat \<Rightarrow> line_reader \<Rightarrow> json read_outcome \<times> line_reader" where
  "take_line from_str position i s =
     (if length (lr_byte_buffer s) < i + 1 then (ReadPanic, s)
      else
        (ReadValue (line_value from_str (take i (lr_byte_buffer s))) position i,
         s\<lparr>lr_position := lr_position s + (i + 1), lr_byte_buffer := drop (i + 1) (lr_byte_buffer s),
           lr_buf_data_len := lr_buf_data_len s - min (lr_buf_data_len s) (i + 1)\<rparr>))"

function line_loop ::
    "(string \<Rightarrow> json option) \<Rightarrow> nat \<Rightarrow> bool \<Rightarrow> line_reader \<Rightarrow> json read_outcome \<times> line_reader" where
  "line_loop from_str position eof s =
     (if eof \<and> lr_buf_data_len s = 0 then (ReadEnd, s)
      else (case new_line_index (take (lr_buf_data_len s) (lr_byte_buffer s)) of
          Some i \<Rightarrow> take_line from_str position i s
        | None \<Rightarrow>
            if eof then take_line from_str position (lr_buf_data_len s) s
            else
              (let start_length = lr_buf_data_len s;
                   new_length = kb8 + start_length;
                   buf = resize new_length (lr_byte_buffer s);
                   (r, f) = file_read (new_length - start_length) (lr_reader s) in
               case r of
                 Inl e \<Rightarrow> (ReadError e, s\<lparr>lr_byte_buffer := buf, lr_reader := f\<rparr>)
               | Inr bs \<Rightarrow>
                   line_loop from_str position (bs = [])
                     (s\<lparr>lr_byte_buffer := fill_buffer buf start_length bs, lr_reader := f,
                        lr_buf_data_len := start_length + length bs\<rparr>))))"
  by pat_completeness auto

termination
proof (relation "measure (\<lambda>(_, _, eof, s). 2 * length (file_rest (lr_reader s)) + (if eof then 0 else 1))", goal_cases)
  case (2 from_str position eof s start_length new_length buf p r f bs)
  then have "file_read kb8 (lr_reader s) = (Inr bs, f)" by (auto split: prod.splits)
  with file_read_ok(2) [OF this] 2 show ?case by (cases bs) auto
qed simp

declare line_loop.simps [simp del]

definition line_get_value ::
    "(string \<Rightarrow> json option) \<Rightarrow> nat option \<Rightarrow> line_reader \<Rightarrow> json read_outcome \<times> line_reader" where
  "line_get_value from_str size_hint s =
     (case size_hint of
        None \<Rightarrow> line_loop from_str (lr_position s) False s
      | Some hint \<Rightarrow>
          (let buf = lr_byte_buffer s @ replicate (hint - length (lr_byte_buffer s)) (CHR 0x00);
               s = s\<lparr>lr_byte_buffer := buf, lr_position := lr_position s + hint\<rparr>;
               (r, f) = read_exact hint (lr_reader s) in
           case r of
             Inl e \<Rightarrow> (ReadError e, s\<lparr>lr_reader := f\<rparr>)
           | Inr bs \<Rightarrow>
               (let s = s\<lparr>lr_byte_buffer := fill_buffer buf 0 bs, lr_reader := f, lr_buf_data_len := hint\<rparr> in
                line_loop from_str (lr_position s) False s)))"

definition line_seek :: "nat \<Rightarrow> line_reader \<Rightarrow> line_reader" where
  "line_seek p s = s\<lparr>lr_buf_data_len := 0, lr_reader := file_seek p (lr_reader s), lr_position := p\<rparr>"

text \<open>
  \<open>new\<close>: with \<open>random\<close> the whole file is read for the positions of its lines. The loop is bounded by the
  length of the file, one value per byte at most.
\<close>

fun line_index :: "nat \<Rightarrow> (string \<Rightarrow> json option) \<Rightarrow> line_reader \<Rightarrow> (io_error option + line_reader)" where
  "line_index fuel from_str s =
     (case line_get_value from_str None s of
        (ReadValue _ pos len, s') \<Rightarrow>
          (case fuel of
             0 \<Rightarrow> Inl None
           | Suc fuel \<Rightarrow> line_index fuel from_str (s'\<lparr>lr_positions := lr_positions s' @ [(pos, len)]\<rparr>))
      | (ReadError e, _) \<Rightarrow> Inl (Some e)
      | (ReadPanic, _) \<Rightarrow> Inl None
      | (ReadEnd, s') \<Rightarrow> Inr s')"

definition line_reader_new ::
    "(string \<Rightarrow> json option) \<Rightarrow> bool \<Rightarrow> bool \<Rightarrow> nat \<Rightarrow> os_file \<Rightarrow> io_error option + line_reader" where
  "line_reader_new from_str random repeat sample file =
     (let s = \<lparr>lr_byte_buffer = replicate kb8 (CHR 0x00), lr_buf_data_len = 0, lr_position = 0,
               lr_positions = [], lr_random = None, lr_reader = file, lr_repeat = repeat\<rparr> in
      if random then
        res_bind (line_index (length (f_bytes file)) from_str s) (\<lambda>s.
          let n = length (lr_positions s) in
          Inr (if n = 0 then s else (line_seek (fst (lr_positions s ! sample)) s)\<lparr>lr_random := Some n\<rparr>))
      else Inr (if repeat then s\<lparr>lr_positions := [(0, 0)]\<rparr> else s))"

definition outcome_item :: "'v read_outcome \<Rightarrow> (io_error + 'v) option" where
  "outcome_item r = (case r of ReadValue v _ _ \<Rightarrow> Some (Inr v) | ReadError e \<Rightarrow> Some (Inl e) | _ \<Rightarrow> None)"

definition line_next ::
    "(string \<Rightarrow> json option) \<Rightarrow> nat \<Rightarrow> line_reader \<Rightarrow> (io_error + json) option \<times> line_reader" where
  "line_next from_str sample s =
     (if lr_random s \<noteq> None \<and> lr_positions s = [] then (None, s)
      else
        (let (hint, s) =
           (case lr_random s of
              None \<Rightarrow> (None, s)
            | Some _ \<Rightarrow>
                (let i = sample mod length (lr_positions s);
                     (pos, len) = lr_positions s ! i;
                     s = (if lr_repeat s then s
                          else s\<lparr>lr_positions := take i (lr_positions s) @ drop (i + 1) (lr_positions s)\<rparr>) in
                 (Some len, line_seek pos s)));
           (result, s) = line_get_value from_str hint s in
         case result of
           ReadEnd \<Rightarrow>
             if lr_repeat s then
               (case lr_positions s of
                  [] \<Rightarrow> (None, s)
                | (pos, len) # _ \<Rightarrow>
                    (case line_get_value from_str (Some len) (line_seek pos s) of
                       (r, s) \<Rightarrow> (outcome_item r, s)))
             else (None, s)
         | r \<Rightarrow> (outcome_item r, s)))"

subsection \<open>The bytes not yet yielded\<close>

definition line_rest :: "line_reader \<Rightarrow> string" where
  "line_rest s = take (lr_buf_data_len s) (lr_byte_buffer s) @ file_rest (lr_reader s)"

definition line_ok :: "string \<Rightarrow> line_reader \<Rightarrow> bool" where
  "line_ok bytes s \<longleftrightarrow>
     f_bytes (lr_reader s) = bytes \<and> no_errors (lr_reader s) \<and> lr_buf_data_len s \<le> length (lr_byte_buffer s)"

definition same_source :: "line_reader \<Rightarrow> line_reader \<Rightarrow> bool" where
  "same_source s s' \<longleftrightarrow>
     lr_positions s' = lr_positions s \<and> lr_random s' = lr_random s \<and> lr_repeat s' = lr_repeat s"

text \<open>The first line of some bytes and what follows it.\<close>

definition first_line :: "string \<Rightarrow> string" where
  "first_line bs = takeWhile (\<lambda>c. c \<noteq> CHR 0x0A) bs"

definition after_line :: "string \<Rightarrow> string" where
  "after_line bs = drop (length (first_line bs) + 1) bs"

lemma first_line_append: "CHR 0x0A \<in> set xs \<Longrightarrow> first_line (xs @ ys) = first_line xs"
  by (auto simp: first_line_def takeWhile_append)

lemma first_line_none: "CHR 0x0A \<notin> set xs \<Longrightarrow> first_line xs = xs"
  by (simp add: first_line_def takeWhile_eq_all_conv) (metis)

lemma length_first_line: "length (first_line xs) < length xs \<longleftrightarrow> CHR 0x0A \<in> set xs"
proof
  show "CHR 0x0A \<in> set xs" if "length (first_line xs) < length xs"
    using that first_line_none [of xs] by (cases "CHR 0x0A \<in> set xs") auto
  show "length (first_line xs) < length xs" if "CHR 0x0A \<in> set xs"
    using that unfolding first_line_def by (induction xs) auto
qed

lemma length_after_line: "bs \<noteq> [] \<Longrightarrow> length (after_line bs) < length bs"
  by (simp add: after_line_def)

lemma take_first_line: "take (length (first_line xs)) xs = first_line xs"
  unfolding first_line_def by (rule takeWhile_eq_take [symmetric])

lemma take_line_new_line:
  assumes "line_ok bytes s" "CHR 0x0A \<in> set (take (lr_buf_data_len s) (lr_byte_buffer s))"
  shows "\<exists>s'. take_line from_str position (length (first_line (take (lr_buf_data_len s) (lr_byte_buffer s)))) s =
      (ReadValue (line_value from_str (first_line (line_rest s))) position (length (first_line (line_rest s))), s') \<and>
    line_ok bytes s' \<and> same_source s s' \<and> line_rest s' = after_line (line_rest s) \<and>
    lr_position s' = lr_position s + length (first_line (line_rest s)) + 1"
proof -
  let ?n = "lr_buf_data_len s" and ?buf = "lr_byte_buffer s"
  let ?i = "length (first_line (take ?n ?buf))"
  have i: "?i < ?n" "?i < length ?buf"
    using length_first_line [of "take ?n ?buf"] assms by (auto simp: line_ok_def)
  have fl: "first_line (line_rest s) = first_line (take ?n ?buf)"
    unfolding line_rest_def by (rule first_line_append) (fact assms)
  have "take ?i ?buf = take ?i (take ?n ?buf)" using i by (simp add: min_def)
  then have v: "take ?i ?buf = first_line (line_rest s)" by (simp only: take_first_line fl)
  have "take (?n - (?i + 1)) (drop (?i + 1) ?buf) @ file_rest (lr_reader s) = after_line (line_rest s)"
    using i assms(1) by (simp add: after_line_def fl line_ok_def) (simp add: line_rest_def drop_take)
  with i v fl assms(1) show ?thesis
    by (auto simp: take_line_def line_ok_def same_source_def line_rest_def min_def)
qed

lemma new_line_index_Some:
  "new_line_index bs = Some i \<longleftrightarrow> CHR 0x0A \<in> set bs \<and> i = length (first_line bs)"
  by (auto simp: new_line_index_def first_line_def)

lemma new_line_index_None: "new_line_index bs = None \<longleftrightarrow> CHR 0x0A \<notin> set bs"
  by (simp add: new_line_index_def)

lemma length_resize [simp]: "length (resize n s) = n"
  by (simp add: resize_def)

lemma length_fill_buffer: "from + length bs \<le> length buf \<Longrightarrow> length (fill_buffer buf from bs) = length buf"
  by (simp add: fill_buffer_def)

lemma fill_resized:
  assumes "n \<le> length buf" "length bs \<le> k"
  shows "take (n + length bs) (fill_buffer (resize (k + n) buf) n bs) = take n buf @ bs"
    "length (fill_buffer (resize (k + n) buf) n bs) = k + n"
proof -
  have "take n (resize (k + n) buf) = take n buf" using assms by (simp add: resize_def)
  then show "take (n + length bs) (fill_buffer (resize (k + n) buf) n bs) = take n buf @ bs"
    using assms by (simp add: fill_buffer_def)
  show "length (fill_buffer (resize (k + n) buf) n bs) = k + n"
    using assms by (simp add: length_fill_buffer)
qed

lemma line_loop_value:
  assumes "line_ok bytes s" "line_rest s \<noteq> []"
    "eof \<longrightarrow> file_rest (lr_reader s) = [] \<and> lr_buf_data_len s < length (lr_byte_buffer s)"
  shows "\<exists>s'. line_loop from_str position eof s =
      (ReadValue (line_value from_str (first_line (line_rest s))) position (length (first_line (line_rest s))), s') \<and>
    line_ok bytes s' \<and> same_source s s' \<and> line_rest s' = after_line (line_rest s) \<and>
    lr_position s' = lr_position s + length (first_line (line_rest s)) + 1"
  using assms
proof (induction from_str position eof s rule: line_loop.induct)
  case (1 from_str position eof s)
  let ?n = "lr_buf_data_len s" and ?buf = "lr_byte_buffer s"
  have more: "\<not> (eof \<and> ?n = 0)" using "1.prems" by (auto simp: line_rest_def)
  consider (line) "CHR 0x0A \<in> set (take ?n ?buf)"
    | (last) "CHR 0x0A \<notin> set (take ?n ?buf)" eof
    | (more) "CHR 0x0A \<notin> set (take ?n ?buf)" "\<not> eof" by blast
  then show ?case
  proof cases
    case line
    then have "line_loop from_str position eof s = take_line from_str position (length (first_line (take ?n ?buf))) s"
      by (subst line_loop.simps) (use more line in \<open>auto simp: new_line_index_def first_line_def\<close>)
    with take_line_new_line [OF "1.prems"(1) line] show ?thesis by simp
  next
    case last
    then have "line_loop from_str position eof s = take_line from_str position ?n s"
      by (subst line_loop.simps) (use more last in \<open>auto simp: new_line_index_def\<close>)
    moreover have "line_rest s = take ?n ?buf" using "1.prems" last by (simp add: line_rest_def)
    ultimately show ?thesis using "1.prems" last first_line_none [of "take ?n ?buf"]
      by (auto simp: take_line_def line_ok_def same_source_def after_line_def line_rest_def)
  next
    case more': more
    obtain bs f where r: "file_read kb8 (lr_reader s) = (Inr bs, f)" "no_errors f"
      using file_read_no_errors [of "lr_reader s" kb8] "1.prems" by (metis line_ok_def)
    note ok = file_read_ok [OF r(1)]
    let ?s = "s\<lparr>lr_byte_buffer := fill_buffer (resize (kb8 + ?n) ?buf) ?n bs, lr_reader := f, lr_buf_data_len := ?n + length bs\<rparr>"
    have n: "?n \<le> length ?buf" using "1.prems" by (simp add: line_ok_def)
    note filled = fill_resized [OF n ok(3)]
    have rest: "line_rest ?s = line_rest s" using filled(1) ok(2) by (simp add: line_rest_def)
    have "line_ok bytes ?s" using "1.prems"(1) r(2) ok(1,3) by (simp add: line_ok_def filled(2))
    moreover have "(bs = []) \<longrightarrow> file_rest (lr_reader ?s) = [] \<and> lr_buf_data_len ?s < length (lr_byte_buffer ?s)"
      using ok(2,4) filled(2) by (auto simp: kb8_def)
    moreover have "line_loop from_str position eof s = line_loop from_str position (bs = []) ?s"
      by (subst line_loop.simps) (use more' r in \<open>simp add: new_line_index_def Let_def\<close>)
    moreover have "line_rest ?s \<noteq> []" using rest "1.prems"(2) by simp
    moreover have "\<exists>s'. line_loop from_str position (bs = []) ?s =
        (ReadValue (line_value from_str (first_line (line_rest ?s))) position (length (first_line (line_rest ?s))), s') \<and>
        line_ok bytes s' \<and> same_source ?s s' \<and> line_rest s' = after_line (line_rest ?s) \<and>
        lr_position s' = lr_position ?s + length (first_line (line_rest ?s)) + 1"
      if "line_ok bytes ?s" "line_rest ?s \<noteq> []"
        "(bs = []) \<longrightarrow> file_rest (lr_reader ?s) = [] \<and> lr_buf_data_len ?s < length (lr_byte_buffer ?s)"
      by (rule "1.IH" [OF more _ _ refl refl refl _ refl _ that])
        (use more' r in \<open>simp_all add: new_line_index_def\<close>)
    ultimately show ?thesis
      unfolding rest by (simp add: same_source_def)
  qed
qed

lemma line_loop_end:
  assumes "line_ok bytes s" "line_rest s = []"
  shows "\<exists>s'. line_loop from_str position False s = (ReadEnd, s') \<and>
    line_ok bytes s' \<and> same_source s s' \<and> line_rest s' = [] \<and> lr_position s' = lr_position s"
proof -
  have n: "lr_buf_data_len s = 0 \<or> lr_byte_buffer s = []" and eof: "file_rest (lr_reader s) = []"
    using assms by (auto simp: line_rest_def)
  with assms have n: "lr_buf_data_len s = 0" by (auto simp: line_ok_def)
  obtain bs f where r: "file_read kb8 (lr_reader s) = (Inr bs, f)" "no_errors f"
    using file_read_no_errors [of "lr_reader s" kb8] assms by (metis line_ok_def)
  with file_read_ok [OF r(1)] eof have "bs = []" "f_bytes f = f_bytes (lr_reader s)" "file_rest f = []" by auto
  with r n assms show ?thesis
    by (subst line_loop.simps, subst line_loop.simps)
       (auto simp: new_line_index_def Let_def line_ok_def same_source_def line_rest_def)
qed

lemma line_get_value_next:
  assumes "line_ok bytes s" "line_rest s \<noteq> []"
  shows "\<exists>s'. line_get_value from_str None s =
      (ReadValue (line_value from_str (first_line (line_rest s))) (lr_position s) (length (first_line (line_rest s))), s') \<and>
    line_ok bytes s' \<and> same_source s s' \<and> line_rest s' = after_line (line_rest s) \<and>
    lr_position s' = lr_position s + length (first_line (line_rest s)) + 1"
  using line_loop_value [OF assms] by (simp add: line_get_value_def)

lemma line_get_value_end:
  assumes "line_ok bytes s" "line_rest s = []"
  shows "\<exists>s'. line_get_value from_str None s = (ReadEnd, s') \<and>
    line_ok bytes s' \<and> same_source s s' \<and> line_rest s' = [] \<and> lr_position s' = lr_position s"
  using line_loop_end [OF assms] by (simp add: line_get_value_def)

text \<open>After a seek the length of the line is read first; the line that follows is the same.\<close>

lemma line_get_value_hint:
  assumes "line_ok bytes s" "hint \<le> length bytes - pos"
  shows "\<exists>t. line_get_value from_str (Some hint) (line_seek pos s) = line_loop from_str (lr_position t) False t \<and>
    line_ok bytes t \<and> same_source s t \<and> line_rest t = drop pos bytes"
proof -
  let ?s = "line_seek pos s"
  have ok: "no_errors (lr_reader ?s)" "hint \<le> length (file_rest (lr_reader ?s))" "file_rest (lr_reader ?s) = drop pos bytes"
    using assms by (simp_all add: line_seek_def line_ok_def)
  from read_exact_ok [OF ok(1,2)] obtain f where r:
    "read_exact hint (lr_reader ?s) = (Inr (take hint (drop pos bytes)), f)" "f_bytes f = bytes"
    "file_rest f = drop hint (drop pos bytes)" "no_errors f"
    using ok(3) assms by (auto simp: line_seek_def line_ok_def)
  let ?buf = "lr_byte_buffer s @ replicate (hint - length (lr_byte_buffer s)) (CHR 0x00)"
  have h: "length (take hint (drop pos bytes)) = hint" using assms by simp
  have buf: "length (fill_buffer ?buf 0 (take hint (drop pos bytes))) = length ?buf"
    using h by (intro length_fill_buffer) simp
  have "take hint (fill_buffer ?buf 0 (take hint (drop pos bytes))) = take hint (drop pos bytes)"
    using h by (simp add: fill_buffer_def)
  moreover have "take hint (drop pos bytes) @ drop hint (drop pos bytes) = drop pos bytes"
    by (rule append_take_drop_id)
  ultimately show ?thesis using r buf h
    by (intro exI [where x = "?s\<lparr>lr_position := pos + hint,
        lr_byte_buffer := fill_buffer ?buf 0 (take hint (drop pos bytes)), lr_reader := f, lr_buf_data_len := hint\<rparr>"])
      (simp add: line_get_value_def Let_def line_seek_def line_ok_def same_source_def line_rest_def)
qed

lemma line_get_value_at:
  assumes "line_ok bytes s" "hint \<le> length bytes - pos" "drop pos bytes \<noteq> []"
  shows "\<exists>p s'. line_get_value from_str (Some hint) (line_seek pos s) =
      (ReadValue (line_value from_str (first_line (drop pos bytes))) p (length (first_line (drop pos bytes))), s') \<and>
    line_ok bytes s' \<and> same_source s s' \<and> line_rest s' = after_line (drop pos bytes)"
proof -
  from line_get_value_hint [OF assms(1,2)] obtain t where
    t: "line_get_value from_str (Some hint) (line_seek pos s) = line_loop from_str (lr_position t) False t"
      "line_ok bytes t" "same_source s t" "line_rest t = drop pos bytes" by blast
  with line_loop_value [OF t(2), of False from_str "lr_position t"] assms(3) show ?thesis
    by (auto simp: same_source_def)
qed

lemma line_get_value_restart:
  assumes "line_ok [] s"
  shows "\<exists>s'. line_get_value from_str (Some 0) (line_seek 0 s) = (ReadEnd, s') \<and>
    line_ok [] s' \<and> same_source s s' \<and> line_rest s' = []"
proof -
  from line_get_value_hint [OF assms(1), of 0 0] obtain t where
    t: "line_get_value from_str (Some 0) (line_seek 0 s) = line_loop from_str (lr_position t) False t"
      "line_ok [] t" "same_source s t" "line_rest t = []" by auto
  with line_loop_end [OF t(2,4), of from_str "lr_position t"] show ?thesis
    by (auto simp: same_source_def)
qed

end
