(* ===== verification/LineProps.thy ===== *)
theory LineProps
  imports LineReader Readers "HOL-Library.Multiset"
begin

text \<open>
  The values of a line reader. The line reader keeps the contract of a
  \<open>value_source\<close> with the lines that are left, whatever the sizes of the reads. With \<open>random\<close> the lines come in another order, each once, or again and again with \<open>repeat\<close>.
\<close>

subsection \<open>The lines of a file\<close>

function file_lines :: "string \<Rightarrow> string list" where
  "file_lines bs = (if bs = [] then [] else first_line bs # file_lines (after_line bs))"
  by pat_completeness auto
termination by (relation "measure length") (simp_all add: length_after_line)

declare file_lines.simps [simp del]

lemma file_lines_Nil [simp]: "file_lines [] = []"
  by (simp add: file_lines.simps)

lemma file_lines_eq_Nil [simp]: "file_lines bs = [] \<longleftrightarrow> bs = []"
  by (simp add: file_lines.simps)

lemma file_lines_step: "bs \<noteq> [] \<Longrightarrow> file_lines bs = first_line bs # file_lines (after_line bs)"
  by (simp add: file_lines.simps)

text \<open>Joining the lines again gives the file, but for the \<open>\n\<close> at its end.\<close>

lemma file_lines_join: "bs = [] \<or> concat (map (\<lambda>l. l @ [CHR 0x0A]) (file_lines bs)) = bs \<or>
    concat (map (\<lambda>l. l @ [CHR 0x0A]) (file_lines bs)) = bs @ [CHR 0x0A]"
proof (induction bs rule: file_lines.induct)
  case (1 bs)
  show ?case
  proof (cases "CHR 0x0A \<in> set bs")
    case True
    then have "bs = first_line bs @ CHR 0x0A # after_line bs"
      unfolding after_line_def first_line_def
      by (induction bs) auto
    with 1 True show ?thesis by (cases "after_line bs = []") (auto simp: file_lines_step [of bs])
  next
    case False
    then show ?thesis
      by (cases "bs = []") (auto simp: file_lines_step first_line_none after_line_def)
  qed
qed

subsection \<open>In the order of the file\<close>

definition plain_ok :: "string \<Rightarrow> line_reader \<Rightarrow> bool" where
  "plain_ok bytes s \<longleftrightarrow> line_ok bytes s \<and> lr_random s = None \<and> \<not> lr_repeat s"

definition lines_left :: "(string \<Rightarrow> json option) \<Rightarrow> line_reader \<Rightarrow> json list" where
  "lines_left from_str s = map (line_value from_str) (file_lines (line_rest s))"

interpretation plain: value_source "line_next from_str" "lines_left from_str" "plain_ok bytes" for from_str bytes
proof
  fix s v vs r
  assume "plain_ok bytes s" "lines_left from_str s = v # vs"
  moreover from this have "line_rest s \<noteq> []" by (auto simp: lines_left_def)
  ultimately show "fst (line_next from_str r s) = Some (Inr v) \<and> plain_ok bytes (snd (line_next from_str r s)) \<and>
      lines_left from_str (snd (line_next from_str r s)) = vs"
    using line_get_value_next [of bytes s from_str] file_lines_step [of "line_rest s"]
    by (auto simp: plain_ok_def line_next_def outcome_item_def same_source_def lines_left_def)
next
  fix s r
  assume "plain_ok bytes s" "lines_left from_str s = []"
  then show "fst (line_next from_str r s) = None \<and> plain_ok bytes (snd (line_next from_str r s)) \<and>
      lines_left from_str (snd (line_next from_str r s)) = []"
    using line_get_value_end [of bytes s from_str]
    by (auto simp: plain_ok_def line_next_def same_source_def lines_left_def)
qed

definition line_reader_start :: "bool \<Rightarrow> os_file \<Rightarrow> line_reader" where
  "line_reader_start repeat file =
     \<lparr>lr_byte_buffer = replicate kb8 (CHR 0x00), lr_buf_data_len = 0, lr_position = 0,
      lr_positions = [], lr_random = None, lr_reader = file, lr_repeat = repeat\<rparr>"

lemma line_start_ok:
  assumes "list_all (\<lambda>r. \<not> isl r) reads"
  shows "line_ok bytes (line_reader_start rep (file_open bytes reads))"
    "line_rest (line_reader_start rep (file_open bytes reads)) = bytes"
  using assms by (simp_all add: line_ok_def line_reader_start_def line_rest_def file_open_def no_errors_def file_rest_def)

text \<open>With \<open>repeat\<close> the reader goes round; \<open>k\<close> is the line it is at.\<close>

definition repeat_at :: "string \<Rightarrow> nat \<Rightarrow> line_reader \<Rightarrow> bool" where
  "repeat_at bytes k s \<longleftrightarrow> line_ok bytes s \<and> lr_random s = None \<and> lr_repeat s \<and> lr_positions s = [(0, 0)] \<and>
     k \<le> length (file_lines bytes) \<and> file_lines (line_rest s) = drop k (file_lines bytes)"

lemma repeat_next:
  assumes "repeat_at bytes k s" "bytes \<noteq> []"
  shows "\<exists>s'. line_next from_str r s =
      (Some (Inr (line_value from_str (file_lines bytes ! (k mod length (file_lines bytes))))), s') \<and>
    repeat_at bytes (Suc (k mod length (file_lines bytes))) s'"
proof (cases "k < length (file_lines bytes)")
  case True
  with assms have rest: "line_rest s \<noteq> []" by (auto simp: repeat_at_def)
  from assms have ok: "line_ok bytes s" by (simp add: repeat_at_def)
  from line_get_value_next [OF ok rest, of from_str] obtain p n s' where
    s': "line_get_value from_str None s = (ReadValue (line_value from_str (first_line (line_rest s))) p n, s')"
      "line_ok bytes s'" "same_source s s'" "line_rest s' = after_line (line_rest s)" by blast
  from file_lines_step [OF rest] assms(1) True
  have "first_line (line_rest s) = file_lines bytes ! k" "file_lines (after_line (line_rest s)) = drop (Suc k) (file_lines bytes)"
    by (auto simp: repeat_at_def Cons_nth_drop_Suc [symmetric])
  with s' assms True show ?thesis
    by (auto simp: line_next_def outcome_item_def repeat_at_def same_source_def)
next
  case False
  with assms have k: "k = length (file_lines bytes)" and ok: "line_ok bytes s" and rest: "line_rest s = []"
    by (simp_all add: repeat_at_def)
  from line_get_value_end [OF ok rest, of from_str] obtain t where
    t: "line_get_value from_str None s = (ReadEnd, t)" "line_ok bytes t" "same_source s t" by blast
  from line_get_value_at [OF t(2), of 0 0 from_str] assms(2) obtain p s' where
    s': "line_get_value from_str (Some 0) (line_seek 0 t) =
        (ReadValue (line_value from_str (first_line bytes)) p (length (first_line bytes)), s')"
      "line_ok bytes s'" "same_source t s'" "line_rest s' = after_line bytes" by auto
  from file_lines_step [OF assms(2)]
  have "file_lines bytes ! 0 = first_line bytes" "file_lines (after_line bytes) = drop (Suc 0) (file_lines bytes)"
    "1 \<le> length (file_lines bytes)" by simp_all
  with s' t k assms(1) show ?thesis
    by (auto simp: line_next_def outcome_item_def repeat_at_def same_source_def)
qed

lemma repeat_items:
  assumes "repeat_at bytes k s" "bytes \<noteq> []"
  shows "take_items (line_next from_str) samples s =
    map (\<lambda>i. Some (Inr (line_value from_str (file_lines bytes ! ((k + i) mod length (file_lines bytes)))))) [0..<length samples]"
  using assms(1)
proof (induction samples arbitrary: k s)
  case (Cons r samples)
  from repeat_next [OF Cons.prems assms(2), of from_str r] obtain s' where
    s': "line_next from_str r s =
        (Some (Inr (line_value from_str (file_lines bytes ! (k mod length (file_lines bytes))))), s')"
      "repeat_at bytes (Suc (k mod length (file_lines bytes))) s'" by blast
  have "(Suc (k mod n) + i) mod n = (k + Suc i) mod n" for i n
    by (metis add_Suc_shift mod_add_left_eq)
  moreover have "[0..<length (r # samples)] = 0 # map Suc [0..<length samples]"
    by (simp add: upt_conv_Cons map_Suc_upt del: upt_Suc)
  ultimately show ?case
    using s' Cons.IH [OF s'(2)] by (simp add: comp_def del: upt_Suc)
qed simp

lemma repeat_empty_next:
  assumes "repeat_at [] 0 s"
  shows "\<exists>s'. line_next from_str r s = (None, s') \<and> repeat_at [] 0 s'"
proof -
  from assms have ok: "line_ok [] s" and rest: "line_rest s = []" by (simp_all add: repeat_at_def)
  from line_get_value_end [OF ok rest, of from_str] obtain t where
    t: "line_get_value from_str None s = (ReadEnd, t)" "line_ok [] t" "same_source s t" by blast
  from line_get_value_restart [OF t(2), of from_str] t assms show ?thesis
    by (auto simp: line_next_def outcome_item_def repeat_at_def same_source_def)
qed

lemma repeat_empty_items:
  "repeat_at [] 0 s \<Longrightarrow> take_items (line_next from_str) samples s = replicate (length samples) None"
proof (induction samples arbitrary: s)
  case (Cons r samples)
  from repeat_empty_next [OF Cons.prems, of from_str r] Cons.IH show ?case by auto
qed simp

subsection \<open>In random order\<close>

function line_positions :: "nat \<Rightarrow> string \<Rightarrow> (nat \<times> nat) list" where
  "line_positions p bs =
     (if bs = [] then [] else (p, length (first_line bs)) # line_positions (p + length (first_line bs) + 1) (after_line bs))"
  by pat_completeness auto
termination by (relation "measure (\<lambda>(_, bs). length bs)") (simp_all add: length_after_line)

declare line_positions.simps [simp del]

definition line_at :: "string \<Rightarrow> nat \<times> nat \<Rightarrow> string" where
  "line_at bytes pl = first_line (drop (fst pl) bytes)"

definition position_ok :: "string \<Rightarrow> nat \<times> nat \<Rightarrow> bool" where
  "position_ok bytes pl \<longleftrightarrow> drop (fst pl) bytes \<noteq> [] \<and> snd pl \<le> length bytes - fst pl"

lemma line_positions_lines:
  "drop p bytes = bs \<Longrightarrow> map (line_at bytes) (line_positions p bs) = file_lines bs"
proof (induction p bs rule: line_positions.induct)
  case (1 p bs)
  show ?case
  proof (cases "bs = []")
    case False
    have "drop (p + length (first_line bs) + 1) bytes = after_line bs"
      unfolding after_line_def 1(2) [symmetric] by (simp add: add.commute)
    from 1(1) [OF False this] False 1(2) show ?thesis
      by (simp add: line_positions.simps [of p bs] file_lines.simps [of bs] line_at_def)
  qed (simp add: line_positions.simps)
qed

lemma length_first_line_le: "length (first_line bs) \<le> length bs"
  by (simp add: first_line_def length_takeWhile_le)

lemma line_positions_ok:
  "drop p bytes = bs \<Longrightarrow> list_all (position_ok bytes) (line_positions p bs)"
proof (induction p bs rule: line_positions.induct)
  case (1 p bs)
  show ?case
  proof (cases "bs = []")
    case False
    have "drop (p + length (first_line bs) + 1) bytes = after_line bs"
      unfolding after_line_def 1(2) [symmetric] by (simp add: add.commute)
    from 1(1) [OF False this] False 1(2) length_first_line_le [of bs] show ?thesis
      by (auto simp: line_positions.simps [of p bs] position_ok_def)
  qed (simp add: line_positions.simps)
qed

lemma line_index_positions:
  assumes "line_ok bytes s" "line_rest s = bs" "length bs \<le> fuel"
  shows "\<exists>s'. line_index fuel from_str s = Inr s' \<and> line_ok bytes s' \<and> line_rest s' = [] \<and>
    lr_random s' = lr_random s \<and> lr_repeat s' = lr_repeat s \<and>
    lr_positions s' = lr_positions s @ line_positions (lr_position s) bs"
  using assms
proof (induction fuel arbitrary: s bs)
  case (0 s bs)
  with line_get_value_end [of bytes s from_str] show ?case
    by (auto simp: same_source_def line_positions.simps)
next
  case (Suc fuel s bs)
  show ?case
  proof (cases "bs = []")
    case True
    with Suc.prems line_get_value_end [of bytes s from_str] show ?thesis
      by (auto simp: same_source_def line_positions.simps)
  next
    case False
    with Suc.prems line_get_value_next [of bytes s from_str] obtain s' where
      s': "line_get_value from_str None s =
          (ReadValue (line_value from_str (first_line bs)) (lr_position s) (length (first_line bs)), s')"
        "line_ok bytes s'" "same_source s s'" "line_rest s' = after_line bs"
        "lr_position s' = lr_position s + length (first_line bs) + 1" by blast
    let ?t = "s'\<lparr>lr_positions := lr_positions s' @ [(lr_position s, length (first_line bs))]\<rparr>"
    have "line_ok bytes ?t" "line_rest ?t = after_line bs" "length (after_line bs) \<le> fuel"
      using s' Suc.prems length_after_line [OF False] by (simp_all add: line_ok_def line_rest_def)
    from Suc.IH [OF this] s' False show ?thesis
      by (auto simp: same_source_def line_positions.simps [of _ bs])
  qed
qed

definition random_ok :: "string \<Rightarrow> bool \<Rightarrow> line_reader \<Rightarrow> bool" where
  "random_ok bytes rep s \<longleftrightarrow> line_ok bytes s \<and> lr_random s \<noteq> None \<and> lr_repeat s = rep \<and>
     list_all (position_ok bytes) (lr_positions s)"

definition values_left :: "(string \<Rightarrow> json option) \<Rightarrow> string \<Rightarrow> line_reader \<Rightarrow> json list" where
  "values_left from_str bytes s = map (\<lambda>pl. line_value from_str (line_at bytes pl)) (lr_positions s)"

lemma random_next:
  fixes r :: nat
  assumes "random_ok bytes rep s" "lr_positions s \<noteq> []"
  defines "i \<equiv> r mod length (lr_positions s)"
  shows "\<exists>s'. line_next from_str r s = (Some (Inr (values_left from_str bytes s ! i)), s') \<and> random_ok bytes rep s' \<and>
    lr_positions s' = (if rep then lr_positions s else take i (lr_positions s) @ drop (Suc i) (lr_positions s))"
proof -
  have i: "i < length (lr_positions s)" using assms(2) by (simp add: i_def)
  obtain pos len where pl: "lr_positions s ! i = (pos, len)" by fastforce
  have ok: "list_all (position_ok bytes) (lr_positions s)" "position_ok bytes (pos, len)"
    using assms(1) i pl by (auto simp: random_ok_def list_all_length)
  let ?t = "if rep then s else s\<lparr>lr_positions := take i (lr_positions s) @ drop (Suc i) (lr_positions s)\<rparr>"
  have t: "line_ok bytes ?t" using assms(1) by (simp add: random_ok_def line_ok_def)
  have "len \<le> length bytes - pos" "drop pos bytes \<noteq> []" using ok(2) by (auto simp: position_ok_def)
  from line_get_value_at [OF t this, of from_str] obtain p s' where
    s': "line_get_value from_str (Some len) (line_seek pos ?t) =
        (ReadValue (line_value from_str (first_line (drop pos bytes))) p (length (first_line (drop pos bytes))), s')"
      "line_ok bytes s'" "same_source ?t s'" by blast
  moreover have "values_left from_str bytes s ! i = line_value from_str (first_line (drop pos bytes))"
    using i pl by (simp add: values_left_def line_at_def)
  moreover have "list_all (position_ok bytes) (lr_positions ?t)"
    using ok(1) by (auto simp: list_all_iff dest: in_set_takeD in_set_dropD)
  moreover have "lr_repeat s = rep" "lr_random s \<noteq> None" using assms(1) by (simp_all add: random_ok_def)
  ultimately show ?thesis
    using assms(2) pl
    by (auto simp: line_next_def outcome_item_def same_source_def random_ok_def i_def [symmetric] Let_def)
qed

lemma random_repeat_items:
  assumes "random_ok bytes True s" "lr_positions s \<noteq> []"
  shows "take_items (line_next from_str) samples s =
    map (\<lambda>r. Some (Inr (values_left from_str bytes s ! (r mod length (lr_positions s))))) samples"
  using assms
proof (induction samples arbitrary: s)
  case (Cons r samples)
  from random_next [OF Cons.prems, of from_str r] Cons.IH Cons.prems show ?case
    by (fastforce simp: values_left_def)
qed simp

lemma mset_take_drop: "i < length xs \<Longrightarrow> mset xs = add_mset (xs ! i) (mset (take i xs @ drop (Suc i) xs))"
  by (metis append_take_drop_id Cons_nth_drop_Suc mset.simps(2) mset_append union_mset_add_mset_right)

lemma random_once_items:
  assumes "random_ok bytes False s" "length samples = length (lr_positions s)"
  shows "mset (take_items (line_next from_str) samples s) = image_mset (Some \<circ> Inr) (mset (values_left from_str bytes s))"
  using assms
proof (induction samples arbitrary: s)
  case (Cons r samples)
  let ?i = "r mod length (lr_positions s)"
  have ne: "lr_positions s \<noteq> []" using Cons.prems by auto
  then have i: "?i < length (lr_positions s)" by simp
  from random_next [OF Cons.prems(1) ne, of from_str r] obtain s' where
    s': "line_next from_str r s = (Some (Inr (values_left from_str bytes s ! ?i)), s')" "random_ok bytes False s'"
      "lr_positions s' = take ?i (lr_positions s) @ drop (Suc ?i) (lr_positions s)" by auto
  then have left: "values_left from_str bytes s' = take ?i (values_left from_str bytes s) @ drop (Suc ?i) (values_left from_str bytes s)"
    by (simp add: values_left_def take_map drop_map)
  have "length samples = length (lr_positions s')" using s'(3) i Cons.prems(2) by simp
  from Cons.IH [OF s'(2) this] s'(1) show ?case
    using mset_take_drop [of ?i "values_left from_str bytes s"] i
    by (simp add: left) (simp add: values_left_def)
qed (simp add: values_left_def)

lemma random_exhausted: "random_ok bytes rep s \<Longrightarrow> lr_positions s = [] \<Longrightarrow> line_next from_str r s = (None, s)"
  by (auto simp: random_ok_def line_next_def)

lemma empty_file_items:
  assumes "line_ok [] s" "line_rest s = []" "lr_random s = None" "lr_positions s = []"
  shows "take_items (line_next from_str) samples s = replicate (length samples) None"
  using assms
proof (induction samples arbitrary: s)
  case (Cons r samples)
  from line_get_value_end [OF Cons.prems(1,2), of from_str] Cons.prems(3,4) Cons.IH show ?case
    by (auto simp: line_next_def same_source_def)
qed simp

lemma line_new_random:
  assumes "list_all (\<lambda>r. \<not> isl r) reads"
  shows "\<exists>s. line_reader_new from_str True rep sample (file_open bytes reads) = Inr s \<and>
    (if bytes = [] then line_ok [] s \<and> line_rest s = [] \<and> lr_random s = None \<and> lr_positions s = []
     else random_ok bytes rep s \<and> lr_positions s = line_positions 0 bytes)"
proof -
  from line_index_positions [OF line_start_ok(1) [OF assms, where bytes = bytes and rep = rep]
      line_start_ok(2) [OF assms] order.refl, of from_str]
  obtain s where s: "line_index (length bytes) from_str (line_reader_start rep (file_open bytes reads)) = Inr s"
    "line_ok bytes s" "line_rest s = []" "lr_random s = None" "lr_repeat s = rep" "lr_positions s = line_positions 0 bytes"
    by (auto simp: line_reader_start_def)
  have new: "line_reader_new from_str True rep sample (file_open bytes reads) =
      Inr (if lr_positions s = [] then s
           else (line_seek (fst (lr_positions s ! sample)) s)\<lparr>lr_random := Some (length (lr_positions s))\<rparr>)"
    using s(1) by (simp add: line_reader_new_def line_reader_start_def file_open_def Let_def)
  show ?thesis
  proof (cases "bytes = []")
    case True
    then have "lr_positions s = []" using s(6) by (simp add: line_positions.simps)
    with True new s show ?thesis
      by (auto simp: line_positions.simps)
  next
    case False
    then have "lr_positions s \<noteq> []" using s(6) by (simp add: line_positions.simps)
    moreover have "list_all (position_ok bytes) (line_positions 0 bytes)" by (rule line_positions_ok) simp
    ultimately show ?thesis using False new s
      by (auto simp: random_ok_def line_ok_def line_seek_def)
  qed
qed

end
