(* ===== verification/JsonReader.thy ===== *)
theory JsonReader
  imports Readers
begin

text \<open>
  \<open>src/providers/json_reader.rs\<close>: a file provider that yields the JSON values a file holds one after the
  other. The stream deserializer of \<open>serde_json\<close> is a parameter: what \<open>next\<close> gives for a slice, with the
  offset after a value. Then the values it yields when the deserializer needs no lookahead, and what happens to
  numbers, which do.
\<close>

datatype 'v stream_result = StreamValue 'v nat | StreamNone | StreamEofError | StreamError string

record json_reader =
  jr_staging_buffer :: string
  jr_buffer :: string
  jr_position :: nat
  jr_positions :: "(nat \<times> nat) list"
  jr_random :: "nat option"
  jr_reader :: os_file
  jr_repeat :: bool

datatype 'v json_outcome = JsonValue 'v nat nat | JsonIoError io_error | JsonSyntaxError string | JsonEnd

definition staging_size :: nat where
  "staging_size = 8 * 2 ^ 10"

definition write_staging :: "string \<Rightarrow> string \<Rightarrow> string" where
  "write_staging buf bs = bs @ drop (length bs) buf"

function json_loop ::
    "(string \<Rightarrow> 'v stream_result) \<Rightarrow> nat \<Rightarrow> json_reader \<Rightarrow> 'v json_outcome \<times> json_reader" where
  "json_loop de position s =
     (case de (jr_buffer s) of
        StreamValue v len \<Rightarrow>
          (JsonValue v position len, s\<lparr>jr_buffer := drop len (jr_buffer s), jr_position := jr_position s + len\<rparr>)
      | StreamError e \<Rightarrow> (JsonSyntaxError e, s)
      | _ \<Rightarrow>
          (case file_read staging_size (jr_reader s) of
             (Inl e, f) \<Rightarrow> (JsonIoError e, s\<lparr>jr_reader := f\<rparr>)
           | (Inr bs, f) \<Rightarrow>
               if bs = [] then (JsonEnd, s\<lparr>jr_reader := f\<rparr>)
               else json_loop de position
                 (s\<lparr>jr_staging_buffer := write_staging (jr_staging_buffer s) bs, jr_reader := f,
                    jr_buffer := jr_buffer s @ bs\<rparr>)))"
  by pat_completeness auto

termination
proof (relation "measure (\<lambda>(_, _, s). length (file_rest (jr_reader s)))", goal_cases)
  case (2 de position s r f bs)
  then have "file_read staging_size (jr_reader s) = (Inr bs, f)" "bs \<noteq> []" by auto
  with file_read_ok(2) [OF this(1)] show ?case by (cases bs) auto
next
  case (3 de position s r f bs)
  then have "file_read staging_size (jr_reader s) = (Inr bs, f)" "bs \<noteq> []" by auto
  with file_read_ok(2) [OF this(1)] show ?case by (cases bs) auto
qed simp

declare json_loop.simps [simp del]

definition json_get_value ::
    "(string \<Rightarrow> 'v stream_result) \<Rightarrow> nat option \<Rightarrow> json_reader \<Rightarrow> 'v json_outcome \<times> json_reader" where
  "json_get_value de size_hint s =
     (let position = jr_position s in
      case size_hint of
        None \<Rightarrow> json_loop de position s
      | Some hint \<Rightarrow>
          (let buf = jr_staging_buffer s @ replicate (hint - length (jr_staging_buffer s)) (CHR 0x00);
               s = s\<lparr>jr_staging_buffer := buf, jr_position := jr_position s + hint\<rparr>;
               (r, f) = read_exact hint (jr_reader s) in
           case r of
             Inl e \<Rightarrow> (JsonIoError e, s\<lparr>jr_reader := f\<rparr>)
           | Inr bs \<Rightarrow>
               json_loop de position
                 (s\<lparr>jr_staging_buffer := write_staging buf bs, jr_reader := f, jr_buffer := jr_buffer s @ bs\<rparr>)))"

definition json_seek :: "nat \<Rightarrow> json_reader \<Rightarrow> json_reader" where
  "json_seek p s = s\<lparr>jr_buffer := [], jr_reader := file_seek p (jr_reader s), jr_position := p\<rparr>"

text \<open>
  The loop of \<open>new\<close> with \<open>random\<close>. A value takes a byte at least, so the length of the file bounds the loop; an
  \<open>Inl None\<close> is a deserializer that yields values without end.
\<close>

fun json_index ::
    "nat \<Rightarrow> (string \<Rightarrow> 'v stream_result) \<Rightarrow> json_reader \<Rightarrow> 'v json_outcome option + json_reader" where
  "json_index fuel de s =
     (case json_get_value de None s of
        (JsonValue _ pos len, s') \<Rightarrow>
          (case fuel of
             0 \<Rightarrow> Inl None
           | Suc fuel \<Rightarrow> json_index fuel de (s'\<lparr>jr_positions := jr_positions s' @ [(pos, len)]\<rparr>))
      | (JsonEnd, s') \<Rightarrow> Inr s'
      | (e, _) \<Rightarrow> Inl (Some e))"

definition json_reader_start :: "bool \<Rightarrow> os_file \<Rightarrow> json_reader" where
  "json_reader_start repeat file =
     \<lparr>jr_staging_buffer = replicate staging_size (CHR 0x00), jr_buffer = [], jr_position = 0,
      jr_positions = [], jr_random = None, jr_reader = file, jr_repeat = repeat\<rparr>"

definition json_reader_new ::
    "(string \<Rightarrow> 'v stream_result) \<Rightarrow> bool \<Rightarrow> bool \<Rightarrow> nat \<Rightarrow> os_file \<Rightarrow> 'v json_outcome option + json_reader" where
  "json_reader_new de random repeat sample file =
     (let s = json_reader_start repeat file in
      if random then
        res_bind (json_index (length (f_bytes file)) de s) (\<lambda>s.
          let n = length (jr_positions s) in
          Inr (if n = 0 then s else (json_seek (fst (jr_positions s ! sample)) s)\<lparr>jr_random := Some n\<rparr>))
      else Inr (if repeat then s\<lparr>jr_positions := [(0, 0)]\<rparr> else s))"

datatype reader_error = ReaderIo io_error | ReaderSyntax string

definition json_item :: "'v json_outcome \<Rightarrow> (reader_error + 'v) option" where
  "json_item r =
     (case r of
        JsonValue v _ _ \<Rightarrow> Some (Inr v)
      | JsonIoError e \<Rightarrow> Some (Inl (ReaderIo e))
      | JsonSyntaxError e \<Rightarrow> Some (Inl (ReaderSyntax e))
      | JsonEnd \<Rightarrow> None)"

definition json_next ::
    "(string \<Rightarrow> 'v stream_result) \<Rightarrow> nat \<Rightarrow> json_reader \<Rightarrow> (reader_error + 'v) option \<times> json_reader" where
  "json_next de sample s =
     (if jr_random s \<noteq> None \<and> jr_positions s = [] then (None, s)
      else
        (let (hint, s) =
           (case jr_random s of
              None \<Rightarrow> (None, s)
            | Some _ \<Rightarrow>
                (let i = sample mod length (jr_positions s);
                     (pos, len) = jr_positions s ! i;
                     s = (if jr_repeat s then s
                          else s\<lparr>jr_positions := take i (jr_positions s) @ drop (i + 1) (jr_positions s)\<rparr>) in
                 (Some len, json_seek pos s)));
           (result, s) = json_get_value de hint s in
         if result = JsonEnd \<and> jr_repeat s then
           (case jr_positions s of
              [] \<Rightarrow> (None, s)
            | (pos, len) # _ \<Rightarrow>
                (case json_get_value de (Some len) (json_seek pos s) of (r, s) \<Rightarrow> (json_item r, s)))
         else (json_item result, s)))"

subsection \<open>Deserializers that need no lookahead\<close>

text \<open>
  The documentation of \<open>StreamDeserializer\<close> asks for values that are self-delineating (arrays, objects, strings) or
  separated by whitespace. For such input more bytes do not change a value, and what comes before the end of a
  value is incomplete.
\<close>

definition self_delineating :: "(string \<Rightarrow> 'v stream_result) \<Rightarrow> bool" where
  "self_delineating de \<longleftrightarrow>
     de [] = StreamNone \<and>
     (\<forall>xs ys v n. de xs = StreamValue v n \<longrightarrow> 0 < n \<and> n \<le> length xs \<and> de (xs @ ys) = StreamValue v n) \<and>
     (\<forall>xs ys e. de xs = StreamError e \<longrightarrow> de (xs @ ys) = StreamError e)"

lemma self_delineating_value:
  "self_delineating de \<Longrightarrow> de xs = StreamValue v n \<Longrightarrow> 0 < n \<and> n \<le> length xs \<and> de (xs @ ys) = StreamValue v n"
  by (auto simp: self_delineating_def)

lemma self_delineating_error:
  "self_delineating de \<Longrightarrow> de xs = StreamError e \<Longrightarrow> de (xs @ ys) = StreamError e"
  by (auto simp: self_delineating_def)

text \<open>The values of a text, until it is at its end or what is left is incomplete, or an error.\<close>

function json_values :: "(string \<Rightarrow> 'v stream_result) \<Rightarrow> string \<Rightarrow> 'v list \<times> string option" where
  "json_values de bs =
     (case de bs of
        StreamValue v n \<Rightarrow>
          if 0 < n \<and> n \<le> length bs then (case json_values de (drop n bs) of (vs, e) \<Rightarrow> (v # vs, e)) else ([], None)
      | StreamError e \<Rightarrow> ([], Some e)
      | _ \<Rightarrow> ([], None))"
  by pat_completeness auto
termination by (relation "measure (\<lambda>(_, bs). length bs)") auto

declare json_values.simps [simp del]

definition json_rest :: "json_reader \<Rightarrow> string" where
  "json_rest s = jr_buffer s @ file_rest (jr_reader s)"

definition json_plain :: "json_reader \<Rightarrow> bool" where
  "json_plain s \<longleftrightarrow> no_errors (jr_reader s) \<and> jr_random s = None \<and> \<not> jr_repeat s"

lemma json_loop_more:
  assumes "de (jr_buffer s) = StreamNone \<or> de (jr_buffer s) = StreamEofError"
    and "file_read staging_size (jr_reader s) = (Inr bs, f)"
  shows "json_loop de position s =
    (if bs = [] then (JsonEnd, s\<lparr>jr_reader := f\<rparr>)
     else json_loop de position
       (s\<lparr>jr_staging_buffer := write_staging (jr_staging_buffer s) bs, jr_reader := f, jr_buffer := jr_buffer s @ bs\<rparr>))"
  using assms by (subst json_loop.simps) auto

definition json_loop_ok :: "(string \<Rightarrow> 'v stream_result) \<Rightarrow> nat \<Rightarrow> json_reader \<Rightarrow> bool" where
  "json_loop_ok de position s \<longleftrightarrow>
     (case json_loop de position s of
        (r, s') \<Rightarrow> json_plain s' \<and>
          (case de (json_rest s) of
             StreamValue v n \<Rightarrow> r = JsonValue v position n \<and> json_rest s' = drop n (json_rest s)
           | StreamError e \<Rightarrow> r = JsonSyntaxError e \<and> de (json_rest s') = StreamError e
           | _ \<Rightarrow> r = JsonEnd \<and> json_rest s' = json_rest s))"

lemma json_loop_ok_more:
  assumes more: "de (jr_buffer s) = StreamNone \<or> de (jr_buffer s) = StreamEofError" and plain: "json_plain s"
    and IH: "\<And>bs f. file_read staging_size (jr_reader s) = (Inr bs, f) \<Longrightarrow> bs \<noteq> [] \<Longrightarrow>
      json_plain (s\<lparr>jr_staging_buffer := write_staging (jr_staging_buffer s) bs, jr_reader := f, jr_buffer := jr_buffer s @ bs\<rparr>) \<Longrightarrow>
      json_loop_ok de position
        (s\<lparr>jr_staging_buffer := write_staging (jr_staging_buffer s) bs, jr_reader := f, jr_buffer := jr_buffer s @ bs\<rparr>)"
  shows "json_loop_ok de position s"
proof -
  obtain bs f where r: "file_read staging_size (jr_reader s) = (Inr bs, f)" "no_errors f"
    using file_read_no_errors [of "jr_reader s" staging_size] plain by (metis json_plain_def)
  note ok = file_read_ok [OF r(1)] and loop = json_loop_more [where de = de and position = position, OF more r(1)]
  let ?s = "s\<lparr>jr_staging_buffer := write_staging (jr_staging_buffer s) bs, jr_reader := f, jr_buffer := jr_buffer s @ bs\<rparr>"
  have rest: "json_rest ?s = json_rest s" using ok(2) by (simp add: json_rest_def)
  have plain': "json_plain ?s" using plain r(2) by (simp add: json_plain_def)
  show ?thesis
  proof (cases "bs = []")
    case True
    with ok(2,4) have "json_rest s = jr_buffer s" by (auto simp: json_rest_def staging_size_def)
    with True more loop plain' ok(2) show ?thesis
      by (auto simp: json_loop_ok_def json_plain_def json_rest_def)
  next
    case False
    then have loop: "json_loop de position s = json_loop de position ?s" using loop by simp
    from IH [OF r(1) False plain'] show ?thesis unfolding json_loop_ok_def rest loop .
  qed
qed

lemma json_loop_spec: "self_delineating de \<Longrightarrow> json_plain s \<Longrightarrow> json_loop_ok de position s"
proof (induction de position s rule: json_loop.induct)
  case (1 de position s)
  show ?case
  proof (cases "de (jr_buffer s)")
    case (StreamValue v n)
    with self_delineating_value [OF "1.prems"(1) this, of "file_rest (jr_reader s)"] "1.prems"(2)
    show ?thesis by (simp add: json_loop_ok_def json_rest_def json_plain_def json_loop.simps)
  next
    case (StreamError e)
    with self_delineating_error [OF "1.prems"(1) this, of "file_rest (jr_reader s)"] "1.prems"(2)
    show ?thesis by (simp add: json_loop_ok_def json_rest_def json_plain_def json_loop.simps)
  next
    case StreamNone
    show ?thesis
    proof (rule json_loop_ok_more)
      show "de (jr_buffer s) = StreamNone \<or> de (jr_buffer s) = StreamEofError" using StreamNone by simp
    qed (use "1.prems" "1.IH"(1) [OF StreamNone sym refl] in auto)
  next
    case StreamEofError
    show ?thesis
    proof (rule json_loop_ok_more)
      show "de (jr_buffer s) = StreamNone \<or> de (jr_buffer s) = StreamEofError" using StreamEofError by simp
    qed (use "1.prems" "1.IH"(2) [OF StreamEofError sym refl] in auto)
  qed
qed

lemma json_next_plain: "json_plain s \<Longrightarrow>
    json_next de r s = (json_item (fst (json_loop de (jr_position s) s)), snd (json_loop de (jr_position s) s))
    \<or> \<not> json_plain (snd (json_loop de (jr_position s) s))"
  by (auto simp: json_plain_def json_next_def json_get_value_def Let_def split: prod.splits)

lemma json_next_spec:
  assumes "self_delineating de" "json_plain s"
  obtains s' where "json_plain s'"
    "json_next de r s =
      (case de (json_rest s) of
         StreamValue v n \<Rightarrow> Some (Inr v) | StreamError e \<Rightarrow> Some (Inl (ReaderSyntax e)) | _ \<Rightarrow> None, s')"
    "case de (json_rest s) of
       StreamValue v n \<Rightarrow> json_rest s' = drop n (json_rest s)
     | StreamError e \<Rightarrow> de (json_rest s') = StreamError e
     | _ \<Rightarrow> json_rest s' = json_rest s"
proof
  let ?r = "json_loop de (jr_position s) s"
  from json_loop_spec [OF assms, of "jr_position s"] show ok: "json_plain (snd ?r)"
    by (simp add: json_loop_ok_def split: prod.splits)
  from json_loop_spec [OF assms, of "jr_position s"] json_next_plain [OF assms(2), of de r] ok
  show "json_next de r s =
      (case de (json_rest s) of
         StreamValue v n \<Rightarrow> Some (Inr v) | StreamError e \<Rightarrow> Some (Inl (ReaderSyntax e)) | _ \<Rightarrow> None, snd ?r)"
    by (auto simp: json_loop_ok_def json_item_def split: stream_result.splits)
  from json_loop_spec [OF assms, of "jr_position s"]
  show "case de (json_rest s) of
       StreamValue v n \<Rightarrow> json_rest (snd ?r) = drop n (json_rest s)
     | StreamError e \<Rightarrow> de (json_rest (snd ?r)) = StreamError e
     | _ \<Rightarrow> json_rest (snd ?r) = json_rest s"
    by (auto simp: json_loop_ok_def split: stream_result.splits)
qed

lemma json_start_plain:
  assumes "list_all (\<lambda>r. \<not> isl r) reads"
  shows "json_plain (json_reader_start False (file_open bytes reads))"
    "json_rest (json_reader_start False (file_open bytes reads)) = bytes"
  using assms by (simp_all add: json_plain_def json_reader_start_def json_rest_def file_open_def no_errors_def file_rest_def)

subsection \<open>Numbers\<close>

text \<open>
  A number ends where the slice ends. The first read fills the buffer with 8192 bytes; when the deserializer takes
  them for a value, \<open>next\<close> yields it, whatever bytes of the same number come next.
\<close>

lemma json_number_split:
  assumes "length xs = staging_size" "de xs = StreamValue v n" "de [] = StreamNone"
  shows "fst (json_next de r (json_reader_start rep (file_open (xs @ ys) []))) = Some (Inr v)"
proof -
  let ?s = "json_reader_start rep (file_open (xs @ ys) [])"
  let ?f = "(file_open (xs @ ys) [])\<lparr>f_pos := length xs\<rparr>"
  let ?t = "?s\<lparr>jr_staging_buffer := write_staging (jr_staging_buffer ?s) xs, jr_reader := ?f, jr_buffer := jr_buffer ?s @ xs\<rparr>"
  have start: "jr_buffer ?s = []" "jr_random ?s = None" "jr_position ?s = 0"
    by (simp_all add: json_reader_start_def)
  have read: "file_read staging_size (jr_reader ?s) = (Inr xs, ?f)"
    using assms(1) by (simp add: json_reader_start_def file_open_def file_read_def file_rest_def)
  have "xs \<noteq> []" using assms(1) by (auto simp: staging_size_def)
  then have "json_loop de 0 ?s = json_loop de 0 ?t"
    using json_loop_more [where de = de and position = 0 and s = ?s, OF _ read] assms(3) start(1) by simp
  also have "fst \<dots> = JsonValue v 0 n"
    using start(1) assms(2) by (subst json_loop.simps) simp
  finally show ?thesis
    using start by (auto simp: json_next_def json_get_value_def json_item_def split: prod.splits)
qed

text \<open>A value cut off by the end of the file is dropped: no value and no error.\<close>

lemma json_truncated:
  assumes "self_delineating de" "list_all (\<lambda>r. \<not> isl r) reads" "de bytes = StreamEofError"
  shows "fst (json_next de r (json_reader_start False (file_open bytes reads))) = None"
  by (rule json_next_spec [OF assms(1) json_start_plain(1) [OF assms(2), of bytes], of r])
    (simp add: json_start_plain(2) [OF assms(2)] assms(3))

text \<open>All items of a reader: the values before the first error or the end, then the error or the end again and again.\<close>

definition json_after :: "string option \<Rightarrow> (reader_error + 'v) option" where
  "json_after e = map_option (Inl \<circ> ReaderSyntax) e"

lemma json_items:
  assumes "self_delineating de" "json_plain s" "json_values de (json_rest s) = (vs, e)"
  shows "take_items (json_next de) samples s =
    map (Some \<circ> Inr) (take (length samples) vs) @ replicate (length samples - length vs) (json_after e)"
  using assms(2,3)
proof (induction samples arbitrary: s vs)
  case (Cons r samples)
  from json_next_spec [OF assms(1) Cons.prems(1), of r] obtain s' where
    s': "json_plain s'"
      "json_next de r s =
        (case de (json_rest s) of
           StreamValue v n \<Rightarrow> Some (Inr v) | StreamError e \<Rightarrow> Some (Inl (ReaderSyntax e)) | _ \<Rightarrow> None, s')"
      "case de (json_rest s) of
         StreamValue v n \<Rightarrow> json_rest s' = drop n (json_rest s)
       | StreamError e \<Rightarrow> de (json_rest s') = StreamError e
       | _ \<Rightarrow> json_rest s' = json_rest s" by blast
  show ?case
  proof (cases "de (json_rest s)")
    case (StreamValue v n)
    moreover from this have "0 < n \<and> n \<le> length (json_rest s)"
      using self_delineating_value [OF assms(1)] by blast
    ultimately obtain ws where "vs = v # ws" "json_values de (json_rest s') = (ws, e)"
      using Cons.prems(2) s'(3) by (auto simp: json_values.simps [of de "json_rest s"] split: prod.splits)
    with Cons.IH [OF s'(1)] StreamValue s'(2) show ?thesis by simp
  next
    case StreamNone
    with Cons.prems(2) have "vs = []" "e = None" by (simp_all add: json_values.simps)
    with Cons.IH [OF s'(1), of vs] Cons.prems(2) StreamNone s' show ?thesis by (simp add: json_after_def)
  next
    case StreamEofError
    with Cons.prems(2) have "vs = []" "e = None" by (simp_all add: json_values.simps)
    with Cons.IH [OF s'(1), of vs] Cons.prems(2) StreamEofError s' show ?thesis by (simp add: json_after_def)
  next
    case (StreamError m)
    with Cons.prems(2) have "vs = []" "e = Some m" by (simp_all add: json_values.simps)
    with Cons.IH [OF s'(1), of vs] StreamError s' show ?thesis by (simp add: json_values.simps json_after_def)
  qed
qed simp

end
