(* ===== verification/CsvReader.thy ===== *)
theory CsvReader
  imports LineReader ConfigParse Readers
begin

text \<open>
  \<open>src/providers/csv_reader.rs\<close>: a file provider that yields a value per record of a CSV file. The reader of the
  \<open>csv\<close> crate is a parameter (\<open>csv_crate\<close>): its state, and what building, reading and seeking do to it; so are
  \<open>serde_json::from_str\<close> and the samples of the random number generator, one for each call. The loop of \<open>new\<close> and the recursion of
  \<open>next\<close> are unbounded loops: \<open>None\<close> is a call that never returns.
\<close>

datatype csv_terminator = CRLF | AnyTerminator char

record csv_builder =
  cb_comment :: "char option"
  cb_delimiter :: char
  cb_double_quote :: bool
  cb_escape :: "char option"
  cb_has_headers :: bool
  cb_quote :: char
  cb_terminator :: csv_terminator

text \<open>\<open>ReaderBuilder::new\<close>, and what the settings of the provider change.\<close>

definition csv_builder_new :: csv_builder where
  "csv_builder_new = \<lparr>cb_comment = None, cb_delimiter = CHR '','', cb_double_quote = True, cb_escape = None,
     cb_has_headers = True, cb_quote = CHR 0x22, cb_terminator = CRLF\<rparr>"

definition csv_builder_of :: "csv_settings \<Rightarrow> csv_builder" where
  "csv_builder_of csv =
     (let b = csv_builder_new\<lparr>cb_comment := csv_comment csv, cb_escape := csv_escape csv\<rparr>;
          b = (case csv_delimiter csv of Some d \<Rightarrow> b\<lparr>cb_delimiter := d\<rparr> | None \<Rightarrow> b);
          b = (case csv_headers csv of HeaderBool h \<Rightarrow> b\<lparr>cb_has_headers := h\<rparr> | HeaderString _ \<Rightarrow> b);
          b = (case csv_double_quote csv of Some q \<Rightarrow> b\<lparr>cb_double_quote := q\<rparr> | None \<Rightarrow> b);
          b = (case csv_quote csv of Some q \<Rightarrow> b\<lparr>cb_quote := q\<rparr> | None \<Rightarrow> b) in
      case csv_terminator csv of Some t \<Rightarrow> b\<lparr>cb_terminator := AnyTerminator t\<rparr> | None \<Rightarrow> b)"

record ('p, 'r) csv_crate =
  csv_from_reader :: "csv_builder \<Rightarrow> os_file \<Rightarrow> 'r"
  csv_read_headers :: "'r \<Rightarrow> (io_error + string list) \<times> 'r"
  csv_set_headers :: "string list \<Rightarrow> 'r \<Rightarrow> 'r"
  csv_read_record :: "'r \<Rightarrow> (io_error + string list option) \<times> 'r"
  csv_read_byte_record :: "'r \<Rightarrow> (io_error + 'p option option) \<times> 'r"
  csv_seek :: "'p \<Rightarrow> 'r \<Rightarrow> (io_error + unit) \<times> 'r"
  csv_position_new :: 'p

record ('p, 'r) csv_reader =
  cr_positions :: "'p list"
  cr_headers :: "string list option"
  cr_random :: "nat option"
  cr_reader :: 'r
  cr_repeat :: bool

text \<open>One round of the loop of \<open>new\<close>: \<open>read_byte_record\<close> tells whether there was a record, and its position.\<close>

definition csv_index_step ::
    "('p, 'r) csv_crate \<Rightarrow> bool \<Rightarrow> ('p, 'r) csv_reader \<Rightarrow> (io_error + ('p, 'r) csv_reader) + ('p, 'r) csv_reader" where
  "csv_index_step C random cr =
     (if \<not> random \<and> cr_positions cr \<noteq> [] then Inl (Inr cr)
      else (case csv_read_byte_record C (cr_reader cr) of
          (Inl e, _) \<Rightarrow> Inl (Inl e)
        | (Inr None, r) \<Rightarrow> Inl (Inr (cr\<lparr>cr_reader := r\<rparr>))
        | (Inr (Some None), r) \<Rightarrow> Inr (cr\<lparr>cr_reader := r\<rparr>)
        | (Inr (Some (Some pos)), r) \<Rightarrow> Inr (cr\<lparr>cr_reader := r, cr_positions := cr_positions cr @ [pos]\<rparr>)))"

definition csv_headers_of ::
    "('p, 'r) csv_crate \<Rightarrow> csv_settings \<Rightarrow> os_file \<Rightarrow> io_error + string list option \<times> 'r" where
  "csv_headers_of C csv file =
     (let builder = csv_builder_of csv; reader = csv_from_reader C builder file in
      case csv_headers csv of
        HeaderString s \<Rightarrow>
          res_map (\<lambda>headers. (Some headers, csv_set_headers C headers reader))
            (fst (csv_read_headers C (csv_from_reader C builder (file_open s []))))
      | HeaderBool True \<Rightarrow>
          (case csv_read_headers C reader of
             (Inr headers, reader) \<Rightarrow> Inr (Some headers, reader)
           | (Inl _, reader) \<Rightarrow> Inr (None, reader))
      | HeaderBool False \<Rightarrow> Inr (None, reader))"

definition csv_position_reader ::
    "('p, 'r) csv_crate \<Rightarrow> bool \<Rightarrow> nat \<Rightarrow> ('p, 'r) csv_reader \<Rightarrow> io_error + ('p, 'r) csv_reader" where
  "csv_position_reader C random sample cr =
     (let (cr, i) =
        (if random \<and> cr_positions cr \<noteq> [] then (cr\<lparr>cr_random := Some (length (cr_positions cr))\<rparr>, sample) else (cr, 0)) in
      if i < length (cr_positions cr) then
        (case csv_seek C (cr_positions cr ! i) (cr_reader cr) of
           (Inl e, _) \<Rightarrow> Inl e
         | (Inr _, r) \<Rightarrow> Inr (cr\<lparr>cr_reader := r\<rparr>))
      else Inr cr)"

definition csv_reader_new ::
    "('p, 'r) csv_crate \<Rightarrow> csv_settings \<Rightarrow> bool \<Rightarrow> bool \<Rightarrow> nat \<Rightarrow> os_file \<Rightarrow> (io_error + ('p, 'r) csv_reader) option" where
  "csv_reader_new C csv random rep sample file =
     (case csv_headers_of C csv file of
        Inl e \<Rightarrow> Some (Inl e)
      | Inr (headers, reader) \<Rightarrow>
          (let cr = \<lparr>cr_positions = [], cr_headers = headers, cr_random = None, cr_reader = reader, cr_repeat = rep\<rparr> in
           if random \<or> (csv_headers csv = HeaderBool True \<and> rep) then
             map_option (\<lambda>r. res_bind r (csv_position_reader C random sample)) (loop_run (csv_index_step C random) cr)
           else Some (Inr (if rep then cr\<lparr>cr_positions := [csv_position_new C]\<rparr> else cr))))"

definition csv_value :: "(string \<Rightarrow> json option) \<Rightarrow> string list option \<Rightarrow> string list \<Rightarrow> json" where
  "csv_value from_str headers record =
     (case headers of
        Some headers \<Rightarrow> JObject (obj_collect (zip headers (map (str_to_json from_str) record)))
      | None \<Rightarrow> JArray (map (str_to_json from_str) record))"

text \<open>One call of \<open>next\<close>, up to the recursive call after a seek to the first position.\<close>

definition csv_next_step ::
    "('p, 'r) csv_crate \<Rightarrow> (string \<Rightarrow> json option) \<Rightarrow> (nat \<Rightarrow> nat) \<Rightarrow> nat \<times> ('p, 'r) csv_reader \<Rightarrow>
       ((io_error + json) option \<times> ('p, 'r) csv_reader) + nat \<times> ('p, 'r) csv_reader" where
  "csv_next_step C from_str samples st =
     (let (k, cr) = st;
          sought =
            (if cr_random cr = None then Inr cr
             else if cr_positions cr = [] then Inl (None, cr)
             else
               (let i = samples k mod length (cr_positions cr); pos = cr_positions cr ! i;
                    cr = (if cr_repeat cr then cr
                          else cr\<lparr>cr_positions := take i (cr_positions cr) @ drop (i + 1) (cr_positions cr)\<rparr>) in
                case csv_seek C pos (cr_reader cr) of
                  (Inl e, r) \<Rightarrow> Inl (Some (Inl e), cr\<lparr>cr_reader := r\<rparr>)
                | (Inr _, r) \<Rightarrow> Inr (cr\<lparr>cr_reader := r\<rparr>))) in
      case sought of
        Inl r \<Rightarrow> Inl r
      | Inr cr \<Rightarrow>
          (case csv_read_record C (cr_reader cr) of
             (Inl e, r) \<Rightarrow> Inl (Some (Inl e), cr\<lparr>cr_reader := r\<rparr>)
           | (Inr (Some record), r) \<Rightarrow> Inl (Some (Inr (csv_value from_str (cr_headers cr) record)), cr\<lparr>cr_reader := r\<rparr>)
           | (Inr None, r) \<Rightarrow>
               if \<not> cr_repeat cr then Inl (None, cr\<lparr>cr_reader := r\<rparr>)
               else (case cr_positions cr of
                   [] \<Rightarrow> Inl (None, cr\<lparr>cr_reader := r\<rparr>)
                 | pos # _ \<Rightarrow>
                     (case csv_seek C pos r of
                        (Inl e, r) \<Rightarrow> Inl (Some (Inl e), cr\<lparr>cr_reader := r\<rparr>)
                      | (Inr _, r) \<Rightarrow> Inr (Suc k, cr\<lparr>cr_reader := r\<rparr>)))))"

definition csv_next ::
    "('p, 'r) csv_crate \<Rightarrow> (string \<Rightarrow> json option) \<Rightarrow> (nat \<Rightarrow> nat) \<Rightarrow> ('p, 'r) csv_reader \<Rightarrow>
       ((io_error + json) option \<times> ('p, 'r) csv_reader) option" where
  "csv_next C from_str samples cr = loop_run (csv_next_step C from_str samples) (0, cr)"

subsection \<open>Files without errors\<close>

text \<open>
  What the crate documents for a file it reads without an error: \<open>left\<close> are the records a reader has yet to give,
  \<open>rows\<close> those from a position on. A record's position is where seeking gives it again.
\<close>

definition csv_rows :: "('p, 'r) csv_crate \<Rightarrow> ('r \<Rightarrow> string list list) \<Rightarrow> ('p \<Rightarrow> string list list) \<Rightarrow> bool" where
  "csv_rows C left rows \<longleftrightarrow>
     (\<forall>r. case left r of
        [] \<Rightarrow> (\<exists>r'. csv_read_record C r = (Inr None, r') \<and> left r' = []) \<and>
              (\<exists>r'. csv_read_byte_record C r = (Inr None, r') \<and> left r' = [])
      | row # tail \<Rightarrow> (\<exists>r'. csv_read_record C r = (Inr (Some row), r') \<and> left r' = tail) \<and>
          (\<exists>r' p. csv_read_byte_record C r = (Inr (Some (Some p)), r') \<and> left r' = tail \<and> rows p = row # tail)) \<and>
     (\<forall>p r. \<exists>r'. csv_seek C p r = (Inr (), r') \<and> left r' = rows p)"

lemma csv_rows_end: "csv_rows C left rows \<Longrightarrow> left r = [] \<Longrightarrow> \<exists>r'. csv_read_record C r = (Inr None, r') \<and> left r' = []"
  by (fastforce simp: csv_rows_def split: list.splits)

lemma csv_rows_row:
  "csv_rows C left rows \<Longrightarrow> left r = row # tail \<Longrightarrow> \<exists>r'. csv_read_record C r = (Inr (Some row), r') \<and> left r' = tail"
  by (fastforce simp: csv_rows_def split: list.splits)

lemma csv_rows_seek: "csv_rows C left rows \<Longrightarrow> \<exists>r'. csv_seek C p r = (Inr (), r') \<and> left r' = rows p"
  by (auto simp: csv_rows_def)

lemma csv_step_row:
  assumes "csv_rows C left rows" "cr_random cr = None" "left (cr_reader cr) = row # tail"
  shows "\<exists>r'. csv_next_step C from_str samples (k, cr) =
    Inl (Some (Inr (csv_value from_str (cr_headers cr) row)), cr\<lparr>cr_reader := r'\<rparr>) \<and> left r' = tail"
  using csv_rows_row [OF assms(1,3)] assms(2) by (auto simp: csv_next_step_def)

lemma csv_step_end:
  assumes "csv_rows C left rows" "cr_random cr = None" "left (cr_reader cr) = []"
  shows "\<exists>r'. csv_next_step C from_str samples (k, cr) =
    (if cr_repeat cr \<and> cr_positions cr \<noteq> [] then Inr (Suc k, cr\<lparr>cr_reader := r'\<rparr>) else Inl (None, cr\<lparr>cr_reader := r'\<rparr>)) \<and>
    left r' = (if cr_repeat cr \<and> cr_positions cr \<noteq> [] then rows (hd (cr_positions cr)) else [])"
proof -
  obtain r where r: "csv_read_record C (cr_reader cr) = (Inr None, r)" "left r = []"
    using csv_rows_end [OF assms(1,3)] by blast
  obtain r' where "csv_seek C (hd (cr_positions cr)) r = (Inr (), r')" "left r' = rows (hd (cr_positions cr))"
    using csv_rows_seek [OF assms(1)] by blast
  with r assms(2) show ?thesis by (cases "cr_positions cr") (auto simp: csv_next_step_def)
qed

text \<open>With \<open>repeat\<close> on a file without a record the recursion of \<open>next\<close> has no end.\<close>

definition csv_at_end :: "('r \<Rightarrow> string list list) \<Rightarrow> 'p \<Rightarrow> 'p list \<Rightarrow> nat \<times> ('p, 'r) csv_reader \<Rightarrow> bool" where
  "csv_at_end left p ps st \<longleftrightarrow>
     (case st of (_, cr) \<Rightarrow>
        cr_random cr = None \<and> left (cr_reader cr) = [] \<and> cr_repeat cr \<and> cr_positions cr = p # ps)"

lemma csv_next_diverges:
  assumes "csv_rows C left rows" "csv_at_end left p ps (0, cr)" "rows p = []"
  shows "csv_next C from_str samples cr = None"
  unfolding csv_next_def
proof (rule loop_run_diverges [where P = "csv_at_end left p ps"])
  fix st assume st: "csv_at_end left p ps st"
  obtain k cr where "st = (k, cr)" by fastforce
  with st csv_step_end [OF assms(1), of cr from_str samples k] assms(3)
  show "\<exists>st'. csv_next_step C from_str samples st = Inr st' \<and> csv_at_end left p ps st'"
    by (auto simp: csv_at_end_def)
qed (fact assms)

lemma csv_next_row:
  assumes "csv_rows C left rows" "cr_random cr = None" "left (cr_reader cr) = row # tail"
  shows "\<exists>r'. csv_next C from_str samples cr =
    Some (Some (Inr (csv_value from_str (cr_headers cr) row)), cr\<lparr>cr_reader := r'\<rparr>) \<and> left r' = tail"
  using csv_step_row [OF assms, of from_str samples 0] by (auto simp: csv_next_def loop_run_return)

lemma csv_next_restart:
  assumes "csv_rows C left rows" "cr_random cr = None" "left (cr_reader cr) = []"
    and "cr_repeat cr" "cr_positions cr = p # ps" "rows p = row # tail"
  shows "\<exists>r'. csv_next C from_str samples cr =
    Some (Some (Inr (csv_value from_str (cr_headers cr) row)), cr\<lparr>cr_reader := r'\<rparr>) \<and> left r' = tail"
proof -
  obtain r where r: "csv_next_step C from_str samples (0, cr) = Inr (Suc 0, cr\<lparr>cr_reader := r\<rparr>)" "left r = row # tail"
    using csv_step_end [OF assms(1-3), of from_str samples 0] assms(4-6) by auto
  have "cr_random (cr\<lparr>cr_reader := r\<rparr>) = None" "left (cr_reader (cr\<lparr>cr_reader := r\<rparr>)) = row # tail"
    using assms(2) r(2) by simp_all
  from csv_step_row [OF assms(1) this, of from_str samples "Suc 0"] r(1) show ?thesis
    by (auto simp: csv_next_def loop_run_again loop_run_return)
qed

lemma csv_next_end:
  assumes "csv_rows C left rows" "cr_random cr = None" "left (cr_reader cr) = []" "\<not> (cr_repeat cr \<and> cr_positions cr \<noteq> [])"
  shows "\<exists>r'. csv_next C from_str samples cr = Some (None, cr\<lparr>cr_reader := r'\<rparr>) \<and> left r' = []"
  using csv_step_end [OF assms(1-3), of from_str samples 0] assms(4)
  by (auto simp: csv_next_def loop_run_return)

end
