(* ===== verification/ReaderProps.thy ===== *)
theory ReaderProps
  imports LineProps JsonReader CsvReader
begin

text \<open>
  The properties of the file providers' readers: which values they yield, in which order, whatever the sizes of the
  reads, and when a call of \<open>next\<close> returns.
\<close>

subsection \<open>Lines\<close>

text \<open>
  C14. A line reader without \<open>random\<close> yields the lines of the file in order, each parsed as JSON or else as text,
  however the reads cut the file; then it is at its end for good, or with \<open>repeat\<close> starts again from the first line.
  An empty file has no values, \<open>repeat\<close> or not.
\<close>

theorem line_reader_sequential:
  fixes from_str :: "string \<Rightarrow> json option" and bytes :: string
  assumes "list_all (\<lambda>r. \<not> isl r) reads"
  defines "vs \<equiv> map (line_value from_str) (file_lines bytes)"
  shows "\<exists>s. line_reader_new from_str False rep sample (file_open bytes reads) = Inr s \<and>
    take_items (line_next from_str) samples s =
      (if rep \<and> vs \<noteq> [] then map (\<lambda>i. Some (Inr (vs ! (i mod length vs)))) [0..<length samples]
       else map (Some \<circ> Inr) (take (length samples) vs) @ replicate (length samples - length vs) None)"
proof -
  let ?s = "line_reader_start rep (file_open bytes reads)"
  note start = line_start_ok [OF assms(1), where bytes = bytes and rep = rep]
  have new: "line_reader_new from_str False rep sample (file_open bytes reads) =
      Inr (if rep then ?s\<lparr>lr_positions := [(0, 0)]\<rparr> else ?s)"
    by (simp add: line_reader_new_def line_reader_start_def)
  show ?thesis
  proof (cases rep)
    case False
    then have ok: "plain_ok bytes ?s" using start by (simp add: plain_ok_def line_reader_start_def)
    have "lines_left from_str ?s = vs" using start(2) by (simp add: lines_left_def vs_def)
    with new False plain.drained [OF ok, of from_str samples] show ?thesis by simp
  next
    case True
    let ?r = "?s\<lparr>lr_positions := [(0, 0)]\<rparr>"
    have r: "repeat_at bytes 0 ?r" using True start
      by (simp add: repeat_at_def line_ok_def line_rest_def line_reader_start_def)
    show ?thesis
    proof (cases "bytes = []")
      case True
      with r have "repeat_at [] 0 ?r" by simp
      from repeat_empty_items [OF this, of from_str samples] new \<open>rep\<close> True show ?thesis by (simp add: vs_def)
    next
      case False
      with repeat_items [OF r, of from_str samples] new \<open>rep\<close> show ?thesis by (simp add: vs_def)
    qed
  qed
qed

theorem line_reader_sequential_witness:
  "\<exists>s. line_reader_new (\<lambda>_. None) False True 0 (file_open ''a'' [Inr 1]) = Inr s \<and>
    take_items (line_next (\<lambda>_. None)) [0, 0] s = [Some (Inr (JString ''a'')), Some (Inr (JString ''a''))]"
  using line_reader_sequential [where reads = "[Inr 1]" and rep = True and from_str = "\<lambda>_. None" and sample = 0 and bytes = "''a''" and samples = "[0, 0]"]
  by (simp add: file_lines.simps first_line_def after_line_def line_value_def str_to_json_def trim_line_end_def
      upt_rec utf8_tail_def utf8_width_def)

text \<open>
  C36. A random line reader with \<open>repeat\<close> yields the line each sample picks. Without \<open>repeat\<close> as many samples as
  there are lines yield every line once, in some order.
\<close>

theorem line_reader_random:
  fixes from_str :: "string \<Rightarrow> json option" and bytes :: string
  assumes "list_all (\<lambda>r. \<not> isl r) reads"
  defines "vs \<equiv> map (line_value from_str) (file_lines bytes)"
  shows "\<exists>s. line_reader_new from_str True rep sample (file_open bytes reads) = Inr s \<and>
    (if vs = [] then take_items (line_next from_str) samples s = replicate (length samples) None
     else if rep then take_items (line_next from_str) samples s = map (\<lambda>r. Some (Inr (vs ! (r mod length vs)))) samples
     else length samples = length vs \<longrightarrow>
       mset (take_items (line_next from_str) samples s) = image_mset (Some \<circ> Inr) (mset vs))"
proof -
  from line_new_random [OF assms(1), of from_str rep sample bytes] obtain s where
    s: "line_reader_new from_str True rep sample (file_open bytes reads) = Inr s"
      "if bytes = [] then line_ok [] s \<and> line_rest s = [] \<and> lr_random s = None \<and> lr_positions s = []
       else random_ok bytes rep s \<and> lr_positions s = line_positions 0 bytes" by blast
  show ?thesis
  proof (cases "bytes = []")
    case True
    with s empty_file_items [of s from_str samples] show ?thesis by (auto simp: vs_def)
  next
    case False
    with s(2) have ok: "random_ok bytes rep s" and pos: "lr_positions s = line_positions 0 bytes" by simp_all
    have lines: "map (line_at bytes) (line_positions 0 bytes) = file_lines bytes" by (rule line_positions_lines) simp
    have "values_left from_str bytes s = map (line_value from_str) (map (line_at bytes) (line_positions 0 bytes))"
      by (simp add: values_left_def pos)
    then have vs: "values_left from_str bytes s = vs" unfolding lines vs_def .
    then have len: "length (lr_positions s) = length vs" by (metis length_map values_left_def)
    have ne: "vs \<noteq> []" using False by (simp add: vs_def)
    then have "lr_positions s \<noteq> []" using len by auto
    show ?thesis
    proof (cases rep)
      case True
      with random_repeat_items [of bytes s from_str samples] \<open>lr_positions s \<noteq> []\<close> ok s(1) ne len vs show ?thesis by auto
    next
      case False
      with random_once_items [of bytes s samples from_str] ok s(1) ne len vs show ?thesis by auto
    qed
  qed
qed

theorem line_reader_random_witness:
  "\<exists>s. line_reader_new (\<lambda>_. None) True False 0 (file_open ''a'' [Inr 1]) = Inr s \<and>
    mset (take_items (line_next (\<lambda>_. None)) [5] s) = {# Some (Inr (JString ''a'')) #}"
  using line_reader_random [where reads = "[Inr 1]" and rep = False and from_str = "\<lambda>_. None" and sample = 0 and bytes = "''a''" and samples = "[5]"]
  by (simp add: file_lines.simps first_line_def after_line_def line_value_def str_to_json_def trim_line_end_def
      utf8_tail_def utf8_width_def)

subsection \<open>JSON values\<close>


text \<open>A deserializer of empty arrays, for the witness.\<close>

fun brackets :: "string \<Rightarrow> json stream_result" where
  "brackets [] = StreamNone"
| "brackets [c] = (if c = CHR ''['' then StreamEofError else StreamError ''expected value'')"
| "brackets (c # d # _) =
     (if c = CHR ''['' \<and> d = CHR '']'' then StreamValue (JArray []) 2 else StreamError ''expected value'')"

lemma brackets_self_delineating: "self_delineating brackets"
proof -
  have "0 < n \<and> n \<le> length xs \<and> brackets (xs @ ys) = StreamValue v n" if "brackets xs = StreamValue v n" for xs ys v n
    using that by (cases xs rule: brackets.cases) (auto split: if_splits)
  moreover have "brackets (xs @ ys) = StreamError e" if "brackets xs = StreamError e" for xs ys e
    using that by (cases xs rule: brackets.cases; cases ys) (auto split: if_splits)
  ultimately show ?thesis by (simp add: self_delineating_def)
qed


subsection \<open>CSV records\<close>

text \<open>
  C38. On a file the crate reads without errors, a call of \<open>next\<close> of a CSV reader without \<open>random\<close> returns unless
  \<open>repeat\<close> is on and there is no record, neither left nor at the first position; then it calls itself forever.
\<close>

theorem csv_next_returns:
  assumes "csv_rows C left rows" "cr_random cr = None"
  shows "csv_next C from_str samples cr = None \<longleftrightarrow>
    cr_repeat cr \<and> left (cr_reader cr) = [] \<and> (\<exists>p ps. cr_positions cr = p # ps \<and> rows p = [])"
proof (cases "left (cr_reader cr)")
  case (Cons row rest)
  from csv_next_row [OF assms this, of from_str samples] Cons show ?thesis by auto
next
  case Nil
  show ?thesis
  proof (cases "cr_repeat cr \<and> cr_positions cr \<noteq> []")
    case True
    then obtain p ps where p: "cr_positions cr = p # ps" by (cases "cr_positions cr") auto
    show ?thesis
    proof (cases "rows p")
      case Nil
      with csv_next_diverges [OF assms(1), of p ps cr from_str samples] True p \<open>left (cr_reader cr) = []\<close> assms(2)
      show ?thesis by (simp add: csv_at_end_def)
    next
      case (Cons row rest)
      with csv_next_restart [OF assms Nil, of p ps row rest from_str samples] True p show ?thesis by auto
    qed
  next
    case False
    with csv_next_end [OF assms Nil False, of from_str samples] show ?thesis by auto
  qed
qed

text \<open>A crate for files of one column, a row per character, for the witness.\<close>

definition char_rows :: "string \<Rightarrow> (nat, nat) csv_crate" where
  "char_rows bytes =
     \<lparr>csv_from_reader = \<lambda>_ _. 0, csv_read_headers = \<lambda>r. (Inr [], r), csv_set_headers = \<lambda>_ r. r,
      csv_read_record = \<lambda>r. if r < length bytes then (Inr (Some [[bytes ! r]]), r + 1) else (Inr None, r),
      csv_read_byte_record = \<lambda>r. if r < length bytes then (Inr (Some (Some r)), r + 1) else (Inr None, r),
      csv_seek = \<lambda>p _. (Inr (), p), csv_position_new = 0\<rparr>"

lemma char_rows_ok: "csv_rows (char_rows bytes) (\<lambda>r. map (\<lambda>c. [[c]]) (drop r bytes)) (\<lambda>p. map (\<lambda>c. [[c]]) (drop p bytes))"
  by (auto simp: csv_rows_def char_rows_def Cons_nth_drop_Suc [symmetric] split: list.split)

theorem csv_next_returns_witness:
  "csv_next (char_rows []) (\<lambda>_. None) (\<lambda>_. 0)
     \<lparr>cr_positions = [0], cr_headers = None, cr_random = None, cr_reader = 0, cr_repeat = True\<rparr> = None"
  by (simp add: csv_next_returns [OF char_rows_ok])

text \<open>\<open>new\<close> makes such a reader of an empty file when the first row is not its header.\<close>

lemma csv_new_repeat:
  assumes "csv_headers csv = HeaderBool False"
  shows "csv_reader_new C csv False True sample file =
    Some (Inr \<lparr>cr_positions = [csv_position_new C], cr_headers = None, cr_random = None,
      cr_reader = csv_from_reader C (csv_builder_of csv) file, cr_repeat = True\<rparr>)"
  using assms by (simp add: csv_reader_new_def csv_headers_of_def Let_def)

end
