(* ===== verification/Errors.thy ===== *)
theory Errors
  imports RequiredProviders
begin

text \<open>
  The errors of a test (\<open>src/error.rs\<close>), how they become one another, and what they are written as; with them the
  messages of the configuration's errors (\<open>lib/config/src/error.rs\<close>). An error of another crate is its message; a
  \<open>SystemTime\<close> is a number of nanoseconds.
\<close>

type_synonym system_time = int

subsection \<open>Messages of configuration errors\<close>

fun at_marker :: "marker \<Rightarrow> string" where
  "at_marker (Marker i l c) = '' at line '' @ nat_to_string l @ '' column '' @ nat_to_string c"

fun exec_error_message :: "exec_error \<Rightarrow> string" where
  "exec_error_message (IndexingIntoJson p v m) = ''indexing into json. Path was `'' @ p @ ''`'' @ at_marker m"
| "exec_error_message (InvalidFunctionArguments func m) =
     ''invalid arguments for function `'' @ func @ ''`'' @ at_marker m"

fun creating_error_message :: "creating_error \<Rightarrow> string" where
  "creating_error_message (InvalidExpression e m) = ''invalid expression. '' @ e @ at_marker m"
| "creating_error_message (Executing e) = exec_error_message e"
| "creating_error_message (UnknownFunction func m) = ''unknown function `'' @ func @ ''`'' @ at_marker m"
| "creating_error_message (UnknownProvider p m) = ''unknown provider: `'' @ p @ ''`'' @ at_marker m"

fun config_error_message :: "config_error \<Rightarrow> string" where
  "config_error_message (ExpressionErr e) = creating_error_message e"
| "config_error_message (InvalidDuration d m) = ''invalid duration `'' @ d @ ''`'' @ at_marker m"
| "config_error_message (InvalidLoadPattern m) = ''invalid load_pattern'' @ at_marker m"
| "config_error_message (InvalidPeakLoad p m) = ''invalid peak_load `'' @ p @ ''`'' @ at_marker m"
| "config_error_message (InvalidPercent p m) = ''invalid percent `'' @ p @ ''`'' @ at_marker m"
| "config_error_message (InvalidYaml e) = ''yaml syntax error:'' @ [CHR 0x0A, CHR 0x09] @ e"
| "config_error_message (MissingEnvironmentVariable v m) = ''undefined environment variable `'' @ v @ ''`'' @ at_marker m"
| "config_error_message (MissingForEach m) = ''missing `for_each`'' @ at_marker m"
| "config_error_message (MissingLoadPattern m) = ''endpoint is missing a load_pattern'' @ at_marker m"
| "config_error_message (MissingPeakLoad (Marker i l c)) =
     ''endpoint must either have a `peak_load`, a provides which is `send: block`, or depend on a `response` provider. See line '' @
     nat_to_string l @ '' column '' @ nat_to_string c"
| "config_error_message (MissingYamlField field m) = ''missing field `'' @ field @ ''`'' @ at_marker m"
| "config_error_message (RecursiveForEachReference m) = ''recursive `for_each` reference'' @ at_marker m"
| "config_error_message (UnknownLogger l m) = ''unknown logger `'' @ l @ ''`'' @ at_marker m"
| "config_error_message (UnrecognizedKey k (Some name) m) =
     ''unrecognized key `'' @ k @ ''` in `'' @ name @ ''`'' @ at_marker m"
| "config_error_message (UnrecognizedKey k None m) = ''unrecognized key `'' @ k @ ''`'' @ at_marker m"
| "config_error_message (YamlDeserialize (Some name) m) = ''unexpected value for `'' @ name @ ''`'' @ at_marker m"
| "config_error_message (YamlDeserialize None m) = ''unexpected value for field'' @ at_marker m"

subsection \<open>Recoverable errors\<close>

datatype recoverable_error =
    ProviderDelay string
  | BodyErr string
  | ConnectionErr system_time string
  | ExecutingExpression exec_error
  | Timeout system_time

fun error_code :: "recoverable_error \<Rightarrow> nat" where
  "error_code (BodyErr _) = 1"
| "error_code (ConnectionErr _ _) = 2"
| "error_code (ExecutingExpression _) = 3"
| "error_code (Timeout _) = 4"
| "error_code (ProviderDelay _) = 5"

fun recoverable_message :: "recoverable_error \<Rightarrow> string" where
  "recoverable_message (BodyErr e) = ''body error: '' @ e"
| "recoverable_message (ConnectionErr _ e) = ''connection error: `'' @ e @ ''`''"
| "recoverable_message (ExecutingExpression e) = exec_error_message e"
| "recoverable_message (ProviderDelay p) = ''endpoint was delayed waiting for provider `'' @ p @ ''`''"
| "recoverable_message (Timeout _) = ''request timed out''"

subsection \<open>Errors that end a test\<close>

datatype test_error =
    CannotCreateLoggerFile string string
  | CannotCreateStatsFile string string
  | CannotOpenFile string string
  | ConfigErr config_error
  | FileReading string string
  | InvalidConfigFilePath string
  | InvalidUrl string
  | Recoverable recoverable_error
  | RequestBuilderErr string
  | SslError string
  | WritingToFile string string

fun test_error_message :: "test_error \<Rightarrow> string" where
  "test_error_message (CannotCreateLoggerFile s e) = ''error creating logger file `'' @ s @ ''`: '' @ e"
| "test_error_message (CannotCreateStatsFile s e) = ''error creating stats file `'' @ s @ ''`: '' @ e"
| "test_error_message (CannotOpenFile p e) = ''error opening file `'' @ p @ ''`: '' @ e"
| "test_error_message (ConfigErr e) = config_error_message e"
| "test_error_message (FileReading s e) = ''error reading file `'' @ s @ ''`: '' @ e"
| "test_error_message (InvalidConfigFilePath p) = ''could not find config file at path `'' @ p @ ''`''"
| "test_error_message (InvalidUrl u) = ''invalid url `'' @ u @ ''`''"
| "test_error_message (Recoverable r) = ''recoverable error: '' @ recoverable_message r"
| "test_error_message (RequestBuilderErr e) = ''error creating request: '' @ e"
| "test_error_message (SslError e) = ''error creating ssl connector: '' @ e"
| "test_error_message (WritingToFile l e) = ''error writing to file `'' @ l @ ''`: '' @ e"

text \<open>
  \<open>From\<close>: only an \<open>IndexingIntoJson\<close> that comes as a configuration error is recoverable; the same error of an
  expression is not.
\<close>

definition test_error_of_config :: "config_error \<Rightarrow> test_error" where
  "test_error_of_config ce =
     (case ce of
        ExpressionErr (Executing (IndexingIntoJson p v m)) \<Rightarrow> Recoverable (ExecutingExpression (IndexingIntoJson p v m))
      | _ \<Rightarrow> ConfigErr ce)"

definition test_error_of_creating :: "creating_error \<Rightarrow> test_error" where
  "test_error_of_creating ce = ConfigErr (ExpressionErr ce)"

definition test_error_of_exec :: "exec_error \<Rightarrow> test_error" where
  "test_error_of_exec e = ConfigErr (ExpressionErr (Executing e))"

text \<open>The statistics count a recoverable error under its message: two errors of a kind with different texts differ.\<close>

lemma recoverable_message_Timeout: "recoverable_message (Timeout t) = recoverable_message (Timeout t')"
  by simp

end
