(* ===== verification/Stats.thy ===== *)
theory Stats
  imports Errors Channel Time "HOL-Library.Product_Lexorder"
begin

text \<open>
  \<open>src/stats.rs\<close>: the task that collects the statistics of a load test in time buckets, prints a summary per bucket
  and writes the buckets to a file. Times are whole seconds since the epoch, given to each operation that reads the
  clock; counts are natural numbers. The histogram of \<open>hdrhistogram\<close> is a parameter (\<open>hist_ops\<close>), and so are the
  statistics a channel's reader gives. What is sent to the file and to the console is kept in the order of sending;
  a console message is the data it is written from, its layout (colours, percentiles, dates) is left out.
  \<open>None\<close> is a panic, which ends the task.
\<close>

subsection \<open>Statistics of a group of responses\<close>

record 'h hist_ops =
  hist_new :: 'h
  hist_record :: "'h \<Rightarrow> u64 \<Rightarrow> 'h"       \<comment> \<open>\<open>+=\<close>, on a histogram that resizes itself\<close>
  hist_add :: "'h \<Rightarrow> 'h \<Rightarrow> 'h"
  hist_len :: "'h \<Rightarrow> nat"

type_synonym tags = "(string \<times> string) list"

datatype stat_kind = RecoverableStat recoverable_error | ResponseKind u16

record response_stat =
  rs_kind :: stat_kind
  rs_rtt :: "u64 option"
  rs_time :: system_time
  rs_tags :: tags

record 'h group_stats =
  gs_request_timeouts :: nat
  gs_rtt_histogram :: 'h
  gs_status_counts :: "(u16 \<times> nat) list"
  gs_test_errors :: "(string \<times> nat) list"

definition group_default :: "'h hist_ops \<Rightarrow> 'h group_stats" where
  "group_default H = \<lparr>gs_request_timeouts = 0, gs_rtt_histogram = hist_new H, gs_status_counts = [], gs_test_errors = []\<rparr>"

text \<open>\<open>entry(k).and_modify(|c| *c += n).or_insert(n)\<close>.\<close>

definition bump :: "'k :: linorder \<Rightarrow> nat \<Rightarrow> ('k \<times> nat) list \<Rightarrow> ('k \<times> nat) list" where
  "bump k n m = bt_insert k (case map_of m k of Some c \<Rightarrow> c + n | None \<Rightarrow> n) m"

definition group_append :: "'h hist_ops \<Rightarrow> response_stat \<Rightarrow> 'h group_stats \<Rightarrow> 'h group_stats" where
  "group_append H stat g =
     (let g = (case rs_kind stat of
                 RecoverableStat (Timeout _) \<Rightarrow> g\<lparr>gs_request_timeouts := gs_request_timeouts g + 1\<rparr>
               | RecoverableStat r \<Rightarrow> g\<lparr>gs_test_errors := bump (recoverable_message r) 1 (gs_test_errors g)\<rparr>
               | ResponseKind status \<Rightarrow> g\<lparr>gs_status_counts := bump status 1 (gs_status_counts g)\<rparr>) in
      case rs_rtt stat of
        Some rtt \<Rightarrow> g\<lparr>gs_rtt_histogram := hist_record H (gs_rtt_histogram g) rtt\<rparr>
      | None \<Rightarrow> g)"

definition bump_all :: "('k :: linorder \<times> nat) list \<Rightarrow> ('k \<times> nat) list \<Rightarrow> ('k \<times> nat) list" where
  "bump_all rhs m = fold (\<lambda>(k, n). bump k n) rhs m"

definition group_combine :: "'h hist_ops \<Rightarrow> 'h group_stats \<Rightarrow> 'h group_stats \<Rightarrow> 'h group_stats" where
  "group_combine H g rhs =
     \<lparr>gs_request_timeouts = gs_request_timeouts g + gs_request_timeouts rhs,
      gs_rtt_histogram = hist_add H (gs_rtt_histogram g) (gs_rtt_histogram rhs),
      gs_status_counts = bump_all (gs_status_counts rhs) (gs_status_counts g),
      gs_test_errors = bump_all (gs_test_errors rhs) (gs_test_errors g)\<rparr>"

text \<open>A summary leaves a group without calls, errors and timeouts out; its tags must have a method and a url.\<close>

definition group_shown :: "'h hist_ops \<Rightarrow> 'h group_stats \<Rightarrow> bool" where
  "group_shown H g \<longleftrightarrow> \<not> (hist_len H (gs_rtt_histogram g) = 0 \<and> gs_test_errors g = [] \<and> gs_request_timeouts g = 0)"

definition named_tags :: "tags \<Rightarrow> bool" where
  "named_tags t \<longleftrightarrow> map_of t ''method'' \<noteq> None \<and> map_of t ''url'' \<noteq> None"

definition group_print_summary :: "'h hist_ops \<Rightarrow> tags \<Rightarrow> 'h group_stats \<Rightarrow> (tags \<times> 'h group_stats) list option" where
  "group_print_summary H t g =
     (if \<not> group_shown H g then Some [] else if named_tags t then Some [(t, g)] else None)"

subsection \<open>Time buckets\<close>

record 'h time_bucket =
  tb_time :: nat
  tb_entries :: "(nat \<times> 'h group_stats) list"

definition bucket_new :: "nat \<Rightarrow> 'h time_bucket" where
  "bucket_new time = \<lparr>tb_time = time, tb_entries = []\<rparr>"

definition bucket_append :: "'h hist_ops \<Rightarrow> response_stat \<Rightarrow> nat \<Rightarrow> 'h time_bucket \<Rightarrow> 'h time_bucket" where
  "bucket_append H stat i b =
     (let entry = (case map_of (tb_entries b) i of Some g \<Rightarrow> g | None \<Rightarrow> group_default H) in
      b\<lparr>tb_entries := bt_insert i (group_append H stat entry) (tb_entries b)\<rparr>)"

definition bucket_combine :: "'h hist_ops \<Rightarrow> 'h time_bucket \<Rightarrow> 'h time_bucket \<Rightarrow> 'h time_bucket" where
  "bucket_combine H b rhs =
     b\<lparr>tb_entries := fold (\<lambda>(i, entry) m.
         bt_insert i (case map_of m i of Some g \<Rightarrow> group_combine H g entry | None \<Rightarrow> entry) m)
       (tb_entries rhs) (tb_entries b)\<rparr>"

record 'h bucket_summary =
  sm_complete :: bool
  sm_start :: nat
  sm_end :: nat
  sm_groups :: "(tags \<times> 'h group_stats) list"
  sm_remaining :: "nat option"

fun collect_options :: "'a option list \<Rightarrow> 'a list option" where
  "collect_options [] = Some []"
| "collect_options (x # xs) = Option.bind x (\<lambda>a. map_option ((#) a) (collect_options xs))"

definition bucket_print_summary ::
    "'h hist_ops \<Rightarrow> (tags \<times> nat) list \<Rightarrow> nat \<Rightarrow> nat option \<Rightarrow> 'h time_bucket \<Rightarrow> 'h bucket_summary option" where
  "bucket_print_summary H tags bucket_size remaining b =
     map_option (\<lambda>pieces.
         \<lparr>sm_complete = (remaining = None), sm_start = tb_time b, sm_end = tb_time b + bucket_size,
          sm_groups = concat pieces, sm_remaining = remaining\<rparr>)
       (collect_options (map (\<lambda>(t, i).
           case map_of (tb_entries b) i of Some g \<Rightarrow> group_print_summary H t g | None \<Rightarrow> Some []) tags))"

subsection \<open>The task's state\<close>

datatype 'h file_message = FileHeader string string nat | FileTags nat tags | FileBuckets "'h time_bucket"

datatype run_output_format = Human | JsonOutput

datatype 'h console_text =
    BucketText "channel_stats list" "'h bucket_summary"
  | FinalText "'h bucket_summary" "'h bucket_summary"
  | StartText nat
  | DurationText "nat option"

record 'h stats =
  st_bucket_size :: nat
  st_current :: "'h time_bucket"
  st_console :: "'h console_text list"
  st_duration :: nat
  st_file :: "'h file_message list"
  st_previous :: "'h time_bucket option"
  st_providers :: "(nat \<Rightarrow> channel_stats) list"
  st_tags :: "(tags \<times> nat) list"
  st_totals :: "'h time_bucket"

text \<open>Integer division by a bucket size of zero panics.\<close>

definition round_time :: "nat \<Rightarrow> nat \<Rightarrow> nat" where
  "round_time time bucket_size = time div bucket_size * bucket_size"

definition stats_new :: "nat \<Rightarrow> nat \<Rightarrow> (nat \<Rightarrow> channel_stats) list \<Rightarrow> 'h stats option" where
  "stats_new now bucket_size providers =
     (if bucket_size = 0 then None
      else Some \<lparr>st_bucket_size = bucket_size, st_current = bucket_new (round_time now bucket_size), st_console = [],
        st_duration = 0, st_file = [], st_previous = None, st_providers = providers, st_tags = [],
        st_totals = bucket_new now\<rparr>)"

text \<open>Both assertions of the source: the bucket before has the time before, and no completed bucket is left over.\<close>

definition check_current_bucket :: "'h hist_ops \<Rightarrow> nat \<Rightarrow> 'h stats \<Rightarrow> 'h stats option" where
  "check_current_bucket H now s =
     (let current_bucket_time = round_time now (st_bucket_size s) in
      if tb_time (st_current s) < current_bucket_time then
        (let previous = st_current s; s = s\<lparr>st_current := bucket_new current_bucket_time\<rparr> in
         if tb_time previous \<noteq> current_bucket_time - st_bucket_size s then None
         else if st_previous s \<noteq> None then None
         else Some (s\<lparr>st_totals := bucket_combine H (st_totals s) previous, st_previous := Some previous\<rparr>))
      else Some s)"

definition get_previous_bucket ::
    "'h hist_ops \<Rightarrow> nat \<Rightarrow> bool \<Rightarrow> 'h stats \<Rightarrow> ('h time_bucket option \<times> 'h stats) option" where
  "get_previous_bucket H now test_complete s =
     (if test_complete then
        (let bucket = st_current s; s = s\<lparr>st_current := bucket_new 0\<rparr> in
         Some (Some bucket, s\<lparr>st_totals := bucket_combine H (st_totals s) bucket\<rparr>))
      else
        (case st_previous s of
           Some b \<Rightarrow> Some (Some b, s\<lparr>st_previous := None\<rparr>)
         | None \<Rightarrow> map_option (\<lambda>s. (st_previous s, s\<lparr>st_previous := None\<rparr>)) (check_current_bucket H now s)))"

definition write_file_message :: "'h file_message \<Rightarrow> 'h stats \<Rightarrow> 'h stats" where
  "write_file_message msg s = s\<lparr>st_file := st_file s @ [msg]\<rparr>"

definition stats_append :: "'h hist_ops \<Rightarrow> response_stat \<Rightarrow> 'h stats \<Rightarrow> 'h stats" where
  "stats_append H stat s =
     (case map_of (st_tags s) (rs_tags stat) of
        Some i \<Rightarrow> s\<lparr>st_current := bucket_append H stat i (st_current s)\<rparr>
      | None \<Rightarrow>
          (let i = length (st_tags s) in
           write_file_message (FileTags i (rs_tags stat))
             (s\<lparr>st_tags := bt_insert (rs_tags stat) i (st_tags s),
                st_current := bucket_append H stat i (st_current s)\<rparr>)))"

definition close_out_bucket :: "'h hist_ops \<Rightarrow> nat \<Rightarrow> nat option \<Rightarrow> 'h stats \<Rightarrow> 'h stats option" where
  "close_out_bucket H now remaining s =
     (let test_complete = (remaining = None); time = round_time now (st_bucket_size s) - st_bucket_size s in
      Option.bind (get_previous_bucket H now test_complete s) (\<lambda>(found, s).
      let bucket = (case found of Some b \<Rightarrow> b | None \<Rightarrow> bucket_new time);
          providers = (if test_complete then [] else map (\<lambda>reader. reader time) (st_providers s)) in
      Option.bind (bucket_print_summary H (st_tags s) (st_bucket_size s)
          (case remaining of Some r \<Rightarrow> Some r | None \<Rightarrow> Some 0) bucket) (\<lambda>summary.
      let s = (if found = None then s else write_file_message (FileBuckets bucket) s) in
      if test_complete then
        (let totals = st_totals s; s = s\<lparr>st_totals := bucket_new 0\<rparr> in
         map_option (\<lambda>total. s\<lparr>st_console := st_console s @ [FinalText summary total]\<rparr>)
           (bucket_print_summary H (st_tags s) (st_duration s) remaining totals))
      else Some (s\<lparr>st_console := st_console s @ [BucketText providers summary]\<rparr>))))"

subsection \<open>The loop over the messages\<close>

text \<open>
  What the task's stream gives it, with the clock at that moment: the seconds since the epoch and, once a start
  message has come, since the start of the test.
\<close>

datatype stats_item =
    TestComplete
  | NewBucket
  | UpdateProviders "(nat \<Rightarrow> channel_stats) list"
  | StartMessage duration
  | ResponseMessage response_stat

record clock =
  ck_epoch :: nat
  ck_elapsed :: duration

definition as_secs :: "duration \<Rightarrow> nat" where
  "as_secs d = d div nanos_per_sec"

text \<open>\<open>stats.duration - start.elapsed().as_secs()\<close> on \<open>u64\<close> wraps in a release build.\<close>

definition seconds_left :: "nat \<Rightarrow> nat \<Rightarrow> nat" where
  "seconds_left duration elapsed = nat ((int duration - int elapsed) mod 2 ^ 64)"

record 'h stats_task =
  sk_stats :: "'h stats"
  sk_started :: bool

text \<open>
  \<open>(duration.as_secs_f64() - stats.duration as f64).abs() < 1.0\<close>, and the start message: the first one of a test
  writes the header of the file, a later one comes with a new configuration. \<open>None\<close> is a panic.
\<close>

definition within_a_second :: "duration \<Rightarrow> nat \<Rightarrow> bool" where
  "within_a_second d secs \<longleftrightarrow>
     (let diff = f64_sub (as_secs_f64 d) (f64_of_nat secs); one = f64_of_nat 1 in
      f64_lt diff one \<and> f64_lt (f64_neg one) diff)"

definition start_message :: "string \<Rightarrow> string \<Rightarrow> duration \<Rightarrow> clock \<Rightarrow> 'h stats_task \<Rightarrow> 'h stats_task option" where
  "start_message test_name bin d ck t =
     (let s = sk_stats t in
      if sk_started t then
        map_option (\<lambda>duration.
          if within_a_second duration (st_duration s)
          then t\<lparr>sk_stats := s\<lparr>st_console := st_console s @ [DurationText None]\<rparr>\<rparr>
          else t\<lparr>sk_stats := s\<lparr>st_duration := as_secs duration,
                   st_console := st_console s @ [DurationText (Some (as_secs d))]\<rparr>\<rparr>)
          (dur_add (ck_elapsed ck) d)
      else
        Some (t\<lparr>sk_stats := (write_file_message (FileHeader test_name bin (st_bucket_size s)) s)
                 \<lparr>st_duration := as_secs d, st_console := st_console s @ [StartText (as_secs d)]\<rparr>,
               sk_started := True\<rparr>))"

text \<open>\<open>None\<close> is a panic, \<open>Inl\<close> the end of the loop.\<close>

definition stats_item_step ::
    "'h hist_ops \<Rightarrow> string \<Rightarrow> string \<Rightarrow> stats_item \<times> clock \<Rightarrow> 'h stats_task \<Rightarrow> ('h stats_task + 'h stats_task) option" where
  "stats_item_step H test_name bin ev t =
     (case ev of (item, ck) \<Rightarrow>
        (case item of
           TestComplete \<Rightarrow>
             map_option (\<lambda>s. Inl (t\<lparr>sk_stats := s\<rparr>)) (close_out_bucket H (ck_epoch ck) None (sk_stats t))
         | NewBucket \<Rightarrow>
             (let test_end_time =
                (if sk_started t then Some (seconds_left (st_duration (sk_stats t)) (as_secs (ck_elapsed ck))) else None) in
              map_option (\<lambda>s. Inr (t\<lparr>sk_stats := s\<rparr>)) (close_out_bucket H (ck_epoch ck) test_end_time (sk_stats t)))
         | UpdateProviders ps \<Rightarrow> Some (Inr (t\<lparr>sk_stats := (sk_stats t)\<lparr>st_providers := ps\<rparr>\<rparr>))
         | StartMessage d \<Rightarrow> map_option Inr (start_message test_name bin d ck t)
         | ResponseMessage rs \<Rightarrow> Some (Inr (t\<lparr>sk_stats := stats_append H rs (sk_stats t)\<rparr>))))"

fun stats_run ::
    "'h hist_ops \<Rightarrow> string \<Rightarrow> string \<Rightarrow> (stats_item \<times> clock) list \<Rightarrow> 'h stats_task \<Rightarrow> 'h stats_task option" where
  "stats_run H test_name bin [] t = Some t"
| "stats_run H test_name bin (ev # evs) t =
     (case stats_item_step H test_name bin ev t of
        None \<Rightarrow> None
      | Some (Inl t') \<Rightarrow> Some t'
      | Some (Inr t') \<Rightarrow> stats_run H test_name bin evs t')"

text \<open>
  Which of its three sources the task's stream takes an item from: the end of the test or an update of the
  configuration comes before a tick of the interval, a tick before a message. \<open>Pending\<close> after an update when
  provider statistics are off: the source is not polled again by this call.
\<close>

datatype end_signal = ConfigUpdated "(nat \<Rightarrow> channel_stats) list" | TestEnded

definition stats_poll ::
    "bool \<Rightarrow> end_signal option \<Rightarrow> bool \<Rightarrow> stats_item option poll \<Rightarrow> stats_item option poll" where
  "stats_poll log_provider_stats signal tick msg =
     (case signal of
        None \<Rightarrow> if tick then Ready (Some NewBucket) else msg
      | Some (ConfigUpdated ps) \<Rightarrow> if log_provider_stats then Ready (Some (UpdateProviders ps)) else Pending
      | Some TestEnded \<Rightarrow> Ready (Some TestComplete))"

text \<open>The first tick: the rest of the current bucket's time and a millisecond, in milliseconds.\<close>

definition next_bucket :: "nat \<Rightarrow> nat \<Rightarrow> nat" where
  "next_bucket start_sec bucket_size = (bucket_size - (start_sec - round_time start_sec bucket_size)) * 1000 + 1"

subsection \<open>Pretty durations\<close>

definition count_unit :: "nat \<Rightarrow> string \<Rightarrow> string list" where
  "count_unit count name =
     (if count = 0 then [] else if count = 1 then [nat_to_string count @ '' '' @ name]
      else [nat_to_string count @ '' '' @ name @ ''s''])"

fun duration_units :: "nat \<Rightarrow> (nat \<times> string) list \<Rightarrow> (nat \<times> string) list" where
  "duration_units secs [] = []"
| "duration_units secs ((u, name) # us) = (secs div u, name) # duration_units (secs - secs div u * u) us"

definition time_units :: "(nat \<times> string) list" where
  "time_units = [(60 * 60 * 24, ''day''), (60 * 60, ''hour''), (60, ''minute''), (1, ''second'')]"

definition duration_to_pretty_long_form :: "nat \<Rightarrow> string" where
  "duration_to_pretty_long_form secs =
     (let builder = concat (map (\<lambda>(n, name). count_unit n name) (duration_units secs time_units));
          long_time =
            (if builder = [] then ''0 seconds''
             else if butlast builder = [] then last builder
             else str_join '', '' (butlast builder) @ '' and '' @ last builder) in
      ''in approximately '' @ long_time)"

text \<open>The date of the end, around which it is known, is a parameter: none when the duration is too long for a date.\<close>

definition duration_till_end_to_pretty_string :: "string option \<Rightarrow> duration \<Rightarrow> string" where
  "duration_till_end_to_pretty_string short_form d =
     ''Test will end '' @
     (case short_form of
        Some s \<Rightarrow> s @ '' '' @ duration_to_pretty_long_form (as_secs d)
      | None \<Rightarrow> duration_to_pretty_long_form (as_secs d))"

subsection \<open>Try runs\<close>

text \<open>
  A try run has one group of statistics and prints one summary. Here a message comes before the end of the test: the
  loop takes in all that have been sent before it ends.
\<close>

definition try_run_poll :: "'m option poll \<Rightarrow> bool \<Rightarrow> 'm option poll" where
  "try_run_poll msg test_complete =
     (case msg of Ready m \<Rightarrow> Ready m | Pending \<Rightarrow> if test_complete then Ready None else Pending)"

definition try_run_append :: "'h hist_ops \<Rightarrow> stats_item \<Rightarrow> 'h group_stats \<Rightarrow> 'h group_stats" where
  "try_run_append H item g = (case item of ResponseMessage rs \<Rightarrow> group_append H rs g | _ \<Rightarrow> g)"

definition try_run_stats :: "'h hist_ops \<Rightarrow> stats_item list \<Rightarrow> 'h group_stats" where
  "try_run_stats H items = fold (try_run_append H) items (group_default H)"

record try_summary =
  ty_calls :: nat
  ty_status_counts :: "(u16 \<times> nat) list"
  ty_timeouts :: "nat option"
  ty_test_errors :: "(string \<times> nat) list option"

definition try_run_summary :: "'h hist_ops \<Rightarrow> 'h group_stats \<Rightarrow> try_summary" where
  "try_run_summary H g =
     \<lparr>ty_calls = hist_len H (gs_rtt_histogram g), ty_status_counts = gs_status_counts g,
      ty_timeouts = (if 0 < gs_request_timeouts g then Some (gs_request_timeouts g) else None),
      ty_test_errors = (if gs_test_errors g \<noteq> [] then Some (gs_test_errors g) else None)\<rparr>"

end
