(* ===== verification/StatsProps.thy ===== *)
theory StatsProps
  imports Stats
begin

text \<open>
  What the statistics file tells and when the task panics. Everything a response counts for is a key
  (\<open>stat_key\<close>); appending and combining add up the counts of a key, so that what has been written and what the open
  bucket holds are together what has been received.
\<close>

declare recoverable_message.simps [simp del]

subsection \<open>Counting\<close>

datatype stat_key = KTimeout | KError string | KStatus u16 | KCall

definition count_of :: "('k \<times> nat) list \<Rightarrow> 'k \<Rightarrow> nat" where
  "count_of m k = (case map_of m k of Some n \<Rightarrow> n | None \<Rightarrow> 0)"

fun group_count :: "'h hist_ops \<Rightarrow> stat_key \<Rightarrow> 'h group_stats \<Rightarrow> nat" where
  "group_count H KTimeout g = gs_request_timeouts g"
| "group_count H (KError e) g = count_of (gs_test_errors g) e"
| "group_count H (KStatus st) g = count_of (gs_status_counts g) st"
| "group_count H KCall g = hist_len H (gs_rtt_histogram g)"

definition kind_key :: "stat_kind \<Rightarrow> stat_key" where
  "kind_key k =
     (case k of
        RecoverableStat (Timeout _) \<Rightarrow> KTimeout
      | RecoverableStat r \<Rightarrow> KError (recoverable_message r)
      | ResponseKind st \<Rightarrow> KStatus st)"

definition stat_count :: "stat_key \<Rightarrow> response_stat \<Rightarrow> nat" where
  "stat_count key rs =
     (if key = kind_key (rs_kind rs) then 1 else 0) + (if key = KCall \<and> rs_rtt rs \<noteq> None then 1 else 0)"

text \<open>A histogram counts its records: what the documentation of \<open>hdrhistogram\<close> says of one that resizes itself.\<close>

definition hist_ok :: "'h hist_ops \<Rightarrow> bool" where
  "hist_ok H \<longleftrightarrow> hist_len H (hist_new H) = 0 \<and> (\<forall>h v. hist_len H (hist_record H h v) = Suc (hist_len H h)) \<and>
     (\<forall>h h'. hist_len H (hist_add H h h') = hist_len H h + hist_len H h')"

abbreviation sorted_keys :: "('k :: linorder \<times> 'v) list \<Rightarrow> bool" where
  "sorted_keys m \<equiv> sorted_wrt (<) (map fst m)"

definition group_ok :: "'h group_stats \<Rightarrow> bool" where
  "group_ok g \<longleftrightarrow> sorted_keys (gs_status_counts g) \<and> sorted_keys (gs_test_errors g)"

definition bucket_ok :: "'h time_bucket \<Rightarrow> bool" where
  "bucket_ok b \<longleftrightarrow> sorted_keys (tb_entries b) \<and> (\<forall>i g. map_of (tb_entries b) i = Some g \<longrightarrow> group_ok g)"

definition bucket_count :: "'h hist_ops \<Rightarrow> stat_key \<Rightarrow> nat \<Rightarrow> 'h time_bucket \<Rightarrow> nat" where
  "bucket_count H key i b = (case map_of (tb_entries b) i of Some g \<Rightarrow> group_count H key g | None \<Rightarrow> 0)"

lemma count_of_bump [simp]: "count_of (bump k n m) k' = count_of m k' + (if k' = k then n else 0)"
  by (simp add: count_of_def bump_def split: option.split)

lemma sorted_bump: "sorted_keys m \<Longrightarrow> sorted_keys (bump k n m)"
  by (simp add: bump_def bt_insert_sorted)

lemma sorted_bump_all: "sorted_keys m \<Longrightarrow> sorted_keys (bump_all rhs m)"
  by (induction rhs arbitrary: m) (auto simp: bump_all_def sorted_bump)

lemma count_of_none: "k \<notin> fst ` set m \<Longrightarrow> count_of m k = 0"
  by (simp add: count_of_def map_of_eq_None_iff [THEN iffD2])

lemma count_of_bump_all:
  "sorted_keys rhs \<Longrightarrow> count_of (bump_all rhs m) k = count_of m k + count_of rhs k"
proof (induction rhs arbitrary: m)
  case (Cons r rhs)
  obtain k' n where r: "r = (k', n)" by fastforce
  have "bump_all (r # rhs) m = bump_all rhs (bump k' n m)" by (simp add: bump_all_def r)
  moreover have "k' \<notin> fst ` set rhs" using Cons.prems by (auto simp: r)
  ultimately show ?case using Cons.IH [of "bump k' n m"] Cons.prems
    by (auto simp: r count_of_none) (simp_all add: count_of_def)
qed (simp add: bump_all_def count_of_def)

lemma group_count_append:
  "hist_ok H \<Longrightarrow> group_count H key (group_append H stat g) = group_count H key g + stat_count key stat"
  by (cases key; cases "rs_rtt stat")
    (auto simp: group_append_def stat_count_def kind_key_def hist_ok_def split: stat_kind.splits recoverable_error.splits)

lemma group_ok_append: "group_ok g \<Longrightarrow> group_ok (group_append H stat g)"
  by (auto simp: group_append_def group_ok_def sorted_bump Let_def split: stat_kind.splits recoverable_error.splits option.splits)

lemma group_ok_default: "group_ok (group_default H)"
  by (simp add: group_ok_def group_default_def)

lemma group_count_default: "hist_ok H \<Longrightarrow> group_count H key (group_default H) = 0"
  by (cases key) (simp_all add: group_default_def count_of_def hist_ok_def)

lemma group_count_combine:
  "hist_ok H \<Longrightarrow> group_ok rhs \<Longrightarrow> group_count H key (group_combine H g rhs) = group_count H key g + group_count H key rhs"
  by (cases key) (simp_all add: group_combine_def group_ok_def count_of_bump_all hist_ok_def)

lemma group_ok_combine: "group_ok g \<Longrightarrow> group_ok (group_combine H g rhs)"
  by (simp add: group_combine_def group_ok_def sorted_bump_all)

lemma bucket_count_append:
  "hist_ok H \<Longrightarrow> bucket_count H key i (bucket_append H stat j b) = bucket_count H key i b + (if i = j then stat_count key stat else 0)"
  by (auto simp: bucket_count_def bucket_append_def group_count_append group_count_default split: option.split)

lemma bucket_ok_append: "bucket_ok b \<Longrightarrow> bucket_ok (bucket_append H stat j b)"
  by (auto simp: bucket_ok_def bucket_append_def bt_insert_sorted group_ok_append group_ok_default split: option.split)

lemma bucket_ok_new [simp]: "bucket_ok (bucket_new t)"
  by (simp add: bucket_ok_def bucket_new_def)

lemma bucket_count_new [simp]: "bucket_count H key i (bucket_new t) = 0"
  by (simp add: bucket_count_def bucket_new_def)

definition add_entries :: "'h hist_ops \<Rightarrow> (nat \<times> 'h group_stats) list \<Rightarrow> (nat \<times> 'h group_stats) list \<Rightarrow> (nat \<times> 'h group_stats) list" where
  "add_entries H es m =
     fold (\<lambda>(i, entry) m. bt_insert i (case map_of m i of Some g \<Rightarrow> group_combine H g entry | None \<Rightarrow> entry) m) es m"

lemma bucket_combine_entries: "tb_entries (bucket_combine H b rhs) = add_entries H (tb_entries rhs) (tb_entries b)"
  by (simp add: bucket_combine_def add_entries_def)

lemma map_of_add_entries:
  "sorted_keys es \<Longrightarrow> map_of (add_entries H es m) i =
     (case map_of es i of
        None \<Rightarrow> map_of m i
      | Some e \<Rightarrow> Some (case map_of m i of Some g \<Rightarrow> group_combine H g e | None \<Rightarrow> e))"
proof (induction es arbitrary: m)
  case (Cons x es)
  obtain j e where x: "x = (j, e)" by fastforce
  have "j \<notin> fst ` set es" using Cons.prems by (auto simp: x)
  then have "map_of es j = None" by (simp add: map_of_eq_None_iff)
  moreover have "add_entries H (x # es) m =
      add_entries H es (bt_insert j (case map_of m j of Some g \<Rightarrow> group_combine H g e | None \<Rightarrow> e) m)"
    by (simp add: add_entries_def x)
  ultimately show ?case using Cons by (auto simp: x split: option.split)
qed (simp add: add_entries_def)

lemma sorted_add_entries: "sorted_keys m \<Longrightarrow> sorted_keys (add_entries H es m)"
  by (induction es arbitrary: m) (auto simp: add_entries_def bt_insert_sorted)

lemma bucket_count_combine:
  "hist_ok H \<Longrightarrow> bucket_ok rhs \<Longrightarrow>
     bucket_count H key i (bucket_combine H b rhs) = bucket_count H key i b + bucket_count H key i rhs"
  by (auto simp: bucket_count_def bucket_combine_entries map_of_add_entries bucket_ok_def group_count_combine split: option.split)

lemma bucket_ok_combine: "bucket_ok b \<Longrightarrow> bucket_ok rhs \<Longrightarrow> bucket_ok (bucket_combine H b rhs)"
  by (auto simp: bucket_ok_def bucket_combine_entries map_of_add_entries sorted_add_entries group_ok_combine split: option.splits)

subsection \<open>Reading the file back\<close>

text \<open>
  A reader keeps the table of indexes its tags messages have given so far and adds up, for some tags and a key, what
  the buckets say.
\<close>

definition entries_count ::
    "'h hist_ops \<Rightarrow> (nat \<Rightarrow> tags option) \<Rightarrow> tags \<Rightarrow> stat_key \<Rightarrow> (nat \<times> 'h group_stats) list \<Rightarrow> nat" where
  "entries_count H m t key es = sum_list (map (\<lambda>(i, g). if m i = Some t then group_count H key g else 0) es)"

fun file_table :: "(nat \<Rightarrow> tags option) \<Rightarrow> 'h file_message list \<Rightarrow> nat \<Rightarrow> tags option" where
  "file_table m [] = m"
| "file_table m (FileTags i t # ms) = file_table (m(i \<mapsto> t)) ms"
| "file_table m (_ # ms) = file_table m ms"

fun read_file ::
    "'h hist_ops \<Rightarrow> tags \<Rightarrow> stat_key \<Rightarrow> (nat \<Rightarrow> tags option) \<Rightarrow> 'h file_message list \<Rightarrow> nat" where
  "read_file H t key m [] = 0"
| "read_file H t key m (FileTags i t' # ms) = read_file H t key (m(i \<mapsto> t')) ms"
| "read_file H t key m (FileBuckets b # ms) = entries_count H m t key (tb_entries b) + read_file H t key m ms"
| "read_file H t key m (FileHeader _ _ _ # ms) = read_file H t key m ms"

lemma file_table_append: "file_table m (ms @ ms') = file_table (file_table m ms) ms'"
  by (induction m ms rule: file_table.induct) (auto simp: fun_upd_def)

lemma read_file_append:
  "read_file H t key m (ms @ ms') = read_file H t key m ms + read_file H t key (file_table m ms) ms'"
  by (induction H t key m ms rule: read_file.induct) (auto simp: fun_upd_def)

lemma entries_count_none: "(\<And>i. i \<in> fst ` set es \<Longrightarrow> m i \<noteq> Some t) \<Longrightarrow> entries_count H m t key es = 0"
  unfolding entries_count_def by (induction es) fastforce+

lemma entries_count_some:
  assumes "sorted_keys es" "m i = Some t" "\<And>j. m j = Some t \<Longrightarrow> j = i"
  shows "entries_count H m t key es = (case map_of es i of Some g \<Rightarrow> group_count H key g | None \<Rightarrow> 0)"
  using assms(1)
proof (induction es)
  case (Cons e es)
  obtain j g where e: "e = (j, g)" by fastforce
  have rest: "entries_count H m t key ((j, g) # es) = (if j = i then group_count H key g else 0) + entries_count H m t key es"
    using assms(2) by (cases "j = i") (auto simp: entries_count_def dest: assms(3))
  show ?case
  proof (cases "j = i")
    case True
    from Cons.prems True have "i \<notin> fst ` set es" by (auto simp: e)
    with assms(3) have "\<And>k. k \<in> fst ` set es \<Longrightarrow> m k \<noteq> Some t" by metis
    then have "entries_count H m t key es = 0" by (rule entries_count_none)
    with rest True show ?thesis by (simp add: e)
  next
    case False
    with rest Cons show ?thesis by (simp add: e)
  qed
qed (simp add: entries_count_def)

lemma length_bt_insert: "k \<notin> bt_keys m \<Longrightarrow> length (bt_insert k v m) = Suc (length m)"
  by (induction k v m rule: bt_insert.induct) auto

lemma fresh_key: "map_of m k = None \<Longrightarrow> k \<notin> bt_keys m"
  by (simp add: map_of_eq_None_iff)

subsection \<open>The invariant\<close>

definition received_count :: "tags \<Rightarrow> stat_key \<Rightarrow> response_stat list \<Rightarrow> nat" where
  "received_count t key rss = sum_list (map (\<lambda>rs. if rs_tags rs = t then stat_count key rs else 0) rss)"

lemma received_count_simps [simp]:
  "received_count t key [] = 0"
  "received_count t key (rss @ [rs]) = received_count t key rss + (if rs_tags rs = t then stat_count key rs else 0)"
  by (simp_all add: received_count_def)

definition tags_inv :: "'h stats \<Rightarrow> bool" where
  "tags_inv s \<longleftrightarrow>
     (\<forall>i t. file_table Map.empty (st_file s) i = Some t \<longleftrightarrow> map_of (st_tags s) t = Some i) \<and>
     (\<forall>t i. map_of (st_tags s) t = Some i \<longrightarrow> i < length (st_tags s)) \<and>
     st_previous s = None \<and> bucket_ok (st_current s) \<and> (\<forall>i \<in> bt_keys (tb_entries (st_current s)). i < length (st_tags s))"

definition open_count :: "'h hist_ops \<Rightarrow> tags \<Rightarrow> stat_key \<Rightarrow> 'h stats \<Rightarrow> nat" where
  "open_count H t key s = entries_count H (file_table Map.empty (st_file s)) t key (tb_entries (st_current s))"

definition stats_inv :: "'h hist_ops \<Rightarrow> response_stat list \<Rightarrow> 'h stats \<Rightarrow> bool" where
  "stats_inv H rss s \<longleftrightarrow> tags_inv s \<and>
     (\<forall>t key. read_file H t key Map.empty (st_file s) + open_count H t key s = received_count t key rss)"

lemma open_count_tags:
  assumes "tags_inv s"
  shows "open_count H t key s = (case map_of (st_tags s) t of Some i \<Rightarrow> bucket_count H key i (st_current s) | None \<Rightarrow> 0)"
proof (cases "map_of (st_tags s) t")
  case None
  then have "entries_count H (file_table Map.empty (st_file s)) t key (tb_entries (st_current s)) = 0"
    using assms by (intro entries_count_none) (simp add: tags_inv_def)
  with None show ?thesis by (simp add: open_count_def)
next
  case (Some i)
  have "entries_count H (file_table Map.empty (st_file s)) t key (tb_entries (st_current s)) =
      (case map_of (tb_entries (st_current s)) i of Some g \<Rightarrow> group_count H key g | None \<Rightarrow> 0)"
    using assms Some by (intro entries_count_some) (auto simp: tags_inv_def bucket_ok_def)
  with Some show ?thesis by (simp add: open_count_def bucket_count_def)
qed

lemma bucket_append_keys: "bt_keys (tb_entries (bucket_append H stat i b)) = insert i (bt_keys (tb_entries b))"
  by (simp add: bucket_append_def Let_def)

lemma stats_append_inv:
  assumes "hist_ok H" "stats_inv H rss s"
  shows "stats_inv H (rss @ [rs]) (stats_append H rs s)"
proof -
  from assms(2) have inv: "tags_inv s" and sum:
    "\<And>t key. read_file H t key Map.empty (st_file s) + open_count H t key s = received_count t key rss"
    by (simp_all add: stats_inv_def)
  show ?thesis
  proof (cases "map_of (st_tags s) (rs_tags rs)")
    case (Some i)
    let ?s = "s\<lparr>st_current := bucket_append H rs i (st_current s)\<rparr>"
    have s': "stats_append H rs s = ?s" using Some by (simp add: stats_append_def)
    have inv': "tags_inv ?s" using inv Some
      by (auto simp: tags_inv_def bucket_ok_append bucket_append_keys)
    have "open_count H t key ?s = open_count H t key s + (if rs_tags rs = t then stat_count key rs else 0)" for t key
    proof (cases "map_of (st_tags s) t")
      case None
      with Some show ?thesis by (auto simp: open_count_tags [OF inv'] open_count_tags [OF inv])
    next
      case s: (Some j)
      then have "j = i \<longleftrightarrow> t = rs_tags rs" using Some inv by (auto simp: tags_inv_def) (metis option.inject)
      with s show ?thesis
        by (auto simp: open_count_tags [OF inv'] open_count_tags [OF inv] bucket_count_append [OF assms(1)])
    qed
    moreover have "read_file H t key Map.empty (st_file ?s) = read_file H t key Map.empty (st_file s)" for t key by simp
    ultimately show ?thesis using sum inv' by (simp add: s' stats_inv_def add.assoc [symmetric])
  next
    case None
    let ?i = "length (st_tags s)"
    let ?s = "stats_append H rs s"
    have s': "?s = s\<lparr>st_tags := bt_insert (rs_tags rs) ?i (st_tags s), st_current := bucket_append H rs ?i (st_current s),
        st_file := st_file s @ [FileTags ?i (rs_tags rs)]\<rparr>"
      using None by (simp add: stats_append_def write_file_message_def Let_def)
    have fresh: "file_table Map.empty (st_file s) ?i = None"
      using inv by (cases "file_table Map.empty (st_file s) ?i") (auto simp: tags_inv_def)
    have new: "rs_tags rs \<notin> bt_keys (st_tags s)" using None by (rule fresh_key)
    have len: "length (st_tags ?s) = Suc ?i" using length_bt_insert [OF new, of ?i] by (simp add: s')
    have below: "i < ?i" if "map_of (st_tags s) t = Some i" for t i using inv that by (simp add: tags_inv_def)
    have table: "file_table Map.empty (st_file ?s) = (file_table Map.empty (st_file s))(?i \<mapsto> rs_tags rs)"
      by (simp add: s' file_table_append)
    have tags: "map_of (st_tags ?s) = (map_of (st_tags s))(rs_tags rs \<mapsto> ?i)" by (simp add: s')
    have "file_table Map.empty (st_file ?s) i = Some t \<longleftrightarrow> map_of (st_tags ?s) t = Some i" for i t
      using inv None fresh below [of t i] by (auto simp: table tags tags_inv_def)
    moreover have "map_of (st_tags ?s) t = Some i \<Longrightarrow> i < Suc ?i" for t i
      using below [of t i] by (simp add: tags split: if_splits)
    moreover have "st_previous ?s = None" "bucket_ok (st_current ?s)"
      "\<forall>i \<in> bt_keys (tb_entries (st_current ?s)). i < Suc ?i"
      using inv by (auto simp: s' tags_inv_def bucket_ok_append bucket_append_keys)
    ultimately have inv': "tags_inv ?s" by (simp add: tags_inv_def len)
    have cur: "st_current ?s = bucket_append H rs ?i (st_current s)" by (simp add: s')
    have "open_count H t key ?s = open_count H t key s + (if rs_tags rs = t then stat_count key rs else 0)" for t key
    proof (cases "t = rs_tags rs")
      case True
      have "map_of (tb_entries (st_current s)) ?i = None" using inv by (auto simp: tags_inv_def map_of_eq_None_iff)
      then have "bucket_count H key ?i (st_current s) = 0" by (simp add: bucket_count_def)
      with True None show ?thesis
        by (simp add: open_count_tags [OF inv'] open_count_tags [OF inv] tags cur bucket_count_append [OF assms(1)])
    next
      case False
      then have "map_of (st_tags ?s) t = map_of (st_tags s) t" by (simp add: tags)
      moreover have "i < ?i" if "map_of (st_tags s) t = Some i" for i using inv that by (simp add: tags_inv_def)
      ultimately show ?thesis using False
        by (auto simp: open_count_tags [OF inv'] open_count_tags [OF inv] bucket_count_append [OF assms(1)] cur split: option.split)
    qed
    moreover have "read_file H t key Map.empty (st_file ?s) = read_file H t key Map.empty (st_file s)" for t key
      by (simp add: s' read_file_append)
    ultimately show ?thesis using sum inv' by (simp add: stats_inv_def add.assoc [symmetric])
  qed
qed

text \<open>Closing a bucket writes the open one and starts another, or leaves it open when its time has not passed.\<close>

definition rolled :: "'h stats \<Rightarrow> 'h stats \<Rightarrow> bool" where
  "rolled s s' \<longleftrightarrow> st_tags s' = st_tags s \<and> st_previous s' = None \<and> st_bucket_size s' = st_bucket_size s \<and>
     (st_current s' = st_current s \<and> st_file s' = st_file s \<or>
      st_current s' = bucket_new (tb_time (st_current s')) \<and> st_file s' = st_file s @ [FileBuckets (st_current s)])"

lemma tb_time_new [simp]: "tb_time (bucket_new time) = time"
  by (simp add: bucket_new_def)

lemma rolled_inv:
  assumes "stats_inv H rss s" "rolled s s'"
  shows "stats_inv H rss s'"
proof (cases "st_current s' = st_current s \<and> st_file s' = st_file s")
  case True
  then have "tags_inv s' = tags_inv s" "open_count H t key s' = open_count H t key s" for t key
    using assms by (simp_all add: rolled_def tags_inv_def open_count_def stats_inv_def)
  with True assms show ?thesis by (simp add: stats_inv_def)
next
  case False
  with assms(2) obtain time where
    s': "st_current s' = bucket_new time" "st_file s' = st_file s @ [FileBuckets (st_current s)]"
    by (auto simp: rolled_def)
  then have "tags_inv s'" using assms
    by (auto simp: rolled_def tags_inv_def stats_inv_def file_table_append bucket_new_def bucket_ok_def)
  moreover have "read_file H t key Map.empty (st_file s') + open_count H t key s' =
      read_file H t key Map.empty (st_file s) + open_count H t key s" for t key
    by (simp add: s' read_file_append open_count_def) (simp add: entries_count_def bucket_new_def)
  ultimately show ?thesis using assms(1) by (simp add: stats_inv_def)
qed

definition close_prints :: "'h hist_ops \<Rightarrow> nat option \<Rightarrow> 'h time_bucket \<Rightarrow> 'h stats \<Rightarrow> bool" where
  "close_prints H remaining b s \<longleftrightarrow>
     bucket_print_summary H (st_tags s) (st_bucket_size s) (case remaining of Some r \<Rightarrow> Some r | None \<Rightarrow> Some 0) b \<noteq> None \<and>
     (remaining = None \<longrightarrow> bucket_print_summary H (st_tags s) (st_duration s) None (bucket_combine H (st_totals s) b) \<noteq> None)"

text \<open>The three ways of closing: at the end, when the bucket's time has passed, and when it has not.\<close>

lemma close_out_complete:
  assumes "st_previous s = None"
  shows "(close_out_bucket H now None s \<noteq> None) = close_prints H None (st_current s) s" and
    "close_out_bucket H now None s = Some s' \<Longrightarrow>
       rolled s s' \<and> st_current s' = bucket_new 0 \<and> st_file s' = st_file s @ [FileBuckets (st_current s)] \<and>
       (\<exists>summary total. st_console s' = st_console s @ [FinalText summary total] \<and>
          bucket_print_summary H (st_tags s) (st_duration s) None (bucket_combine H (st_totals s) (st_current s)) = Some total)"
  using assms
  by (auto simp: close_out_bucket_def get_previous_bucket_def close_prints_def rolled_def write_file_message_def Let_def
      split: bind_splits)

lemma close_out_passed:
  assumes "st_previous s = None" "tb_time (st_current s) < round_time now (st_bucket_size s)"
  shows "(close_out_bucket H now (Some left) s \<noteq> None) =
      (tb_time (st_current s) = round_time now (st_bucket_size s) - st_bucket_size s \<and> close_prints H (Some left) (st_current s) s)" and
    "close_out_bucket H now (Some left) s = Some s' \<Longrightarrow>
       rolled s s' \<and> st_current s' = bucket_new (round_time now (st_bucket_size s)) \<and>
       st_file s' = st_file s @ [FileBuckets (st_current s)]"
  using assms
  by (auto simp: close_out_bucket_def get_previous_bucket_def check_current_bucket_def close_prints_def rolled_def
      write_file_message_def Let_def split: bind_splits if_splits)

lemma bucket_print_summary_empty: "bucket_print_summary H tags bsize remaining (bucket_new time) \<noteq> None"
proof -
  have "collect_options (map (\<lambda>(t, i). Some ([] :: 'b list)) xs) \<noteq> None" for xs :: "('c \<times> 'd) list"
    by (induction xs) auto
  then show ?thesis by (simp add: bucket_print_summary_def bucket_new_def)
qed

lemma close_out_not_passed:
  assumes "st_previous s = None" "\<not> tb_time (st_current s) < round_time now (st_bucket_size s)"
  shows "\<exists>s'. close_out_bucket H now (Some left) s = Some s' \<and> rolled s s' \<and> st_current s' = st_current s \<and>
    st_file s' = st_file s"
  using assms bucket_print_summary_empty [of H "st_tags s" "st_bucket_size s" "Some left"]
  by (auto simp: close_out_bucket_def get_previous_bucket_def check_current_bucket_def rolled_def Let_def split: bind_splits)

lemma close_out_rolled:
  assumes "st_previous s = None" "close_out_bucket H now remaining s = Some s'"
  shows "rolled s s'"
  using assms close_out_complete(2) [of s H now s'] close_out_passed(2) [of s now H _ s'] close_out_not_passed [of s now H]
  by (cases remaining) (metis option.inject)+

lemma start_message_inv:
  assumes "stats_inv H rss (sk_stats t)" "start_message name bin d ck t = Some t'"
  shows "stats_inv H rss (sk_stats t')"
proof -
  let ?s = "sk_stats t" and ?s' = "sk_stats t'"
  have "st_tags ?s' = st_tags ?s" "st_current ?s' = st_current ?s" "st_previous ?s' = st_previous ?s"
    "st_file ?s' = st_file ?s \<or> st_file ?s' = st_file ?s @ [FileHeader name bin (st_bucket_size ?s)]"
    using assms(2) by (auto simp: start_message_def write_file_message_def Let_def split: if_splits)
  moreover have "file_table Map.empty (st_file ?s') = file_table Map.empty (st_file ?s)"
    "\<And>tg key. read_file H tg key Map.empty (st_file ?s') = read_file H tg key Map.empty (st_file ?s)"
    using calculation(4) by (auto simp: file_table_append read_file_append)
  ultimately show ?thesis using assms(1)
    by (simp add: stats_inv_def tags_inv_def open_count_def)
qed

text \<open>The responses a run takes in: those before the end of the test.\<close>

fun responses :: "(stats_item \<times> clock) list \<Rightarrow> response_stat list" where
  "responses [] = []"
| "responses ((TestComplete, ck) # evs) = []"
| "responses ((ResponseMessage rs, ck) # evs) = rs # responses evs"
| "responses (_ # evs) = responses evs"

lemma stats_run_inv:
  assumes "hist_ok H" "stats_inv H rss (sk_stats t)" "stats_run H name bin evs t = Some t'"
  shows "stats_inv H (rss @ responses evs) (sk_stats t') \<and>
    (TestComplete \<in> fst ` set evs \<longrightarrow> tb_entries (st_current (sk_stats t')) = [])"
  using assms(2,3)
proof (induction evs arbitrary: rss t)
  case (Cons ev evs)
  obtain item ck where ev: "ev = (item, ck)" by fastforce
  have prev: "st_previous (sk_stats t) = None" using Cons.prems(1) by (simp add: stats_inv_def tags_inv_def)
  show ?case
  proof (cases item)
    case TestComplete
    with Cons.prems(2) ev obtain s' where s': "close_out_bucket H (ck_epoch ck) None (sk_stats t) = Some s'" "sk_stats t' = s'"
      by (auto simp: stats_item_step_def split: option.splits)
    from close_out_complete(2) [OF prev s'(1)] rolled_inv [OF Cons.prems(1), of s'] show ?thesis
      by (simp add: TestComplete ev s'(2) bucket_new_def)
  next
    case NewBucket
    with Cons.prems(2) ev obtain r s' where s': "close_out_bucket H (ck_epoch ck) r (sk_stats t) = Some s'"
      "stats_run H name bin evs (t\<lparr>sk_stats := s'\<rparr>) = Some t'"
      by (auto simp: stats_item_step_def Let_def split: option.splits)
    from Cons.IH [of rss "t\<lparr>sk_stats := s'\<rparr>"] rolled_inv [OF Cons.prems(1) close_out_rolled [OF prev s'(1)]] s'(2)
    show ?thesis by (simp add: NewBucket ev)
  next
    case (UpdateProviders ps)
    have "stats_inv H rss (sk_stats t\<lparr>st_providers := ps\<rparr>)"
      using Cons.prems(1) by (simp add: stats_inv_def tags_inv_def open_count_def)
    with Cons.IH [of rss "t\<lparr>sk_stats := sk_stats t\<lparr>st_providers := ps\<rparr>\<rparr>"] Cons.prems UpdateProviders show ?thesis
      by (simp add: ev stats_item_step_def)
  next
    case (StartMessage d)
    with Cons.prems(2) ev obtain u where u: "start_message name bin d ck t = Some u" "stats_run H name bin evs u = Some t'"
      by (auto simp: stats_item_step_def split: option.splits)
    from Cons.IH [OF start_message_inv [OF Cons.prems(1) u(1)] u(2)] show ?thesis by (simp add: StartMessage ev)
  next
    case (ResponseMessage rs)
    with Cons.IH [of "rss @ [rs]" "t\<lparr>sk_stats := stats_append H rs (sk_stats t)\<rparr>"] Cons.prems
      stats_append_inv [OF assms(1) Cons.prems(1)] show ?thesis
      by (simp add: ev stats_item_step_def)
  qed
qed (simp)

lemma stats_new_inv:
  "stats_new now bsize ps = Some s \<Longrightarrow> stats_inv H [] s"
  by (auto simp: stats_new_def stats_inv_def tags_inv_def open_count_def entries_count_def bucket_new_def bucket_ok_def
      split: if_splits)

subsection \<open>Panics\<close>

text \<open>
  The ticks that the assertion on bucket times lets through, from the time of the open bucket: a tick in the open
  bucket's time changes nothing, one in the next starts the next. Before the start message a tick closes the bucket as
  if the test were complete, which leaves a bucket of time 0.
\<close>

fun ticks_ok :: "nat \<Rightarrow> nat \<Rightarrow> bool \<Rightarrow> (stats_item \<times> clock) list \<Rightarrow> bool" where
  "ticks_ok bsize cur started [] = True"
| "ticks_ok bsize cur started ((TestComplete, ck) # evs) = True"
| "ticks_ok bsize cur started ((NewBucket, ck) # evs) =
     (let r = round_time (ck_epoch ck) bsize in
      if \<not> started then ticks_ok bsize 0 started evs
      else if cur < r then r = cur + bsize \<and> ticks_ok bsize r started evs
      else ticks_ok bsize cur started evs)"
| "ticks_ok bsize cur started ((StartMessage d, ck) # evs) =
     ((started \<longrightarrow> ck_elapsed ck + d < duration_limit) \<and> ticks_ok bsize cur True evs)"
| "ticks_ok bsize cur started (ev # evs) = ticks_ok bsize cur started evs"

definition tags_named :: "'h stats \<Rightarrow> bool" where
  "tags_named s \<longleftrightarrow> (\<forall>t \<in> bt_keys (st_tags s). named_tags t)"

lemma collect_options_some: "list_all (\<lambda>x. x \<noteq> None) xs \<Longrightarrow> collect_options xs \<noteq> None"
  by (induction xs) auto

lemma collect_options_none: "None \<in> set xs \<Longrightarrow> collect_options xs = None"
  by (induction xs) (auto simp: Option.bind_eq_None_conv)

lemma bucket_print_summary_named:
  assumes "\<forall>t \<in> bt_keys tags. named_tags t"
  shows "bucket_print_summary H tags bsize remaining b \<noteq> None"
proof -
  have "collect_options (map (\<lambda>(t, i).
      case map_of (tb_entries b) i of Some g \<Rightarrow> group_print_summary H t g | None \<Rightarrow> Some []) tags) \<noteq> None"
    using assms
    by (intro collect_options_some) (auto simp: list_all_iff group_print_summary_def split: option.split)
  then show ?thesis by (simp add: bucket_print_summary_def)
qed

lemma close_prints_named: "tags_named s \<Longrightarrow> close_prints H remaining b s"
  by (simp add: close_prints_def tags_named_def bucket_print_summary_named)

lemma round_time_step: "cur < round_time now bsize \<Longrightarrow>
    (cur = round_time now bsize - bsize) = (round_time now bsize = cur + bsize)"
proof -
  assume less: "cur < round_time now bsize"
  then have "0 < now div bsize" by (cases "now div bsize") (simp_all add: round_time_def)
  then have "bsize \<le> round_time now bsize" by (cases "now div bsize") (simp_all add: round_time_def)
  with less show ?thesis by auto
qed

definition run_ok :: "nat \<Rightarrow> 'h stats_task \<Rightarrow> bool" where
  "run_ok bsize t \<longleftrightarrow> st_previous (sk_stats t) = None \<and> st_bucket_size (sk_stats t) = bsize \<and> tags_named (sk_stats t)"

lemma run_ok_rolled: "run_ok bsize t \<Longrightarrow> rolled (sk_stats t) s \<Longrightarrow> run_ok bsize (t\<lparr>sk_stats := s\<rparr>)"
  by (simp add: run_ok_def rolled_def tags_named_def)

lemma run_ok_append: "run_ok bsize t \<Longrightarrow> named_tags (rs_tags rs) \<Longrightarrow>
    run_ok bsize (t\<lparr>sk_stats := stats_append H rs (sk_stats t)\<rparr>) \<and>
    tb_time (st_current (stats_append H rs (sk_stats t))) = tb_time (st_current (sk_stats t))"
  by (cases "map_of (st_tags (sk_stats t)) (rs_tags rs)")
    (simp_all add: run_ok_def stats_append_def write_file_message_def tags_named_def bucket_append_def Let_def)

lemma start_message_ok:
  assumes "run_ok bsize t"
  shows "start_message name bin d ck t \<noteq> None \<longleftrightarrow> (sk_started t \<longrightarrow> ck_elapsed ck + d < duration_limit)"
    "start_message name bin d ck t = Some t' \<Longrightarrow>
       run_ok bsize t' \<and> sk_started t' \<and> st_current (sk_stats t') = st_current (sk_stats t)"
  using assms
  by (auto simp: start_message_def dur_add_def run_ok_def tags_named_def write_file_message_def Let_def split: if_splits)

lemma run_ok_completes:
  "run_ok bsize t \<Longrightarrow> close_out_bucket H now None (sk_stats t) \<noteq> None"
  using close_out_complete(1) [of "sk_stats t" H now] close_prints_named [of "sk_stats t"] by (simp add: run_ok_def)

lemma stats_run_ticks:
  assumes "run_ok bsize t" "\<forall>rs \<in> set (responses evs). named_tags (rs_tags rs)"
  shows "stats_run H name bin evs t \<noteq> None \<longleftrightarrow> ticks_ok bsize (tb_time (st_current (sk_stats t))) (sk_started t) evs"
  using assms
proof (induction evs arbitrary: t)
  case (Cons ev evs)
  obtain item ck where ev: "ev = (item, ck)" by fastforce
  have prev: "st_previous (sk_stats t) = None" and size: "st_bucket_size (sk_stats t) = bsize"
    using Cons.prems(1) by (simp_all add: run_ok_def)
  show ?case
  proof (cases item)
    case TestComplete
    with run_ok_completes [OF Cons.prems(1), of H "ck_epoch ck"] show ?thesis
      by (auto simp: ev stats_item_step_def)
  next
    case NewBucket
    show ?thesis
    proof (cases "sk_started t")
      case False
      from run_ok_completes [OF Cons.prems(1), of H "ck_epoch ck"] obtain s' where
        s': "close_out_bucket H (ck_epoch ck) None (sk_stats t) = Some s'" by auto
      from close_out_complete(2) [OF prev s'] Cons.IH [OF run_ok_rolled [OF Cons.prems(1)], of s'] Cons.prems(2) False s'
      show ?thesis by (simp add: ev NewBucket stats_item_step_def)
    next
      case started: True
      let ?left = "seconds_left (st_duration (sk_stats t)) (as_secs (ck_elapsed ck))"
      let ?r = "round_time (ck_epoch ck) bsize" and ?cur = "tb_time (st_current (sk_stats t))"
      have step: "stats_run H name bin (ev # evs) t =
          (case close_out_bucket H (ck_epoch ck) (Some ?left) (sk_stats t) of
             None \<Rightarrow> None | Some s \<Rightarrow> stats_run H name bin evs (t\<lparr>sk_stats := s\<rparr>))"
        by (auto simp: ev NewBucket stats_item_step_def started split: option.split)
      have ticks: "ticks_ok bsize ?cur (sk_started t) (ev # evs) =
          (if ?cur < ?r then ?r = ?cur + bsize \<and> ticks_ok bsize ?r True evs else ticks_ok bsize ?cur True evs)"
        by (simp add: ev NewBucket started Let_def)
      have rest: "\<forall>rs \<in> set (responses evs). named_tags (rs_tags rs)" using Cons.prems(2) by (simp add: ev NewBucket)
      show ?thesis
      proof (cases "?cur < ?r")
        case True
        then have less: "?cur < round_time (ck_epoch ck) (st_bucket_size (sk_stats t))" by (simp add: size)
        note passed = close_out_passed [OF prev less, of H ?left]
        have some: "close_out_bucket H (ck_epoch ck) (Some ?left) (sk_stats t) \<noteq> None \<longleftrightarrow> ?r = ?cur + bsize"
          using passed(1) close_prints_named [of "sk_stats t" H] Cons.prems(1) round_time_step [OF True]
          by (simp add: size run_ok_def)
        show ?thesis
        proof (cases "?r = ?cur + bsize")
          case True
          with some obtain s' where s': "close_out_bucket H (ck_epoch ck) (Some ?left) (sk_stats t) = Some s'" by auto
          from passed(2) [OF this] Cons.IH [OF run_ok_rolled [OF Cons.prems(1)], of s'] rest \<open>?cur < ?r\<close> True s' started
          show ?thesis unfolding step ticks by (simp add: size)
        next
          case False
          with some \<open>?cur < ?r\<close> show ?thesis unfolding step ticks by simp
        qed
      next
        case False
        then have "\<not> ?cur < round_time (ck_epoch ck) (st_bucket_size (sk_stats t))" by (simp add: size)
        from close_out_not_passed [OF prev this, of H ?left] obtain s' where
          s': "close_out_bucket H (ck_epoch ck) (Some ?left) (sk_stats t) = Some s'" "rolled (sk_stats t) s'"
            "st_current s' = st_current (sk_stats t)" by blast
        from Cons.IH [OF run_ok_rolled [OF Cons.prems(1) s'(2)]] rest False s' started
        show ?thesis unfolding step ticks by simp
      qed
    qed
  next
    case (UpdateProviders ps)
    have "run_ok bsize (t\<lparr>sk_stats := sk_stats t\<lparr>st_providers := ps\<rparr>\<rparr>)"
      using Cons.prems(1) by (simp add: run_ok_def tags_named_def)
    from Cons.IH [OF this] Cons.prems(2) UpdateProviders show ?thesis by (simp add: ev stats_item_step_def)
  next
    case (StartMessage d)
    show ?thesis
    proof (cases "start_message name bin d ck t")
      case None
      with start_message_ok(1) [OF Cons.prems(1), of name bin d ck] StartMessage show ?thesis
        by (simp add: ev stats_item_step_def)
    next
      case (Some u)
      with start_message_ok [OF Cons.prems(1), of name bin d ck] Cons.IH [of u] Cons.prems(2) StartMessage show ?thesis
        by (simp add: ev stats_item_step_def)
    qed
  next
    case (ResponseMessage rs)
    with Cons.IH [of "t\<lparr>sk_stats := stats_append H rs (sk_stats t)\<rparr>"] run_ok_append [OF Cons.prems(1), of rs H] Cons.prems(2)
    show ?thesis by (simp add: ev stats_item_step_def)
  qed
qed simp

lemma stats_new_run_ok:
  "stats_new now bsize ps = Some s \<Longrightarrow>
     run_ok bsize \<lparr>sk_stats = s, sk_started = False\<rparr> \<and> tb_time (st_current s) = round_time now bsize"
  by (auto simp: stats_new_def run_ok_def tags_named_def split: if_splits)

text \<open>A histogram that only counts, and a small test, for the witnesses.\<close>

definition counting :: "nat hist_ops" where
  "counting = \<lparr>hist_new = 0, hist_record = \<lambda>h _. Suc h, hist_add = (+), hist_len = \<lambda>h. h\<rparr>"

lemma counting_ok: "hist_ok counting"
  by (simp add: hist_ok_def counting_def)

definition ref_tags :: tags where
  "ref_tags = [(''method'', ''GET''), (''url'', ''u'')]"

definition ref_stat :: response_stat where
  "ref_stat = \<lparr>rs_kind = ResponseKind 200, rs_rtt = Some 7, rs_time = 0, rs_tags = ref_tags\<rparr>"

definition at_second :: "nat \<Rightarrow> clock" where
  "at_second n = \<lparr>ck_epoch = n, ck_elapsed = 0\<rparr>"

definition ref_stats :: "nat stats" where
  "ref_stats = the (stats_new 120 60 [])"

abbreviation ref_task :: "nat stats_task" where
  "ref_task \<equiv> \<lparr>sk_stats = ref_stats, sk_started = False\<rparr>"

lemma ref_stat_named: "named_tags (rs_tags ref_stat)"
  by (simp add: named_tags_def ref_stat_def ref_tags_def)

lemma ref_new: "stats_new 120 60 [] = Some ref_stats"
  by (simp add: ref_stats_def stats_new_def)

lemma bt_insert_nonempty [simp]: "bt_insert k v m \<noteq> []"
  by (cases m) (auto split: if_splits)

text \<open>
  C3. The statistics file tells everything: reading it back gives for every set of tags the responses the task has taken
  in with these tags, by status, by error, the timeouts and the calls measured, less those in the bucket that is still
  open. When the test has completed none is left out.
\<close>

theorem stats_file_accounts:
  assumes "hist_ok H" "stats_new now bsize ps = Some s"
    and "stats_run H name bin evs \<lparr>sk_stats = s, sk_started = False\<rparr> = Some t"
  shows "read_file H tg key Map.empty (st_file (sk_stats t)) +
      (if TestComplete \<in> fst ` set evs then 0 else open_count H tg key (sk_stats t)) =
    received_count tg key (responses evs)"
proof -
  have inv: "stats_inv H [] (sk_stats \<lparr>sk_stats = s, sk_started = False\<rparr>)" using stats_new_inv [OF assms(2)] by simp
  from stats_run_inv [OF assms(1) inv assms(3)]
  have *: "stats_inv H (responses evs) (sk_stats t)"
    "TestComplete \<in> fst ` set evs \<longrightarrow> tb_entries (st_current (sk_stats t)) = []" by simp_all
  from *(1) have "read_file H tg key Map.empty (st_file (sk_stats t)) + open_count H tg key (sk_stats t) =
    received_count tg key (responses evs)" by (simp add: stats_inv_def)
  moreover from *(2) have "TestComplete \<in> fst ` set evs \<longrightarrow> open_count H tg key (sk_stats t) = 0"
    by (simp add: open_count_def entries_count_def)
  ultimately show ?thesis by (cases "TestComplete \<in> fst ` set evs") simp_all
qed

theorem stats_file_accounts_witness:
  "\<exists>t. stats_run counting ''t'' ''0'' [(StartMessage 0, at_second 121), (ResponseMessage ref_stat, at_second 122),
      (NewBucket, at_second 180), (ResponseMessage ref_stat, at_second 181), (TestComplete, at_second 190)] ref_task = Some t \<and>
    read_file counting ref_tags (KStatus 200) Map.empty (st_file (sk_stats t)) = 2"
proof -
  let ?evs = "[(StartMessage 0, at_second 121), (ResponseMessage ref_stat, at_second 122),
      (NewBucket, at_second 180), (ResponseMessage ref_stat, at_second 181), (TestComplete, at_second 190)]"
  note ok = stats_new_run_ok [OF ref_new]
  have "ticks_ok 60 120 False ?evs" by (simp add: at_second_def round_time_def)
  moreover have "\<forall>rs \<in> set (responses ?evs). named_tags (rs_tags rs)" using ref_stat_named by simp
  ultimately have "stats_run counting ''t'' ''0'' ?evs ref_task \<noteq> None"
    using stats_run_ticks [OF conjunct1 [OF ok], of ?evs] conjunct2 [OF ok] by (simp only: round_time_def) simp
  then obtain t where t: "stats_run counting ''t'' ''0'' ?evs ref_task = Some t" by auto
  from stats_file_accounts [OF counting_ok ref_new t, of ref_tags "KStatus 200"]
  have "read_file counting ref_tags (KStatus 200) Map.empty (st_file (sk_stats t)) = 2"
    by (simp add: received_count_def stat_count_def kind_key_def ref_stat_def)
  with t show ?thesis by blast
qed

text \<open>
  C39. With a method and a url in all tags the task never panics exactly when every tick after the start message comes
  within the time of the open bucket or of the one after it. A tick that comes later, because a whole bucket's time has
  passed without one, fails the assertion of \<open>check_current_bucket\<close> and ends the statistics; so does every tick after a
  start message that a tick has come before.
\<close>

theorem stats_ticks:
  assumes "stats_new now bsize ps = Some s" "\<forall>rs \<in> set (responses evs). named_tags (rs_tags rs)"
  shows "stats_run H name bin evs \<lparr>sk_stats = s, sk_started = False\<rparr> \<noteq> None \<longleftrightarrow>
    ticks_ok bsize (round_time now bsize) False evs"
  using stats_run_ticks [OF conjunct1 [OF stats_new_run_ok [OF assms(1)]] assms(2), of H name bin] stats_new_run_ok [OF assms(1)]
  by simp

theorem stats_ticks_witness:
  "stats_run counting ''t'' ''0'' [(StartMessage 0, at_second 121), (NewBucket, at_second 240)] ref_task = None \<and>
   stats_run counting ''t'' ''0'' [(NewBucket, at_second 120), (StartMessage 0, at_second 121), (NewBucket, at_second 180)] ref_task = None"
  using stats_ticks [OF ref_new, of "[(StartMessage 0, at_second 121), (NewBucket, at_second 240)]" counting "''t''" "''0''"]
    stats_ticks [OF ref_new, of "[(NewBucket, at_second 120), (StartMessage 0, at_second 121), (NewBucket, at_second 180)]"
      counting "''t''" "''0''"]
  by (simp add: at_second_def round_time_def del: stats_run.simps)

text \<open>
  A tag whose template cannot be evaluated is left out of the tags of a response. When that is the url of a response
  that failed, the next summary panics, at the end of the test or at the next bucket, and the statistics end.
\<close>

theorem unnamed_tags_panic:
  assumes "tags_inv s" "rs_kind rs = RecoverableStat e" "\<not> named_tags (rs_tags rs)"
  shows "close_out_bucket H now None (stats_append H rs s) = None \<and>
    (tb_time (st_current s) < round_time now (st_bucket_size s) \<longrightarrow>
       close_out_bucket H now (Some left) (stats_append H rs s) = None)"
proof -
  let ?s = "stats_append H rs s"
  obtain i where i: "map_of (st_tags ?s) (rs_tags rs) = Some i" "st_current ?s = bucket_append H rs i (st_current s)"
    by (cases "map_of (st_tags s) (rs_tags rs)") (simp_all add: stats_append_def write_file_message_def Let_def)
  obtain g where g: "map_of (tb_entries (st_current ?s)) i = Some (group_append H rs g)"
    by (simp add: i bucket_append_def)
  have shown: "group_shown H (group_append H rs g)"
    using assms(2) by (cases e) (auto simp: group_shown_def bump_def group_append_def Let_def split: option.split)
  have "(rs_tags rs, i) \<in> set (st_tags ?s)" using i(1) by (rule map_of_SomeD)
  then have "None \<in> set (map (\<lambda>(t, i).
      case map_of (tb_entries (st_current ?s)) i of Some g \<Rightarrow> group_print_summary H t g | None \<Rightarrow> Some []) (st_tags ?s))"
    using g shown assms(3) by (force simp: group_print_summary_def)
  then have "collect_options (map (\<lambda>(t, i).
      case map_of (tb_entries (st_current ?s)) i of Some g \<Rightarrow> group_print_summary H t g | None \<Rightarrow> Some []) (st_tags ?s)) = None"
    by (rule collect_options_none)
  then have none: "\<not> close_prints H r (st_current ?s) ?s" for r
    by (simp add: close_prints_def bucket_print_summary_def)
  have prev: "st_previous ?s = None"
    using assms(1) by (auto simp: stats_append_def write_file_message_def tags_inv_def Let_def split: option.split)
  have cur: "tb_time (st_current ?s) = tb_time (st_current s)" "st_bucket_size ?s = st_bucket_size s"
    by (auto simp: stats_append_def write_file_message_def bucket_append_def Let_def split: option.split)
  from close_out_complete(1) [OF prev, of H now] none close_out_passed(1) [OF prev, of now H left] cur
  show ?thesis by auto
qed

theorem unnamed_tags_panic_witness:
  "close_out_bucket counting 180 None
     (stats_append counting \<lparr>rs_kind = RecoverableStat (Timeout 0), rs_rtt = None, rs_time = 0, rs_tags = [(''method'', ''GET'')]\<rparr>
       ref_stats) = None"
proof -
  have "tags_inv ref_stats" using stats_new_inv [OF ref_new, of counting] by (simp add: stats_inv_def)
  from unnamed_tags_panic [OF this, of "\<lparr>rs_kind = RecoverableStat (Timeout 0), rs_rtt = None, rs_time = 0, rs_tags = [(''method'', ''GET'')]\<rparr>"
      "Timeout 0" counting 180 0]
  show ?thesis by (simp add: named_tags_def)
qed

end
