(* ===== verification/LineWriter.thy ===== *)
theory LineWriter
  imports Errors FileIo
begin

text \<open>
  What ends a test (\<open>TestEndReason\<close> of \<open>src/lib.rs\<close>) and the task of \<open>src/line_writer.rs\<close> that writes the messages
  of one stream to a file, stderr or stdout. The writer is an argument: \<open>write_all\<close> of the standard library's \<open>Write\<close>
  fails or not and leaves a new state of the writer either way. The messages are those the task's channel gives until
  it closes. \<open>broadcast::Sender::send\<close> fails only without a receiver, which every call ignores, so a signal is
  something a step returns.
\<close>

datatype 'p test_end_reason = Completed | CtrlC | KilledByLogger | ProviderEnded | ConfigUpdate 'p

type_synonym 'p test_signal = "test_error + 'p test_end_reason"

datatype msg_type = Final string | Other string

fun io_error_text :: "io_error \<Rightarrow> string" where
  "io_error_text (OtherIoError e) = e"
| "io_error_text UnexpectedEof = ''failed to fill whole buffer''"
| "io_error_text Interrupted = ''operation interrupted''"

record 'p writer_end =
  we_signals :: "'p test_signal list"
  we_done :: bool

definition write_final ::
    "('f \<Rightarrow> string \<Rightarrow> io_error option \<times> 'f) \<Rightarrow> string \<Rightarrow> string option \<Rightarrow> 'f \<Rightarrow> 'p writer_end \<times> 'f" where
  "write_final write_all file_name final_msg f =
     (case final_msg of
        Some s \<Rightarrow>
          (case write_all f s of
             (Some e, f') \<Rightarrow> (\<lparr>we_signals = [Inl (WritingToFile file_name (io_error_text e))], we_done = True\<rparr>, f')
           | (None, f') \<Rightarrow> (\<lparr>we_signals = [], we_done = True\<rparr>, f'))
      | None \<Rightarrow> (\<lparr>we_signals = [], we_done = True\<rparr>, f))"

fun writer_loop ::
    "('f \<Rightarrow> string \<Rightarrow> io_error option \<times> 'f) \<Rightarrow> string \<Rightarrow> string option \<Rightarrow> msg_type list \<Rightarrow> 'f \<Rightarrow>
     'p writer_end \<times> 'f" where
  "writer_loop write_all file_name final_msg [] f = write_final write_all file_name final_msg f"
| "writer_loop write_all file_name final_msg (Final s # msgs) f = writer_loop write_all file_name (Some s) msgs f"
| "writer_loop write_all file_name final_msg (Other s # msgs) f =
     (case write_all f s of
        (Some e, f') \<Rightarrow> (\<lparr>we_signals = [Inl (WritingToFile file_name (io_error_text e))], we_done = False\<rparr>, f')
      | (None, f') \<Rightarrow> writer_loop write_all file_name final_msg msgs f')"

definition blocking_writer ::
    "('f \<Rightarrow> string \<Rightarrow> io_error option \<times> 'f) \<Rightarrow> string \<Rightarrow> msg_type list \<Rightarrow> 'f \<Rightarrow> 'p writer_end \<times> 'f" where
  "blocking_writer write_all file_name msgs f = writer_loop write_all file_name None msgs f"

subsection \<open>What is written\<close>

fun other_texts :: "msg_type list \<Rightarrow> string list" where
  "other_texts [] = []"
| "other_texts (Other s # msgs) = s # other_texts msgs"
| "other_texts (Final s # msgs) = other_texts msgs"

fun last_final :: "string option \<Rightarrow> msg_type list \<Rightarrow> string option" where
  "last_final fin [] = fin"
| "last_final fin (Other s # msgs) = last_final fin msgs"
| "last_final fin (Final s # msgs) = last_final (Some s) msgs"

definition append_all :: "string \<Rightarrow> string \<Rightarrow> io_error option \<times> string" where
  "append_all f s = (None, f @ s)"

text \<open>Without write errors the messages come out in order, and of the final ones only the last, at the end.\<close>

lemma writer_loop_texts:
  "writer_loop append_all name fin msgs f =
     (\<lparr>we_signals = [], we_done = True\<rparr>,
      f @ concat (other_texts msgs) @ (case last_final fin msgs of None \<Rightarrow> [] | Some s \<Rightarrow> s))"
  by (induction append_all name fin msgs f rule: writer_loop.induct)
    (simp_all add: append_all_def write_final_def split: option.split)

text \<open>The writer that fails at once ends the task without a word to whom waits for it, and kills the test.\<close>

lemma writer_loop_fails:
  assumes "write_all f s = (Some e, f')"
  shows "writer_loop write_all name fin (Other s # msgs) f =
    (\<lparr>we_signals = [Inl (WritingToFile name (io_error_text e))], we_done = False\<rparr>, f')"
  using assms by simp

end
