(* ===== verification/Providers.thy ===== *)
theory Providers
  imports LineWriter Channel Streams Config
begin

text \<open>
  \<open>src/providers.rs\<close> and the rest of \<open>src/util.rs\<close>: the channel and the handles of a provider, the task that fills it
  from a file, a list or a range, and the loggers. The readers' \<open>new\<close> (theories \<open>LineReader\<close>, \<open>JsonReader\<close> and
  \<open>CsvReader\<close>) are arguments, and so are the senders of \<open>futures::channel::mpsc\<close> (\<open>writer_ops\<close>) and \<open>forward\<close>, whose
  result the task of a file provider looks at.
\<close>

subsection \<open>Providers\<close>

record ('h, 'd, 'q, 'ev) provider_state =
  pr_auto_return :: "send_options option"
  pr_channel :: "('h, 'd, 'q, 'ev) channel"
  pr_rx :: listener
  pr_tx :: listener
  pr_on_demand :: listener

definition config_limit_to_channel_limit :: "buffer_limit \<Rightarrow> limit" where
  "config_limit_to_channel_limit l = (case l of DynamicLimit n \<Rightarrow> limit_dynamic n | StaticLimit n \<Rightarrow> limit_statik n)"

definition provider_new ::
    "send_options option \<Rightarrow> ('h, 'd, 'q, 'ev) channel \<Rightarrow> listener \<Rightarrow> listener \<Rightarrow> ('h, 'd, 'q, 'ev) provider_state" where
  "provider_new auto_return c rx tx =
     (let (on_demand, c') = on_demand_new c in
      \<lparr>pr_auto_return = auto_return, pr_channel = c', pr_rx = rx, pr_tx = tx, pr_on_demand = on_demand\<rparr>)"

text \<open>A file provider's values, by the format of the file; the second sender is the task's.\<close>

definition file_source ::
    "(file_provider \<Rightarrow> string \<Rightarrow> io_error + 'a) \<Rightarrow> (file_provider \<Rightarrow> string \<Rightarrow> io_error + 'b) \<Rightarrow>
     (file_provider \<Rightarrow> string \<Rightarrow> io_error + 'c) \<Rightarrow> file_provider \<Rightarrow> string \<Rightarrow> test_error + ('a, 'b, 'c) either3" where
  "file_source csv_new json_new line_new fp file =
     (let opened = (case fi_format fp of
          Csv \<Rightarrow> res_map A3 (csv_new fp file)
        | JsonFormat \<Rightarrow> res_map B3 (json_new fp file)
        | Line \<Rightarrow> res_map C3 (line_new fp file)) in
      case opened of Inl e \<Rightarrow> Inl (CannotOpenFile file (io_error_text e)) | Inr s \<Rightarrow> Inr s)"

definition provider_file ::
    "(json, 'h, 'd, 'q, 'ev) chan_ext \<Rightarrow> 'h \<Rightarrow> (file_provider \<Rightarrow> string \<Rightarrow> io_error + 'a) \<Rightarrow>
     (file_provider \<Rightarrow> string \<Rightarrow> io_error + 'b) \<Rightarrow> (file_provider \<Rightarrow> string \<Rightarrow> io_error + 'c) \<Rightarrow> file_provider \<Rightarrow> string \<Rightarrow>
     test_error + (('h, 'd, 'q, 'ev) provider_state \<times> listener \<times> ('a, 'b, 'c) either3)" where
  "provider_file E h csv_new json_new line_new fp name =
     res_map (\<lambda>source.
         let limit = config_limit_to_channel_limit (fi_buffer fp);
             (c, tx, rx) = channel_pair E h limit (fi_unique fp) name;
             (tx2, c) = sender_clone c
         in (provider_new (fi_auto_return fp) c rx tx, tx2, source))
       (file_source csv_new json_new line_new (fp\<lparr>fi_path := []\<rparr>) (fi_path fp))"

text \<open>
  The task of a file provider: an error of the reader goes through the stream as a channel error that wraps it, and
  only such an error ends the test; that the channel has been closed ends the task alone.
\<close>

definition file_stream_error :: "string \<Rightarrow> io_error \<Rightarrow> test_error channel_closed" where
  "file_stream_error file e = channel_closed_wrapped (FileReading file (io_error_text e))"

definition file_primer_end :: "(test_error channel_closed + unit) \<Rightarrow> 'p test_signal list" where
  "file_primer_end r =
     (case r of
        Inl e \<Rightarrow> (case inner_cast Some e of Some e \<Rightarrow> [Inl e] | None \<Rightarrow> [])
      | Inr _ \<Rightarrow> [])"

definition provider_response ::
    "(json, 'h, 'd, 'q, 'ev) chan_ext \<Rightarrow> 'h \<Rightarrow> response_provider \<Rightarrow> string \<Rightarrow> ('h, 'd, 'q, 'ev) provider_state" where
  "provider_response E h rp name =
     (let limit = config_limit_to_channel_limit (resp_buffer rp);
          (c, tx, rx) = channel_pair E h limit (resp_unique rp) name
      in provider_new (resp_auto_return rp) c rx tx)"

definition provider_list ::
    "(json, 'h, 'd, 'q, 'ev) chan_ext \<Rightarrow> 'h \<Rightarrow> (json list \<Rightarrow> json list) \<Rightarrow> (nat \<Rightarrow> nat) \<Rightarrow> list_provider \<Rightarrow> string \<Rightarrow>
     (('h, 'd, 'q, 'ev) provider_state \<times> listener \<times> (nat \<Rightarrow> json option)) option" where
  "provider_list E h shuffle sample lp name =
     map_option (\<lambda>values.
         let (c, tx, rx) = channel_pair E h (limit_dynamic 5) (list_provider_unique lp) name;
             (tx2, c) = sender_clone c
         in (provider_new None c rx tx, tx2, values))
       (list_provider_iter shuffle sample lp)"

definition json_of_i64 :: "int \<Rightarrow> json" where
  "json_of_i64 i = JNumber (if 0 \<le> i then PosInt (word_of_int i) else NegInt (word_of_int i))"

definition provider_range ::
    "(json, 'h, 'd, 'q, 'ev) chan_ext \<Rightarrow> 'h \<Rightarrow> range_provider_pre \<Rightarrow> string \<Rightarrow>
     ('h, 'd, 'q, 'ev) provider_state \<times> listener \<times> (nat \<Rightarrow> json option)" where
  "provider_range E h rp name =
     (let (c, tx, rx) = channel_pair E h (limit_dynamic 5) (rg_unique rp) name;
          (tx2, c) = sender_clone c
      in (provider_new None c rx tx, tx2, \<lambda>n. map_option json_of_i64 (range_provider_iter rp n)))"

text \<open>
  The thread that reads a file, one turn of its loop: a value or an error of the reader is sent on; the thread ends
  with the values, or when there is no one left to send to.
\<close>

definition into_stream_step ::
    "('s \<Rightarrow> 'i option \<times> 's) \<Rightarrow> ('q \<Rightarrow> 'i \<Rightarrow> (unit + unit) \<times> 'q) \<Rightarrow> 's \<times> 'q \<Rightarrow> 's \<times> 'q + 's \<times> 'q" where
  "into_stream_step nxt send = (\<lambda>(s, q).
     case nxt s of
       (None, s') \<Rightarrow> Inl (s', q)
     | (Some value, s') \<Rightarrow>
         (case send q value of (Inl _, q') \<Rightarrow> Inl (s', q') | (Inr _, q') \<Rightarrow> Inr (s', q')))"

definition into_stream ::
    "('s \<Rightarrow> 'i option \<times> 's) \<Rightarrow> ('q \<Rightarrow> 'i \<Rightarrow> (unit + unit) \<times> 'q) \<Rightarrow> 's \<times> 'q \<Rightarrow> ('s \<times> 'q) option" where
  "into_stream nxt send = loop_run (into_stream_step nxt send)"

subsection \<open>Loggers\<close>

record 'w writer_ops =
  w_poll_ready :: "'w \<Rightarrow> (unit + unit) poll \<times> 'w"
  w_start_send :: "'w \<Rightarrow> msg_type \<Rightarrow> (unit + unit) \<times> 'w"
  w_disconnect :: "'w \<Rightarrow> 'w"

text \<open>
  A handle of a logger. What it counts down is shared by all its clones and kept apart: \<open>None\<close> without a limit, else
  an \<open>isize\<close>.
\<close>

record 'w logger_handle =
  lo_pretty :: bool
  lo_killer :: bool
  lo_writer :: 'w

type_synonym logger_limit = "64 word option"

definition logger_of_config :: "logger \<Rightarrow> 'w \<Rightarrow> 'w logger_handle \<times> logger_limit" where
  "logger_of_config l writer =
     (let limit = (if lg_kill' l \<and> lg_limit' l = None then Some 1 else lg_limit' l) in
      (\<lparr>lo_pretty = lg_pretty' l, lo_killer = lg_kill' l, lo_writer = writer\<rparr>, map_option word_of_nat limit))"

definition is_json_string :: "json \<Rightarrow> bool" where
  "is_json_string j = (case j of JString _ \<Rightarrow> True | _ \<Rightarrow> False)"

definition json_to_msg_type :: "expr_ext \<Rightarrow> (json \<Rightarrow> string) \<Rightarrow> 'w logger_handle \<Rightarrow> json \<Rightarrow> msg_type" where
  "json_to_msg_type E pretty l j =
     Other (if lo_pretty l \<and> \<not> is_json_string j then pretty j @ [CHR 0x0A]
            else json_value_to_string E j @ [CHR 0x0A])"

definition logger_poll_ready :: "'w writer_ops \<Rightarrow> 'w logger_handle \<Rightarrow> (unit + unit) poll \<times> 'w logger_handle" where
  "logger_poll_ready W l = (let (p, w) = w_poll_ready W (lo_writer l) in (p, l\<lparr>lo_writer := w\<rparr>))"

definition logger_start_send ::
    "expr_ext \<Rightarrow> (json \<Rightarrow> string) \<Rightarrow> 'w writer_ops \<Rightarrow> json \<Rightarrow> 'w logger_handle \<times> logger_limit \<Rightarrow>
     (unit + unit) \<times> ('w logger_handle \<times> logger_limit) \<times> 'p test_signal list" where
  "logger_start_send E pretty W item = (\<lambda>(l, limit).
     let msg = json_to_msg_type E pretty l item;
         (l, limit, signals) =
           (case limit of
              Some i \<Rightarrow>
                if sint i \<le> 0
                then (l\<lparr>lo_writer := w_disconnect W (lo_writer l)\<rparr>, Some (i - 1),
                      if lo_killer l then [Inr KilledByLogger] else [])
                else (l, Some (i - 1), [])
            | None \<Rightarrow> (l, None, []));
         (r, w) = w_start_send W (lo_writer l) msg
     in (r, (l\<lparr>lo_writer := w\<rparr>, limit), signals))"

end
