(* ===== verification/ProviderProps.thy ===== *)
theory ProviderProps
  imports Providers
begin

text \<open>
  Loggers with a limit: what the handles of a logger pass on to the writer and when they kill the test, whatever the
  order in which the requests that share the logger use their handles.
\<close>

subsection \<open>Handles that share a logger\<close>

text \<open>
  What the documentation of \<open>futures::channel::mpsc\<close> says of a sender: one that is connected takes what it is ready
  for and stays connected; one that has been disconnected is an error for \<open>poll_ready\<close> and \<open>start_send\<close>.
\<close>

definition writer_ok :: "'w writer_ops \<Rightarrow> ('w \<Rightarrow> bool) \<Rightarrow> bool" where
  "writer_ok W conn \<longleftrightarrow>
     (\<forall>w. conn w \<longrightarrow> conn (snd (w_poll_ready W w)) \<and> (\<forall>e. fst (w_poll_ready W w) \<noteq> Ready (Inl e)) \<and>
        (fst (w_poll_ready W w) = Ready (Inr ()) \<longrightarrow>
           (\<forall>m. fst (w_start_send W (snd (w_poll_ready W w)) m) = Inr () \<and> conn (snd (w_start_send W (snd (w_poll_ready W w)) m))))) \<and>
     (\<forall>w. \<not> conn w \<longrightarrow> fst (w_poll_ready W w) = Ready (Inl ()) \<and> \<not> conn (snd (w_poll_ready W w)) \<and>
        (\<forall>m. fst (w_start_send W w m) = Inl () \<and> \<not> conn (snd (w_start_send W w m)))) \<and>
     (\<forall>w. \<not> conn (w_disconnect W w))"

text \<open>A value is sent through a handle: \<open>poll_ready\<close>, and \<open>start_send\<close> when it is ready.\<close>

datatype log_outcome = Passed | Refused | NotReady | Gone

record ('w, 'p) logger_use =
  lu_handles :: "nat \<Rightarrow> 'w logger_handle"
  lu_limit :: logger_limit
  lu_signals :: "'p test_signal list"

definition log_value ::
    "expr_ext \<Rightarrow> (json \<Rightarrow> string) \<Rightarrow> 'w writer_ops \<Rightarrow> nat \<Rightarrow> json \<Rightarrow> ('w, 'p) logger_use \<Rightarrow>
     log_outcome \<times> ('w, 'p) logger_use" where
  "log_value X pretty W k v u =
     (case logger_poll_ready W (lu_handles u k) of
        (Pending, h) \<Rightarrow> (NotReady, u\<lparr>lu_handles := (lu_handles u)(k := h)\<rparr>)
      | (Ready (Inl _), h) \<Rightarrow> (Gone, u\<lparr>lu_handles := (lu_handles u)(k := h)\<rparr>)
      | (Ready (Inr _), h) \<Rightarrow>
          (let (r, (h, limit), signals) = logger_start_send X pretty W v (h, lu_limit u) in
           (case r of Inl _ \<Rightarrow> Refused | Inr _ \<Rightarrow> Passed,
            u\<lparr>lu_handles := (lu_handles u)(k := h), lu_limit := limit, lu_signals := lu_signals u @ signals\<rparr>)))"

fun log_values ::
    "expr_ext \<Rightarrow> (json \<Rightarrow> string) \<Rightarrow> 'w writer_ops \<Rightarrow> (nat \<times> json) list \<Rightarrow> ('w, 'p) logger_use \<Rightarrow>
     log_outcome list \<times> ('w, 'p) logger_use" where
  "log_values X pretty W [] u = ([], u)"
| "log_values X pretty W ((k, v) # vs) u =
     (let (o', u) = log_value X pretty W k v u; (os, u) = log_values X pretty W vs u in (o' # os, u))"

text \<open>The values that have reached \<open>start_send\<close>.\<close>

definition sent_calls :: "log_outcome list \<Rightarrow> log_outcome list" where
  "sent_calls os = filter (\<lambda>o'. o' = Passed \<or> o' = Refused) os"

text \<open>
  A state of the handles after \<open>i\<close> values have reached \<open>start_send\<close>: while \<open>i\<close> is at most the limit every handle is
  connected.
\<close>

definition use_ok :: "('w \<Rightarrow> bool) \<Rightarrow> int \<Rightarrow> bool \<Rightarrow> ('w, 'p) logger_use \<Rightarrow> bool" where
  "use_ok conn left kills u \<longleftrightarrow> lu_limit u = Some (word_of_int left) \<and>
     (\<forall>k. lo_killer (lu_handles u k) = kills) \<and> (0 \<le> left \<longrightarrow> (\<forall>k. conn (lo_writer (lu_handles u k))))"

lemma writer_okD:
  assumes "writer_ok W conn"
  shows "conn w \<Longrightarrow> w_poll_ready W w = (p, w') \<Longrightarrow> conn w' \<and> p \<noteq> Ready (Inl e)"
    "conn w \<Longrightarrow> w_poll_ready W w = (Ready (Inr ()), w') \<Longrightarrow> fst (w_start_send W w' m) = Inr () \<and> conn (snd (w_start_send W w' m))"
    "\<not> conn w \<Longrightarrow> w_poll_ready W w = (p, w') \<Longrightarrow> p = Ready (Inl ()) \<and> \<not> conn w'"
    "\<not> conn w \<Longrightarrow> fst (w_start_send W w m) = Inl () \<and> \<not> conn (snd (w_start_send W w m))"
    "\<not> conn (w_disconnect W w)"
  using assms by (force simp: writer_ok_def)+

lemma log_value_passes:
  assumes "writer_ok W conn" "use_ok conn left kills u" "0 < left" "left < 2 ^ 63"
    and "log_value X pretty W k v u = (o', u')"
  shows "(o' = NotReady \<and> use_ok conn left kills u' \<or> o' = Passed \<and> use_ok conn (left - 1) kills u') \<and>
    lu_signals u' = lu_signals u"
proof -
  let ?w = "lo_writer (lu_handles u k)"
  have conn: "conn (lo_writer (lu_handles u j))" for j using assms(2,3) by (simp add: use_ok_def)
  obtain p w' where p: "w_poll_ready W ?w = (p, w')" by fastforce
  note ready = writer_okD(1) [OF assms(1) conn p]
  have positive: "\<not> sint (word_of_int left :: 64 word) \<le> 0"
    using assms(3,4) by (simp add: signed_take_bit_int_eq_self sint_sbintrunc')
  show ?thesis
  proof (cases p)
    case Pending
    with assms(2,5) p ready conn show ?thesis
      by (auto simp: log_value_def logger_poll_ready_def use_ok_def split: if_splits)
  next
    case (Ready r)
    with ready have r: "p = Ready (Inr ())" by (cases r) auto
    obtain m where m: "json_to_msg_type X pretty (lu_handles u k\<lparr>lo_writer := w'\<rparr>) v = m" by simp
    obtain s w'' where s: "w_start_send W w' m = (s, w'')" by fastforce
    with writer_okD(2) [OF assms(1) conn, of k w' m] p r have ok: "s = Inr ()" "conn w''" by simp_all
    from assms(2) have limit: "lu_limit u = Some (word_of_int left)" by (simp add: use_ok_def)
    have "o' = Passed \<and> u' = u\<lparr>lu_handles := (lu_handles u)(k := (lu_handles u k)\<lparr>lo_writer := w''\<rparr>),
        lu_limit := Some (word_of_int left - 1)\<rparr>"
      using assms(5) p r s ok positive m
      by (auto simp: log_value_def logger_poll_ready_def logger_start_send_def limit)
    then show ?thesis using assms(2) conn ok by (auto simp: use_ok_def)
  qed
qed

lemma log_value_refuses:
  assumes "writer_ok W conn" "use_ok conn left kills u" "left \<le> 0" "- (2 ^ 63) \<le> left"
    and "log_value X pretty W k v u = (o', u')"
  shows "(o' = NotReady \<or> o' = Gone) \<and> use_ok conn left kills u' \<and> lu_signals u' = lu_signals u \<or>
    o' = Refused \<and> use_ok conn (left - 1) kills u' \<and>
    lu_signals u' = lu_signals u @ (if kills then [Inr KilledByLogger] else [])"
proof -
  let ?w = "lo_writer (lu_handles u k)"
  obtain p w' where p: "w_poll_ready W ?w = (p, w')" by fastforce
  have limit: "lu_limit u = Some (word_of_int left)" and killer: "lo_killer (lu_handles u k) = kills"
    using assms(2) by (simp_all add: use_ok_def)
  have spent: "sint (word_of_int left :: 64 word) \<le> 0"
    using assms(3,4) by (simp add: signed_take_bit_int_eq_self sint_sbintrunc')
  have conn: "left = 0 \<Longrightarrow> conn w' \<and> p \<noteq> Ready (Inl ())"
    using assms(2) writer_okD(1) [OF assms(1) _ p] by (auto simp: use_ok_def)
  show ?thesis
  proof (cases p)
    case Pending
    with assms(2,3,5) p conn show ?thesis
      by (auto simp: log_value_def logger_poll_ready_def use_ok_def split: if_splits)
  next
    case (Ready r)
    show ?thesis
    proof (cases r)
      case (Inl e)
      with Ready assms(2,3,5) p conn show ?thesis
        by (auto simp: log_value_def logger_poll_ready_def use_ok_def split: if_splits)
    next
      case (Inr a)
      obtain m where m: "json_to_msg_type X pretty (lu_handles u k\<lparr>lo_writer := w'\<rparr>) v = m" by simp
      obtain s w'' where s: "w_start_send W (w_disconnect W w') m = (s, w'')" by fastforce
      with writer_okD(4) [OF assms(1), of "w_disconnect W w'" m] writer_okD(5) [OF assms(1)] have gone: "s = Inl ()" by simp
      have "o' = Refused \<and> u' = u\<lparr>lu_handles := (lu_handles u)(k := (lu_handles u k)\<lparr>lo_writer := w''\<rparr>),
          lu_limit := Some (word_of_int left - 1),
          lu_signals := lu_signals u @ (if kills then [Inr KilledByLogger] else [])\<rparr>"
        using assms(5) p Ready Inr s gone spent m killer
        by (auto simp: log_value_def logger_poll_ready_def logger_start_send_def limit)
      then show ?thesis using assms(2,3) by (auto simp: use_ok_def)
    qed
  qed
qed

lemma log_values_calls:
  assumes "writer_ok W conn" "use_ok conn left kills u" "left < 2 ^ 63" "int (length vs) - 2 ^ 63 \<le> left"
    and "log_values X pretty W vs u = (os, u')"
  shows "sent_calls os = replicate (min (nat left) (length (sent_calls os))) Passed @
      replicate (length (sent_calls os) - nat left) Refused \<and>
    lu_signals u' = lu_signals u @
      (if kills then replicate (length (sent_calls os) - nat left) (Inr KilledByLogger) else [])"
  using assms(2-5)
proof (induction vs arbitrary: left u os)
  case Nil
  then show ?case by (simp add: sent_calls_def)
next
  case (Cons kv vs)
  obtain k v where kv: "kv = (k, v)" by fastforce
  obtain o' u1 where one: "log_value X pretty W k v u = (o', u1)" by fastforce
  obtain os1 where rest: "log_values X pretty W vs u1 = (os1, u')" "os = o' # os1"
    using Cons.prems(4) one by (auto simp: kv case_prod_beta Let_def prod_eq_iff)
  show ?case
  proof (cases "0 < left")
    case True
    from log_value_passes [OF assms(1) Cons.prems(1) True Cons.prems(2) one] show ?thesis
    proof (elim conjE disjE)
      assume "o' = NotReady" "use_ok conn left kills u1" "lu_signals u1 = lu_signals u"
      with Cons.IH [OF _ Cons.prems(2) _ rest(1)] Cons.prems(3) rest(2) show ?thesis by (simp add: sent_calls_def)
    next
      assume *: "o' = Passed" "use_ok conn (left - 1) kills u1" "lu_signals u1 = lu_signals u"
      have "nat left = Suc (nat (left - 1))" using True by simp
      with * Cons.IH [OF *(2) _ _ rest(1)] Cons.prems(2,3) rest(2) show ?thesis by (simp add: sent_calls_def)
    qed
  next
    case False
    then have "left \<le> 0" "- (2 ^ 63) \<le> left" using Cons.prems(3) by simp_all
    from log_value_refuses [OF assms(1) Cons.prems(1) this one] show ?thesis
    proof (elim conjE disjE)
      assume *: "o' = Refused" "use_ok conn (left - 1) kills u1"
        "lu_signals u1 = lu_signals u @ (if kills then [Inr KilledByLogger] else [])"
      from False have "nat left = 0" "nat (left - 1) = 0" by simp_all
      with * Cons.IH [OF *(2) _ _ rest(1)] Cons.prems(2,3) rest(2) show ?thesis by (simp add: sent_calls_def)
    qed (use Cons.IH [OF _ Cons.prems(2) _ rest(1)] Cons.prems(3) rest(2) in \<open>simp_all add: sent_calls_def\<close>)
  qed
qed

text \<open>
  C16. A logger with a limit passes on exactly the first values its handles send, as many as the limit, and refuses the
  others; without a limit of its own a logger that kills has the limit one. It kills the test at each value it refuses,
  so with the value after the limit, not when the limit is reached.
\<close>

theorem logger_limit_passes:
  assumes "writer_ok W conn" "logger_of_config l w = (h, limit)" "conn w" "\<forall>k. handles k = h"
    and "n = (case lg_limit' l of Some n \<Rightarrow> n | None \<Rightarrow> 1)" "lg_limit' l \<noteq> None \<or> lg_kill' l"
    and "n < 2 ^ 63" "length vs < 2 ^ 63"
    and "log_values X pretty W vs \<lparr>lu_handles = handles, lu_limit = limit, lu_signals = []\<rparr> = (os, u)"
  shows "sent_calls os = replicate (min n (length (sent_calls os))) Passed @
      replicate (length (sent_calls os) - n) Refused \<and>
    lu_signals u = (if lg_kill' l then replicate (length (sent_calls os) - n) (Inr KilledByLogger) else [])"
proof -
  have h: "lo_killer h = lg_kill' l" "lo_writer h = w" "limit = Some (word_of_nat n)"
    using assms(2,5,6) by (auto simp: logger_of_config_def Let_def split: option.splits if_splits)
  have "use_ok conn (int n) (lg_kill' l) \<lparr>lu_handles = handles, lu_limit = limit, lu_signals = []\<rparr>"
    using assms(3,4) h by (simp add: use_ok_def)
  from log_values_calls [OF assms(1) this _ _ assms(9)] assms(7,8) show ?thesis by simp
qed

text \<open>A sender that takes every message until it is disconnected, for the witness.\<close>

definition plain_writer :: "bool writer_ops" where
  "plain_writer = \<lparr>w_poll_ready = (\<lambda>w. (Ready (if w then Inr () else Inl ()), w)),
     w_start_send = (\<lambda>w _. (if w then Inr () else Inl (), w)), w_disconnect = (\<lambda>_. False)\<rparr>"

theorem logger_limit_passes_witness:
  "\<forall>X pretty. \<exists>u. log_values X pretty plain_writer [(0, JNull), (1, JNull), (0, JNull)]
      \<lparr>lu_handles = \<lambda>_. \<lparr>lo_pretty = False, lo_killer = True, lo_writer = True\<rparr>, lu_limit = Some 1, lu_signals = [] :: unit test_signal list\<rparr> =
        ([Passed, Refused, Refused], u) \<and>
    lu_signals u = [Inr KilledByLogger, Inr KilledByLogger]"
proof (intro allI)
  fix X pretty
  let ?h = "\<lparr>lo_pretty = False, lo_killer = True, lo_writer = True\<rparr>"
  let ?l = "\<lparr>lg_to' = ''l'', lg_pretty' = False, lg_limit' = None, lg_kill' = True\<rparr>"
  have ok: "writer_ok plain_writer (\<lambda>w. w)" by (simp add: writer_ok_def plain_writer_def)
  have l: "logger_of_config ?l True = (?h, Some 1)" by (simp add: logger_of_config_def)
  obtain os u where run: "log_values X pretty plain_writer [(0, JNull), (1, JNull), (0, JNull)]
      \<lparr>lu_handles = \<lambda>_. ?h, lu_limit = Some 1, lu_signals = [] :: unit test_signal list\<rparr> = (os, u)" by fastforce
  then have os: "os = [Passed, Refused, Refused]"
    by (auto simp: log_value_def logger_poll_ready_def logger_start_send_def plain_writer_def Let_def)
  with logger_limit_passes [OF ok l, of "\<lambda>_. ?h" 1 "[(0, JNull), (1, JNull), (0, JNull)]" X pretty os u] run
  have "lu_signals u = [Inr KilledByLogger, Inr KilledByLogger]" by (simp add: sent_calls_def del: log_values.simps)
  with run os show "\<exists>u. log_values X pretty plain_writer [(0, JNull), (1, JNull), (0, JNull)]
      \<lparr>lu_handles = \<lambda>_. ?h, lu_limit = Some 1, lu_signals = [] :: unit test_signal list\<rparr> = ([Passed, Refused, Refused], u) \<and>
    lu_signals u = [Inr KilledByLogger, Inr KilledByLogger]" by blast
qed

end
