(* ===== verification/Sending.thy ===== *)
theory Sending
  imports Providers Select
begin

text \<open>
  What \<open>src/request.rs\<close> sends values with: auto-returns, the two kinds of targets of an endpoint and \<open>BlockSender\<close>,
  the future that sends the values of an iterator one by one as its target has room. A target is the state of its
  channel and of the sender's listener, or a handle of a logger with the shared limit and the signals sent so far. The
  sink combinators of the \<open>futures\<close> crate (\<open>send_all\<close>, and \<open>send\<close> polled once) are arguments.
\<close>

subsection \<open>Auto-returns\<close>

record auto_return =
  ar_send_option :: send_options
  ar_provider :: string
  ar_jsons :: "json list"

definition auto_return_new :: "send_options \<Rightarrow> string \<Rightarrow> json list \<Rightarrow> auto_return" where
  "auto_return_new send_option provider jsons =
     \<lparr>ar_send_option = send_option, ar_provider = provider, ar_jsons = jsons\<rparr>"

text \<open>The values are popped from the end. A \<open>send\<close> that is not done at once is dropped with its value.\<close>

fun return_if_not_full :: "('c \<Rightarrow> json \<Rightarrow> bool \<times> 'c) \<Rightarrow> json list \<Rightarrow> 'c \<Rightarrow> 'c" where
  "return_if_not_full send_now [] c = c"
| "return_if_not_full send_now (v # popped) c =
     (case send_now c v of (False, c') \<Rightarrow> c' | (True, c') \<Rightarrow> return_if_not_full send_now popped c')"

definition auto_return_into_future ::
    "(json, 'h, 'd, 'q, 'ev) chan_ext \<Rightarrow> (('h, 'd, 'q, 'ev) handle \<Rightarrow> json list \<Rightarrow> ('h, 'd, 'q, 'ev) handle) \<Rightarrow>
     (('h, 'd, 'q, 'ev) handle \<Rightarrow> json \<Rightarrow> bool \<times> ('h, 'd, 'q, 'ev) handle) \<Rightarrow> auto_return \<Rightarrow>
     ('h, 'd, 'q, 'ev) handle \<Rightarrow> ('h, 'd, 'q, 'ev) handle" where
  "auto_return_into_future E send_all send_now ar c =
     (case ar_send_option ar of
        Block \<Rightarrow> send_all c (ar_jsons ar)
      | Force \<Rightarrow> fold (\<lambda>v (c, l). (force_send E c v, l)) (rev (ar_jsons ar)) c
      | IfNotFull \<Rightarrow> return_if_not_full send_now (rev (ar_jsons ar)) c)"

text \<open>A provider as a stream for the expressions that read it: each value with its auto-return.\<close>

definition provider_stream_item :: "string \<Rightarrow> send_options option \<Rightarrow> json \<Rightarrow> exec_error + (json \<times> auto_return list)" where
  "provider_stream_item name auto_return v =
     Inr (v, case auto_return of Some ar \<Rightarrow> [auto_return_new ar name [v]] | None \<Rightarrow> [])"

subsection \<open>Targets\<close>

datatype 't provider_or_logger = ToProvider 't | ToLogger 't

definition is_logger :: "'t provider_or_logger \<Rightarrow> bool" where
  "is_logger t = (case t of ToProvider _ \<Rightarrow> False | ToLogger _ \<Rightarrow> True)"

text \<open>A target that values are sent to, as the two cases of the source use it.\<close>

record ('t, 'v) sink =
  sk_ready :: "'t \<Rightarrow> (unit + unit) poll \<times> 't"
  sk_send :: "'t \<Rightarrow> 'v \<Rightarrow> (unit + unit) \<times> 't"
  sk_flush :: "'t \<Rightarrow> bool \<times> 't"                  \<comment> \<open>whether the flush is pending\<close>

definition poll_map :: "('a \<Rightarrow> 'b) \<Rightarrow> 'a poll \<Rightarrow> 'b poll" where
  "poll_map f p = (case p of Ready a \<Rightarrow> Ready (f a) | Pending \<Rightarrow> Pending)"

definition drop_error :: "('e + 'a) \<Rightarrow> unit + 'a" where
  "drop_error r = (case r of Inl _ \<Rightarrow> Inl () | Inr a \<Rightarrow> Inr a)"

text \<open>The loop of \<open>poll_ready\<close> always returns on a handle that lives (\<open>poll_ready_behaviour\<close>).\<close>

definition provider_sink :: "(json, 'h, 'd, 'q, 'ev) chan_ext \<Rightarrow> (('h, 'd, 'q, 'ev) handle, json) sink" where
  "provider_sink E =
     \<lparr>sk_ready = (\<lambda>s. case poll_ready E s of Some (p, s') \<Rightarrow> (poll_map drop_error p, s') | None \<Rightarrow> (Pending, s)),
      sk_send = (\<lambda>s v. let (r, s') = start_send E s v in (drop_error r, s')),
      sk_flush = (\<lambda>s. (poll_flush s = Pending, s))\<rparr>"

record ('w, 'p) logger_target =
  lt_handle :: "'w logger_handle"
  lt_limit :: logger_limit
  lt_signals :: "'p test_signal list"

definition logger_sink ::
    "expr_ext \<Rightarrow> (json \<Rightarrow> string) \<Rightarrow> 'w writer_ops \<Rightarrow> ('w \<Rightarrow> bool \<times> 'w) \<Rightarrow> (('w, 'p) logger_target, json) sink" where
  "logger_sink X pretty W flush =
     \<lparr>sk_ready = (\<lambda>t. let (p, h) = logger_poll_ready W (lt_handle t) in (p, t\<lparr>lt_handle := h\<rparr>)),
      sk_send = (\<lambda>t v.
        let (r, (h, limit), signals) = logger_start_send X pretty W v (lt_handle t, lt_limit t)
        in (r, t\<lparr>lt_handle := h, lt_limit := limit, lt_signals := lt_signals t @ signals\<rparr>)),
      sk_flush = (\<lambda>t. let (p, w) = flush (lo_writer (lt_handle t)) in (p, t\<lparr>lt_handle := (lt_handle t)\<lparr>lo_writer := w\<rparr>\<rparr>))\<rparr>"

record 't outgoing =
  og_select :: select
  og_tx :: "'t provider_or_logger"

definition outgoing_new :: "select \<Rightarrow> 't provider_or_logger \<Rightarrow> 't outgoing" where
  "outgoing_new s tx = \<lparr>og_select = s, og_tx = tx\<rparr>"

subsection \<open>\<open>BlockSender\<close>\<close>

record ('s, 't, 'v) block_sender =
  bs_tx :: 't
  bs_values :: 's
  bs_value_added :: bool
  bs_next_value :: "'v option"

definition block_sender_new :: "'s \<Rightarrow> 't \<Rightarrow> ('s, 't, 'v) block_sender" where
  "block_sender_new values tx = \<lparr>bs_tx = tx, bs_values = values, bs_value_added = False, bs_next_value = None\<rparr>"

definition block_take ::
    "('s \<Rightarrow> ('e + 'v) option \<times> 's) \<Rightarrow> ('s, 't, 'v) block_sender \<Rightarrow> ('e + 'v) option \<times> ('s, 't, 'v) block_sender" where
  "block_take nxt b =
     (case bs_next_value b of
        Some v \<Rightarrow> (Some (Inr v), b\<lparr>bs_next_value := None\<rparr>)
      | None \<Rightarrow> (let (r, s) = nxt (bs_values b) in (r, b\<lparr>bs_values := s\<rparr>)))"

text \<open>What comes after the loop.\<close>

definition block_flush :: "('t, 'v) sink \<Rightarrow> ('s, 't, 'v) block_sender \<Rightarrow> bool \<times> ('s, 't, 'v) block_sender" where
  "block_flush K b =
     (if bs_value_added b then (let (pending, t) = sk_flush K (bs_tx b) in (pending, b\<lparr>bs_tx := t\<rparr>)) else (False, b))"

definition block_end :: "('t, 'v) sink \<Rightarrow> ('s, 't, 'v) block_sender \<Rightarrow> ('e + unit) poll \<times> ('s, 't, 'v) block_sender" where
  "block_end K b = (let (pending, b) = block_flush K b in (if pending then Pending else Ready (Inr ()), b))"

definition block_step ::
    "('t, 'v) sink \<Rightarrow> ('s \<Rightarrow> ('e + 'v) option \<times> 's) \<Rightarrow> ('s, 't, 'v) block_sender \<Rightarrow>
     (('e + unit) poll \<times> ('s, 't, 'v) block_sender) + ('s, 't, 'v) block_sender" where
  "block_step K nxt b =
     (case block_take nxt b of
        (None, b) \<Rightarrow> Inl (block_end K b)
      | (Some (Inl e), b) \<Rightarrow> Inl (Ready (Inl e), b)
      | (Some (Inr v), b) \<Rightarrow>
          (case sk_ready K (bs_tx b) of
             (Ready (Inr _), t) \<Rightarrow>
               (case sk_send K t v of
                  (Inl _, t) \<Rightarrow> Inl (block_end K (b\<lparr>bs_tx := t\<rparr>))
                | (Inr _, t) \<Rightarrow> Inr (b\<lparr>bs_tx := t, bs_value_added := True\<rparr>))
           | (Pending, t) \<Rightarrow> Inl (Pending, b\<lparr>bs_tx := t, bs_next_value := Some v\<rparr>)
           | (Ready (Inl _), t) \<Rightarrow> Inl (block_end K (b\<lparr>bs_tx := t\<rparr>))))"

definition block_poll ::
    "('t, 'v) sink \<Rightarrow> ('s \<Rightarrow> ('e + 'v) option \<times> 's) \<Rightarrow> ('s, 't, 'v) block_sender \<Rightarrow>
     (('e + unit) poll \<times> ('s, 't, 'v) block_sender) option" where
  "block_poll K nxt b = loop_run (block_step K nxt) b"

text \<open>\<open>Drop\<close> polls once more, whatever the future has returned before.\<close>

definition block_drop ::
    "('t, 'v) sink \<Rightarrow> ('s \<Rightarrow> ('e + 'v) option \<times> 's) \<Rightarrow> ('s, 't, 'v) block_sender \<Rightarrow> 't option" where
  "block_drop K nxt b = map_option (\<lambda>(_, b). bs_tx b) (block_poll K nxt b)"

text \<open>\<open>now_or_never\<close> on a sender: one poll, and the drop.\<close>

definition block_now_or_never ::
    "('t, 'v) sink \<Rightarrow> ('s \<Rightarrow> ('e + 'v) option \<times> 's) \<Rightarrow> ('s, 't, 'v) block_sender \<Rightarrow> 't option" where
  "block_now_or_never K nxt b = Option.bind (block_poll K nxt b) (\<lambda>(_, b). block_drop K nxt b)"

subsection \<open>Templates' values\<close>

type_synonym template_values = "(string \<times> json) list"

definition template_values_new :: template_values where
  "template_values_new = []"

definition as_json :: "template_values \<Rightarrow> json" where
  "as_json tv = JObject tv"

end
