(* ===== verification/SendingProps.thy ===== *)
theory SendingProps
  imports Sending ChannelPoll
begin

text \<open>
  What a \<open>BlockSender\<close> does to its target: \<open>room_sink\<close> is what a target promises (it is ready while it has room, and
  what is sent is appended), and a provider's channel is one.
\<close>

fun list_next :: "'a list \<Rightarrow> 'a option \<times> 'a list" where
  "list_next [] = (None, [])"
| "list_next (r # rs) = (Some r, rs)"

text \<open>What a sender has still to send, and the values of it before the first error.\<close>

definition pending_values :: "(('e + 'v) list, 't, 'v) block_sender \<Rightarrow> ('e + 'v) list" where
  "pending_values b = (case bs_next_value b of Some v \<Rightarrow> [Inr v] | None \<Rightarrow> []) @ bs_values b"

fun values_before_error :: "('e + 'v) list \<Rightarrow> 'v list" where
  "values_before_error (Inr v # rs) = v # values_before_error rs"
| "values_before_error _ = []"

lemma values_before_error_split:
  "\<exists>rest. rs = map Inr (values_before_error rs) @ rest \<and> (rest = [] \<or> (\<exists>e rest'. rest = Inl e # rest'))"
  by (induction rs rule: values_before_error.induct) auto

locale room_sink =
  fixes K :: "('t, 'v) sink" and sent :: "'t \<Rightarrow> 'v list" and room :: "'t \<Rightarrow> nat" and ok :: "'t \<Rightarrow> bool"
  assumes ready: "ok t \<Longrightarrow> fst (sk_ready K t) = (if room t = 0 then Pending else Ready (Inr ())) \<and>
      ok (snd (sk_ready K t)) \<and> sent (snd (sk_ready K t)) = sent t \<and> room (snd (sk_ready K t)) = room t"
    and send: "ok t \<Longrightarrow> 0 < room t \<Longrightarrow> fst (sk_send K (snd (sk_ready K t)) v) = Inr () \<and>
      ok (snd (sk_send K (snd (sk_ready K t)) v)) \<and> sent (snd (sk_send K (snd (sk_ready K t)) v)) = sent t @ [v] \<and>
      room (snd (sk_send K (snd (sk_ready K t)) v)) = room t - 1"
    and flush: "ok t \<Longrightarrow> \<not> fst (sk_flush K t) \<and> ok (snd (sk_flush K t)) \<and> sent (snd (sk_flush K t)) = sent t"
begin

lemma take_pending:
  "pending_values b = r # rs \<Longrightarrow>
     block_take list_next b = (Some r, b\<lparr>bs_next_value := None, bs_values := rs\<rparr>)"
  "pending_values b = [] \<Longrightarrow> block_take list_next b = (None, b)"
  by (cases b; auto simp: pending_values_def block_take_def split: option.splits)+

lemma flushed:
  assumes "ok (bs_tx b)"
  obtains b' where "block_flush K b = (False, b')" "sent (bs_tx b') = sent (bs_tx b)" "ok (bs_tx b')"
     "bs_values b' = bs_values b" "bs_next_value b' = bs_next_value b"
  using flush [OF assms] assms by (cases "bs_value_added b") (auto simp: block_flush_def case_prod_beta)

lemma sends_one:
  assumes "ok (bs_tx b)" "0 < room (bs_tx b)" "pending_values b = Inr v # rs"
  obtains b' where "block_step K list_next b = Inr b'" "ok (bs_tx b')" "sent (bs_tx b') = sent (bs_tx b) @ [v]"
    "room (bs_tx b') = room (bs_tx b) - 1" "pending_values b' = rs"
proof -
  let ?b = "b\<lparr>bs_next_value := None, bs_values := rs\<rparr>"
  obtain p t where t: "sk_ready K (bs_tx b) = (p, t)" by fastforce
  obtain r t' where t': "sk_send K t v = (r, t')" by fastforce
  show ?thesis
    by (rule that [of "?b\<lparr>bs_tx := t', bs_value_added := True\<rparr>"])
      (use take_pending(1) [OF assms(3)] ready [OF assms(1)] send [OF assms(1,2), of v] assms(2) t t' in
        \<open>simp_all add: block_step_def pending_values_def\<close>)
qed

lemma sends_values:
  assumes "ok (bs_tx b)" "length vs \<le> room (bs_tx b)" "pending_values b = map Inr vs @ rest"
  shows "\<exists>b'. block_poll K list_next b = block_poll K list_next b' \<and> ok (bs_tx b') \<and>
     sent (bs_tx b') = sent (bs_tx b) @ vs \<and> room (bs_tx b') = room (bs_tx b) - length vs \<and> pending_values b' = rest"
  using assms
proof (induction vs arbitrary: b)
  case Nil
  then show ?case by auto
next
  case (Cons v vs)
  then have "0 < room (bs_tx b)" "pending_values b = Inr v # (map Inr vs @ rest)" by simp_all
  from sends_one [OF Cons.prems(1) this] obtain b' where b': "block_step K list_next b = Inr b'" "ok (bs_tx b')"
    "sent (bs_tx b') = sent (bs_tx b) @ [v]" "room (bs_tx b') = room (bs_tx b) - 1" "pending_values b' = map Inr vs @ rest"
    by blast
  have "length vs \<le> room (bs_tx b')" using Cons.prems(2) b'(4) by simp
  from Cons.IH [OF b'(2) this b'(5)] b'(4) obtain b'' where
    "block_poll K list_next b' = block_poll K list_next b''" "ok (bs_tx b'')"
    "sent (bs_tx b'') = sent (bs_tx b') @ vs" "room (bs_tx b'') = room (bs_tx b') - length vs" "pending_values b'' = rest"
    by auto
  with b' show ?case by (auto simp: block_poll_def loop_run_again [where f = "block_step K list_next" and s = b])
qed

lemma poll_all:
  assumes "ok (bs_tx b)" "length vs \<le> room (bs_tx b)" "pending_values b = map Inr vs"
  shows "\<exists>b'. block_poll K list_next b = Some (Ready (Inr ()), b') \<and> ok (bs_tx b') \<and>
     sent (bs_tx b') = sent (bs_tx b) @ vs \<and> pending_values b' = []"
proof -
  from sends_values [OF assms(1,2), of "[]"] assms(3) obtain b' where b':
    "block_poll K list_next b = block_poll K list_next b'" "ok (bs_tx b')"
    "sent (bs_tx b') = sent (bs_tx b) @ vs" "pending_values b' = []" by auto
  from flushed [OF b'(2)] obtain b'' where b'': "block_flush K b' = (False, b'')"
    "sent (bs_tx b'') = sent (bs_tx b')" "ok (bs_tx b'')" "bs_values b'' = bs_values b'" "bs_next_value b'' = bs_next_value b'"
    by blast
  have "block_step K list_next b' = Inl (Ready (Inr ()), b'')"
    using take_pending(2) [OF b'(4)] b''(1) by (simp add: block_step_def block_end_def)
  with b' b'' show ?thesis by (simp add: block_poll_def loop_run_return pending_values_def)
qed

lemma poll_waits:
  assumes "ok (bs_tx b)" "length vs = room (bs_tx b)" "pending_values b = map Inr vs @ Inr v # rest"
  shows "\<exists>b'. block_poll K list_next b = Some (Pending, b') \<and> ok (bs_tx b') \<and>
     sent (bs_tx b') = sent (bs_tx b) @ vs \<and> pending_values b' = Inr v # rest"
proof -
  from sends_values [OF assms(1) _ assms(3)] assms(2) obtain b' where b':
    "block_poll K list_next b = block_poll K list_next b'" "ok (bs_tx b')"
    "sent (bs_tx b') = sent (bs_tx b) @ vs" "room (bs_tx b') = 0" "pending_values b' = Inr v # rest" by auto
  obtain p t where t: "sk_ready K (bs_tx b') = (p, t)" by fastforce
  have r: "p = Pending" "ok t" "sent t = sent (bs_tx b')"
    using ready [OF b'(2)] b'(4) t by simp_all
  have "block_step K list_next b' =
      Inl (Pending, b'\<lparr>bs_next_value := Some v, bs_values := rest, bs_tx := t\<rparr>)"
    using take_pending(1) [OF b'(5)] r(1) t by (simp add: block_step_def)
  with b' r show ?thesis by (simp add: block_poll_def loop_run_return pending_values_def)
qed

lemma poll_fails:
  assumes "ok (bs_tx b)" "length vs \<le> room (bs_tx b)" "pending_values b = map Inr vs @ Inl e # rest"
  shows "\<exists>b'. block_poll K list_next b = Some (Ready (Inl e), b') \<and> ok (bs_tx b') \<and>
     sent (bs_tx b') = sent (bs_tx b) @ vs \<and> pending_values b' = rest"
proof -
  from sends_values [OF assms] obtain b' where b':
    "block_poll K list_next b = block_poll K list_next b'" "ok (bs_tx b')"
    "sent (bs_tx b') = sent (bs_tx b) @ vs" "pending_values b' = Inl e # rest" by auto
  have "block_step K list_next b' = Inl (Ready (Inl e), b'\<lparr>bs_next_value := None, bs_values := rest\<rparr>)"
    using take_pending(1) [OF b'(4)] by (simp add: block_step_def)
  with b' show ?thesis by (simp add: block_poll_def loop_run_return pending_values_def)
qed

lemma poll_result:
  assumes "ok (bs_tx b)" "vs = values_before_error (pending_values b)"
  shows "\<exists>p b'. block_poll K list_next b = Some (p, b') \<and> ok (bs_tx b') \<and>
    sent (bs_tx b') = sent (bs_tx b) @ take (room (bs_tx b)) vs \<and>
    (if room (bs_tx b) < length vs then p = Pending \<and> pending_values b' = drop (room (bs_tx b)) (pending_values b)
     else case drop (length vs) (pending_values b) of
       [] \<Rightarrow> p = Ready (Inr ()) \<and> pending_values b' = []
     | r # rest \<Rightarrow> (\<exists>e. r = Inl e \<and> p = Ready (Inl e)) \<and> pending_values b' = rest)"
proof -
  obtain rest where rest: "pending_values b = map Inr vs @ rest" "rest = [] \<or> (\<exists>e rest'. rest = Inl e # rest')"
    using values_before_error_split [of "pending_values b"] assms(2) by blast
  show ?thesis
  proof (cases "room (bs_tx b) < length vs")
    case True
    let ?n = "room (bs_tx b)"
    have "pending_values b = map Inr (take ?n vs) @ Inr (vs ! ?n) # (map Inr (drop (Suc ?n) vs) @ rest)"
      using rest(1) True by (simp add: Cons_nth_drop_Suc flip: map_append list.map append_Cons)
    from poll_waits [OF assms(1) _ this] True show ?thesis
      by (auto simp: rest(1) Cons_nth_drop_Suc drop_map simp flip: list.map)
  next
    case False
    from rest(2) show ?thesis
    proof
      assume "rest = []"
      with poll_all [OF assms(1), of vs] False rest(1) show ?thesis by auto
    next
      assume "\<exists>e rest'. rest = Inl e # rest'"
      then obtain e rest' where "rest = Inl e # rest'" by blast
      with poll_fails [OF assms(1), of vs e rest'] False rest(1) show ?thesis by auto
    qed
  qed
qed

end

subsection \<open>A provider's channel\<close>

definition sender_ok :: "('ev \<Rightarrow> nat \<rightharpoonup> bool) \<Rightarrow> ('h, 'd, 'q, 'ev) handle \<Rightarrow> bool" where
  "sender_ok ls s \<longleftrightarrow> unique (fst s) = None \<and> \<not> no_receivers (fst s) \<and> live_listener ls (sender_events (fst s)) (snd s)"

definition sender_room ::
    "(json, 'h, 'd, 'q, 'ev) chan_ext \<Rightarrow> ('ev \<Rightarrow> nat \<rightharpoonup> bool) \<Rightarrow> ('h, 'd, 'q, 'ev) handle \<Rightarrow> nat" where
  "sender_room E ls s =
     (if asleep ls (sender_events (fst s)) (snd s) then 0 else chan_limit (fst s) - chan_len E (fst s))"


locale json_channel = chan_env E dset qs ls
  for E :: "(json, 'h, 'd, 'q, 'ev) chan_ext" and dset :: "'d \<Rightarrow> u64 set" and qs :: "'q \<Rightarrow> json list"
    and ls :: "'ev \<Rightarrow> nat \<rightharpoonup> bool"
begin

lemma poll_ready_keeps:
  assumes "poll_ready E (c, l) = Some (p, t)"
  shows "ch_limit (fst t) = ch_limit c \<and> unique (fst t) = unique c \<and> receiver_count (fst t) = receiver_count c"
proof -
  let ?same = "\<lambda>t. ch_limit (fst t) = ch_limit c \<and> unique (fst t) = unique c \<and> receiver_count (fst t) = receiver_count c"
  from assms have "(\<lambda>(p, t). ?same t) (p, t)"
    unfolding poll_ready_def
    by (rule loop_run_invariant [where P = ?same])
      (auto simp: poll_ready_iter_def poll_ready_room_def sender_listen_def case_prod_beta Let_def
        split: option.splits if_splits)
  then show ?thesis by simp
qed

lemma poll_ready_sleeps:
  assumes "\<not> no_receivers c" "ls (sender_events c) i = Some False" "poll_ready E (c, Some i) = Some (p, t)"
  shows "asleep ls (sender_events (fst t)) (snd t)"
  using assms ev_poll_waiting [OF assms(2)]
  by (auto simp: poll_ready_def poll_ready_iter_def case_prod_beta Let_def loop_run_return)

lemma sender_is_ready:
  assumes "sender_ok ls s"
  shows "fst (sk_ready (provider_sink E) s) = (if sender_room E ls s = 0 then Pending else Ready (Inr ())) \<and>
    sender_ok ls (snd (sk_ready (provider_sink E) s)) \<and>
    queue (fst (snd (sk_ready (provider_sink E) s))) = queue (fst s) \<and>
    sender_room E ls (snd (sk_ready (provider_sink E) s)) = sender_room E ls s \<and>
    (sender_room E ls s \<noteq> 0 \<longrightarrow> snd (snd (sk_ready (provider_sink E) s)) = None)"
proof -
  obtain c l where s: "s = (c, l)" by fastforce
  from assms have ok: "live_listener ls (sender_events c) l" "unique c = None" "\<not> no_receivers c"
    by (simp_all add: s sender_ok_def)
  from poll_ready_full [OF ok(1)] obtain p t where t: "poll_ready E (c, l) = Some (p, t)" "poll_ready_result (c, l) p t"
    by blast
  note keeps = poll_ready_keeps [OF t(1)]
  have sk: "sk_ready (provider_sink E) s = (poll_map drop_error p, t)" by (simp add: provider_sink_def s t(1))
  have "asleep ls (sender_events (fst t)) (snd t) \<Longrightarrow> live_listener ls (sender_events (fst t)) (snd t)"
    by (auto simp: asleep_def live_listener_def split: option.splits)
  moreover have "asleep ls (sender_events c) l \<Longrightarrow> asleep ls (sender_events (fst t)) (snd t)"
    using t(1) poll_ready_sleeps [OF ok(3)] by (cases l) auto
  ultimately show ?thesis
    unfolding sk using t(2) ok keeps
    by (auto simp: s poll_ready_result_def sender_ok_def sender_room_def poll_map_def drop_error_def live_listener_def
      chan_limit_def chan_len_def no_receivers_def split: if_splits)
qed

lemma sender_sends:
  assumes "unique c = None" "\<not> no_receivers c"
  shows "fst (sk_send (provider_sink E) (c, None) v) = Inr ()"
    "sender_ok ls (snd (sk_send (provider_sink E) (c, None) v))"
    "qs (queue (fst (snd (sk_send (provider_sink E) (c, None) v)))) = qs (queue c) @ [v]"
    "sender_room E ls (snd (sk_send (provider_sink E) (c, None) v)) = sender_room E ls (c, None) - 1"
  using assms
  by (simp_all add: provider_sink_def start_send_def force_send_def chan_send_def notify_receiver_def drop_error_def
      sender_ok_def sender_room_def no_receivers_def live_listener_def q_push q_len chan_len_def chan_limit_def Let_def)

lemma sender_is_sink: "room_sink (provider_sink E) (\<lambda>s. qs (queue (fst s))) (sender_room E ls) (sender_ok ls)"
proof
  fix s :: "('h, 'd, 'q, 'ev) handle" and v
  assume ok: "sender_ok ls s"
  note r = sender_is_ready [OF ok]
  from r show "fst (sk_ready (provider_sink E) s) = (if sender_room E ls s = 0 then Pending else Ready (Inr ())) \<and>
    sender_ok ls (snd (sk_ready (provider_sink E) s)) \<and>
    qs (queue (fst (snd (sk_ready (provider_sink E) s)))) = qs (queue (fst s)) \<and>
    sender_room E ls (snd (sk_ready (provider_sink E) s)) = sender_room E ls s" by simp
  show "\<not> fst (sk_flush (provider_sink E) s) \<and> sender_ok ls (snd (sk_flush (provider_sink E) s)) \<and>
    qs (queue (fst (snd (sk_flush (provider_sink E) s)))) = qs (queue (fst s))"
    using ok by (simp add: provider_sink_def poll_flush_def)
  assume room: "0 < sender_room E ls s"
  obtain c where c: "snd (sk_ready (provider_sink E) s) = (c, None)" using r room by (metis prod.collapse less_irrefl)
  have "unique c = None" "\<not> no_receivers c" using r c by (simp_all add: sender_ok_def)
  from sender_sends [OF this, of v] r c show
    "fst (sk_send (provider_sink E) (snd (sk_ready (provider_sink E) s)) v) = Inr () \<and>
     sender_ok ls (snd (sk_send (provider_sink E) (snd (sk_ready (provider_sink E) s)) v)) \<and>
     qs (queue (fst (snd (sk_send (provider_sink E) (snd (sk_ready (provider_sink E) s)) v)))) = qs (queue (fst s)) @ [v] \<and>
     sender_room E ls (snd (sk_send (provider_sink E) (snd (sk_ready (provider_sink E) s)) v)) = sender_room E ls s - 1"
    by simp
qed

end

sublocale json_channel \<subseteq> sender: room_sink "provider_sink E" "\<lambda>s. qs (queue (fst s))" "sender_room E ls" "sender_ok ls"
  by (rule sender_is_sink)

context json_channel begin

lemmas block_result = sender.poll_result

end

text \<open>The reference parts of a channel, for JSON values.\<close>

definition json_env :: "(json, u64, u64 list, json list, ref_event) chan_ext" where
  "json_env = \<lparr>
     to_writer = (\<lambda>_. []), hasher_write = pth_write, hasher_finish = pth_finish,
     ds_empty = [], ds_insert = (\<lambda>d w. (w \<notin> set d, List.insert w d)), ds_remove = (\<lambda>d w. removeAll w d),
     q_unbounded = [], q_push = (\<lambda>q x. q @ [x]),
     q_pop = (\<lambda>q. case q of [] \<Rightarrow> None | x # xs \<Rightarrow> Some (x, xs)), q_len = length,
     ev_new = [], ev_notify = ref_notify, ev_listen = (\<lambda>es. (length es, es @ [Some False])),
     ev_poll = ref_poll, ev_drop = ref_drop\<rparr>"

interpretation json_ref: json_channel json_env set "\<lambda>q. q" ref_listeners
  by unfold_locales
    (simp_all add: json_env_def ref_env_laws finite_dom_ref ref_listeners_Nil del: dom_eq_empty_conv)

text \<open>
  C4. A future that sends an endpoint's values to a provider sends them in order, each once. One poll on a channel that
  is not unique puts into its queue as many of the values as the channel has room for. It is done when there are no more
  and pending when there are, with the first of them kept for the next poll. An error among the values ends it when its
  turn comes, with the values before it sent.
\<close>

theorem block_sender_poll:
  assumes "json_channel E dset qs ls" "sender_ok ls (bs_tx b)"
    and "rs = pending_values b" "vs = values_before_error rs" "room = sender_room E ls (bs_tx b)"
  shows "\<exists>p b'. block_poll (provider_sink E) list_next b = Some (p, b') \<and> sender_ok ls (bs_tx b') \<and>
    qs (queue (fst (bs_tx b'))) = qs (queue (fst (bs_tx b))) @ take room vs \<and>
    (if room < length vs then p = Pending \<and> pending_values b' = drop room rs
     else case drop (length vs) rs of
       [] \<Rightarrow> p = Ready (Inr ()) \<and> pending_values b' = []
     | r # rest \<Rightarrow> (\<exists>e. r = Inl e \<and> p = Ready (Inl e)) \<and> pending_values b' = rest)"
  using json_channel.block_result [OF assms(1,2) assms(4) [unfolded assms(3)]] unfolding assms(3,5) by blast

theorem block_sender_poll_witness:
  "\<exists>b'. block_poll (provider_sink json_env) list_next
      (block_sender_new [Inr JNull, Inr (JBool True), Inl ''e'']
        (fst (channel_pair json_env 0 (limit_statik 1) False ''p''), None)) = Some (Pending, b') \<and>
    queue (fst (bs_tx b')) = [JNull] \<and> pending_values b' = [Inr (JBool True), Inl ''e'']"
proof -
  let ?c = "fst (channel_pair json_env 0 (limit_statik 1) False ''p'')"
  let ?b = "block_sender_new [Inr JNull, Inr (JBool True), Inl ''e''] (?c, None)"
  have ok: "sender_ok ref_listeners (bs_tx ?b)" "sender_room json_env ref_listeners (bs_tx ?b) = 1"
    by (simp_all add: block_sender_new_def channel_pair_def channel_new_def sender_ok_def sender_room_def live_listener_def
      no_receivers_def json_env_def chan_limit_def chan_len_def limit_statik_def)
  have "queue ?c = []" by (simp add: channel_pair_def channel_new_def json_env_def)
  with block_sender_poll [OF json_ref.json_channel_axioms ok(1) refl refl refl] ok(2) show ?thesis
    by (auto simp: pending_values_def block_sender_new_def)
qed

end
