(* ===== verification/Endpoint.thy ===== *)
theory Endpoint
  imports Sending LoadTest
begin

text \<open>
  An endpoint at work (\<open>src/request.rs\<close>): how \<open>EndpointBuilder::build\<close> makes it from the configuration and the
  providers and loggers of the test, what its stream of work is, and how many requests it makes at once. Channels and
  loggers are named, as in the configuration; a stream that \<open>build\<close> makes is described by where it comes from. \<open>None\<close>
  is a panic.
\<close>

subsection \<open>\<open>EndpointBuilder::build\<close>\<close>

datatype start_stream = StartPattern | StartOnce

datatype stream_source =
    FromStart start_stream
  | FromProvides "string list"                       \<comment> \<open>as long as one of the providers has a receiver\<close>
  | FromProvider string "send_options option"        \<comment> \<open>with the auto-return of its values\<close>
  | FromDeclare string value_or_expression

record built_endpoint =
  b_body :: body_template
  b_headers :: "(string \<times> template) list"
  b_max_parallel_requests :: "nat option"
  b_method :: http_method
  b_no_auto_returns :: bool
  b_on_demand_streams :: "string list"
  b_outgoing :: "string outgoing list"
  b_precheck_rr_providers :: u16
  b_provides :: "string outgoing list"
  b_rr_providers :: u16
  b_tags :: "(string \<times> template) list"
  b_streams :: "(bool \<times> stream_source) list"
  b_timeout :: duration
  b_url :: template

text \<open>The providers and loggers of the test: a provider by its auto-return option.\<close>

record builder_context =
  bc_request_timeout :: duration
  bc_providers :: "(string \<times> send_options option) list"
  bc_loggers :: "string list"

fun build_targets :: "(string \<Rightarrow> bool) \<Rightarrow> (string \<Rightarrow> string provider_or_logger) \<Rightarrow> (string \<times> select) list \<Rightarrow>
    string outgoing list option" where
  "build_targets known target [] = Some []"
| "build_targets known target ((k, s) # rest) =
     (if known k then map_option ((#) (outgoing_new s (target k))) (build_targets known target rest) else None)"

definition provider_streams :: "builder_context \<Rightarrow> bool \<Rightarrow> string list \<Rightarrow> (bool \<times> stream_source) list" where
  "provider_streams ctx no_auto_returns names =
     concat (map (\<lambda>name. case map_of (bc_providers ctx) name of
         None \<Rightarrow> []
       | Some ar \<Rightarrow> [(False, FromProvider name (if no_auto_returns then None else ar))]) names)"

definition start_streams :: "start_stream option \<Rightarrow> (string \<times> select) list \<Rightarrow> (bool \<times> stream_source) list" where
  "start_streams start provides =
     (case start of
        Some s \<Rightarrow> [(True, FromStart s)]
      | None \<Rightarrow> if provides \<noteq> [] then [(True, FromProvides (map fst provides))] else [])"

definition endpoint_build :: "endpoint \<Rightarrow> start_stream option \<Rightarrow> builder_context \<Rightarrow> built_endpoint option" where
  "endpoint_build e start ctx =
     (let known = (\<lambda>k. map_of (bc_providers ctx) k \<noteq> None) in
      Option.bind (build_targets known ToProvider (e_provides e)) (\<lambda>provides.
      map_option (\<lambda>outgoing.
        \<lparr>b_body = e_body e, b_headers = e_headers e, b_max_parallel_requests = e_max_parallel_requests e,
         b_method = e_method e, b_no_auto_returns = e_no_auto_returns e,
         b_on_demand_streams = (if e_on_demand e then map fst (e_provides e) else []),
         b_outgoing = outgoing, b_precheck_rr_providers = rp_where_special (e_providers_to_stream e),
         b_provides = provides, b_rr_providers = rp_special (e_providers_to_stream e), b_tags = e_tags e,
         b_streams = start_streams start (e_provides e) @
           provider_streams ctx (e_no_auto_returns e) (unique_providers (e_providers_to_stream e)) @
           map (\<lambda>(name, v). (False, FromDeclare name v)) (e_declare e),
         b_timeout = (case e_request_timeout e of Some t \<Rightarrow> t | None \<Rightarrow> bc_request_timeout ctx),
         b_url = e_url e\<rparr>)
        (build_targets (\<lambda>k. k \<in> set (bc_loggers ctx)) ToLogger (e_logs e))))"

definition clear_provides :: "built_endpoint \<Rightarrow> built_endpoint" where
  "clear_provides b = b\<lparr>b_provides := []\<rparr>"

definition add_start_stream :: "start_stream \<Rightarrow> built_endpoint \<Rightarrow> built_endpoint" where
  "add_start_stream s b =
     (case b_streams b of
        (True, _) # rest \<Rightarrow> b\<lparr>b_streams := (True, FromStart s) # rest\<rparr>
      | streams \<Rightarrow> b\<lparr>b_streams := streams @ [(True, FromStart s)]\<rparr>)"

text \<open>What the streams give for a request.\<close>

datatype stream_item =
    InstantItem "instant option"
  | DeclareItem string json "auto_return list" instant
  | NoneItem
  | TemplateValueItem string json "auto_return option" instant

definition provides_poll :: "(string \<Rightarrow> bool) \<Rightarrow> string list \<Rightarrow> (test_error + stream_item) option poll" where
  "provides_poll no_receiver names = (if list_all no_receiver names then Ready None else Ready (Some (Inr NoneItem)))"

definition provider_item :: "string \<Rightarrow> send_options option \<Rightarrow> json \<Rightarrow> instant \<Rightarrow> test_error + stream_item" where
  "provider_item name ar v now =
     Inr (TemplateValueItem name v (map_option (\<lambda>send_option. auto_return_new send_option name [v]) ar) now)"

definition declare_item :: "string \<Rightarrow> exec_error + (json \<times> auto_return list) \<Rightarrow> instant \<Rightarrow> test_error + stream_item" where
  "declare_item name r now =
     (case r of Inl e \<Rightarrow> Inl (test_error_of_exec e) | Inr (v, returns) \<Rightarrow> Inr (DeclareItem name v returns now))"

subsection \<open>Work on demand\<close>

text \<open>
  With \<open>on_demand\<close> and providers to feed, a demand lets one poll of the zipped streams through until it has been ready.
  \<open>od_continue\<close>, the streams of demands and the zipped streams are the state.
\<close>

definition gate_through :: "('z \<Rightarrow> 'i option poll \<times> 'z) \<Rightarrow> 'o \<Rightarrow> 'z \<Rightarrow> 'i option poll \<times> bool \<times> 'o \<times> 'z" where
  "gate_through pz od z = (case pz z of (Ready r, z') \<Rightarrow> (Ready r, False, od, z') | (Pending, z') \<Rightarrow> (Pending, True, od, z'))"

definition on_demand_gate ::
    "('o \<Rightarrow> 'u option poll \<times> 'o) \<Rightarrow> ('z \<Rightarrow> 'i option poll \<times> 'z) \<Rightarrow> bool \<times> 'o \<times> 'z \<Rightarrow> 'i option poll \<times> bool \<times> 'o \<times> 'z" where
  "on_demand_gate po pz = (\<lambda>(od_continue, od, z).
     case po od of (p, od') \<Rightarrow>
       if od_continue then gate_through pz od' z
       else (case p of
               Ready (Some _) \<Rightarrow> gate_through pz od' z
             | Ready None \<Rightarrow> (Ready None, False, od', z)
             | Pending \<Rightarrow> (Pending, False, od', z)))"

definition is_gated :: "built_endpoint \<Rightarrow> bool" where
  "is_gated b \<longleftrightarrow> b_on_demand_streams b \<noteq> [] \<and> b_provides b \<noteq> []"

definition all_outgoing :: "built_endpoint \<Rightarrow> string outgoing list" where
  "all_outgoing b = b_outgoing b @ b_provides b"

definition blocking_outgoing :: "built_endpoint \<Rightarrow> string list" where
  "blocking_outgoing b =
     concat (map (\<lambda>o'. case og_tx o' of
         ToProvider tx \<Rightarrow> if is_block (get_send_behavior (og_select o')) then [tx] else []
       | ToLogger _ \<Rightarrow> []) (all_outgoing b))"

subsection \<open>How many requests at once\<close>

text \<open>
  The channels an endpoint blocks on, each by its length and limit, give the largest number of empty slots, whether one
  is empty and whether all are full.
\<close>

definition slots :: "(nat \<times> nat) list \<Rightarrow> nat \<times> bool \<times> bool" where
  "slots chans = fold (\<lambda>(count, limit) (empty_slots, has_empty, all_full).
     (max empty_slots (limit - count), has_empty \<or> count = 0, all_full \<and> count = limit)) chans (0, False, True)"

record limit_state =
  li_multiplier :: nat
  li_all_full_count :: nat

definition limit_start :: limit_state where
  "limit_start = \<lparr>li_multiplier = 1, li_all_full_count = 0\<rparr>"

definition limit_update :: "nat \<times> bool \<times> bool \<Rightarrow> nat \<Rightarrow> limit_state \<Rightarrow> limit_state" where
  "limit_update s in_progress st =
     (case s of (empty_slots, has_empty, all_full) \<Rightarrow>
        let st = (if all_full
                  then if li_all_full_count st < li_multiplier st then st\<lparr>li_all_full_count := li_all_full_count st + 1\<rparr> else st
                  else st\<lparr>li_all_full_count := 0\<rparr>) in
        if has_empty \<and> li_multiplier st < 10 \<and> in_progress = empty_slots * li_multiplier st
        then st\<lparr>li_multiplier := li_multiplier st + 1\<rparr>
        else if li_all_full_count st = li_multiplier st \<and> 1 < li_multiplier st
        then st\<lparr>li_multiplier := li_multiplier st - 1, li_all_full_count := 0\<rparr>
        else st)"

definition blocking_limit :: "nat option \<Rightarrow> (nat \<times> nat) list \<Rightarrow> nat \<Rightarrow> limit_state \<Rightarrow> nat \<times> limit_state" where
  "blocking_limit max_parallel chans in_progress st =
     (let s = slots chans; st = limit_update s in_progress st; n = max (fst s) 1 * li_multiplier st in
      (case max_parallel of Some m \<Rightarrow> min m n | None \<Rightarrow> n, st))"

text \<open>The limit \<open>ForEachParallel\<close> is given: none, a constant, or the adaptive one of an endpoint that blocks.\<close>

definition limit_fn ::
    "nat option \<Rightarrow> string list \<Rightarrow> (string \<Rightarrow> nat \<times> nat) \<Rightarrow> (nat \<Rightarrow> limit_state \<Rightarrow> nat \<times> limit_state) option" where
  "limit_fn max_parallel blocking chan =
     (if blocking \<noteq> [] then Some (blocking_limit max_parallel (map chan blocking))
      else map_option (\<lambda>n _ st. (n, st)) max_parallel)"

end
