(* ===== verification/EndpointProps.thy ===== *)
theory EndpointProps
  imports Endpoint
begin

text \<open>
  The adaptive limit of an endpoint that blocks stays within its bounds, and an endpoint on demand makes no request
  without a demand for it.
\<close>

subsection \<open>The adaptive limit\<close>

definition limit_inv :: "limit_state \<Rightarrow> bool" where
  "limit_inv st \<longleftrightarrow> 1 \<le> li_multiplier st \<and> li_multiplier st \<le> 10 \<and> li_all_full_count st \<le> li_multiplier st"

lemma limit_start_inv: "limit_inv limit_start"
  by (simp add: limit_inv_def limit_start_def)

lemma limit_update_inv: "limit_inv st \<Longrightarrow> limit_inv (limit_update s n st)"
  by (cases s) (auto simp: limit_inv_def limit_update_def Let_def)

fun limit_calls :: "nat option \<Rightarrow> ((nat \<times> nat) list \<times> nat) list \<Rightarrow> limit_state \<Rightarrow> limit_state" where
  "limit_calls max_parallel [] st = st"
| "limit_calls max_parallel ((chans, n) # cs) st =
     limit_calls max_parallel cs (snd (blocking_limit max_parallel chans n st))"

lemma limit_calls_inv: "limit_inv st \<Longrightarrow> limit_inv (limit_calls max_parallel cs st)"
  by (induction max_parallel cs st rule: limit_calls.induct)
    (auto simp: blocking_limit_def Let_def limit_update_inv split: prod.split)

lemma slots_fold_le:
  fixes b :: nat
  shows "m \<le> b \<Longrightarrow> \<forall>(c, l) \<in> set chans. l \<le> b \<Longrightarrow>
     fst (fold (\<lambda>(count, limit) (empty_slots, has_empty, all_full).
       (max empty_slots (limit - count), has_empty \<or> count = 0, all_full \<and> count = limit)) chans (m, e, f)) \<le> b"
proof (induction chans arbitrary: m e f)
  case (Cons cl chans)
  obtain c l where cl: "cl = (c, l)" by fastforce
  have "max m (l - c) \<le> b" "\<forall>(c, l) \<in> set chans. l \<le> b"
    using Cons.prems by (auto simp: cl)
  from Cons.IH [OF this] show ?case by (simp add: cl)
qed simp

lemma slots_bound: "\<forall>(c, l) \<in> set chans. l \<le> b \<Longrightarrow> fst (slots chans) \<le> b"
  unfolding slots_def by (rule slots_fold_le) simp_all

text \<open>
  C19. However often it is asked and whatever the channels hold, the limit of an endpoint that blocks on its providers
  lets at least one request run, never more than \<open>max_parallel_requests\<close>, and at most ten times the largest limit of a
  provider (ten, with providers of limit zero). The multiplier stays between one and ten, so its byte never wraps.
\<close>

theorem adaptive_limit_bounds:
  assumes "st = limit_calls max_parallel cs limit_start" "max_parallel \<noteq> Some 0"
    and "\<forall>(c, l) \<in> set chans. l \<le> b" "blocking_limit max_parallel chans in_progress st = (n, st')"
  shows "1 \<le> n \<and> n \<le> 10 * max b 1 \<and> (\<forall>m. max_parallel = Some m \<longrightarrow> n \<le> m) \<and>
    1 \<le> li_multiplier st' \<and> li_multiplier st' \<le> 10 \<and> li_all_full_count st' \<le> 10"
proof -
  have "limit_inv st" unfolding assms(1) by (rule limit_calls_inv [OF limit_start_inv])
  then have inv: "limit_inv (limit_update (slots chans) in_progress st)" by (rule limit_update_inv)
  have st': "st' = limit_update (slots chans) in_progress st"
    and n: "n = (case max_parallel of Some m \<Rightarrow> min m (max (fst (slots chans)) 1 * li_multiplier st')
      | None \<Rightarrow> max (fst (slots chans)) 1 * li_multiplier st')"
    using assms(4) by (auto simp: blocking_limit_def Let_def split: option.splits)
  have "max (fst (slots chans)) 1 * li_multiplier st' \<le> max b 1 * 10"
    using inv slots_bound [OF assms(3)] unfolding st' limit_inv_def by (intro mult_le_mono) auto
  moreover have "1 \<le> max (fst (slots chans)) 1 * li_multiplier st'"
    using inv unfolding st' limit_inv_def by (simp add: Suc_leI)
  ultimately show ?thesis
    using inv assms(2) unfolding st' [symmetric] limit_inv_def n by (auto split: option.split)
qed

theorem adaptive_limit_bounds_witness:
  "fst (blocking_limit (Some 3) [(0, 5)] 5 (limit_calls (Some 3) [([(0, 5)], 5)] limit_start)) \<le> 3"
  using adaptive_limit_bounds [of _ "Some 3" "[([(0, 5)], 5)]" "[(0, 5)]" 5 5, OF refl _ _ prod.collapse [symmetric]]
  by simp

subsection \<open>Work on demand\<close>

fun gate_polls ::
    "('o \<Rightarrow> 'u option poll \<times> 'o) \<Rightarrow> ('z \<Rightarrow> 'i option poll \<times> 'z) \<Rightarrow> nat \<Rightarrow> bool \<times> 'o \<times> 'z \<Rightarrow> 'i option poll list" where
  "gate_polls po pz 0 s = []"
| "gate_polls po pz (Suc n) s = (let (p, s) = on_demand_gate po pz s in p # gate_polls po pz n s)"

fun polls_of :: "('o \<Rightarrow> 'p \<times> 'o) \<Rightarrow> nat \<Rightarrow> 'o \<Rightarrow> 'p list" where
  "polls_of po 0 s = []"
| "polls_of po (Suc n) s = (let (p, s) = po s in p # polls_of po n s)"

definition items_in :: "'i option poll list \<Rightarrow> nat" where
  "items_in ps = length (filter (\<lambda>p. \<exists>i. p = Ready (Some i)) ps)"

lemma gate_through_items:
  "gate_through pz od z = (q, c', od', z') \<Longrightarrow> od' = od \<and> items_in [q] + (if c' then 1 else 0) \<le> 1"
  by (auto simp: gate_through_def items_in_def split: prod.splits poll.splits)

lemma gate_items:
  "items_in (gate_polls po pz n (c, od, z)) \<le> items_in (polls_of po n od) + (if c then 1 else 0)"
proof (induction n arbitrary: c od z)
  case 0
  then show ?case by (simp add: items_in_def)
next
  case (Suc n)
  obtain p od' where p: "po od = (p, od')" by fastforce
  obtain q c' od'' z' where gate: "on_demand_gate po pz (c, od, z) = (q, c', od'', z')" by (metis surj_pair)
  have "od'' = od' \<and> items_in [q] + (if c' then 1 else 0) \<le> items_in [p] + (if c then 1 else 0)"
  proof (cases "c \<or> (\<exists>u. p = Ready (Some u))")
    case True
    then have "gate_through pz od' z = (q, c', od'', z')" "1 \<le> items_in [p] + (if c then 1 else 0)"
      using gate p by (auto simp: on_demand_gate_def items_in_def split: if_splits)
    with gate_through_items [of pz od' z] show ?thesis by fastforce
  next
    case False
    then have "od'' = od'" "\<not> c'" "items_in [q] = 0"
      using gate p by (auto simp: on_demand_gate_def items_in_def split: poll.splits option.splits)
    then show ?thesis by simp
  qed
  moreover have "items_in (gate_polls po pz (Suc n) (c, od, z)) = items_in [q] + items_in (gate_polls po pz n (c', od'', z'))"
    "items_in (polls_of po (Suc n) od) = items_in [p] + items_in (polls_of po n od')"
    by (simp_all add: gate p items_in_def)
  ultimately show ?case using Suc.IH [of c' od' z'] by simp
qed

text \<open>
  C40. An endpoint on demand starts no more requests than its providers' receivers have asked for: after any number of
  polls of its stream the items passed on to requests are at most the demands seen. Demands that come while one is
  served are not kept.
\<close>

theorem on_demand_gate_safe:
  "items_in (gate_polls po pz n (False, od, z)) \<le> items_in (polls_of po n od)"
  using gate_items [of po pz n False od z] by simp

end
