(* ===== verification/RequestBody.thy ===== *)
theory RequestBody
  imports Sending FileIo Config
begin

text \<open>
  The body of a request (\<open>src/request.rs\<close>): \<open>multipart_body_as_hyper_body\<close>, \<open>create_file_hyper_body\<close> and
  \<open>body_template_as_hyper_body\<close>, with \<open>tweak_path\<close> of \<open>src/util.rs\<close>. The names and values of headers that the \<open>http\<close>
  crate accepts are parameters (\<open>http_ext\<close>), and so is the random boundary. A body is the list of what its stream
  gives, with the content length that is announced. Files are opened by name; the metadata of an open file is its
  length, which need not be the length of what is read.
\<close>

subsection \<open>\<open>tweak_path\<close>\<close>

text \<open>
  \<open>Path::with_file_name\<close> on Unix. Paths are read from their end: separators and \<open>.\<close> components there do not count.
\<close>

fun drop_seps :: "string \<Rightarrow> string" where
  "drop_seps (CHR 0x2F # r) = drop_seps r"
| "drop_seps (CHR 0x2E # CHR 0x2F # r) = drop_seps r"
| "drop_seps r = r"

definition path_is_absolute :: "string \<Rightarrow> bool" where
  "path_is_absolute p \<longleftrightarrow> p \<noteq> [] \<and> hd p = CHR 0x2F"

definition path_file_name :: "string \<Rightarrow> string option" where
  "path_file_name p =
     (let name = rev (takeWhile (\<lambda>c. c \<noteq> CHR 0x2F) (drop_seps (rev p)))
      in if name = [] \<or> name = ''.'' \<or> name = ''..'' then None else Some name)"

definition path_parent :: "string \<Rightarrow> string" where
  "path_parent p =
     (let parent = rev (drop_seps (dropWhile (\<lambda>c. c \<noteq> CHR 0x2F) (drop_seps (rev p))))
      in if parent = [] \<and> path_is_absolute p then ''/'' else parent)"

definition path_push :: "string \<Rightarrow> string \<Rightarrow> string" where
  "path_push p name =
     (if path_is_absolute name then name
      else if p = [] \<or> last p = CHR 0x2F then p @ name else p @ ''/'' @ name)"

definition tweak_path :: "string \<Rightarrow> string \<Rightarrow> string" where
  "tweak_path rest base = path_push (if path_file_name base = None then base else path_parent base) rest"

subsection \<open>Headers\<close>

record http_ext =
  h_name :: "string \<Rightarrow> string + string"         \<comment> \<open>\<open>HeaderName::from_bytes\<close>, the name in lower case\<close>
  h_value :: "string \<Rightarrow> string + string"        \<comment> \<open>\<open>HeaderValue::from_str\<close>\<close>
  h_to_str :: "string \<Rightarrow> string + string"       \<comment> \<open>\<open>HeaderValue::to_str\<close>\<close>

type_synonym header_map = "(string \<times> string) list"

text \<open>A header map keeps several values of a name; what writes through an entry changes the first.\<close>

fun headers_set_first :: "string \<Rightarrow> string \<Rightarrow> header_map \<Rightarrow> header_map" where
  "headers_set_first k v [] = [(k, v)]"
| "headers_set_first k v ((k', v') # hs) = (if k' = k then (k, v) # hs else (k', v') # headers_set_first k v hs)"

definition headers_insert :: "string \<Rightarrow> string \<Rightarrow> header_map \<Rightarrow> header_map" where
  "headers_insert k v hs = filter (\<lambda>(k', _). k' \<noteq> k) hs @ [(k, v)]"

definition body_err :: "string \<Rightarrow> test_error" where
  "body_err e = Recoverable (BodyErr e)"

definition or_body_err :: "(string + 'a) \<Rightarrow> test_error + 'a" where
  "or_body_err r = (case r of Inl e \<Rightarrow> Inl (body_err e) | Inr a \<Rightarrow> Inr a)"

definition or_exec_err :: "(exec_error + 'a) \<Rightarrow> test_error + 'a" where
  "or_exec_err r = (case r of Inl e \<Rightarrow> Inl (test_error_of_exec e) | Inr a \<Rightarrow> Inr a)"

definition crlf :: string where
  "crlf = [CHR 0x0D, CHR 0x0A]"

definition starts_with :: "string \<Rightarrow> string \<Rightarrow> bool" where
  "starts_with pre s \<longleftrightarrow> take (length pre) s = pre"

definition multipart_content_type :: "http_ext \<Rightarrow> string \<Rightarrow> header_map \<Rightarrow> test_error + bool \<times> header_map" where
  "multipart_content_type H boundary headers =
     (let content_type = (case map_of headers ''content-type'' of Some v \<Rightarrow> v | None \<Rightarrow> ''multipart/form-data'') in
      res_bind (or_body_err (h_to_str H content_type)) (\<lambda>ct_str.
      if starts_with ''multipart/'' ct_str
      then res_map (\<lambda>v. (starts_with ''multipart/form-data'' ct_str, headers_set_first ''content-type'' v headers))
             (or_body_err (h_value H (ct_str @ '';boundary='' @ boundary)))
      else res_map (\<lambda>v. (True, headers_set_first ''content-type'' v headers))
             (or_body_err (h_value H (''multipart/form-data;boundary='' @ boundary)))))"

subsection \<open>Multipart bodies\<close>

definition closing_boundary :: "string \<Rightarrow> string" where
  "closing_boundary boundary = crlf @ ''--'' @ boundary @ ''--'' @ crlf"

definition piece_header ::
    "expr_ext \<Rightarrow> http_ext \<Rightarrow> template_values \<Rightarrow> string \<times> template \<Rightarrow> test_error + string \<times> string" where
  "piece_header X H tv = (\<lambda>(k, t).
     res_bind (or_body_err (h_name H k)) (\<lambda>key.
     res_bind (or_exec_err (evaluate_template X t (Borrowed (as_json tv)) None)) (\<lambda>value.
     res_map (\<lambda>value. (key, value)) (or_body_err (h_value H value)))))"

definition header_line :: "string \<times> string \<Rightarrow> string" where
  "header_line = (\<lambda>(k, v). crlf @ k @ '': '' @ v)"

definition disposition_text :: "multipart_piece \<Rightarrow> string \<Rightarrow> string" where
  "disposition_text mp body =
     ''form-data; name='' @ [CHR 0x22] @ mp_name mp @ [CHR 0x22] @
     (if mp_is_file mp then ''; filename='' @ [CHR 0x22] @ body @ [CHR 0x22] else [])"

definition piece_disposition ::
    "http_ext \<Rightarrow> bool \<Rightarrow> multipart_piece \<Rightarrow> (string \<times> string) list \<Rightarrow> string \<Rightarrow> test_error + (string \<times> string) list" where
  "piece_disposition H is_form mp headers body =
     (if is_form \<and> (\<forall>(k, _) \<in> set headers. k \<noteq> ''content-disposition'')
      then res_map (\<lambda>v. headers @ [(''content-disposition'', v)]) (or_body_err (h_value H (disposition_text mp body)))
      else Inr headers)"

text \<open>A piece: what comes before its content, and the text of its template, the content or the name of a file.\<close>

definition multipart_piece_data ::
    "expr_ext \<Rightarrow> http_ext \<Rightarrow> template_values \<Rightarrow> bool \<Rightarrow> string \<Rightarrow> nat \<times> multipart_piece \<Rightarrow> test_error + (string \<times> string)" where
  "multipart_piece_data X H tv is_form boundary = (\<lambda>(i, mp).
     res_bind (or_exec_err (evaluate_template X (mp_template mp) (Borrowed (as_json tv)) None)) (\<lambda>body.
     res_bind (collect_res (map (piece_header X H tv) (mp_headers mp))) (\<lambda>headers.
     res_map (\<lambda>headers. ((if i = 0 then ''--'' else crlf @ ''--'') @ boundary @ concat (map header_line headers) @ crlf @ crlf, body))
       (piece_disposition H is_form mp headers body))))"

definition piece_copy :: "multipart_piece \<Rightarrow> string \<times> string \<Rightarrow> string" where
  "piece_copy mp = (\<lambda>(data, body).
     if mp_is_file mp then data @ ''<<contents of file: '' @ body @ ''>>'' else data @ body)"

text \<open>
  What a body's stream gives: bytes, or the chunks of a file, read as they are sent; a read that fails is the last item.
\<close>

type_synonym body_stream = "(io_error + string) list"

definition file_chunk :: "os_file \<Rightarrow> (io_error + string) option \<times> os_file" where
  "file_chunk f =
     (case file_read 8192 f of
        (Inl e, f') \<Rightarrow> (Some (Inl e), f')
      | (Inr bs, f') \<Rightarrow> if bs = [] then (None, f') else (Some (Inr bs), f'))"

fun file_chunks :: "nat \<Rightarrow> os_file \<Rightarrow> body_stream" where
  "file_chunks 0 f = []"
| "file_chunks (Suc n) f =
     (case file_chunk f of
        (None, f') \<Rightarrow> []
      | (Some (Inl e), f') \<Rightarrow> [Inl e]
      | (Some (Inr bs), f') \<Rightarrow> Inr bs # file_chunks n f')"

text \<open>An open file with the length its metadata gives; either can fail.\<close>

type_synonym file_system = "string \<Rightarrow> io_error + (os_file \<times> (io_error + nat))"

definition create_file_hyper_body :: "file_system \<Rightarrow> string \<Rightarrow> test_error + (nat \<times> body_stream)" where
  "create_file_hyper_body fs filename =
     (case fs filename of
        Inl e \<Rightarrow> Inl (FileReading filename (io_error_text e))
      | Inr (f, Inl e) \<Rightarrow> Inl (FileReading filename (io_error_text e))
      | Inr (f, Inr len) \<Rightarrow> Inr (len, file_chunks (Suc (length (file_rest f))) f))"

definition piece_stream :: "file_system \<Rightarrow> string \<Rightarrow> multipart_piece \<Rightarrow> string \<times> string \<Rightarrow> test_error + (nat \<times> body_stream)" where
  "piece_stream fs path mp = (\<lambda>(data, body).
     if mp_is_file mp
     then res_map (\<lambda>(bytes, chunks). (bytes + length data, Inr data # chunks)) (create_file_hyper_body fs (tweak_path body path))
     else Inr (length (data @ body), [Inr (data @ body)]))"

text \<open>
  The headers with the content type, the copy of the body for \<open>request.body\<close> and, once the files are open, the length
  and the stream. \<open>to_text\<close> is \<open>String::from_utf8_lossy\<close>.
\<close>

definition multipart_body_as_hyper_body ::
    "expr_ext \<Rightarrow> http_ext \<Rightarrow> (string \<Rightarrow> string) \<Rightarrow> file_system \<Rightarrow> string \<Rightarrow> string \<Rightarrow> multipart_piece list \<Rightarrow>
     template_values \<Rightarrow> bool \<Rightarrow> header_map \<Rightarrow>
     test_error + header_map \<times> string option \<times> (test_error + nat \<times> body_stream)" where
  "multipart_body_as_hyper_body X H to_text fs boundary path parts tv copy_body_value headers =
     res_bind (multipart_content_type H boundary headers) (\<lambda>(is_form, headers).
     res_map (\<lambda>datas.
         (headers,
          if copy_body_value
          then Some (to_text (concat (map2 piece_copy parts datas) @ closing_boundary boundary)) else None,
          res_map (\<lambda>results.
              (length (closing_boundary boundary) + sum_list (map fst results),
               concat (map snd results) @ [Inr (closing_boundary boundary)]))
            (collect_res (map2 (piece_stream fs path) parts datas))))
       (collect_res (map (multipart_piece_data X H tv is_form boundary) (enumerate 0 parts))))"

subsection \<open>\<open>body_template_as_hyper_body\<close>\<close>

text \<open>The headers, the copy of the body, and the length and the stream of the body.\<close>

definition body_template_as_hyper_body ::
    "expr_ext \<Rightarrow> http_ext \<Rightarrow> (string \<Rightarrow> string) \<Rightarrow> file_system \<Rightarrow> string \<Rightarrow> body_template \<Rightarrow> template_values \<Rightarrow> bool \<Rightarrow>
     header_map \<Rightarrow> header_map \<times> string option \<times> (test_error + nat \<times> body_stream)" where
  "body_template_as_hyper_body X H to_text fs boundary body tv copy_body_value headers =
     (let text = (\<lambda>t. or_exec_err (evaluate_template X t (Borrowed (as_json tv)) None)) in
      case body of
        TemplateMultipart path parts \<Rightarrow>
          (case multipart_body_as_hyper_body X H to_text fs boundary path parts tv copy_body_value headers of
             Inl e \<Rightarrow> (headers, None, Inl e)
           | Inr r \<Rightarrow> r)
      | TemplateNone \<Rightarrow> (headers, None, Inr (0, []))
      | TemplateString t \<Rightarrow>
          (case text t of
             Inl e \<Rightarrow> (headers, None, Inl e)
           | Inr body \<Rightarrow> (headers, if copy_body_value then Some body else None, Inr (length body, [Inr body])))
      | TemplateFile path t \<Rightarrow>
          (case text t of
             Inl e \<Rightarrow> (headers, None, Inl e)
           | Inr body \<Rightarrow>
               (let body = tweak_path body path in
                (headers, if copy_body_value then Some (''<<contents of file: '' @ body @ ''>>'') else None,
                 create_file_hyper_body fs body))))"

end
