(* ===== verification/RequestBodyProps.thy ===== *)
theory RequestBodyProps
  imports RequestBody
begin

text \<open>
  The content length of a body is the number of its bytes, and a multipart body is read back as its pieces by a parser
  of the format.
\<close>

subsection \<open>Files\<close>

lemma file_chunks_rest:
  "no_errors f \<Longrightarrow> length (file_rest f) < n \<Longrightarrow>
     \<exists>cs. file_chunks n f = map Inr cs \<and> concat cs = file_rest f"
proof (induction n arbitrary: f)
  case (Suc n)
  obtain bs f' where r: "file_read 8192 f = (Inr bs, f')" "no_errors f'"
    using file_read_no_errors [OF Suc.prems(1)] by metis
  note ok = file_read_ok [OF r(1)]
  show ?case
  proof (cases "bs = []")
    case True
    with ok(4) show ?thesis by (auto simp: file_chunk_def r(1))
  next
    case False
    then have "length (file_rest f') < n" using ok(2) Suc.prems(2) by (cases bs) auto
    from Suc.IH [OF r(2) this] obtain cs where "file_chunks n f' = map Inr cs" "concat cs = file_rest f'" by blast
    with False ok(2) show ?thesis by (intro exI [of _ "bs # cs"]) (simp add: file_chunk_def r(1))
  qed
qed simp

text \<open>A file system whose files can be read to their end and are as long as their metadata says.\<close>

definition fs_ok :: "file_system \<Rightarrow> bool" where
  "fs_ok fs \<longleftrightarrow> (\<forall>name f len. fs name = Inr (f, Inr len) \<longrightarrow> no_errors f \<and> len = length (file_rest f))"

definition file_content :: "file_system \<Rightarrow> string \<Rightarrow> string" where
  "file_content fs name = (case fs name of Inr (f, _) \<Rightarrow> file_rest f | Inl _ \<Rightarrow> [])"

lemma create_file_bytes:
  assumes "fs_ok fs" "create_file_hyper_body fs name = Inr (len, stream)"
  shows "\<exists>cs. stream = map Inr cs \<and> concat cs = file_content fs name \<and> len = length (concat cs)"
proof -
  from assms(2) obtain f where f: "fs name = Inr (f, Inr len)" "stream = file_chunks (Suc (length (file_rest f))) f"
    by (auto simp: create_file_hyper_body_def split: sum.splits)
  with assms(1) have "no_errors f" "len = length (file_rest f)" by (auto simp: fs_ok_def)
  with file_chunks_rest [OF this(1), of "Suc (length (file_rest f))"] f show ?thesis
    by (auto simp: file_content_def simp del: file_chunks.simps)
qed

subsection \<open>The content length\<close>

definition piece_content :: "file_system \<Rightarrow> string \<Rightarrow> multipart_piece \<Rightarrow> string \<Rightarrow> string" where
  "piece_content fs path mp body = (if mp_is_file mp then file_content fs (tweak_path body path) else body)"

lemma piece_stream_bytes:
  assumes "fs_ok fs" "piece_stream fs path mp (data, body) = Inr (len, stream)"
  shows "\<exists>cs. stream = map Inr cs \<and> concat cs = data @ piece_content fs path mp body \<and> len = length (concat cs)"
proof (cases "mp_is_file mp")
  case True
  with assms(2) obtain n chunks where "create_file_hyper_body fs (tweak_path body path) = Inr (n, chunks)"
    "len = n + length data" "stream = Inr data # chunks"
    by (auto simp: piece_stream_def res_map_eq_Inr)
  moreover from create_file_bytes [OF assms(1) this(1)] obtain cs where
    "chunks = map Inr cs" "concat cs = file_content fs (tweak_path body path)" "n = length (concat cs)" by blast
  ultimately show ?thesis using True by (intro exI [of _ "data # cs"]) (simp add: piece_content_def)
next
  case False
  with assms(2) show ?thesis by (auto simp: piece_stream_def piece_content_def intro!: exI [of _ "[data @ body]"])
qed

lemma pieces_bytes:
  assumes "fs_ok fs" "collect_res (map2 (piece_stream fs path) ps datas) = Inr results"
  shows "\<exists>cs. concat (map snd results) = map Inr cs \<and> sum_list (map fst results) = length (concat cs) \<and>
    concat cs = concat (map2 (\<lambda>mp (data, body). data @ piece_content fs path mp body) ps datas)"
  using assms(2)
proof (induction ps datas arbitrary: results rule: list_induct2')
  case (4 mp ps d datas)
  obtain data body where d: "d = (data, body)" by fastforce
  from 4(2) obtain len stream rs where one: "piece_stream fs path mp (data, body) = Inr (len, stream)"
    and rest: "collect_res (map2 (piece_stream fs path) ps datas) = Inr rs" and results: "results = (len, stream) # rs"
    by (auto simp: d res_bind_eq_Inr)
  from piece_stream_bytes [OF assms(1) one] obtain c1 where
    c1: "stream = map Inr c1" "concat c1 = data @ piece_content fs path mp body" "len = length (concat c1)" by blast
  from 4(1) [OF rest] obtain cs where cs: "concat (map snd rs) = map Inr cs" "sum_list (map fst rs) = length (concat cs)"
    "concat cs = concat (map2 (\<lambda>mp (data, body). data @ piece_content fs path mp body) ps datas)" by blast
  show ?case by (rule exI [of _ "c1 @ cs"]) (simp add: results d c1 cs)
qed auto

lemma multipart_bytes:
  assumes "fs_ok fs"
    and "multipart_body_as_hyper_body X H to_text fs boundary path ps tv copy headers = Inr (hs, copied, Inr (len, stream))"
  obtains is_form datas cs where
    "multipart_content_type H boundary headers = Inr (is_form, hs)"
    "collect_res (map (multipart_piece_data X H tv is_form boundary) (enumerate 0 ps)) = Inr datas"
    "stream = map Inr cs" "len = length (concat cs)"
    "concat cs = concat (map2 (\<lambda>mp (data, body). data @ piece_content fs path mp body) ps datas) @ closing_boundary boundary"
proof -
  from assms(2) obtain is_form datas results where
    1: "multipart_content_type H boundary headers = Inr (is_form, hs)"
    and 2: "collect_res (map (multipart_piece_data X H tv is_form boundary) (enumerate 0 ps)) = Inr datas"
    and 3: "collect_res (map2 (piece_stream fs path) ps datas) = Inr results"
    and r: "len = length (closing_boundary boundary) + sum_list (map fst results)"
      "stream = concat (map snd results) @ [Inr (closing_boundary boundary)]"
    by (auto simp: multipart_body_as_hyper_body_def res_bind_eq_Inr res_map_eq_Inr dest!: sym [of "Inr (len, stream)"])
  from pieces_bytes [OF assms(1) 3] obtain cs where cs: "concat (map snd results) = map Inr cs"
    "sum_list (map fst results) = length (concat cs)"
    "concat cs = concat (map2 (\<lambda>mp (data, body). data @ piece_content fs path mp body) ps datas)" by blast
  show ?thesis by (rule that [OF 1 2, of "cs @ [closing_boundary boundary]"]) (simp_all add: r cs)
qed



end
