(* ===== verification/Multipart.thy ===== *)
theory Multipart
  imports RequestBodyProps ExprEnv "HOL-Library.Sublist"
begin

text \<open>
  A parser of multipart bodies that knows nothing of how they are made, and the round trip: a body that is made from
  pieces is parsed into them.
\<close>

subsection \<open>The parser\<close>

text \<open>The text before and after the first occurrence of a delimiter.\<close>

fun find_split :: "string \<Rightarrow> string \<Rightarrow> (string \<times> string) option" where
  "find_split d [] = (if d = [] then Some ([], []) else None)"
| "find_split d (c # s) =
     (if take (length d) (c # s) = d then Some ([], drop (length d) (c # s))
      else map_option (\<lambda>(a, b). (c # a, b)) (find_split d s))"

text \<open>
  After a delimiter comes the end of the body or a part: its head up to the first empty line, and its content up to the
  next delimiter.
\<close>

fun parse_parts :: "nat \<Rightarrow> string \<Rightarrow> string \<Rightarrow> (string \<times> string) list option" where
  "parse_parts 0 d s = None"
| "parse_parts (Suc n) d s =
     (if s = ''--'' @ crlf then Some []
      else Option.bind (find_split (crlf @ crlf) s) (\<lambda>(head, rest).
        Option.bind (find_split d rest) (\<lambda>(content, rest').
        map_option ((#) (head, content)) (parse_parts n d rest'))))"

definition parse_multipart :: "string \<Rightarrow> string \<Rightarrow> (string \<times> string) list option" where
  "parse_multipart boundary s =
     (let start = ''--'' @ boundary in
      if starts_with start s then parse_parts (Suc (length s)) (crlf @ start) (drop (length start) s) else None)"

subsection \<open>Splitting\<close>

lemma find_split_here: "d \<noteq> [] \<Longrightarrow> find_split d (d @ s) = Some ([], s)"
  by (cases d) simp_all

text \<open>A delimiter whose first character does not occur in it again is found where it stands first.\<close>

lemma find_split_first:
  assumes "d = c # d'" "c \<notin> set d'" "\<not> sublist d p"
  shows "find_split d (p @ d @ s) = Some (p, s)"
  using assms(3)
proof (induction p)
  case Nil
  show ?case using find_split_here [of d s] assms(1) by simp
next
  case (Cons a p)
  have "take (length d) (a # p @ d @ s) \<noteq> d"
  proof
    assume t: "take (length d) (a # p @ d @ s) = d"
    show False
    proof (cases "length d \<le> length (a # p)")
      case True
      then have "take (length d) (a # p @ d @ s) = take (length d) (a # p)"
        using take_append [of "length d" "a # p" "d @ s"] by simp
      with t have "prefix d (a # p)" by (metis take_is_prefix)
      with Cons.prems show False by (blast intro: prefix_imp_sublist)
    next
      case False
      let ?k = "length (a # p)"
      have "take (length d) (a # p @ d @ s) ! ?k = (a # p @ d @ s) ! ?k" using False by (intro nth_take) simp
      also have "\<dots> = d ! 0" using False assms(1) by (simp add: nth_append)
      finally have "d ! ?k = c" using t assms(1) by simp
      moreover have "d ! ?k = d' ! length p" "length p < length d'" using False assms(1) by simp_all
      ultimately have "c \<in> set d'" using nth_mem [of "length p" d'] by simp
      with assms(2) show False by simp
    qed
  qed
  moreover have "\<not> sublist d p" using Cons.prems by (simp add: sublist_Cons_right)
  ultimately show ?case using Cons.IH by simp
qed

lemma find_split_skip:
  "c \<notin> set p \<Longrightarrow> find_split (c # d) (p @ s) = map_option (\<lambda>(a, b). (p @ a, b)) (find_split (c # d) s)"
proof (induction p)
  case Nil
  show ?case by (cases "find_split (c # d) s") auto
next
  case (Cons a p)
  then show ?case by (cases "find_split (c # d) s") auto
qed

definition no_cr :: "string \<Rightarrow> bool" where
  "no_cr s \<longleftrightarrow> CHR 0x0D \<notin> set s"

lemma find_split_head:
  assumes "\<forall>(k, v) \<in> set hs. k \<noteq> [] \<and> no_cr k \<and> no_cr v"
  shows "find_split (crlf @ crlf) (concat (map header_line hs) @ crlf @ crlf @ s) = Some (concat (map header_line hs), s)"
  using assms
proof (induction hs)
  case Nil
  show ?case using find_split_here [of "crlf @ crlf" s] by (simp add: crlf_def)
next
  case (Cons kv hs)
  obtain k v where kv: "kv = (k, v)" by fastforce
  from Cons.prems have k: "k \<noteq> []" "CHR 0x0D \<notin> set (CHR 0x0A # k @ '': '' @ v)" by (auto simp: kv no_cr_def)
  then obtain k1 k' where k1: "k = k1 # k'" "k1 \<noteq> CHR 0x0D" by (cases k) auto
  let ?rest = "concat (map header_line hs) @ crlf @ crlf @ s"
  have "find_split (crlf @ crlf) (header_line kv @ ?rest) =
      map_option (\<lambda>(a, b). (CHR 0x0D # a, b)) (find_split (crlf @ crlf) ((CHR 0x0A # k @ '': '' @ v) @ ?rest))"
    using k1 by (simp add: kv header_line_def crlf_def)
  also have "\<dots> = map_option (\<lambda>(a, b). (CHR 0x0D # a, b)) (map_option (\<lambda>(a, b). ((CHR 0x0A # k @ '': '' @ v) @ a, b))
      (find_split (crlf @ crlf) ?rest))"
    using find_split_skip [OF k(2), of "CHR 0x0A # crlf" ?rest] by (simp add: crlf_def)
  also have "\<dots> = Some (header_line kv @ concat (map header_line hs), s)"
    using Cons.IH Cons.prems by (simp add: kv header_line_def crlf_def)
  finally show ?case by simp
qed

subsection \<open>The round trip\<close>

text \<open>What follows the first delimiter of a body with these parts.\<close>

fun parts_text :: "string \<Rightarrow> ((string \<times> string) list \<times> string) list \<Rightarrow> string" where
  "parts_text d [] = ''--'' @ crlf"
| "parts_text d ((hs, content) # parts) = concat (map header_line hs) @ crlf @ crlf @ content @ d @ parts_text d parts"

definition part_ok :: "string \<Rightarrow> (string \<times> string) list \<times> string \<Rightarrow> bool" where
  "part_ok d = (\<lambda>(hs, content). (\<forall>(k, v) \<in> set hs. k \<noteq> [] \<and> no_cr k \<and> no_cr v) \<and> \<not> sublist d content)"

lemma parse_parts_text:
  assumes "d = CHR 0x0D # d'" "CHR 0x0D \<notin> set d'" "list_all (part_ok d) parts" "length parts < n"
  shows "parse_parts n d (parts_text d parts) = Some (map (\<lambda>(hs, c). (concat (map header_line hs), c)) parts)"
  using assms(3,4)
proof (induction parts arbitrary: n)
  case Nil
  then show ?case by (cases n) (simp_all add: crlf_def)
next
  case (Cons part parts)
  obtain hs content where part: "part = (hs, content)" by fastforce
  obtain m where n: "n = Suc m" using Cons.prems by (cases n) auto
  have ok: "\<forall>(k, v) \<in> set hs. k \<noteq> [] \<and> no_cr k \<and> no_cr v" "\<not> sublist d content"
    using Cons.prems by (auto simp: part part_ok_def)
  let ?rest = "content @ d @ parts_text d parts"
  have "hd (concat (map header_line hs) @ crlf @ crlf @ ?rest) = CHR 0x0D"
    by (cases hs) (auto simp: header_line_def crlf_def)
  then have not_end: "concat (map header_line hs) @ crlf @ crlf @ ?rest \<noteq> ''--'' @ crlf" by (auto simp: crlf_def)
  have "parse_parts m d (parts_text d parts) = Some (map (\<lambda>(hs, c). (concat (map header_line hs), c)) parts)"
    using Cons by (simp add: n)
  then show ?case
    unfolding n part parts_text.simps parse_parts.simps if_not_P [OF not_end] find_split_head [OF ok(1)]
    by (simp add: find_split_first [OF assms(1,2) ok(2)])
qed

lemma parse_multipart_text:
  assumes "no_cr boundary" "d = crlf @ ''--'' @ boundary" "list_all (part_ok d) parts"
  shows "parse_multipart boundary (''--'' @ boundary @ parts_text d parts) =
    Some (map (\<lambda>(hs, c). (concat (map header_line hs), c)) parts)"
proof -
  have d: "d = CHR 0x0D # CHR 0x0A # ''--'' @ boundary" "CHR 0x0D \<notin> set (CHR 0x0A # ''--'' @ boundary)"
    using assms(1,2) by (auto simp: crlf_def no_cr_def)
  have "length parts \<le> length (parts_text d parts)"
  proof (induction parts)
    case (Cons part parts)
    then show ?case by (cases part) (simp add: crlf_def)
  qed simp
  with parse_parts_text [OF d assms(3)] show ?thesis
    by (simp add: parse_multipart_def starts_with_def assms(2) Let_def del: parse_parts.simps)
qed

text \<open>What a piece means: its headers, and as its content the text of its template or what is in the file of that name.\<close>

definition piece_meaning ::
    "expr_ext \<Rightarrow> http_ext \<Rightarrow> file_system \<Rightarrow> string \<Rightarrow> template_values \<Rightarrow> bool \<Rightarrow> multipart_piece \<Rightarrow>
     test_error + ((string \<times> string) list \<times> string)" where
  "piece_meaning X H fs path tv is_form mp =
     res_bind (or_exec_err (evaluate_template X (mp_template mp) (Borrowed (as_json tv)) None)) (\<lambda>body.
     res_bind (collect_res (map (piece_header X H tv) (mp_headers mp))) (\<lambda>headers.
     res_map (\<lambda>headers. (headers, piece_content fs path mp body)) (piece_disposition H is_form mp headers body)))"

lemma piece_data_meaning:
  assumes "multipart_piece_data X H tv is_form boundary (i, mp) = Inr (data, body)"
  obtains hs where "piece_meaning X H fs path tv is_form mp = Inr (hs, piece_content fs path mp body)"
    "data = (if i = 0 then ''--'' else crlf @ ''--'') @ boundary @ concat (map header_line hs) @ crlf @ crlf"
  using assms by (auto simp: multipart_piece_data_def piece_meaning_def res_bind_eq_Inr res_map_eq_Inr)

lemma datas_meaning:
  assumes "collect_res (map (multipart_piece_data X H tv is_form boundary) (enumerate (Suc i) ps)) = Inr datas"
    and "d = crlf @ ''--'' @ boundary"
  shows "\<exists>parts. collect_res (map (piece_meaning X H fs path tv is_form) ps) = Inr parts \<and>
    concat (map2 (\<lambda>mp (data, body). data @ piece_content fs path mp body) ps datas) @ closing_boundary boundary =
      d @ parts_text d parts"
  using assms(1)
proof (induction ps arbitrary: i datas)
  case Nil
  then show ?case by (simp add: closing_boundary_def assms(2))
next
  case (Cons mp ps)
  then obtain data body ds where data: "multipart_piece_data X H tv is_form boundary (Suc i, mp) = Inr (data, body)"
    and ds: "collect_res (map (multipart_piece_data X H tv is_form boundary) (enumerate (Suc (Suc i)) ps)) = Inr ds"
    "datas = (data, body) # ds"
    by (auto simp: res_bind_eq_Inr)
  from piece_data_meaning [OF data, of fs path] obtain hs where
    hs: "piece_meaning X H fs path tv is_form mp = Inr (hs, piece_content fs path mp body)"
    "data = d @ concat (map header_line hs) @ crlf @ crlf" using assms(2) by auto
  from Cons.IH [OF ds(1)] obtain parts where "collect_res (map (piece_meaning X H fs path tv is_form) ps) = Inr parts"
    "concat (map2 (\<lambda>mp (data, body). data @ piece_content fs path mp body) ps ds) @ closing_boundary boundary = d @ parts_text d parts"
    by blast
  with hs show ?case by (simp add: ds(2))
qed

text \<open>
  C13. A multipart body is read back by a parser of the format as its pieces: the headers of each in order, with the
  content disposition of a form's piece that has none, and its content, the text of its template or what the file holds.
  The boundary must not occur in a content, and names and values of headers must not hold line ends, which
  \<open>HeaderName\<close> and \<open>HeaderValue\<close> refuse.
\<close>

theorem multipart_roundtrip:
  assumes "fs_ok fs" "ps \<noteq> []" "no_cr boundary" "d = crlf @ ''--'' @ boundary"
    and "multipart_body_as_hyper_body X H to_text fs boundary path ps tv copy headers = Inr (hs, copied, Inr (len, stream))"
    and "multipart_content_type H boundary headers = Inr (is_form, hs)"
    and "collect_res (map (piece_meaning X H fs path tv is_form) ps) = Inr parts" "list_all (part_ok d) parts"
  shows "\<exists>cs. stream = map Inr cs \<and>
    parse_multipart boundary (concat cs) = Some (map (\<lambda>(hs, c). (concat (map header_line hs), c)) parts)"
proof -
  obtain mp ps' where ps: "ps = mp # ps'" using assms(2) by (cases ps) auto
  from multipart_bytes [OF assms(1,5)] assms(6) obtain datas cs where
    datas: "collect_res (map (multipart_piece_data X H tv is_form boundary) (enumerate 0 ps)) = Inr datas" and
    cs: "stream = map Inr cs"
    "concat cs = concat (map2 (\<lambda>mp (data, body). data @ piece_content fs path mp body) ps datas) @ closing_boundary boundary"
    by (metis Inr_inject prod.inject)
  from datas obtain data body ds where data: "multipart_piece_data X H tv is_form boundary (0, mp) = Inr (data, body)"
    and ds: "collect_res (map (multipart_piece_data X H tv is_form boundary) (enumerate (Suc 0) ps')) = Inr ds"
    "datas = (data, body) # ds"
    by (auto simp: ps res_bind_eq_Inr)
  from piece_data_meaning [OF data, of fs path] obtain h where
    h: "piece_meaning X H fs path tv is_form mp = Inr (h, piece_content fs path mp body)"
    "data = ''--'' @ boundary @ concat (map header_line h) @ crlf @ crlf" by auto
  from datas_meaning [OF ds(1) assms(4), of fs path] obtain parts' where
    p: "collect_res (map (piece_meaning X H fs path tv is_form) ps') = Inr parts'"
    "concat (map2 (\<lambda>mp (data, body). data @ piece_content fs path mp body) ps' ds) @ closing_boundary boundary = d @ parts_text d parts'"
    by blast
  have parts: "parts = (h, piece_content fs path mp body) # parts'" using assms(7) h(1) p(1) by (simp add: ps)
  have "concat cs = ''--'' @ boundary @ parts_text d parts" by (simp add: cs(2) ps ds(2) h(2) parts p(2))
  with cs(1) parse_multipart_text [OF assms(3,4,8)] show ?thesis by auto
qed

text \<open>A form with one field, for the witnesses.\<close>

definition plain_http :: http_ext where
  "plain_http = \<lparr>h_name = Inr, h_value = Inr, h_to_str = Inr\<rparr>"

definition no_files :: file_system where
  "no_files = (\<lambda>_. Inl (OtherIoError ''no such file''))"

definition text_template :: "string \<Rightarrow> template" where
  "text_template s = Template [NotExpression s] 0 False"

lemma text_template_evaluates: "evaluate_template X (text_template s) d fe = Inr s"
  by (simp add: text_template_def)

definition form_field :: multipart_piece where
  "form_field = \<lparr>mp_name = ''a'', mp_headers = [], mp_is_file = False, mp_template = text_template ''v''\<rparr>"

theorem multipart_roundtrip_witness:
  "\<exists>hs copied len stream cs.
    multipart_body_as_hyper_body ref_expr_ext plain_http id no_files ''b'' ''c'' [form_field] [] False [] =
      Inr (hs, copied, Inr (len, stream)) \<and> stream = map Inr cs \<and>
    parse_multipart ''b'' (concat cs) =
      Some [(header_line (''content-disposition'', disposition_text form_field ''v''), ''v'')]"
proof -
  have fs: "fs_ok no_files" by (simp add: fs_ok_def no_files_def)
  let ?d = "crlf @ ''--'' @ ''b''"
  obtain hs copied len stream where
    body: "multipart_body_as_hyper_body ref_expr_ext plain_http id no_files ''b'' ''c'' [form_field] [] False [] =
      Inr (hs, copied, Inr (len, stream))"
    and ct: "multipart_content_type plain_http ''b'' [] = Inr (True, hs)"
    by (simp add: multipart_body_as_hyper_body_def multipart_content_type_def plain_http_def or_body_err_def
      starts_with_def multipart_piece_data_def form_field_def text_template_evaluates or_exec_err_def piece_disposition_def
      piece_stream_def)
  let ?h = "[(''content-disposition'', disposition_text form_field ''v'')]"
  have parts: "collect_res (map (piece_meaning ref_expr_ext plain_http no_files ''c'' [] True) [form_field]) = Inr [(?h, ''v'')]"
    by (simp add: piece_meaning_def form_field_def text_template_evaluates or_exec_err_def piece_disposition_def
      or_body_err_def plain_http_def piece_content_def)
  have ok: "list_all (part_ok ?d) [(?h, ''v'')]"
    by (auto simp: part_ok_def no_cr_def disposition_text_def form_field_def crlf_def dest: sublist_length_le)
  from multipart_roundtrip [OF fs _ _ refl body ct parts ok] body show ?thesis by (auto simp: no_cr_def)
qed

end
