(* ===== verification/ResponseHandler.thy ===== *)
theory ResponseHandler
  imports RequestBody Endpoint
begin

text \<open>
  From the head of a response to its parsed body: \<open>src/request/response_handler.rs\<close> and \<open>lib/body_reader\<close>. A response
  of the \<open>hyper\<close> crate is given by the texts its version and status are written as, its status, its headers and the
  chunks its body comes in. The decompressors of \<open>brotli\<close> and \<open>libflate\<close> are parameters, as states that can be fed and
  read. \<open>None\<close> is a panic.
\<close>

subsection \<open>Compressed bodies\<close>

datatype read_error = WouldBlock | ReadFailed string

text \<open>The reader inside a decompressor has what has been fed and not yet read; without that it would block.\<close>

definition bytes_reader_read :: "nat \<Rightarrow> string \<Rightarrow> (read_error + string) \<times> string" where
  "bytes_reader_read len s =
     (let amt = min len (length s) in if amt = 0 then (Inl WouldBlock, s) else (Inr (take amt s), drop amt s))"

datatype compression = Brotli | Deflate | Gzip | NoCompression

definition compression_try_from :: "string \<Rightarrow> compression option" where
  "compression_try_from ce =
     (if ce = ''br'' then Some Brotli else if ce = ''deflate'' then Some Deflate
      else if ce = ''gzip'' then Some Gzip else if ce = [] then Some NoCompression else None)"

record 'r decompressor =
  dc_new :: "compression \<Rightarrow> 'r"
  dc_feed :: "'r \<Rightarrow> string \<Rightarrow> 'r"
  dc_read :: "'r \<Rightarrow> (read_error + string) \<times> 'r"

definition body_reader_new :: "'r decompressor \<Rightarrow> compression \<Rightarrow> 'r option" where
  "body_reader_new D c = (case c of NoCompression \<Rightarrow> None | _ \<Rightarrow> Some (dc_new D c))"

text \<open>One turn of the loop that reads what can be decompressed: the reader and the bytes so far.\<close>

definition decode_step :: "'r decompressor \<Rightarrow> 'r \<times> string \<Rightarrow> (string + 'r \<times> string) + 'r \<times> string" where
  "decode_step D = (\<lambda>(r, out).
     case dc_read D r of
       (Inr bs, r') \<Rightarrow> if bs = [] then Inl (Inr (r', out)) else Inr (r', out @ bs)
     | (Inl WouldBlock, r') \<Rightarrow> Inl (Inr (r', out))
     | (Inl (ReadFailed e), r') \<Rightarrow> Inl (Inl e))"

definition body_decode :: "'r decompressor \<Rightarrow> string \<Rightarrow> 'r option \<times> string \<Rightarrow> (string + 'r option \<times> string) option" where
  "body_decode D in_bytes = (\<lambda>(reader, out).
     case reader of
       None \<Rightarrow> Some (Inr (None, out @ in_bytes))
     | Some r \<Rightarrow> map_option (res_map (\<lambda>(r, out). (Some r, out))) (loop_run (decode_step D) (dc_feed D r in_bytes, out)))"

subsection \<open>The fields of a response\<close>

record response =
  rp_version :: string
  rp_status :: u16
  rp_status_text :: string
  rp_headers :: header_map
  rp_chunks :: "(string + string) list"

type_synonym json_object = "(string \<times> json) list"

definition differs :: "u16 \<Rightarrow> u16 \<Rightarrow> u16 \<Rightarrow> bool" where
  "differs bitwise added flag \<longleftrightarrow> (bitwise AND flag) XOR (added AND flag) \<noteq> 0"

definition headers_object :: "(string \<Rightarrow> string) \<Rightarrow> header_map \<Rightarrow> json_object" where
  "headers_object to_text hs = fold (\<lambda>(k, v). obj_insert k (JString (to_text v))) hs []"

definition push_value :: "json \<Rightarrow> json option \<Rightarrow> json" where
  "push_value v old = (case old of Some (JArray vs) \<Rightarrow> JArray (vs @ [v]) | _ \<Rightarrow> JArray [v])"

definition headers_all_object :: "(string \<Rightarrow> string) \<Rightarrow> header_map \<Rightarrow> json_object" where
  "headers_all_object to_text hs =
     fold (\<lambda>(k, v) ob. obj_insert k (push_value (JString (to_text v)) (obj_get ob k)) ob) hs []"

text \<open>One of the four checks: the field, none for the body, is added when it is asked for and not there yet.\<close>

definition require_field :: "u16 \<Rightarrow> (string \<times> json) option \<Rightarrow> u16 \<Rightarrow> u16 \<times> json_object \<Rightarrow> u16 \<times> json_object" where
  "require_field flag entry bitwise = (\<lambda>(added, rp).
     if differs bitwise added flag
     then (added OR flag, case entry of Some (k, v) \<Rightarrow> obj_insert k v rp | None \<Rightarrow> rp)
     else (added, rp))"

definition handle_response_requirements ::
    "(string \<Rightarrow> string) \<Rightarrow> u16 \<Rightarrow> response \<Rightarrow> u16 \<times> json_object \<Rightarrow> u16 \<times> json_object" where
  "handle_response_requirements to_text bitwise resp s =
     (let s = require_field RESPONSE_STARTLINE
                (Some (''start-line'', JString (rp_version resp @ '' '' @ rp_status_text resp))) bitwise s;
          s = require_field RESPONSE_HEADERS (Some (''headers'', JObject (headers_object to_text (rp_headers resp)))) bitwise s;
          s = require_field RESPONSE_HEADERS_ALL
                (Some (''headers_all'', JObject (headers_all_object to_text (rp_headers resp)))) bitwise s
      in require_field RESPONSE_BODY None bitwise s)"

subsection \<open>\<open>ResponseHandler::handle\<close>\<close>

text \<open>\<open>template_values["response"]\<close> must be an object; \<open>handle\<close> has just put one there.\<close>

definition response_object :: "template_values \<Rightarrow> json_object" where
  "response_object tv = (case obj_get tv ''response'' of Some (JObject rp) \<Rightarrow> rp | _ \<Rightarrow> [])"

definition require_fields ::
    "(string \<Rightarrow> string) \<Rightarrow> u16 \<Rightarrow> response \<Rightarrow> u16 \<times> template_values \<Rightarrow> u16 \<times> template_values" where
  "require_fields to_text bitwise resp = (\<lambda>(added, tv).
     let (added, rp) = handle_response_requirements to_text bitwise resp (added, response_object tv)
     in (added, obj_insert ''response'' (JObject rp) tv))"

text \<open>
  The providers and loggers to send to, by index: those whose \<open>where\<close> clause holds, or all when a \<open>where\<close> clause needs
  what is not there yet. The first error ends it.
\<close>

fun included_outgoing ::
    "expr_ext \<Rightarrow> (string \<Rightarrow> string) \<Rightarrow> u16 \<Rightarrow> u16 \<Rightarrow> response \<Rightarrow> nat \<Rightarrow> 't outgoing list \<Rightarrow> u16 \<times> template_values \<Rightarrow>
     recoverable_error + nat list \<times> u16 \<times> template_values" where
  "included_outgoing X to_text rr precheck resp i [] (added, tv) = Inr ([], added, tv)"
| "included_outgoing X to_text rr precheck resp i (o' # os) (added, tv) =
     (let later = precheck AND RESPONSE_BODY = RESPONSE_BODY \<or> precheck AND STATS = STATS in
      case (if later then Inr True else execute_where X (og_select o') (as_json tv)) of
        Inl e \<Rightarrow> Inl (ExecutingExpression e)
      | Inr True \<Rightarrow>
          res_map (\<lambda>(is, r). (i # is, r))
            (included_outgoing X to_text rr precheck resp (Suc i) os (require_fields to_text rr resp (added, tv)))
      | Inr False \<Rightarrow> included_outgoing X to_text rr precheck resp (Suc i) os (added, tv))"

definition response_fields_start :: u16 where
  "response_fields_start = 0b000111"

definition handle_response ::
    "expr_ext \<Rightarrow> (string \<Rightarrow> string) \<Rightarrow> u16 \<Rightarrow> u16 \<Rightarrow> response \<Rightarrow> 't outgoing list \<Rightarrow> template_values \<Rightarrow>
     recoverable_error + nat list \<times> u16 \<times> template_values" where
  "handle_response X to_text rr precheck resp outgoing tv =
     (let tv = obj_insert ''response'' (JObject [(''status'', json_of_u64 (ucast (rp_status resp)))]) tv
      in included_outgoing X to_text rr precheck resp 0 outgoing
           (require_fields to_text precheck resp (response_fields_start, tv)))"

subsection \<open>The body\<close>

fun fold_body :: "'r decompressor \<Rightarrow> (string + string) list \<Rightarrow> 'r option \<times> string \<Rightarrow> (recoverable_error + string) option" where
  "fold_body D [] (br, buf) = Some (Inr buf)"
| "fold_body D (Inl e # chunks) (br, buf) = Some (Inl (BodyErr e))"
| "fold_body D (Inr bs # chunks) (br, buf) =
     (case body_decode D bs (br, buf) of
        None \<Rightarrow> None
      | Some (Inl e) \<Rightarrow> Some (Inl (BodyErr e))
      | Some (Inr r) \<Rightarrow> fold_body D chunks r)"

fun drain_body :: "(string + string) list \<Rightarrow> recoverable_error + unit" where
  "drain_body [] = Inr ()"
| "drain_body (Inl e # chunks) = Inl (BodyErr e)"
| "drain_body (Inr bs # chunks) = drain_body chunks"

definition body_value :: "(string \<Rightarrow> string option) \<Rightarrow> (string \<Rightarrow> json option) \<Rightarrow> string \<Rightarrow> json" where
  "body_value from_utf8 from_str buf =
     (let body_string = (case from_utf8 buf of Some s \<Rightarrow> s | None \<Rightarrow> ''<<binary data>>'') in
      case from_str body_string of Some v \<Rightarrow> v | None \<Rightarrow> JString body_string)"

text \<open>The body's value when it is needed and its encoding is known; otherwise the body is read and dropped.\<close>

definition response_body ::
    "http_ext \<Rightarrow> 'r decompressor \<Rightarrow> (string \<Rightarrow> string option) \<Rightarrow> (string \<Rightarrow> json option) \<Rightarrow> u16 \<Rightarrow> response \<Rightarrow>
     (recoverable_error + json option) option" where
  "response_body H D from_utf8 from_str added resp =
     Option.bind (case map_of (rp_headers resp) ''content-encoding'' of
         None \<Rightarrow> Some []
       | Some h \<Rightarrow> (case h_to_str H h of Inl _ \<Rightarrow> None | Inr s \<Rightarrow> Some s)) (\<lambda>ce_header.
     case (added AND RESPONSE_BODY \<noteq> 0, compression_try_from ce_header) of
       (True, Some ce) \<Rightarrow>
         map_option (res_map (\<lambda>buf. Some (body_value from_utf8 from_str buf)))
           (fold_body D (rp_chunks resp) (body_reader_new D ce, []))
     | _ \<Rightarrow> Some (res_map (\<lambda>_. None) (drain_body (rp_chunks resp))))"

end
