(* ===== verification/ResponseProps.thy ===== *)
theory ResponseProps
  imports ResponseHandler
begin

text \<open>
  The fields of \<open>response\<close> that expressions see are those that were asked for, however often and in whatever order, and
  the pieces a body comes in do not matter when it is not compressed.
\<close>

subsection \<open>Fields\<close>

lemma differs_bit: "differs b a (2 ^ n) \<longleftrightarrow> bit b n \<noteq> bit a n" if "n < 16"
proof -
  have "(b AND 2 ^ n) XOR (a AND 2 ^ n) = (b XOR a) AND 2 ^ n"
    by (rule bit_eqI) (auto simp: bit_simps)
  then have "differs b a (2 ^ n) \<longleftrightarrow> bit (b XOR a) n"
    by (simp add: differs_def and_exp_eq_0_iff_not_bit)
  then show ?thesis by (simp add: bit_xor_iff)
qed

lemma and_flag: "a AND 2 ^ n \<noteq> 0 \<longleftrightarrow> bit a n" for a :: u16
  by (simp add: and_exp_eq_0_iff_not_bit)

lemma response_flags:
  "RESPONSE_STARTLINE = 2 ^ 5" "RESPONSE_HEADERS = 2 ^ 4" "RESPONSE_HEADERS_ALL = 2 ^ 12" "RESPONSE_BODY = 2 ^ 3"
  by (simp_all add: RESPONSE_STARTLINE_def RESPONSE_HEADERS_def RESPONSE_HEADERS_ALL_def RESPONSE_BODY_def)

lemma flag_bits:
  "a AND RESPONSE_STARTLINE \<noteq> 0 \<longleftrightarrow> bit a 5" "a AND RESPONSE_HEADERS \<noteq> 0 \<longleftrightarrow> bit a 4"
  "a AND RESPONSE_HEADERS_ALL \<noteq> 0 \<longleftrightarrow> bit a 12" "a AND RESPONSE_BODY \<noteq> 0 \<longleftrightarrow> bit a 3"
  by (simp_all only: response_flags and_flag)

definition field_values :: "(string \<Rightarrow> string) \<Rightarrow> response \<Rightarrow> (string \<times> nat \<times> json) list" where
  "field_values to_text resp =
     [(''start-line'', 5, JString (rp_version resp @ '' '' @ rp_status_text resp)),
      (''headers'', 4, JObject (headers_object to_text (rp_headers resp))),
      (''headers_all'', 12, JObject (headers_all_object to_text (rp_headers resp)))]"

definition fields_ok :: "(string \<Rightarrow> string) \<Rightarrow> response \<Rightarrow> u16 \<Rightarrow> json_object \<Rightarrow> bool" where
  "fields_ok to_text resp added rp \<longleftrightarrow>
     (\<forall>(k, n, v) \<in> set (field_values to_text resp). obj_get rp k = (if bit added n then Some v else None))"

lemma require_field_bits:
  assumes "require_field (2 ^ n) entry b (added, rp) = (added', rp')" "n < 16" "m < 16"
  shows "bit added' m \<longleftrightarrow> bit added m \<or> m = n \<and> bit b n"
  using assms by (auto simp: require_field_def differs_bit bit_or_iff bit_exp_iff split: if_splits)

lemma require_field_ok:
  assumes "fields_ok to_text resp added rp" "(k, n, v) \<in> set (field_values to_text resp)"
    and "require_field (2 ^ n) (Some (k, v)) b (added, rp) = (added', rp')"
  shows "fields_ok to_text resp added' rp'"
  unfolding fields_ok_def
proof (clarify)
  fix k' n' v' assume known: "(k', n', v') \<in> set (field_values to_text resp)"
  have bits: "n < 16" "n' < 16" and same: "k' = k \<longleftrightarrow> n' = n" "n' = n \<Longrightarrow> v' = v"
    using assms(2) known by (auto simp: field_values_def)
  have "obj_get rp k' = (if bit added n' then Some v' else None)" using assms(1) known by (auto simp: fields_ok_def)
  moreover have "obj_get rp' k' = (if n' = n \<and> bit b n \<noteq> bit added n then Some v else obj_get rp k')"
    using assms(3) same(1) by (auto simp: require_field_def differs_bit [OF bits(1)] obj_get_insert split: if_splits)
  ultimately show "obj_get rp' k' = (if bit added' n' then Some v' else None)"
    using require_field_bits [OF assms(3) bits] same(2) by auto
qed

lemma require_body_ok:
  "fields_ok to_text resp added rp \<Longrightarrow> require_field (2 ^ 3) None b (added, rp) = (added', rp') \<Longrightarrow>
     fields_ok to_text resp added' rp'"
  by (auto simp: require_field_def fields_ok_def field_values_def bit_or_iff bit_exp_iff split: if_splits)

lemma requirements_step:
  assumes ok: "fields_ok to_text resp added rp"
    and run: "handle_response_requirements to_text b resp (added, rp) = (added', rp')"
  shows "fields_ok to_text resp added' rp' \<and>
    (\<forall>n \<in> {3, 4, 5, 12}. bit added' n \<longleftrightarrow> bit added n \<or> bit b n)"
proof -
  let ?line = "JString (rp_version resp @ '' '' @ rp_status_text resp)"
  let ?hs = "JObject (headers_object to_text (rp_headers resp))"
  let ?all = "JObject (headers_all_object to_text (rp_headers resp))"
  have known: "(''start-line'', 5, ?line) \<in> set (field_values to_text resp)"
    "(''headers'', 4, ?hs) \<in> set (field_values to_text resp)"
    "(''headers_all'', 12, ?all) \<in> set (field_values to_text resp)"
    by (simp_all add: field_values_def)
  obtain a1 r1 where 1: "require_field (2 ^ 5) (Some (''start-line'', ?line)) b (added, rp) = (a1, r1)" by fastforce
  obtain a2 r2 where 2: "require_field (2 ^ 4) (Some (''headers'', ?hs)) b (a1, r1) = (a2, r2)" by fastforce
  obtain a3 r3 where 3: "require_field (2 ^ 12) (Some (''headers_all'', ?all)) b (a2, r2) = (a3, r3)" by fastforce
  have 4: "require_field (2 ^ 3) None b (a3, r3) = (added', rp')"
    using run unfolding handle_response_requirements_def Let_def response_flags 1 2 3 .
  have "fields_ok to_text resp added' rp'"
    by (intro require_body_ok [OF _ 4] require_field_ok [OF _ known(3) 3] require_field_ok [OF _ known(2) 2]
      require_field_ok [OF ok known(1) 1])
  then show ?thesis
    using require_field_bits [OF 1] require_field_bits [OF 2] require_field_bits [OF 3] require_field_bits [OF 4] by auto
qed

lemma requirements_fold:
  assumes "fields_ok to_text resp added rp"
    and "fold (\<lambda>b. handle_response_requirements to_text b resp) bs (added, rp) = (added', rp')"
  shows "fields_ok to_text resp added' rp' \<and>
    (\<forall>n \<in> {3, 4, 5, 12}. bit added' n \<longleftrightarrow> bit added n \<or> (\<exists>b \<in> set bs. bit b n))"
  using assms
proof (induction bs arbitrary: added rp)
  case (Cons b bs)
  obtain a1 r1 where one: "handle_response_requirements to_text b resp (added, rp) = (a1, r1)" by fastforce
  note step = requirements_step [OF Cons.prems(1) one]
  from Cons.prems(2) one have "fold (\<lambda>b. handle_response_requirements to_text b resp) bs (a1, r1) = (added', rp')" by simp
  with Cons.IH step show ?case by fastforce
qed simp

lemma no_fields_yet:
  assumes "\<forall>k \<in> set (map fst rp). k = ''status''"
  shows "fields_ok to_text resp response_fields_start rp"
proof -
  have "obj_get rp k = None" if "k \<noteq> ''status''" for k
    using assms that by (auto simp: obj_get_def map_of_eq_None_iff)
  then show ?thesis by (simp add: fields_ok_def field_values_def response_fields_start_def)
qed

text \<open>
  C18. Each field of the response is there exactly when one of the requirements so far has asked for it, with the value
  the response gives it; so is the decision to read the body. The exclusive or of the source adds a field again, with
  the same value, when a later requirement does not ask for it.
\<close>

theorem response_fields_union:
  assumes "fold (\<lambda>b. handle_response_requirements to_text b resp) bs
    (response_fields_start, [(''status'', json_of_u64 (ucast (rp_status resp)))]) = (added, rp)"
  shows "obj_get rp ''start-line'' =
      (if \<exists>b \<in> set bs. b AND RESPONSE_STARTLINE \<noteq> 0
       then Some (JString (rp_version resp @ '' '' @ rp_status_text resp)) else None) \<and>
    obj_get rp ''headers'' =
      (if \<exists>b \<in> set bs. b AND RESPONSE_HEADERS \<noteq> 0 then Some (JObject (headers_object to_text (rp_headers resp))) else None) \<and>
    obj_get rp ''headers_all'' =
      (if \<exists>b \<in> set bs. b AND RESPONSE_HEADERS_ALL \<noteq> 0
       then Some (JObject (headers_all_object to_text (rp_headers resp))) else None) \<and>
    (added AND RESPONSE_BODY \<noteq> 0 \<longleftrightarrow> (\<exists>b \<in> set bs. b AND RESPONSE_BODY \<noteq> 0))"
proof -
  have "fields_ok to_text resp response_fields_start [(''status'', json_of_u64 (ucast (rp_status resp)))]"
    by (rule no_fields_yet) simp
  from requirements_fold [OF this assms]
  have "fields_ok to_text resp added rp"
    "\<forall>n \<in> {3, 4, 5, 12}. bit added n \<longleftrightarrow> bit response_fields_start n \<or> (\<exists>b \<in> set bs. bit b n)" by simp_all
  moreover have "\<forall>n \<in> {3, 4, 5, 12}. \<not> bit response_fields_start n" by (simp add: response_fields_start_def)
  ultimately show ?thesis
    by (simp add: flag_bits fields_ok_def field_values_def)
qed

theorem response_fields_union_witness:
  "\<exists>added rp. fold (\<lambda>b. handle_response_requirements id b
      \<lparr>rp_version = ''HTTP/1.1'', rp_status = 200, rp_status_text = ''200 OK'', rp_headers = [], rp_chunks = []\<rparr>)
      [RESPONSE_STARTLINE, 0] (response_fields_start, [(''status'', json_of_u64 200)]) = (added, rp) \<and>
    obj_get rp ''start-line'' = Some (JString ''HTTP/1.1 200 OK'') \<and> obj_get rp ''headers'' = None"
proof -
  let ?r = "\<lparr>rp_version = ''HTTP/1.1'', rp_status = 200, rp_status_text = ''200 OK'', rp_headers = [], rp_chunks = []\<rparr>"
  obtain added rp where run: "fold (\<lambda>b. handle_response_requirements id b ?r) [RESPONSE_STARTLINE, 0]
    (response_fields_start, [(''status'', json_of_u64 (ucast (rp_status ?r)))]) = (added, rp)" by fastforce
  from response_fields_union [OF this] run show ?thesis
    by (auto simp: flag_bits RESPONSE_STARTLINE_def simp del: fold_simps)
qed

subsection \<open>Bodies\<close>

lemma fold_body_plain:
  "fold_body D (map Inr cs) (None, buf) = Some (Inr (buf @ concat cs))"
  by (induction cs arbitrary: buf) (simp_all add: body_decode_def)

end
