(* ===== verification/BodyHandler.thy ===== *)
theory BodyHandler
  imports ResponseHandler Stats
begin

text \<open>
  What happens when a response is complete: \<open>src/request/body_handler.rs\<close>. The handler counts the response, sends what
  the endpoint provides and logs. What it does at once are changes of the channels and messages to the statistics, in
  order; what takes time are futures, joined in the order they are pushed. The values a select gives are the list its
  iterator gives until its first error.
\<close>

subsection \<open>Provider delays\<close>

definition now_stat :: "system_time \<Rightarrow> tags \<Rightarrow> stat_kind \<Rightarrow> u64 option \<Rightarrow> response_stat" where
  "now_stat now tags kind rtt = \<lparr>rs_kind = kind, rs_rtt = rtt, rs_time = now, rs_tags = tags\<rparr>"

definition provider_delays_log :: "system_time \<Rightarrow> tags \<Rightarrow> string list \<Rightarrow> response_stat list" where
  "provider_delays_log now tags delays =
     map (\<lambda>provider. now_stat now tags (RecoverableStat (ProviderDelay provider)) None) delays"

subsection \<open>Values and futures\<close>

text \<open>\<open>select.iter\<close>: an iterator that cannot be made gives the error for ever; everything here stops at it.\<close>

definition select_values :: "expr_ext \<Rightarrow> select \<Rightarrow> json \<Rightarrow> (recoverable_error + json) list" where
  "select_values X s d =
     (case select_as_iter X s d of
        Inl e \<Rightarrow> [Inl (ExecutingExpression e)]
      | Inr items \<Rightarrow> map (\<lambda>r. case r of Inl e \<Rightarrow> Inl (ExecutingExpression e) | Inr v \<Rightarrow> Inr (into_owned v)) items)"

type_synonym send_values = "(recoverable_error + json) list"

datatype body_future =
    AutoReturns
  | LogErrors "(nat \<times> send_values) list"       \<comment> \<open>an error to the loggers, joined with \<open>try_join_all\<close>\<close>
  | SendToLogger nat send_values
  | SendBlocked "(nat \<times> send_values) list"      \<comment> \<open>\<open>select_all\<close>: done with the first; the others are polled once and dropped\<close>

type_synonym ('h, 'd, 'q, 'ev) channels = "string \<Rightarrow> ('h, 'd, 'q, 'ev) channel"

record ('h, 'd, 'q, 'ev) body_effects =
  ef_channels :: "('h, 'd, 'q, 'ev) channels"
  ef_stats :: "response_stat list"
  ef_futures :: "body_future list"

definition push_future :: "body_future \<Rightarrow> ('h, 'd, 'q, 'ev) body_effects \<Rightarrow> ('h, 'd, 'q, 'ev) body_effects" where
  "push_future f e = e\<lparr>ef_futures := ef_futures e @ [f]\<rparr>"

definition error_json :: "recoverable_error \<Rightarrow> json" where
  "error_json e = JObject [(''msg'', JString (recoverable_message e)), (''code'', json_of_usize (error_code e))]"

definition logger_values :: "expr_ext \<Rightarrow> string outgoing list \<Rightarrow> json \<Rightarrow> (nat \<times> send_values) list" where
  "logger_values X outgoing d =
     map (\<lambda>(i, o'). (i, select_values X (og_select o') d)) (filter (\<lambda>(i, o'). is_logger (og_tx o')) (enumerate 0 outgoing))"

definition has_logger :: "string outgoing list \<Rightarrow> bool" where
  "has_logger outgoing \<longleftrightarrow> (\<exists>o' \<in> set outgoing. is_logger (og_tx o'))"

text \<open>What is the same for the whole of a call.\<close>

record body_context =
  bx_ext :: expr_ext
  bx_now :: system_time
  bx_outgoing :: "string outgoing list"
  bx_tags :: tags
  bx_values :: template_values

definition send_response_stat ::
    "body_context \<Rightarrow> stat_kind \<Rightarrow> u64 option \<Rightarrow> ('h, 'd, 'q, 'ev) body_effects \<Rightarrow> ('h, 'd, 'q, 'ev) body_effects" where
  "send_response_stat C kind rtt e =
     (let logs = (case kind of
          RecoverableStat r \<Rightarrow>
            if has_logger (bx_outgoing C)
            then logger_values (bx_ext C) (bx_outgoing C) (as_json (obj_insert ''error'' (error_json r) (bx_values C)))
            else []
        | ResponseKind _ \<Rightarrow> [])
      in push_future (LogErrors logs) (e\<lparr>ef_stats := ef_stats e @ [now_stat (bx_now C) (bx_tags C) kind rtt]\<rparr>))"

subsection \<open>Sending at once\<close>

text \<open>The loops over the values for \<open>force\<close> and \<open>if_not_full\<close>; the result is the error they have stopped at.\<close>

fun force_values ::
    "(json, 'h, 'd, 'q, 'ev) chan_ext \<Rightarrow> string provider_or_logger \<Rightarrow> send_values \<Rightarrow> ('h, 'd, 'q, 'ev) channels \<Rightarrow>
     recoverable_error option \<times> ('h, 'd, 'q, 'ev) channels" where
  "force_values E tx [] cs = (None, cs)"
| "force_values E tx (Inl r # vs) cs = (Some r, cs)"
| "force_values E tx (Inr v # vs) cs =
     force_values E tx vs (case tx of ToProvider k \<Rightarrow> cs(k := force_send E (cs k) v) | ToLogger _ \<Rightarrow> cs)"

fun if_not_full_values ::
    "(json, 'h, 'd, 'q, 'ev) chan_ext \<Rightarrow> string provider_or_logger \<Rightarrow> send_values \<Rightarrow> ('h, 'd, 'q, 'ev) channels \<Rightarrow>
     recoverable_error option \<times> ('h, 'd, 'q, 'ev) channels" where
  "if_not_full_values E tx [] cs = (None, cs)"
| "if_not_full_values E tx (Inl r # vs) cs = (Some r, cs)"
| "if_not_full_values E tx (Inr v # vs) cs =
     (case tx of
        ToLogger _ \<Rightarrow> if_not_full_values E tx vs cs
      | ToProvider k \<Rightarrow>
          (case try_send E (cs k) v of
             (r, c) \<Rightarrow> if is_success r then if_not_full_values E tx vs (cs(k := c)) else (None, cs(k := c))))"

definition after_values ::
    "body_context \<Rightarrow> recoverable_error option \<times> ('h, 'd, 'q, 'ev) channels \<Rightarrow>
     ('h, 'd, 'q, 'ev) body_effects \<Rightarrow> ('h, 'd, 'q, 'ev) body_effects" where
  "after_values C r e =
     (case r of (err, cs) \<Rightarrow>
        let e = e\<lparr>ef_channels := cs\<rparr>
        in case err of None \<Rightarrow> e | Some r \<Rightarrow> send_response_stat C (RecoverableStat r) None e)"

text \<open>The loop over the outgoing that are included, with the blocked senders so far.\<close>

fun send_outgoing ::
    "body_context \<Rightarrow> (json, 'h, 'd, 'q, 'ev) chan_ext \<Rightarrow> nat list \<Rightarrow> (nat \<times> string outgoing) list \<Rightarrow>
     (nat \<times> send_values) list \<Rightarrow> ('h, 'd, 'q, 'ev) body_effects \<Rightarrow> (nat \<times> send_values) list \<times> ('h, 'd, 'q, 'ev) body_effects" where
  "send_outgoing C E included [] blocked e = (blocked, e)"
| "send_outgoing C E included ((i, o') # os) blocked e =
     (if i \<notin> set included then send_outgoing C E included os blocked e
      else
        (let vs = select_values (bx_ext C) (og_select o') (as_json (bx_values C)) in
         case get_send_behavior (og_select o') of
           Block \<Rightarrow>
             if is_logger (og_tx o') then send_outgoing C E included os blocked (push_future (SendToLogger i vs) e)
             else send_outgoing C E included os (blocked @ [(i, vs)]) e
         | Force \<Rightarrow>
             send_outgoing C E included os blocked (after_values C (force_values E (og_tx o') vs (ef_channels e)) e)
         | IfNotFull \<Rightarrow>
             send_outgoing C E included os blocked (after_values C (if_not_full_values E (og_tx o') vs (ef_channels e)) e)))"

subsection \<open>\<open>BodyHandler::handle\<close>\<close>

definition evaluate_tags :: "expr_ext \<Rightarrow> (string \<times> template) list \<Rightarrow> json \<Rightarrow> tags" where
  "evaluate_tags X tags d =
     concat (map (\<lambda>(k, t). case evaluate_template X t (Borrowed d) None of Inl _ \<Rightarrow> [] | Inr v \<Rightarrow> [(k, v)]) tags)"

definition stats_json :: "u64 \<Rightarrow> json" where
  "stats_json rtt = JObject [(''rtt'', json_of_f64 (f64_div (f64_of_nat (unat rtt)) (f64_of_nat 1000)))]"

text \<open>The result of reading the body is an error, a value, or nothing when the body was not needed.\<close>

definition body_values :: "template_values \<Rightarrow> u64 \<Rightarrow> recoverable_error + json option \<Rightarrow> template_values" where
  "body_values tv rtt result =
     (let tv = obj_insert ''stats'' (stats_json rtt) tv in
      case result of
        Inr (Some body) \<Rightarrow> obj_insert ''response'' (JObject (obj_insert ''body'' body (response_object tv))) tv
      | _ \<Rightarrow> tv)"

definition handle_body ::
    "expr_ext \<Rightarrow> (json, 'h, 'd, 'q, 'ev) chan_ext \<Rightarrow> system_time \<Rightarrow> u64 \<Rightarrow> (string \<times> template) list \<Rightarrow> string list \<Rightarrow>
     string outgoing list \<Rightarrow> nat list \<Rightarrow> u16 \<Rightarrow> template_values \<Rightarrow> recoverable_error + json option \<Rightarrow> bool \<Rightarrow>
     ('h, 'd, 'q, 'ev) channels \<Rightarrow> ('h, 'd, 'q, 'ev) body_effects" where
  "handle_body X E now rtt tag_templates delays outgoing included status tv result auto_returns channels =
     (let tv = body_values tv rtt result;
          tags = evaluate_tags X tag_templates (as_json tv);
          C = \<lparr>bx_ext = X, bx_now = now, bx_outgoing = outgoing, bx_tags = tags, bx_values = tv\<rparr>;
          e = \<lparr>ef_channels = channels, ef_stats = provider_delays_log now tags delays,
               ef_futures = (if auto_returns then [AutoReturns] else [])\<rparr>;
          e = (case result of
                 Inl r \<Rightarrow> send_response_stat C (RecoverableStat r) None e
               | Inr _ \<Rightarrow>
                   (let (blocked, e) = send_outgoing C E included (enumerate 0 outgoing) [] e
                    in if blocked = [] then e else push_future (SendBlocked blocked) e))
      in send_response_stat C (ResponseKind status) (Some rtt) e)"

end
