(* ===== verification/BodyProps.thy ===== *)
theory BodyProps
  imports BodyHandler
begin

text \<open>
  What a response leaves in the statistics, in the providers' channels and to be waited for, for every way its body and
  the selects of the endpoint can turn out.
\<close>

definition sends_at_once :: "'t outgoing \<Rightarrow> bool" where
  "sends_at_once o' \<longleftrightarrow> get_send_behavior (og_select o') \<noteq> Block"

definition error_stats :: "body_context \<Rightarrow> recoverable_error list \<Rightarrow> response_stat list" where
  "error_stats C errs = map (\<lambda>r. now_stat (bx_now C) (bx_tags C) (RecoverableStat r) None) errs"

lemma error_stats_simps [simp]:
  "error_stats C [] = []"
  "error_stats C (r # errs) = now_stat (bx_now C) (bx_tags C) (RecoverableStat r) None # error_stats C errs"
  "error_stats C (errs @ errs') = error_stats C errs @ error_stats C errs'"
  by (simp_all add: error_stats_def)

lemma send_response_stat_simps [simp]:
  "ef_channels (send_response_stat C kind rtt e) = ef_channels e"
  "ef_stats (send_response_stat C kind rtt e) = ef_stats e @ [now_stat (bx_now C) (bx_tags C) kind rtt]"
  by (simp_all add: send_response_stat_def push_future_def Let_def)

lemma push_future_simps [simp]:
  "ef_channels (push_future f e) = ef_channels e" "ef_stats (push_future f e) = ef_stats e"
  "ef_futures (push_future f e) = ef_futures e @ [f]"
  by (simp_all add: push_future_def)

subsection \<open>Values sent at once\<close>

lemma force_values_error:
  "force_values E tx vs cs = (err, cs') \<Longrightarrow> (\<forall>r. err = Some r \<longrightarrow> Inl r \<in> set vs) \<and> (\<forall>k. tx \<noteq> ToProvider k \<longrightarrow> cs' k = cs k)"
  by (induction E tx vs cs rule: force_values.induct) (auto split: provider_or_logger.splits if_splits)

lemma if_not_full_values_error:
  "if_not_full_values E tx vs cs = (err, cs') \<Longrightarrow> (\<forall>r. err = Some r \<longrightarrow> Inl r \<in> set vs) \<and> (\<forall>k. tx \<noteq> ToProvider k \<longrightarrow> cs' k = cs k)"
  by (induction E tx vs cs rule: if_not_full_values.induct)
    (auto split: provider_or_logger.splits prod.splits if_splits)

lemma force_values_all:
  "force_values E (ToProvider k) (map Inr vs) cs = (None, cs(k := fold (\<lambda>v c. force_send E c v) vs (cs k)))"
  by (induction vs arbitrary: cs) simp_all

text \<open>One of the outgoing that send at once adds at most an error of its select, and changes its own channel only.\<close>

lemma after_values_effect:
  assumes "\<forall>r. fst x = Some r \<longrightarrow> Inl r \<in> set vs" "\<forall>k. tx \<noteq> ToProvider k \<longrightarrow> snd x k = ef_channels e k"
  shows "\<exists>errs. ef_stats (after_values C x e) = ef_stats e @ error_stats C errs \<and> Inl ` set errs \<subseteq> set vs \<and>
    (\<forall>k. tx \<noteq> ToProvider k \<longrightarrow> ef_channels (after_values C x e) k = ef_channels e k)"
proof -
  obtain err cs where x: "x = (err, cs)" by fastforce
  show ?thesis
  proof (cases err)
    case None
    with assms(2) x show ?thesis by (intro exI [of _ "[]"]) (simp add: after_values_def Let_def)
  next
    case (Some r)
    with assms x show ?thesis by (intro exI [of _ "[r]"]) (simp add: after_values_def Let_def)
  qed
qed

subsection \<open>The loop\<close>

definition waiting_sends :: "body_context \<Rightarrow> nat list \<Rightarrow> (nat \<times> string outgoing) list \<Rightarrow> (nat \<times> send_values) list" where
  "waiting_sends C included os =
     map (\<lambda>(i, o'). (i, select_values (bx_ext C) (og_select o') (as_json (bx_values C))))
       (filter (\<lambda>(i, o'). i \<in> set included \<and> \<not> sends_at_once o' \<and> \<not> is_logger (og_tx o')) os)"

lemma send_outgoing_effect:
  assumes "send_outgoing C E included os blocked e = (blocked', e')"
  shows "blocked' = blocked @ waiting_sends C included os \<and>
    (\<exists>errs. ef_stats e' = ef_stats e @ error_stats C errs \<and>
       (\<forall>r \<in> set errs. \<exists>(i, o') \<in> set os. i \<in> set included \<and> sends_at_once o' \<and>
          Inl r \<in> set (select_values (bx_ext C) (og_select o') (as_json (bx_values C))))) \<and>
    (\<forall>k. (\<forall>(i, o') \<in> set os. i \<in> set included \<and> sends_at_once o' \<longrightarrow> og_tx o' \<noteq> ToProvider k) \<longrightarrow>
       ef_channels e' k = ef_channels e k)"
  using assms
proof (induction os arbitrary: blocked e)
  case Nil
  then show ?case by (auto simp: waiting_sends_def intro: exI [of _ "[]"])
next
  case (Cons io os)
  obtain i o' where io: "io = (i, o')" by fastforce
  let ?vs = "select_values (bx_ext C) (og_select o') (as_json (bx_values C))"
  show ?case
  proof (cases "i \<in> set included \<and> sends_at_once o'")
    case True
    obtain x where x: "\<forall>r. fst x = Some r \<longrightarrow> Inl r \<in> set ?vs" "\<forall>k. og_tx o' \<noteq> ToProvider k \<longrightarrow> snd x k = ef_channels e k"
      "send_outgoing C E included os blocked (after_values C x e) = (blocked', e')"
    proof (cases "get_send_behavior (og_select o')")
      case Force
      show ?thesis
        by (rule that [of "force_values E (og_tx o') ?vs (ef_channels e)"])
          (use force_values_error [of E "og_tx o'" ?vs "ef_channels e"] True Force Cons.prems in
            \<open>auto simp: io Let_def prod_eq_iff\<close>)
    next
      case IfNotFull
      show ?thesis
        by (rule that [of "if_not_full_values E (og_tx o') ?vs (ef_channels e)"])
          (use if_not_full_values_error [of E "og_tx o'" ?vs "ef_channels e"] True IfNotFull Cons.prems in
            \<open>auto simp: io Let_def prod_eq_iff\<close>)
    qed (use True in \<open>simp add: sends_at_once_def\<close>)
    from after_values_effect [OF x(1,2), of C] obtain errs1 where
      1: "ef_stats (after_values C x e) = ef_stats e @ error_stats C errs1" "Inl ` set errs1 \<subseteq> set ?vs"
        "\<forall>k. og_tx o' \<noteq> ToProvider k \<longrightarrow> ef_channels (after_values C x e) k = ef_channels e k" by blast
    from Cons.IH [OF x(3)] obtain errs2 where
      2: "blocked' = blocked @ waiting_sends C included os"
        "ef_stats e' = ef_stats (after_values C x e) @ error_stats C errs2"
        "\<forall>r \<in> set errs2. \<exists>(i, o') \<in> set os. i \<in> set included \<and> sends_at_once o' \<and>
          Inl r \<in> set (select_values (bx_ext C) (og_select o') (as_json (bx_values C)))"
        "\<forall>k. (\<forall>(i, o') \<in> set os. i \<in> set included \<and> sends_at_once o' \<longrightarrow> og_tx o' \<noteq> ToProvider k) \<longrightarrow>
          ef_channels e' k = ef_channels (after_values C x e) k" by blast
    have "waiting_sends C included (io # os) = waiting_sends C included os" using True by (simp add: waiting_sends_def io)
    moreover have "\<forall>r \<in> set (errs1 @ errs2). \<exists>(i, o') \<in> set (io # os). i \<in> set included \<and> sends_at_once o' \<and>
        Inl r \<in> set (select_values (bx_ext C) (og_select o') (as_json (bx_values C)))"
      using 1(2) 2(3) True by (auto simp: io)
    ultimately show ?thesis
      using 1 2 True by (intro conjI exI [of _ "errs1 @ errs2"]) (auto simp: io)
  next
    case False
    obtain e1 where e1: "ef_stats e1 = ef_stats e" "ef_channels e1 = ef_channels e"
      "send_outgoing C E included os (blocked @ waiting_sends C included [io]) e1 = (blocked', e')"
    proof (cases "i \<in> set included \<and> is_logger (og_tx o')")
      case True
      with False Cons.prems show ?thesis
        by (intro that [of "push_future (SendToLogger i ?vs) e"])
          (auto simp: io waiting_sends_def sends_at_once_def Let_def split: send_options.splits)
    next
      case other: False
      with False Cons.prems show ?thesis
        by (intro that [of e]) (auto simp: io waiting_sends_def sends_at_once_def Let_def split: send_options.splits if_splits)
    qed
    have "waiting_sends C included (io # os) = waiting_sends C included [io] @ waiting_sends C included os"
      by (simp add: waiting_sends_def)
    with Cons.IH [OF e1(3)] e1(1,2) show ?thesis by fastforce
  qed
qed

subsection \<open>The whole handler\<close>

lemma handle_body_counts:
  assumes "tv' = body_values tv rtt result" "tags = evaluate_tags X tag_templates (as_json tv')"
    and "e = handle_body X E now rtt tag_templates delays outgoing included status tv result auto_returns channels"
  shows "\<exists>errs. ef_stats e = provider_delays_log now tags delays @
      map (\<lambda>r. now_stat now tags (RecoverableStat r) None) errs @ [now_stat now tags (ResponseKind status) (Some rtt)] \<and>
    (case result of
       Inl r \<Rightarrow> errs = [r] \<and> ef_channels e = channels
     | Inr _ \<Rightarrow>
         (\<forall>r \<in> set errs. \<exists>(i, o') \<in> set (enumerate 0 outgoing). i \<in> set included \<and> sends_at_once o' \<and>
            Inl r \<in> set (select_values X (og_select o') (as_json tv'))) \<and>
         (\<forall>k. (\<forall>(i, o') \<in> set (enumerate 0 outgoing). i \<in> set included \<and> sends_at_once o' \<longrightarrow> og_tx o' \<noteq> ToProvider k) \<longrightarrow>
            ef_channels e k = channels k))"
proof -
  let ?C = "\<lparr>bx_ext = X, bx_now = now, bx_outgoing = outgoing, bx_tags = tags, bx_values = tv'\<rparr>"
  let ?e = "\<lparr>ef_channels = channels, ef_stats = provider_delays_log now tags delays,
    ef_futures = (if auto_returns then [AutoReturns] else [])\<rparr>"
  have run: "e = send_response_stat ?C (ResponseKind status) (Some rtt) (case result of
      Inl r \<Rightarrow> send_response_stat ?C (RecoverableStat r) None ?e
    | Inr _ \<Rightarrow> (let (blocked, e) = send_outgoing ?C E included (enumerate 0 outgoing) [] ?e
        in if blocked = [] then e else push_future (SendBlocked blocked) e))"
    unfolding assms(3) handle_body_def Let_def assms(1,2) ..
  show ?thesis
  proof (cases result)
    case (Inl r)
    with run show ?thesis by (intro exI [of _ "[r]"]) simp
  next
    case (Inr b)
    obtain blocked e1 where sent: "send_outgoing ?C E included (enumerate 0 outgoing) [] ?e = (blocked, e1)" by fastforce
    have e: "ef_stats e = ef_stats e1 @ [now_stat now tags (ResponseKind status) (Some rtt)]" "ef_channels e = ef_channels e1"
      unfolding run Inr by (simp_all add: sent)
    from send_outgoing_effect [OF sent] obtain errs where
      errs: "ef_stats e1 = provider_delays_log now tags delays @ error_stats ?C errs"
        "\<forall>r \<in> set errs. \<exists>(i, o') \<in> set (enumerate 0 outgoing). i \<in> set included \<and> sends_at_once o' \<and>
          Inl r \<in> set (select_values X (og_select o') (as_json tv'))"
      and chans: "\<forall>k. (\<forall>(i, o') \<in> set (enumerate 0 outgoing). i \<in> set included \<and> sends_at_once o' \<longrightarrow> og_tx o' \<noteq> ToProvider k) \<longrightarrow>
          ef_channels e1 k = channels k" by fastforce
    show ?thesis
      by (rule exI [of _ errs]) (use e errs chans Inr in \<open>simp add: error_stats_def\<close>)
  qed
qed

text \<open>
  C6. Every complete response is counted once, with its status and its time, after the delays of its providers and the
  errors it has met, also when its body could not be read: then it is counted as an error too and nothing is sent. An
  error that is counted is the body's or one in the values of an included select that sends at once; what the selects
  that block or log fail with is not counted. The channels of all other providers are left alone.
\<close>

theorem response_counted:
  assumes "tv' = body_values tv rtt result" "tags = evaluate_tags X tag_templates (as_json tv')"
    and "e = handle_body X E now rtt tag_templates delays outgoing included status tv result auto_returns channels"
  shows "\<exists>errs. ef_stats e = provider_delays_log now tags delays @
      map (\<lambda>r. now_stat now tags (RecoverableStat r) None) errs @ [now_stat now tags (ResponseKind status) (Some rtt)] \<and>
    (case result of
       Inl r \<Rightarrow> errs = [r] \<and> ef_channels e = channels
     | Inr _ \<Rightarrow>
         (\<forall>r \<in> set errs. \<exists>(i, o') \<in> set (enumerate 0 outgoing). i \<in> set included \<and> sends_at_once o' \<and>
            Inl r \<in> set (select_values X (og_select o') (as_json tv'))) \<and>
         (\<forall>k. (\<forall>(i, o') \<in> set (enumerate 0 outgoing). i \<in> set included \<and> sends_at_once o' \<longrightarrow> og_tx o' \<noteq> ToProvider k) \<longrightarrow>
            ef_channels e k = channels k))"
  by (rule handle_body_counts [OF assms])

theorem response_counted_witness:
  "\<forall>X E chans. ef_stats (handle_body X E 7 1000 [] [''p''] [] [] 404 [] (Inl (BodyErr ''cut'')) False chans) =
    [now_stat 7 [] (RecoverableStat (ProviderDelay ''p'')) None, now_stat 7 [] (RecoverableStat (BodyErr ''cut'')) None,
     now_stat 7 [] (ResponseKind 404) (Some 1000)]"
proof (intro allI)
  fix X E chans
  have "[] = evaluate_tags X [] (as_json (body_values [] 1000 (Inl (BodyErr ''cut''))))" by (simp add: evaluate_tags_def)
  from response_counted [OF refl this refl, of E 7 "[''p'']" "[]" "[]" 404 False chans]
  show "ef_stats (handle_body X E 7 1000 [] [''p''] [] [] 404 [] (Inl (BodyErr ''cut'')) False chans) =
    [now_stat 7 [] (RecoverableStat (ProviderDelay ''p'')) None, now_stat 7 [] (RecoverableStat (BodyErr ''cut'')) None,
     now_stat 7 [] (ResponseKind 404) (Some 1000)]"
    by (auto simp: provider_delays_log_def)
qed

end
