(* ===== verification/RequestMaker.thy ===== *)
theory RequestMaker
  imports BodyHandler
begin

text \<open>
  A request from its values to its end: \<open>RequestMaker::send_request\<close> of \<open>src/request/request_maker.rs\<close>. The parsed URL
  of the \<open>url\<close> crate is what its accessors give (\<open>url_parts\<close>); whether a request can be built, and how its path and
  version are written, is asked of the \<open>http\<close> crate (\<open>build\<close>); what comes of sending it is an argument, and so is what
  comes of the futures of the body handler. \<open>None\<close> is a panic.
\<close>

record url_parts =
  u_scheme :: string
  u_fragment :: "string option"
  u_host_str :: "string option"
  u_domain :: "string option"
  u_href :: string
  u_origin :: string
  u_password :: "string option"
  u_path :: string
  u_port :: "nat option"
  u_query :: "string option"
  u_query_pairs :: "(string \<times> string) list"
  u_username :: string

record request_ext =
  q_http :: http_ext
  q_parse_url :: "string \<Rightarrow> url_parts option"
  q_build :: "http_method \<Rightarrow> url_parts \<Rightarrow> string + string option \<times> string"
  q_to_text :: "string \<Rightarrow> string"
  q_files :: file_system
  q_boundary :: string

record request_maker =
  rm_url :: template
  rm_method :: http_method
  rm_headers :: "(string \<times> template) list"
  rm_body :: body_template
  rm_rr_providers :: u16
  rm_precheck_rr_providers :: u16
  rm_no_auto_returns :: bool
  rm_outgoing :: "string outgoing list"
  rm_tags :: "(string \<times> template) list"
  rm_timeout :: duration

definition request_maker_of :: "built_endpoint \<Rightarrow> request_maker" where
  "request_maker_of b =
     \<lparr>rm_url = b_url b, rm_method = b_method b, rm_headers = b_headers b, rm_body = b_body b,
      rm_rr_providers = b_rr_providers b, rm_precheck_rr_providers = b_precheck_rr_providers b,
      rm_no_auto_returns = b_no_auto_returns b, rm_outgoing = all_outgoing b, rm_tags = b_tags b, rm_timeout = b_timeout b\<rparr>"

subsection \<open>The values of a request\<close>

record request_values =
  rv_values :: template_values
  rv_auto_returns :: "auto_return list"
  rv_target :: "instant option"
  rv_delays :: "string list"

definition request_values_start :: request_values where
  "request_values_start = \<lparr>rv_values = template_values_new, rv_auto_returns = [], rv_target = None, rv_delays = []\<rparr>"

text \<open>A value that came after the time its request was due has delayed it.\<close>

definition note_delay :: "string \<Rightarrow> instant \<Rightarrow> request_values \<Rightarrow> request_values" where
  "note_delay name i r =
     (case rv_target r of
        Some target \<Rightarrow> if target < i then r\<lparr>rv_delays := rv_delays r @ [name]\<rparr> else r
      | None \<Rightarrow> r)"

fun take_value :: "bool \<Rightarrow> stream_item \<Rightarrow> request_values \<Rightarrow> request_values" where
  "take_value no_auto_returns (InstantItem next_trigger) r = r\<lparr>rv_target := next_trigger\<rparr>"
| "take_value no_auto_returns (DeclareItem name v returns i) r =
     (let r = note_delay name i r
      in r\<lparr>rv_values := obj_insert name v (rv_values r), rv_auto_returns := rv_auto_returns r @ returns\<rparr>)"
| "take_value no_auto_returns NoneItem r = r"
| "take_value no_auto_returns (TemplateValueItem name v auto_return i) r =
     (let r = note_delay name i r; r = r\<lparr>rv_values := obj_insert name v (rv_values r)\<rparr> in
      case (auto_return, no_auto_returns) of
        (Some ar, False) \<Rightarrow> r\<lparr>rv_auto_returns := rv_auto_returns r @ [ar]\<rparr>
      | _ \<Rightarrow> r)"

definition take_values :: "bool \<Rightarrow> stream_item list \<Rightarrow> request_values" where
  "take_values no_auto_returns items = fold (take_value no_auto_returns) items request_values_start"

subsection \<open>The URL and the headers\<close>

definition request_url :: "expr_ext \<Rightarrow> request_ext \<Rightarrow> template \<Rightarrow> template_values \<Rightarrow> test_error + url_parts" where
  "request_url X Q url tv =
     res_bind (or_exec_err (evaluate_template X url (Borrowed (as_json tv)) None)) (\<lambda>text.
     case q_parse_url Q text of Some u \<Rightarrow> Inr u | None \<Rightarrow> Inl (InvalidUrl text))"

definition request_headers ::
    "expr_ext \<Rightarrow> request_ext \<Rightarrow> (string \<times> template) list \<Rightarrow> template_values \<Rightarrow> test_error + header_map" where
  "request_headers X Q hs tv = collect_res (map (piece_header X (q_http Q) tv) hs)"

text \<open>The host and the content length; a URL without a host, or with one that is no header value, panics.\<close>

definition final_headers :: "request_ext \<Rightarrow> url_parts \<Rightarrow> nat \<Rightarrow> header_map \<Rightarrow> header_map option" where
  "final_headers Q url content_length hs =
     Option.bind (u_host_str url) (\<lambda>host.
     case h_value (q_http Q) host of
       Inl _ \<Rightarrow> None
     | Inr host \<Rightarrow>
         (let hs = headers_insert ''host'' host hs
          in Some (if 0 < content_length then headers_insert ''content-length'' (nat_to_string content_length) hs else hs)))"

subsection \<open>\<open>request\<close> for expressions\<close>

definition or_empty :: "string option \<Rightarrow> string" where
  "or_empty s = (case s of Some s \<Rightarrow> s | None \<Rightarrow> [])"

definition url_json :: "url_parts \<Rightarrow> json" where
  "url_json u = JObject
     [(''hash'', JString (case u_fragment u of Some s \<Rightarrow> ''#'' @ s | None \<Rightarrow> [])),
      (''host'', JString (or_empty (u_host_str u))),
      (''hostname'', JString (or_empty (u_domain u))),
      (''href'', JString (u_href u)),
      (''origin'', JString (u_origin u)),
      (''password'', JString (or_empty (u_password u))),
      (''pathname'', JString (u_path u)),
      (''port'', JString (case u_port u of Some n \<Rightarrow> nat_to_string n | None \<Rightarrow> [])),
      (''protocol'', JString (if u_scheme u = [] then [] else u_scheme u @ '':'')),
      (''search'', JString (case u_query u of Some s \<Rightarrow> ''?'' @ s | None \<Rightarrow> [])),
      (''searchParams'', JObject (obj_collect (map (\<lambda>(k, v). (k, JString v)) (u_query_pairs u)))),
      (''username'', JString (u_username u))]"

definition start_line :: "http_method \<Rightarrow> string option \<times> string \<Rightarrow> string" where
  "start_line method = (\<lambda>(path_and_query, version).
     method_to_string method @ '' '' @ (case path_and_query of Some p \<Rightarrow> p | None \<Rightarrow> ''/'') @ '' '' @ version)"

definition add_entry :: "bool \<Rightarrow> string \<Rightarrow> json \<Rightarrow> json_object \<Rightarrow> json_object" where
  "add_entry wanted k v ob = (if wanted then obj_insert k v ob else ob)"

definition request_object ::
    "request_ext \<Rightarrow> request_maker \<Rightarrow> url_parts \<Rightarrow> string option \<times> string \<Rightarrow> header_map \<Rightarrow> string option \<Rightarrow> json_object" where
  "request_object Q rm url built hs body_copy =
     (let rr = rm_rr_providers rm;
          ob = add_entry (rr AND REQUEST_URL = REQUEST_URL) ''url'' (url_json url) [];
          ob = add_entry (rr AND REQUEST_STARTLINE \<noteq> 0) ''start-line'' (JString (start_line (rm_method rm) built)) ob;
          ob = add_entry (rr AND REQUEST_HEADERS \<noteq> 0) ''headers'' (JObject (headers_object (q_to_text Q) hs)) ob;
          ob = add_entry (rr AND REQUEST_HEADERS_ALL \<noteq> 0) ''headers_all'' (JObject (headers_all_object (q_to_text Q) hs)) ob;
          ob = add_entry (rr AND REQUEST_BODY \<noteq> 0) ''body'' (JString (or_empty body_copy)) ob
      in obj_insert ''method'' (JString (method_to_string (rm_method rm))) ob)"

subsection \<open>Errors that do not end the test\<close>

text \<open>The response and the timer are polled together; the timer goes first.\<close>

definition request_poll :: "bool \<Rightarrow> 'r poll \<Rightarrow> (unit + 'r) poll" where
  "request_poll timed_out response =
     (if timed_out then Ready (Inl ()) else case response of Ready r \<Rightarrow> Ready (Inr r) | Pending \<Rightarrow> Pending)"

datatype http_outcome = TimedOut system_time | ConnectionFailed system_time string | Responded response

definition timeout_in_micros :: "duration \<Rightarrow> u64" where
  "timeout_in_micros d = word_of_nat (d div 1000)"

text \<open>The tags come from the values before the response; the loggers get the error.\<close>

definition recover ::
    "expr_ext \<Rightarrow> request_maker \<Rightarrow> template_values \<Rightarrow> system_time \<Rightarrow> recoverable_error \<Rightarrow>
     response_stat \<times> (nat \<times> send_values) list" where
  "recover X rm tv now r =
     (let tags = evaluate_tags X (rm_tags rm) (as_json tv);
          logs = (if has_logger (rm_outgoing rm)
                  then logger_values X (rm_outgoing rm) (as_json (obj_insert ''error'' (error_json r) tv)) else []);
          time = (case r of Timeout t \<Rightarrow> t | ConnectionErr t _ \<Rightarrow> t | _ \<Rightarrow> now);
          rtt = (case r of Timeout _ \<Rightarrow> Some (timeout_in_micros (rm_timeout rm)) | _ \<Rightarrow> None)
      in (now_stat time tags (RecoverableStat r) rtt, logs))"

subsection \<open>The whole request\<close>

record ('h, 'd, 'q, 'ev) request_effects =
  rq_headers :: header_map
  rq_body :: body_stream
  rq_channels :: "('h, 'd, 'q, 'ev) channels"
  rq_stats :: "response_stat list"
  rq_futures :: "body_future list"

text \<open>
  How a request ends for its endpoint: with an error, which ends the test; given up before it was sent, which nothing
  tells; or made. In the last two cases the endpoint goes on once the auto-returns are done.
\<close>

datatype ('h, 'd, 'q, 'ev) request_end =
    RequestError test_error
  | RequestGivenUp test_error
  | RequestMade "('h, 'd, 'q, 'ev) request_effects"

text \<open>What the response handler and the body handler make of a response.\<close>

definition respond ::
    "expr_ext \<Rightarrow> request_ext \<Rightarrow> 'r decompressor \<Rightarrow> (string \<Rightarrow> string option) \<Rightarrow> (string \<Rightarrow> json option) \<Rightarrow>
     (json, 'h, 'd, 'q, 'ev) chan_ext \<Rightarrow> request_maker \<Rightarrow> request_values \<Rightarrow> system_time \<Rightarrow> u64 \<Rightarrow> template_values \<Rightarrow> response \<Rightarrow>
     ('h, 'd, 'q, 'ev) channels \<Rightarrow> (recoverable_error + ('h, 'd, 'q, 'ev) body_effects) option" where
  "respond X Q D from_utf8 from_str E rm rv now rtt tv resp channels =
     (case handle_response X (q_to_text Q) (rm_rr_providers rm) (rm_precheck_rr_providers rm) resp (rm_outgoing rm) tv of
        Inl r \<Rightarrow> Some (Inl r)
      | Inr (included, added, tv') \<Rightarrow>
          map_option (\<lambda>result.
              Inr (handle_body X E now rtt (rm_tags rm) (rv_delays rv) (rm_outgoing rm) included (rp_status resp) tv' result
                (rv_auto_returns rv \<noteq> []) channels))
            (response_body (q_http Q) D from_utf8 from_str added resp))"

definition request_made ::
    "expr_ext \<Rightarrow> request_ext \<Rightarrow> 'r decompressor \<Rightarrow> (string \<Rightarrow> string option) \<Rightarrow> (string \<Rightarrow> json option) \<Rightarrow>
     (json, 'h, 'd, 'q, 'ev) chan_ext \<Rightarrow> (body_future list \<Rightarrow> recoverable_error + unit) \<Rightarrow> request_maker \<Rightarrow> request_values \<Rightarrow>
     system_time \<Rightarrow> u64 \<Rightarrow> http_outcome \<Rightarrow> template_values \<Rightarrow> header_map \<Rightarrow> body_stream \<Rightarrow>
     ('h, 'd, 'q, 'ev) channels \<Rightarrow> ('h, 'd, 'q, 'ev) request_effects option" where
  "request_made X Q D from_utf8 from_str E await rm rv now rtt outcome tv hs body channels =
     (let failed = (\<lambda>r channels stats futures.
            case recover X rm tv now r of (stat, logs) \<Rightarrow>
              \<lparr>rq_headers = hs, rq_body = body, rq_channels = channels, rq_stats = stats @ [stat],
               rq_futures = futures @ map (\<lambda>(i, vs). SendToLogger i vs) logs\<rparr>) in
      case outcome of
        TimedOut t \<Rightarrow> Some (failed (Timeout t) channels [] [])
      | ConnectionFailed t e \<Rightarrow> Some (failed (ConnectionErr t e) channels [] [])
      | Responded resp \<Rightarrow>
          map_option (\<lambda>r. case r of
              Inl r \<Rightarrow> failed r channels [] []
            | Inr e \<Rightarrow>
                (case await (ef_futures e) of
                   Inl r \<Rightarrow> failed r (ef_channels e) (ef_stats e) (ef_futures e)
                 | Inr _ \<Rightarrow> \<lparr>rq_headers = hs, rq_body = body, rq_channels = ef_channels e, rq_stats = ef_stats e,
                     rq_futures = ef_futures e\<rparr>))
            (respond X Q D from_utf8 from_str E rm rv now rtt tv resp channels))"

definition send_request ::
    "expr_ext \<Rightarrow> request_ext \<Rightarrow> 'r decompressor \<Rightarrow> (string \<Rightarrow> string option) \<Rightarrow> (string \<Rightarrow> json option) \<Rightarrow>
     (json, 'h, 'd, 'q, 'ev) chan_ext \<Rightarrow> (body_future list \<Rightarrow> recoverable_error + unit) \<Rightarrow> request_maker \<Rightarrow> stream_item list \<Rightarrow>
     system_time \<Rightarrow> u64 \<Rightarrow> http_outcome \<Rightarrow> ('h, 'd, 'q, 'ev) channels \<Rightarrow> ('h, 'd, 'q, 'ev) request_end option" where
  "send_request X Q D from_utf8 from_str E await rm items now rtt outcome channels =
     (let rv = take_values (rm_no_auto_returns rm) items; tv = rv_values rv in
      case request_url X Q (rm_url rm) tv of
        Inl e \<Rightarrow> Some (RequestError e)
      | Inr url \<Rightarrow>
          (case request_headers X Q (rm_headers rm) tv of
             Inl e \<Rightarrow> Some (RequestError e)
           | Inr hs \<Rightarrow>
               (case body_template_as_hyper_body X (q_http Q) (q_to_text Q) (q_files Q) (q_boundary Q) (rm_body rm) tv
                       (rm_rr_providers rm AND REQUEST_BODY \<noteq> 0) hs of
                  (hs, copy, Inl e) \<Rightarrow> Some (RequestGivenUp e)
                | (hs, copy, Inr (content_length, body)) \<Rightarrow>
                    (case q_build Q (rm_method rm) url of
                       Inl e \<Rightarrow> Some (RequestGivenUp (RequestBuilderErr e))
                     | Inr built \<Rightarrow>
                         Option.bind (final_headers Q url content_length hs) (\<lambda>hs.
                           let tv = obj_insert ''request'' (JObject (request_object Q rm url built hs copy)) tv
                           in map_option RequestMade
                                (request_made X Q D from_utf8 from_str E await rm rv now rtt outcome tv hs body channels))))))"

end
