(* ===== verification/RequestProps.thy ===== *)
theory RequestProps
  imports RequestMaker BodyProps Multipart
begin

text \<open>
  How a request can end: which errors end the test, which nobody hears of, and what the statistics get of a request that
  was sent.
\<close>

definition is_response_stat :: "response_stat \<Rightarrow> bool" where
  "is_response_stat rs = (case rs_kind rs of ResponseKind _ \<Rightarrow> True | RecoverableStat _ \<Rightarrow> False)"

definition response_stats :: "response_stat list \<Rightarrow> response_stat list" where
  "response_stats = filter is_response_stat"

lemma response_stats_simps [simp]:
  "response_stats [] = []"
  "response_stats (xs @ ys) = response_stats xs @ response_stats ys"
  "response_stats [now_stat now tags (RecoverableStat r) rtt] = []"
  "response_stats [now_stat now tags (ResponseKind s) rtt] = [now_stat now tags (ResponseKind s) rtt]"
  by (simp_all add: response_stats_def is_response_stat_def now_stat_def)

lemma response_stats_errors [simp]:
  "response_stats (map (\<lambda>r. now_stat now tags (RecoverableStat r) None) errs) = []"
  "response_stats (provider_delays_log now tags delays) = []"
  by (induction errs; induction delays)
    (simp_all add: response_stats_def is_response_stat_def now_stat_def provider_delays_log_def)

lemma recover_no_response [simp]: "response_stats [fst (recover X rm tv now r)] = []"
  by (simp add: recover_def Let_def)

text \<open>The response and body handlers count the response once, unless a \<open>where\<close> clause has failed before.\<close>

lemma respond_counts:
  assumes "respond X Q D from_utf8 from_str E rm rv now rtt tv resp channels = Some (Inr e)"
  shows "\<exists>tags. response_stats (ef_stats e) = [now_stat now tags (ResponseKind (rp_status resp)) (Some rtt)]"
proof -
  from assms obtain included added tv' result where
    e: "e = handle_body X E now rtt (rm_tags rm) (rv_delays rv) (rm_outgoing rm) included (rp_status resp) tv' result
      (rv_auto_returns rv \<noteq> []) channels"
    by (auto simp: respond_def split: sum.splits prod.splits)
  from handle_body_counts [OF refl refl e] obtain errs where
    "ef_stats e = provider_delays_log now (evaluate_tags X (rm_tags rm) (as_json (body_values tv' rtt result))) (rv_delays rv) @
      map (\<lambda>r. now_stat now (evaluate_tags X (rm_tags rm) (as_json (body_values tv' rtt result))) (RecoverableStat r) None) errs @
      [now_stat now (evaluate_tags X (rm_tags rm) (as_json (body_values tv' rtt result))) (ResponseKind (rp_status resp)) (Some rtt)]"
    by blast
  then have "response_stats (ef_stats e) = [now_stat now (evaluate_tags X (rm_tags rm) (as_json (body_values tv' rtt result)))
      (ResponseKind (rp_status resp)) (Some rtt)]" by simp
  then show ?thesis by (rule exI)
qed

lemma respond_where:
  assumes "respond X Q D from_utf8 from_str E rm rv now rtt tv resp channels = Some (Inl r)"
  shows "handle_response X (q_to_text Q) (rm_rr_providers rm) (rm_precheck_rr_providers rm) resp (rm_outgoing rm) tv = Inl r"
  using assms by (auto simp: respond_def split: sum.splits prod.splits)

text \<open>What a request that has been sent leaves in the statistics.\<close>

definition sent_request_counted ::
    "request_ext \<Rightarrow> request_maker \<Rightarrow> u64 \<Rightarrow> http_outcome \<Rightarrow> ('h, 'd, 'q, 'ev) channels \<Rightarrow> ('h, 'd, 'q, 'ev) request_effects \<Rightarrow> bool" where
  "sent_request_counted Q rm rtt outcome channels e \<longleftrightarrow>
     (case outcome of
        TimedOut t \<Rightarrow> rq_channels e = channels \<and>
          (\<exists>tags. rq_stats e = [now_stat t tags (RecoverableStat (Timeout t)) (Some (timeout_in_micros (rm_timeout rm)))])
      | ConnectionFailed t err \<Rightarrow> rq_channels e = channels \<and>
          (\<exists>tags. rq_stats e = [now_stat t tags (RecoverableStat (ConnectionErr t err)) None])
      | Responded resp \<Rightarrow>
          (\<exists>now tags. response_stats (rq_stats e) = [now_stat now tags (ResponseKind (rp_status resp)) (Some rtt)]) \<or>
          rq_channels e = channels \<and> (\<exists>now tags r. rq_stats e = [now_stat now tags (RecoverableStat (ExecutingExpression r)) None]))"

lemma included_error:
  "included_outgoing X to_text rr pre resp i os s = Inl r \<Longrightarrow> \<exists>e. r = ExecutingExpression e"
  by (induction X to_text rr pre resp i os s rule: included_outgoing.induct)
    (auto simp: Let_def split: sum.splits bool.splits if_splits)

lemma request_made_counted:
  assumes "request_made X Q D from_utf8 from_str E await rm rv now rtt outcome tv hs body channels = Some e"
  shows "sent_request_counted Q rm rtt outcome channels e"
proof (cases outcome)
  case (Responded resp)
  then obtain r where r: "respond X Q D from_utf8 from_str E rm rv now rtt tv resp channels = Some r"
    using assms by (auto simp: request_made_def Let_def)
  show ?thesis
  proof (cases r)
    case (Inl err)
    with r respond_where obtain x where "err = ExecutingExpression x"
      unfolding handle_response_def Let_def by (metis included_error)
    with Inl r assms Responded show ?thesis
      by (auto simp: request_made_def Let_def sent_request_counted_def recover_def case_prod_beta simp del: ex_simps) blast
  next
    case (Inr ef)
    from respond_counts [OF r [unfolded Inr]] obtain tags where
      "response_stats (ef_stats ef) = [now_stat now tags (ResponseKind (rp_status resp)) (Some rtt)]" by blast
    moreover have "\<exists>rest. rq_stats e = ef_stats ef @ rest \<and> response_stats rest = []"
      using assms Responded r Inr
      by (auto simp: request_made_def Let_def case_prod_beta split: sum.splits)
    ultimately have "response_stats (rq_stats e) = [now_stat now tags (ResponseKind (rp_status resp)) (Some rtt)]" by auto
    then show ?thesis unfolding sent_request_counted_def Responded http_outcome.case by blast
  qed
qed (use assms in \<open>auto simp: request_made_def Let_def sent_request_counted_def recover_def case_prod_beta\<close>)


text \<open>A request without a body to a host that never answers.\<close>

definition plain_url :: url_parts where
  "plain_url = \<lparr>u_scheme = ''http'', u_fragment = None, u_host_str = Some ''h'', u_domain = Some ''h'', u_href = ''http://h/'',
     u_origin = ''http://h'', u_password = None, u_path = ''/'', u_port = None, u_query = None, u_query_pairs = [], u_username = []\<rparr>"

definition plain_request_ext :: request_ext where
  "plain_request_ext = \<lparr>q_http = plain_http, q_parse_url = (\<lambda>_. Some plain_url),
     q_build = (\<lambda>_ _. Inr (Some ''/'', ''HTTP/1.1'')), q_to_text = id, q_files = no_files, q_boundary = ''b''\<rparr>"

definition plain_request :: request_maker where
  "plain_request = \<lparr>rm_url = text_template ''http://h/'', rm_method = GET, rm_headers = [], rm_body = TemplateNone,
     rm_rr_providers = 0, rm_precheck_rr_providers = 0, rm_no_auto_returns = False, rm_outgoing = [], rm_tags = [],
     rm_timeout = 2000\<rparr>"


end
