(* ===== verification/LoadRun.thy ===== *)
theory LoadRun
  imports Providers Endpoint LoadPattern RequestBody Stats
begin

text \<open>
  What a test is made of before it starts (\<open>src/lib.rs\<close>): the options of a run and of a try run, the providers and the
  loggers of the configuration, and the future of a load test. Tasks and threads that are spawned are results here;
  \<open>File::create\<close> and the TLS connector are arguments that give their error or nothing. \<open>None\<close> is a panic.
\<close>

subsection \<open>The options\<close>

definition run_output_format_of :: "string \<Rightarrow> unit + run_output_format" where
  "run_output_format_of s = (if s = ''human'' then Inr Human else if s = ''json'' then Inr JsonOutput else Inl ())"

definition is_human :: "run_output_format \<Rightarrow> bool" where
  "is_human f = (case f of Human \<Rightarrow> True | JsonOutput \<Rightarrow> False)"

datatype stats_file_format = StatsJson

datatype try_run_format = TryHuman | TryJson

definition try_run_format_default :: try_run_format where
  "try_run_format_default = TryHuman"

definition try_run_format_of :: "string \<Rightarrow> unit + try_run_format" where
  "try_run_format_of s = (if s = ''human'' then Inr TryHuman else if s = ''json'' then Inr TryJson else Inl ())"

record run_config =
  rc_config_file :: string
  rc_output_format :: run_output_format
  rc_results_dir :: "string option"
  rc_start_at :: "duration option"
  rc_stats_file :: string
  rc_stats_file_format :: stats_file_format
  rc_watch_config_file :: bool

datatype try_filter = FilterEq string string | FilterNe string string

record try_config =
  tc_config_file :: string
  tc_file :: "string option"
  tc_filters :: "try_filter list option"
  tc_format :: try_run_format
  tc_loggers_on :: bool
  tc_results_dir :: "string option"

datatype exec_config = ExecRun run_config | ExecTry try_config

fun get_config_file :: "exec_config \<Rightarrow> string" where
  "get_config_file (ExecRun r) = rc_config_file r"
| "get_config_file (ExecTry t) = tc_config_file t"

fun get_output_format :: "exec_config \<Rightarrow> run_output_format" where
  "get_output_format (ExecRun r) = rc_output_format r"
| "get_output_format (ExecTry t) = Human"

subsection \<open>\<open>get_providers_from_config\<close>\<close>

text \<open>A size for automatic buffers that is not the default one replaces theirs.\<close>

definition auto_sized :: "nat \<Rightarrow> buffer_limit \<Rightarrow> buffer_limit" where
  "auto_sized auto_size b =
     (if auto_size \<noteq> default_auto_buffer_start_size
      then case b of DynamicLimit _ \<Rightarrow> DynamicLimit auto_size | StaticLimit n \<Rightarrow> StaticLimit n
      else b)"

text \<open>What fills a provider with values: nothing but responses, a list of values, or the reader of a file.\<close>

datatype ('a, 'b, 'c) provider_task =
    NoTask
  | FillFrom listener "nat \<Rightarrow> json option"
  | ReadFrom listener "('a, 'b, 'c) either3"

record ('h, 'd, 'q, 'ev, 'a, 'b, 'c) provider_env =
  pe_chan :: "(json, 'h, 'd, 'q, 'ev) chan_ext"
  pe_hasher :: 'h
  pe_csv_new :: "file_provider \<Rightarrow> string \<Rightarrow> io_error + 'a"
  pe_json_new :: "file_provider \<Rightarrow> string \<Rightarrow> io_error + 'b"
  pe_line_new :: "file_provider \<Rightarrow> string \<Rightarrow> io_error + 'c"
  pe_shuffle :: "json list \<Rightarrow> json list"
  pe_sample :: "nat \<Rightarrow> nat"

type_synonym ('h, 'd, 'q, 'ev, 'a, 'b, 'c) made_provider =
  "('h, 'd, 'q, 'ev) provider_state \<times> ('a, 'b, 'c) provider_task"

definition provider_from_config ::
    "('h, 'd, 'q, 'ev, 'a, 'b, 'c) provider_env \<Rightarrow> nat \<Rightarrow> string \<Rightarrow> string \<Rightarrow> provider \<Rightarrow>
     (test_error + ('h, 'd, 'q, 'ev, 'a, 'b, 'c) made_provider) option" where
  "provider_from_config V auto_size config_path name p =
     (case p of
        FileProvider f \<Rightarrow>
          (let f = f\<lparr>fi_buffer := auto_sized auto_size (fi_buffer f), fi_path := tweak_path (fi_path f) config_path\<rparr>
           in Some (res_map (\<lambda>(ps, tx, source). (ps, ReadFrom tx source))
                (provider_file (pe_chan V) (pe_hasher V) (pe_csv_new V) (pe_json_new V) (pe_line_new V) f name)))
      | RangeProvider r \<Rightarrow>
          (case provider_range (pe_chan V) (pe_hasher V) r name of (ps, tx, vs) \<Rightarrow> Some (Inr (ps, FillFrom tx vs)))
      | ResponseProvider r \<Rightarrow>
          Some (Inr (provider_response (pe_chan V) (pe_hasher V) (r\<lparr>resp_buffer := auto_sized auto_size (resp_buffer r)\<rparr>) name,
            NoTask))
      | ListProvider l \<Rightarrow>
          map_option (\<lambda>(ps, tx, vs). Inr (ps, FillFrom tx vs))
            (provider_list (pe_chan V) (pe_hasher V) (pe_shuffle V) (pe_sample V) l name))"

definition is_response :: "provider \<Rightarrow> bool" where
  "is_response p = (case p of ResponseProvider _ \<Rightarrow> True | _ \<Rightarrow> False)"

text \<open>In the order of the names; the second list names the response providers.\<close>

fun get_providers_from_config ::
    "('h, 'd, 'q, 'ev, 'a, 'b, 'c) provider_env \<Rightarrow> nat \<Rightarrow> string \<Rightarrow> (string \<times> provider) list \<Rightarrow>
     (test_error + (string \<times> ('h, 'd, 'q, 'ev, 'a, 'b, 'c) made_provider) list \<times> string list) option" where
  "get_providers_from_config V auto_size config_path [] = Some (Inr ([], []))"
| "get_providers_from_config V auto_size config_path ((name, p) # ps) =
     (case provider_from_config V auto_size config_path name p of
        None \<Rightarrow> None
      | Some (Inl e) \<Rightarrow> Some (Inl e)
      | Some (Inr pv) \<Rightarrow>
          map_option (res_map (\<lambda>(pvs, responses).
              ((name, pv) # pvs, if is_response p then name # responses else responses)))
            (get_providers_from_config V auto_size config_path ps))"

subsection \<open>\<open>get_loggers_from_config\<close>\<close>

datatype log_writer = Stdout | Stderr | LogFile string

definition logger_writer :: "(string \<Rightarrow> io_error option) \<Rightarrow> string option \<Rightarrow> string \<Rightarrow> string \<Rightarrow> test_error + log_writer" where
  "logger_writer create results_dir name to =
     (if to = ''stdout'' then Inr Stdout
      else if to = ''stderr'' then Inr Stderr
      else
        (let path = path_push (case results_dir of Some d \<Rightarrow> d | None \<Rightarrow> []) to in
         case create path of
           Some e \<Rightarrow> Inl (CannotCreateLoggerFile name (io_error_text e))
         | None \<Rightarrow> Inr (LogFile path)))"

definition get_loggers_from_config ::
    "(string \<Rightarrow> io_error option) \<Rightarrow> string option \<Rightarrow> (string \<times> logger) list \<Rightarrow>
     test_error + (string \<times> log_writer logger_handle \<times> logger_limit) list" where
  "get_loggers_from_config create results_dir ls =
     collect_res (map (\<lambda>(name, l). res_map (\<lambda>w. (name, logger_of_config l w)) (logger_writer create results_dir name (lg_to' l))) ls)"

definition create_http_client :: "string option \<Rightarrow> test_error + unit" where
  "create_http_client tls = (case tls of Some e \<Rightarrow> Inl (SslError e) | None \<Rightarrow> Inr ())"

subsection \<open>\<open>create_load_test_future\<close>\<close>

definition hits_at :: "hits_per \<Rightarrow> f64 \<Rightarrow> per_x" where
  "hits_at peak_load percent =
     (case peak_load of
        PerMinute m \<Rightarrow> per_minute (f64_mul percent m)
      | PerSecond s \<Rightarrow> per_second (f64_mul percent s))"

fun append_pieces :: "hits_per \<Rightarrow> linear_builder_piece list \<Rightarrow> mod_interval \<Rightarrow> mod_interval option" where
  "append_pieces peak_load [] mi = Some mi"
| "append_pieces peak_load (piece # ps) mi =
     Option.bind (append_segment (hits_at peak_load (pc_start_percent piece)) (pc_duration piece)
         (hits_at peak_load (pc_end_percent piece)) mi)
       (append_pieces peak_load ps)"

definition endpoint_interval :: "endpoint \<Rightarrow> mod_stream option option" where
  "endpoint_interval e =
     (case (e_peak_load e, e_load_pattern e) of
        (Some peak_load, Some load_pattern) \<Rightarrow>
          map_option (\<lambda>mi. Some (LoadPattern.into_stream mi)) (append_pieces peak_load (lb_pieces load_pattern) mod_interval_new)
      | _ \<Rightarrow> Some None)"

text \<open>An \<open>EndpointBuilder\<close>: an endpoint with the stream of its start times.\<close>

definition endpoint_builder :: "endpoint \<Rightarrow> (endpoint \<times> mod_stream option) option" where
  "endpoint_builder e = map_option (\<lambda>interval. (e\<lparr>e_load_pattern := None\<rparr>, interval)) (endpoint_interval e)"

definition builder_build :: "builder_context \<Rightarrow> endpoint \<times> mod_stream option \<Rightarrow> built_endpoint option" where
  "builder_build ctx = (\<lambda>(e, start). endpoint_build e (map_option (\<lambda>_. StartPattern) start) ctx)"

fun all_some :: "'a option list \<Rightarrow> 'a list option" where
  "all_some [] = Some []"
| "all_some (x # xs) = Option.bind x (\<lambda>a. map_option ((#) a) (all_some xs))"

definition builder_context_of ::
    "config_settings \<Rightarrow> (string \<times> ('h, 'd, 'q, 'ev, 'a, 'b, 'c) made_provider) list \<Rightarrow>
     (string \<times> log_writer logger_handle \<times> logger_limit) list \<Rightarrow> builder_context" where
  "builder_context_of config providers loggers =
     \<lparr>bc_request_timeout = cc_request_timeout' (cs_client config),
      bc_providers = map (\<lambda>(name, p, _). (name, pr_auto_return p)) providers, bc_loggers = map fst loggers\<rparr>"

record load_run =
  lr_duration :: duration
  lr_endpoints :: "(built_endpoint \<times> mod_stream option) list"
  lr_loggers :: "(string \<times> log_writer logger_handle \<times> logger_limit) list"
  lr_message :: stats_item

text \<open>The result of a configuration's function for a test: a value or an error; the rest is no return.\<close>

definition config_result :: "'a yaml_result \<Rightarrow> (test_error + 'a) option" where
  "config_result r =
     (case r of Inr a \<Rightarrow> Some (Inr a) | Inl (Error e) \<Rightarrow> Some (Inl (test_error_of_config e)) | Inl _ \<Rightarrow> None)"

definition time_left :: "duration \<Rightarrow> duration option \<Rightarrow> duration" where
  "time_left duration start_at =
     (case start_at of
        Some t \<Rightarrow> (case dur_sub duration t of Some d \<Rightarrow> d | None \<Rightarrow> 0)
      | None \<Rightarrow> duration)"

definition create_load_test ::
    "(string \<Rightarrow> io_error option) \<Rightarrow> string option \<Rightarrow> run_config \<Rightarrow> load_test \<Rightarrow>
     (string \<times> ('h, 'd, 'q, 'ev, 'a, 'b, 'c) made_provider) list \<Rightarrow> (test_error + load_run) option" where
  "create_load_test create tls rc lt providers =
     Option.bind (config_result (ok_for_loadtest lt)) (\<lambda>ok.
     case ok of
       Inl e \<Rightarrow> Some (Inl e)
     | Inr _ \<Rightarrow>
         let duration = time_left (get_duration lt) (rc_start_at rc) in
         case get_loggers_from_config create (rc_results_dir rc) (l_loggers lt) of
           Inl e \<Rightarrow> Some (Inl e)
         | Inr loggers \<Rightarrow>
             Option.bind (all_some (map endpoint_builder (l_endpoints lt))) (\<lambda>builders.
             case create_http_client tls of
               Inl e \<Rightarrow> Some (Inl e)
             | Inr _ \<Rightarrow>
                 map_option (\<lambda>built. Inr \<lparr>lr_duration = duration, lr_endpoints = zip built (map snd builders),
                     lr_loggers = loggers, lr_message = StartMessage duration\<rparr>)
                   (all_some (map (builder_build (builder_context_of (l_config lt) providers loggers)) builders))))"

text \<open>
  A poll of a test: its endpoints first, then the signals of its end, then its duration. What it sends ends the test
  elsewhere.
\<close>

definition load_test_poll :: "(test_error + 'u) poll \<Rightarrow> bool \<Rightarrow> bool \<Rightarrow> unit poll \<times> 'p test_signal list" where
  "load_test_poll endpoints ended timed_out =
     (case endpoints of
        Ready r \<Rightarrow> (Ready (), [res_map (\<lambda>_. Completed) r])
      | Pending \<Rightarrow>
          if ended then (Ready (), [])
          else if timed_out then (Ready (), [Inr Completed])
          else (Pending, []))"

end
