(* ===== verification/TryRun.thy ===== *)
theory TryRun
  imports LoadRun
begin

text \<open>
  A try run (\<open>create_try_run_future\<close> and \<open>Endpoints\<close> of \<open>src/lib.rs\<close>): the logger that prints each request and
  response, the filters on the endpoints' tags, and which endpoints take part. Regular expressions are those of
  \<open>expr_ext\<close>; \<open>regex::escape\<close> is an argument.
\<close>

subsection \<open>Which endpoints take part\<close>

text \<open>
  What is collected of the endpoints: for each its tags, its builder and the providers it requires, and for each provider
  the places of the endpoints that provide it.
\<close>

record 'b endpoints =
  en_inner :: "((string \<times> string) list \<times> 'b \<times> string list) list"
  en_providers :: "(string \<times> nat list) list"

definition endpoints_new :: "'b endpoints" where
  "endpoints_new = \<lparr>en_inner = [], en_providers = []\<rparr>"

definition push_provider :: "nat \<Rightarrow> string \<Rightarrow> (string \<times> nat list) list \<Rightarrow> (string \<times> nat list) list" where
  "push_provider i p m = bt_insert p ((case map_of m p of Some is \<Rightarrow> is | None \<Rightarrow> []) @ [i]) m"

definition endpoints_append ::
    "(string \<times> string) list \<Rightarrow> 'b \<Rightarrow> string list \<Rightarrow> required_providers \<Rightarrow> 'b endpoints \<Rightarrow> 'b endpoints" where
  "endpoints_append tags builder provides needs en =
     (let i = length (en_inner en) in
      en\<lparr>en_inner := en_inner en @ [(tags, builder, unique_providers needs)],
         en_providers := fold (push_provider i) provides (en_providers en)\<rparr>)"

text \<open>
  The work of \<open>build\<close>: the endpoints not taken yet, whether the filter includes each, the providers nobody has asked
  for, the endpoints taken, each with whether another one needs what it provides, and the places still to look at.
\<close>

record 'b build_work =
  bw_endpoints :: "(nat \<times> bool \<times> 'b \<times> string list) list"
  bw_providers :: "(string \<times> nat list) list"
  bw_needed :: "(nat \<times> 'b \<times> bool) list"
  bw_queue :: "nat list"

definition ask_provider :: "string \<Rightarrow> 'b build_work \<Rightarrow> 'b build_work" where
  "ask_provider p w =
     (case map_of (bw_providers w) p of
        Some is \<Rightarrow> w\<lparr>bw_providers := bt_remove p (bw_providers w), bw_queue := bw_queue w @ is\<rparr>
      | None \<Rightarrow> w)"

definition visit_endpoint :: "string set \<Rightarrow> bool \<Rightarrow> nat \<Rightarrow> 'b build_work \<Rightarrow> 'b build_work" where
  "visit_endpoint response_providers bypass_filter i w =
     (case map_of (bw_endpoints w) i of
        Some (included, ep, needs) \<Rightarrow>
          if included \<or> bypass_filter
          then
            (let w = fold ask_provider (filter (\<lambda>p. p \<in> response_providers) needs)
                   (w\<lparr>bw_endpoints := bt_remove i (bw_endpoints w)\<rparr>)
             in w\<lparr>bw_needed := bt_insert i (ep, bypass_filter) (bw_needed w)\<rparr>)
          else w
      | None \<Rightarrow>
          (case map_of (bw_needed w) i of
             Some (ep, _) \<Rightarrow> w\<lparr>bw_needed := bt_insert i (ep, True) (bw_needed w)\<rparr>
           | None \<Rightarrow> w))"

text \<open>The places that wait, and those that a provider not asked for yet can still add.\<close>

definition work_left :: "'b build_work \<Rightarrow> nat" where
  "work_left w = length (bw_queue w) + sum_list (map (\<lambda>(_, is). length is) (bw_providers w))"

lemma work_left_remove:
  "map_of m p = Some is \<Longrightarrow> length is + sum_list (map (\<lambda>(_, is). length is) (bt_remove p m)) \<le> sum_list (map (\<lambda>(_, is). length is) m)"
  for m :: "(string \<times> nat list) list"
proof (induction m)
  case (Cons x m)
  have "sum_list (map (\<lambda>(_, is). length is) (bt_remove p m)) \<le> sum_list (map (\<lambda>(_, is). length is) m)"
    by (induction m) (auto simp: bt_remove_def)
  with Cons show ?case by (auto simp: bt_remove_def split: if_splits)
qed simp

lemma work_left_ask: "work_left (ask_provider p w) \<le> work_left w"
  using work_left_remove [of "bw_providers w" p] by (auto simp: ask_provider_def work_left_def split: option.splits)

lemma work_left_asks: "work_left (fold ask_provider ps w) \<le> work_left w"
  by (induction ps arbitrary: w) (auto intro: order.trans [OF _ work_left_ask])

lemma work_left_visit: "work_left (visit_endpoint responses bypass i w) \<le> work_left w"
proof -
  have "work_left (fold ask_provider ps (w\<lparr>bw_endpoints := es\<rparr>)) \<le> work_left w" for ps es
    using work_left_asks [of ps "w\<lparr>bw_endpoints := es\<rparr>"] by (simp add: work_left_def)
  then show ?thesis
    by (auto simp: visit_endpoint_def Let_def split: option.splits) (simp_all add: work_left_def)
qed

function drain_queue :: "string set \<Rightarrow> 'b build_work \<Rightarrow> 'b build_work" where
  "drain_queue responses w =
     (case bw_queue w of
        [] \<Rightarrow> w
      | i # rest \<Rightarrow> drain_queue responses (visit_endpoint responses True i (w\<lparr>bw_queue := rest\<rparr>)))"
  by pat_completeness auto
termination
proof (relation "measure (\<lambda>(_, w). work_left w)")
  fix responses :: "string set" and w :: "'b build_work" and i rest
  assume "bw_queue w = i # rest"
  then have "work_left (w\<lparr>bw_queue := rest\<rparr>) < work_left w" by (simp add: work_left_def)
  with work_left_visit [of responses True i "w\<lparr>bw_queue := rest\<rparr>"]
  show "((responses, visit_endpoint responses True i (w\<lparr>bw_queue := rest\<rparr>)), responses, w) \<in> measure (\<lambda>(_, w). work_left w)"
    by simp
qed simp

declare drain_queue.simps [simp del]

definition needed_endpoints :: "string set \<Rightarrow> (nat \<times> bool \<times> 'b \<times> string list) list \<Rightarrow> (string \<times> nat list) list \<Rightarrow>
    (nat \<times> 'b \<times> bool) list" where
  "needed_endpoints responses es providers =
     bw_needed (drain_queue responses
       (fold (visit_endpoint responses False) [0..<length es]
         \<lparr>bw_endpoints = es, bw_providers = providers, bw_needed = [], bw_queue = []\<rparr>))"

text \<open>An endpoint that nobody needs sends nothing to its providers and makes one request.\<close>

definition finish_endpoint :: "built_endpoint \<times> bool \<Rightarrow> built_endpoint" where
  "finish_endpoint = (\<lambda>(ep, provides_needed).
     if provides_needed then ep else add_start_stream StartOnce (clear_provides ep))"

definition endpoints_build ::
    "((string \<times> string) list \<Rightarrow> bool) \<Rightarrow> builder_context \<Rightarrow> string set \<Rightarrow> (endpoint \<times> mod_stream option) endpoints \<Rightarrow>
     built_endpoint list option" where
  "endpoints_build filter_fn ctx responses en =
     map_option (\<lambda>built. map (\<lambda>(_, e). finish_endpoint e) (needed_endpoints responses
         (enumerate 0 (map (\<lambda>((tags, _, needs), b). (filter_fn tags, b, needs)) (zip (en_inner en) built)))
         (en_providers en)))
       (all_some (map (\<lambda>(_, builder, _). builder_build ctx builder) (en_inner en)))"

subsection \<open>Filters\<close>

fun split_star :: "string \<Rightarrow> string list" where
  "split_star [] = [[]]"
| "split_star (c # cs) =
     (if c = CHR 0x2A then [] # split_star cs
      else case split_star cs of p # ps \<Rightarrow> (c # p) # ps | [] \<Rightarrow> [[c]])"

fun joined :: "string \<Rightarrow> string list \<Rightarrow> string" where
  "joined sep [] = []"
| "joined sep [p] = p"
| "joined sep (p # ps) = p @ sep @ joined sep ps"

definition filter_regex :: "(string \<Rightarrow> string) \<Rightarrow> string \<Rightarrow> string" where
  "filter_regex escape right = ''^'' @ joined ''.*?'' (map escape (split_star right)) @ ''$''"

definition compile_filter :: "expr_ext \<Rightarrow> (string \<Rightarrow> string) \<Rightarrow> try_filter \<Rightarrow> (bool \<times> string \<times> regex) option" where
  "compile_filter X escape f =
     (let (is_eq, key, right) = (case f of FilterEq key right \<Rightarrow> (True, key, right) | FilterNe key right \<Rightarrow> (False, key, right))
      in map_option (\<lambda>re. (is_eq, key, re)) (x_regex_new X (filter_regex escape right)))"

definition filter_fn :: "expr_ext \<Rightarrow> (bool \<times> string \<times> regex) list \<Rightarrow> (string \<times> string) list \<Rightarrow> bool" where
  "filter_fn X filters tags \<longleftrightarrow>
     filters = [] \<or>
     list_ex (\<lambda>(is_eq, key, re).
         let check = (case map_of tags key of Some left \<Rightarrow> x_captures X re left \<noteq> None | None \<Rightarrow> False)
         in if is_eq then check else \<not> check) filters"

subsection \<open>The logger of a try run\<close>

text \<open>Lines with \<open>~\<close>, \<open>^\<close> and \<open>%\<close> for a double quote, a backslash and a single quote.\<close>

definition marked_char :: "char \<Rightarrow> char" where
  "marked_char c = (if c = CHR 0x7E then CHR 0x22 else if c = CHR 0x5E then CHR 0x5C else if c = CHR 0x25 then CHR 0x27 else c)"

definition marked_text :: "string list \<Rightarrow> string" where
  "marked_text lines = map marked_char (joined [CHR 0x0A] lines)"

definition try_logger_select :: "try_run_format \<Rightarrow> string" where
  "try_logger_select f = marked_text (case f of
     TryHuman \<Rightarrow>
      [''~`^'',
      ''         Request^n^'',
      ''         ========================================^n^'',
      ''         ${request[%start-line%]}^n^'',
      ''         ${join(request.headers_all, %^n%, %: %)}^n^'',
      ''         ${if(request.body != %%, %^n${request.body}^n%, %%)}^n^'',
      ''         Response (RTT: ${stats.rtt}ms)^n^'',
      ''         ========================================^n^'',
      ''         ${response[%start-line%]}^n^'',
      ''         ${join(response.headers_all, %^n%, %: %)}^n^'',
      ''         ${if(response.body != %%, %^n${response.body}%, %%)}^n^n`~'']
   | TryJson \<Rightarrow>
      [''{'',
      ''            ~request~: {'',
      ''                ~start-line~: ~request[%start-line%]~,'',
      ''                ~headers~: ~request.headers_all~,'',
      ''                ~body~: ~request.body~'',
      ''            },'',
      ''            ~response~: {'',
      ''                ~start-line~: ~response[%start-line%]~,'',
      ''                ~headers~: ~response.headers_all~,'',
      ''                ~body~: ~response.body~'',
      ''            },'',
      ''            ~stats~: {'',
      ''                ~RTT~: ~stats.rtt~'',
      ''            }'',
      ''        })''])"

subsection \<open>\<open>create_try_run_future\<close>\<close>

definition btree_set :: "string list \<Rightarrow> string list" where
  "btree_set ks = map fst (fold (\<lambda>k. bt_insert k ()) ks [])"

text \<open>An endpoint for a try run: it waits for whom it provides, and works on demand.\<close>

definition try_endpoint :: "endpoint \<Rightarrow> endpoint" where
  "try_endpoint e =
     e\<lparr>e_required_providers := rp_new, e_provides := map (\<lambda>(k, s). (k, s\<lparr>sel_send_behavior := Block\<rparr>)) (e_provides e),
       e_on_demand := True\<rparr>"

definition provides_set :: "endpoint \<Rightarrow> string list" where
  "provides_set e = btree_set (filter (\<lambda>k. \<not> rp_contains (e_required_providers e) k) (map fst (e_provides e)))"

text \<open>The tags without expressions are known before the run.\<close>

definition static_tags :: "expr_ext \<Rightarrow> endpoint \<Rightarrow> exec_error + (string \<times> string) list" where
  "static_tags X e =
     collect_res (map (\<lambda>(k, t). res_map (\<lambda>v. (k, v)) (evaluate_template X t (Owned JNull) None)) (filter (\<lambda>(k, t). is_simple t) (e_tags e)))"

fun collect_endpoints :: "expr_ext \<Rightarrow> endpoint list \<Rightarrow> (endpoint \<times> mod_stream option) endpoints \<Rightarrow>
    test_error + (endpoint \<times> mod_stream option) endpoints" where
  "collect_endpoints X [] en = Inr en"
| "collect_endpoints X (e # es) en =
     res_bind (or_exec_err (static_tags X e)) (\<lambda>tags.
       collect_endpoints X es (endpoints_append tags (try_endpoint e, None) (provides_set e) (e_required_providers e) en))"

definition create_try_run ::
    "config_ext \<Rightarrow> nat \<Rightarrow> (string \<Rightarrow> string) \<Rightarrow> (string \<Rightarrow> io_error option) \<Rightarrow> string option \<Rightarrow>
     ('h, 'd, 'q, 'ev, 'a, 'b, 'c) provider_env \<Rightarrow> load_test \<Rightarrow> try_config \<Rightarrow> (test_error + built_endpoint list) option" where
  "create_try_run X F escape create tls V lt tc =
     (case logger_from_str X (try_logger_select (tc_format tc)) (case tc_file tc of Some f \<Rightarrow> f | None \<Rightarrow> ''stdout'') of
        Inl _ \<Rightarrow> None
      | Inr logger \<Rightarrow>
          let lt = (if tc_loggers_on tc then lt else clear_loggers lt) in
          Option.bind (config_result (add_logger X F ''try_run'' logger lt)) (\<lambda>r. case r of Inl e \<Rightarrow> Some (Inl e) | Inr lt \<Rightarrow>
          Option.bind (get_providers_from_config V (gc_auto_buffer_start_size (cs_general (l_config lt))) (tc_config_file tc)
              (l_providers lt)) (\<lambda>r. case r of Inl e \<Rightarrow> Some (Inl e) | Inr (providers, responses) \<Rightarrow>
          Option.bind (all_some (map (compile_filter (cx_ext X) escape) (case tc_filters tc of Some fs \<Rightarrow> fs | None \<Rightarrow> [])))
            (\<lambda>filters.
          case get_loggers_from_config create (tc_results_dir tc) (l_loggers lt) of
            Inl e \<Rightarrow> Some (Inl e)
          | Inr loggers \<Rightarrow>
              (case collect_endpoints (cx_ext X) (l_endpoints lt) endpoints_new of
                 Inl e \<Rightarrow> Some (Inl e)
               | Inr en \<Rightarrow>
                   (case create_http_client tls of
                      Inl e \<Rightarrow> Some (Inl e)
                    | Inr _ \<Rightarrow>
                        map_option Inr (endpoints_build (filter_fn (cx_ext X) filters)
                          (builder_context_of (l_config lt) providers loggers) (set responses) en)))))))"

text \<open>A poll of a try run: a signal that was missed is no signal.\<close>

definition try_run_test_poll :: "(test_error + 'u) poll \<Rightarrow> (unit + 'p test_signal) poll \<Rightarrow> unit poll \<times> 'p test_signal list" where
  "try_run_test_poll endpoints signal =
     (case endpoints of
        Ready r \<Rightarrow> (Ready (), [res_map (\<lambda>_. Completed) r])
      | Pending \<Rightarrow> (case signal of Ready (Inr _) \<Rightarrow> (Ready (), []) | _ \<Rightarrow> (Pending, [])))"

end
