(* ===== verification/TryRunProps.thy ===== *)
theory TryRunProps
  imports TryRun ExprEnv Multipart
begin

text \<open>
  The endpoints of a try run are the least set that has the ones the filters include and, for each endpoint in it, all
  that provide one of the response providers it requires. The worklist of \<open>Endpoints::build\<close> computes it.
\<close>

subsection \<open>The least set\<close>

type_synonym 'b work_item = "bool \<times> 'b \<times> string list"

definition feeds :: "string set \<Rightarrow> 'b work_item list \<Rightarrow> (string \<times> nat list) list \<Rightarrow> nat \<Rightarrow> nat \<Rightarrow> bool" where
  "feeds responses es provs j i \<longleftrightarrow>
     (\<exists>p\<in>set (snd (snd (es ! i))) \<inter> responses. \<exists>is. map_of provs p = Some is \<and> j \<in> set is)"

inductive needed :: "string set \<Rightarrow> 'b work_item list \<Rightarrow> (string \<times> nat list) list \<Rightarrow> nat \<Rightarrow> bool"
  for responses es provs where
  included: "i < length es \<Longrightarrow> fst (es ! i) \<Longrightarrow> needed responses es provs i"
| feeding: "needed responses es provs i \<Longrightarrow> feeds responses es provs j i \<Longrightarrow> needed responses es provs j"

definition pulled :: "string set \<Rightarrow> 'b work_item list \<Rightarrow> (string \<times> nat list) list \<Rightarrow> nat \<Rightarrow> bool" where
  "pulled responses es provs j \<longleftrightarrow> (\<exists>i. needed responses es provs i \<and> feeds responses es provs j i)"

lemma pulled_needed: "pulled responses es provs j \<Longrightarrow> needed responses es provs j"
  by (auto simp: pulled_def intro: needed.feeding)

definition places_ok :: "'b work_item list \<Rightarrow> (string \<times> nat list) list \<Rightarrow> bool" where
  "places_ok es provs \<longleftrightarrow> (\<forall>p is. map_of provs p = Some is \<longrightarrow> set is \<subseteq> {..<length es})"

lemma needed_bound: "places_ok es provs \<Longrightarrow> needed responses es provs i \<Longrightarrow> i < length es"
  by (erule needed.cases) (auto simp: places_ok_def feeds_def)

subsection \<open>Asking for providers\<close>

lemma map_of_bt_remove [simp]: "map_of (bt_remove k m) = (map_of m)(k := None)"
  by (induction m) (auto simp: bt_remove_def)

lemma fold_ask_frame [simp]:
  "bw_endpoints (fold ask_provider ps w) = bw_endpoints w"
  "bw_needed (fold ask_provider ps w) = bw_needed w"
  by (induction ps arbitrary: w) (simp_all add: ask_provider_def split: option.splits)

lemma ask_provider_providers: "map_of (bw_providers (ask_provider p w)) = (map_of (bw_providers w))(p := None)"
  by (auto simp: ask_provider_def fun_eq_iff split: option.splits)

lemma ask_provider_queue:
  "set (bw_queue (ask_provider p w)) = set (bw_queue w) \<union> {j. \<exists>is. map_of (bw_providers w) p = Some is \<and> j \<in> set is}"
  by (auto simp: ask_provider_def split: option.splits)

lemma fold_ask_providers:
  "map_of (bw_providers (fold ask_provider ps w)) p = (if p \<in> set ps then None else map_of (bw_providers w) p)"
  by (induction ps arbitrary: w) (simp_all add: ask_provider_providers)

lemma fold_ask_queue:
  "set (bw_queue (fold ask_provider ps w)) =
     set (bw_queue w) \<union> {j. \<exists>p\<in>set ps. \<exists>is. map_of (bw_providers w) p = Some is \<and> j \<in> set is}"
proof (induction ps arbitrary: w)
  case (Cons q ps)
  show ?case
    by (auto simp: Cons.IH ask_provider_queue ask_provider_providers split: if_splits)
qed simp

subsection \<open>The invariant of the worklist\<close>

definition asked :: "string set \<Rightarrow> 'b work_item list \<Rightarrow> nat set \<Rightarrow> string \<Rightarrow> bool" where
  "asked responses es N p \<longleftrightarrow> p \<in> responses \<and> (\<exists>i\<in>N. p \<in> set (snd (snd (es ! i))))"

abbreviation taken :: "'b build_work \<Rightarrow> nat set" where
  "taken w \<equiv> dom (map_of (bw_needed w))"

text \<open>\<open>P\<close> are the places taken off the queue that are not marked yet.\<close>

definition work_inv :: "string set \<Rightarrow> 'b work_item list \<Rightarrow> (string \<times> nat list) list \<Rightarrow> nat set \<Rightarrow> 'b build_work \<Rightarrow> bool" where
  "work_inv responses es provs P w \<longleftrightarrow>
     (\<forall>i. map_of (bw_endpoints w) i = (if i < length es \<and> i \<notin> taken w then Some (es ! i) else None)) \<and>
     (\<forall>i ep f. map_of (bw_needed w) i = Some (ep, f) \<longrightarrow>
        i < length es \<and> needed responses es provs i \<and> ep = fst (snd (es ! i)) \<and> (f \<longrightarrow> pulled responses es provs i)) \<and>
     (\<forall>p. map_of (bw_providers w) p = (if asked responses es (taken w) p then None else map_of provs p)) \<and>
     (\<forall>j\<in>P \<union> set (bw_queue w). pulled responses es provs j) \<and>
     (\<forall>i j. i \<in> taken w \<longrightarrow> feeds responses es provs j i \<longrightarrow>
        j \<in> P \<union> set (bw_queue w) \<or> (\<exists>ep. map_of (bw_needed w) j = Some (ep, True))) \<and>
     sorted_wrt (<) (map fst (bw_needed w))"

lemma work_inv_mark:
  assumes inv: "work_inv responses es provs P w" and i: "map_of (bw_needed w) i = Some (ep, f)" and p: "pulled responses es provs i"
  shows "work_inv responses es provs (P - {i}) (w\<lparr>bw_needed := bt_insert i (ep, True) (bw_needed w)\<rparr>)"
proof -
  have t: "taken (w\<lparr>bw_needed := bt_insert i (ep, True) (bw_needed w)\<rparr>) = taken w" using i by auto
  show ?thesis
    using inv i p bt_insert_sorted [of "bw_needed w" i "(ep, True)"]
    unfolding work_inv_def t by (auto split: if_splits) 
qed

definition take_endpoint :: "string set \<Rightarrow> nat \<Rightarrow> 'b \<Rightarrow> string list \<Rightarrow> bool \<Rightarrow> 'b build_work \<Rightarrow> 'b build_work" where
  "take_endpoint responses i ep needs bypass w =
     (let w = fold ask_provider (filter (\<lambda>p. p \<in> responses) needs) (w\<lparr>bw_endpoints := bt_remove i (bw_endpoints w)\<rparr>)
      in w\<lparr>bw_needed := bt_insert i (ep, bypass) (bw_needed w)\<rparr>)"

lemma asked_insert: "asked responses es (insert i N) p \<longleftrightarrow> p \<in> responses \<and> p \<in> set (snd (snd (es ! i))) \<or> asked responses es N p"
  by (auto simp: asked_def)

lemma work_inv_take:
  assumes inv: "work_inv responses es provs P w"
    and i: "map_of (bw_endpoints w) i = Some (inc, ep, needs)" "inc \<or> b"
    and b: "b \<longrightarrow> pulled responses es provs i" "\<not> b \<longrightarrow> i \<notin> P"
  shows "work_inv responses es provs (P - {i}) (take_endpoint responses i ep needs b w)"
proof -
  let ?w = "take_endpoint responses i ep needs b w"
  have fresh: "i < length es" "i \<notin> taken w" "es ! i = (inc, ep, needs)"
    using inv i by (auto simp: work_inv_def split: if_splits)
  have need: "needed responses es provs i"
    using b(1) i(2) fresh needed.included [of i es responses provs] pulled_needed by fastforce
  have t: "taken ?w = insert i (taken w)" by (auto simp: take_endpoint_def Let_def)
  have ends: "map_of (bw_endpoints ?w) = (map_of (bw_endpoints w))(i := None)"
    and prov: "map_of (bw_providers ?w) p = (if p \<in> responses \<and> p \<in> set needs then None else map_of (bw_providers w) p)"
    and nd: "bw_needed ?w = bt_insert i (ep, b) (bw_needed w)" for p
    by (auto simp: take_endpoint_def Let_def fold_ask_providers)
  have q: "set (bw_queue ?w) = set (bw_queue w) \<union>
      {j. \<exists>p\<in>set needs \<inter> responses. \<exists>is. map_of (bw_providers w) p = Some is \<and> j \<in> set is}"
    by (auto simp: take_endpoint_def Let_def fold_ask_queue)
  have wp: "map_of (bw_providers w) p = (if asked responses es (taken w) p then None else map_of provs p)" for p
    using inv by (simp add: work_inv_def)
  have pulled: "\<forall>j\<in>P - {i} \<union> set (bw_queue ?w). pulled responses es provs j"
  proof -
    have "feeds responses es provs j i" if "p \<in> set needs \<inter> responses" "map_of (bw_providers w) p = Some is" "j \<in> set is" for p "is" j
      using that fresh(3) by (auto simp: feeds_def wp split: if_splits)
    then show ?thesis using inv need unfolding q by (fastforce simp: work_inv_def pulled_def)
  qed
  have fed: "j \<in> P - {i} \<union> set (bw_queue ?w) \<or> (\<exists>ep. map_of (bw_needed ?w) j = Some (ep, True))"
    if k: "k \<in> taken ?w" "feeds responses es provs j k" for k j
  proof -
    from k(2) obtain p "is" where p: "p \<in> set (snd (snd (es ! k)))" "p \<in> responses" "map_of provs p = Some is" "j \<in> set is"
      by (auto simp: feeds_def)
    have old: "j \<in> P \<union> set (bw_queue w) \<or> (\<exists>ep. map_of (bw_needed w) j = Some (ep, True))" if "k' \<in> taken w" "p \<in> set (snd (snd (es ! k')))" for k'
      using inv that p unfolding work_inv_def feeds_def by blast
    show ?thesis
    proof (cases "asked responses es (taken w) p")
      case True
      then obtain k' where "k' \<in> taken w" "p \<in> set (snd (snd (es ! k')))" by (auto simp: asked_def)
      from old [OF this] fresh(2) b(2) show ?thesis by (auto simp: nd q)
    next
      case False
      with k(1) p t fresh(3) have "p \<in> set needs" by (auto simp: asked_def)
      with False p wp show ?thesis by (auto simp: q)
    qed
  qed
  have "sorted_wrt (<) (map fst (bw_needed ?w))"
    using inv by (simp add: nd bt_insert_sorted work_inv_def)
  moreover have "\<forall>k. map_of (bw_endpoints ?w) k = (if k < length es \<and> k \<notin> taken ?w then Some (es ! k) else None)"
    using inv unfolding t ends by (auto simp: work_inv_def)
  moreover have "\<forall>p. map_of (bw_providers ?w) p = (if asked responses es (taken ?w) p then None else map_of provs p)"
    unfolding t prov asked_insert wp by (auto simp: fresh(3))
  moreover have "\<forall>k e f. map_of (bw_needed ?w) k = Some (e, f) \<longrightarrow>
      k < length es \<and> needed responses es provs k \<and> e = fst (snd (es ! k)) \<and> (f \<longrightarrow> pulled responses es provs k)"
    using inv need fresh b(1) unfolding nd by (auto simp: work_inv_def)
  ultimately show ?thesis using pulled fed unfolding work_inv_def by blast
qed

lemma visit_endpoint_eq:
  "visit_endpoint responses b i w =
     (case map_of (bw_endpoints w) i of
        Some (inc, ep, needs) \<Rightarrow> if inc \<or> b then take_endpoint responses i ep needs b w else w
      | None \<Rightarrow>
          (case map_of (bw_needed w) i of
             Some (ep, _) \<Rightarrow> w\<lparr>bw_needed := bt_insert i (ep, True) (bw_needed w)\<rparr>
           | None \<Rightarrow> w))"
  by (simp add: visit_endpoint_def take_endpoint_def split: option.split)

lemma visit_taken: "taken w \<subseteq> taken (visit_endpoint responses b i w)"
  by (auto simp: visit_endpoint_eq take_endpoint_def Let_def split: option.splits)

lemma visit_pulled:
  assumes "work_inv responses es provs P w" "pulled responses es provs i" "places_ok es provs"
  shows "work_inv responses es provs (P - {i}) (visit_endpoint responses True i w)"
proof (cases "map_of (bw_endpoints w) i")
  case (Some x)
  obtain inc ep needs where x: "x = (inc, ep, needs)" by (cases x)
  from work_inv_take [OF assms(1) Some [unfolded x], of True] assms(2) show ?thesis
    by (simp add: visit_endpoint_eq Some x)
next
  case None
  from assms needed_bound pulled_needed have "i < length es" by blast
  with None assms(1) obtain ep f where i: "map_of (bw_needed w) i = Some (ep, f)"
    by (auto simp: work_inv_def split: if_splits)
  from work_inv_mark [OF assms(1) this assms(2)] show ?thesis by (simp add: visit_endpoint_eq None i)
qed

lemma visit_first:
  assumes "work_inv responses es provs {} w" "i < length es" "i \<notin> taken w"
  shows "work_inv responses es provs {} (visit_endpoint responses False i w) \<and>
    taken (visit_endpoint responses False i w) = taken w \<union> (if fst (es ! i) then {i} else {})"
proof -
  obtain inc ep needs where x: "es ! i = (inc, ep, needs)" by (cases "es ! i")
  have i: "map_of (bw_endpoints w) i = Some (inc, ep, needs)" using assms x by (simp add: work_inv_def)
  from work_inv_take [OF assms(1) i, of False] assms(1) show ?thesis
    by (auto simp: visit_endpoint_eq i x take_endpoint_def Let_def)
qed

lemma first_pass:
  assumes "work_inv responses es provs {} w" "taken w = {}" "k \<le> length es"
  shows "work_inv responses es provs {} (fold (visit_endpoint responses False) [0..<k] w) \<and>
    taken (fold (visit_endpoint responses False) [0..<k] w) = {i. i < k \<and> fst (es ! i)}"
  using assms(3)
proof (induction k)
  case 0
  then show ?case using assms by simp
next
  case (Suc k)
  let ?w = "fold (visit_endpoint responses False) [0..<k] w"
  have "work_inv responses es provs {} ?w" "taken ?w = {i. i < k \<and> fst (es ! i)}" using Suc by auto
  with visit_first [of responses es provs ?w k] Suc.prems show ?case by (auto simp: less_Suc_eq)
qed

lemma drain_queue_inv:
  assumes "work_inv responses es provs {} w" "places_ok es provs"
  shows "work_inv responses es provs {} (drain_queue responses w) \<and> bw_queue (drain_queue responses w) = [] \<and>
    taken w \<subseteq> taken (drain_queue responses w)"
  using assms(1)
proof (induction responses w rule: drain_queue.induct)
  case (1 responses w)
  show ?case
  proof (cases "bw_queue w")
    case Nil
    then show ?thesis using 1 by (simp add: drain_queue.simps [of responses w])
  next
    case (Cons i rest)
    let ?w = "w\<lparr>bw_queue := rest\<rparr>"
    have "work_inv responses es provs {i} ?w" "pulled responses es provs i"
      using "1.prems" Cons by (auto simp: work_inv_def)
    from visit_pulled [OF this assms(2)] have inv: "work_inv responses es provs {} (visit_endpoint responses True i ?w)" by simp
    from "1.IH" [OF Cons this] visit_taken [of ?w responses True i] show ?thesis
      by (simp add: drain_queue.simps [of responses w] Cons) blast
  qed
qed

lemma needed_in_closed:
  assumes "needed responses es provs i" "\<And>i. i < length es \<Longrightarrow> fst (es ! i) \<Longrightarrow> i \<in> N"
    "\<And>i j. i \<in> N \<Longrightarrow> feeds responses es provs j i \<Longrightarrow> j \<in> N"
  shows "i \<in> N"
  using assms by (induction rule: needed.induct) auto

lemma work_inv_entry:
  assumes "work_inv responses es provs P w" "map_of (bw_needed w) k = Some (ep, f)"
  shows "k < length es \<and> needed responses es provs k \<and> ep = fst (snd (es ! k)) \<and> (f \<longrightarrow> pulled responses es provs k)"
  using assms unfolding work_inv_def by blast

lemma work_inv_fed:
  assumes "work_inv responses es provs P w" "k \<in> taken w" "feeds responses es provs j k"
  shows "j \<in> P \<union> set (bw_queue w) \<or> (\<exists>ep. map_of (bw_needed w) j = Some (ep, True))"
  using assms unfolding work_inv_def by blast

lemma work_inv_sorted: "work_inv responses es provs P w \<Longrightarrow> sorted_wrt (<) (map fst (bw_needed w))"
  by (simp add: work_inv_def)

text \<open>What the worklist computes.\<close>

lemma needed_endpoints_map:
  assumes "places_ok es provs"
  shows "map_of (needed_endpoints responses (enumerate 0 es) provs) i =
      (if needed responses es provs i then Some (fst (snd (es ! i)), pulled responses es provs i) else None)"
    and "sorted_wrt (<) (map fst (needed_endpoints responses (enumerate 0 es) provs))"
proof -
  let ?init = "\<lparr>bw_endpoints = enumerate 0 es, bw_providers = provs, bw_needed = [], bw_queue = []\<rparr>"
  let ?first = "fold (visit_endpoint responses False) [0..<length es] ?init"
  let ?w = "drain_queue responses ?first"
  have "map_of (enumerate 0 es) k = (if k < length es then Some (es ! k) else None)" for k
    by (auto simp: map_of_eq_None_iff in_set_enumerate_eq intro!: map_of_is_SomeI)
  then have "work_inv responses es provs {} ?init" by (simp add: work_inv_def asked_def)
  from first_pass [OF this _ order.refl] have w1: "work_inv responses es provs {} ?first" "taken ?first = {i. i < length es \<and> fst (es ! i)}"
    by auto
  from drain_queue_inv [OF w1(1) assms] w1(2) have w: "work_inv responses es provs {} ?w" "bw_queue ?w = []"
    "\<And>i. i < length es \<Longrightarrow> fst (es ! i) \<Longrightarrow> i \<in> taken ?w" by auto
  have fed: "\<exists>ep. map_of (bw_needed ?w) j = Some (ep, True)" if "k \<in> taken ?w" "feeds responses es provs j k" for j k
    using work_inv_fed [OF w(1) that] w(2) by simp
  have all: "k \<in> taken ?w" if "needed responses es provs k" for k
    using needed_in_closed [OF that w(3)] fed by blast
  have entry: "needed responses es provs k \<and> ep = fst (snd (es ! k)) \<and> (f \<longrightarrow> pulled responses es provs k)"
    if "map_of (bw_needed ?w) k = Some (ep, f)" for k ep f
    using work_inv_entry [OF w(1) that] by blast
  show "map_of (needed_endpoints responses (enumerate 0 es) provs) i =
      (if needed responses es provs i then Some (fst (snd (es ! i)), pulled responses es provs i) else None)"
  proof (cases "needed responses es provs i")
    case True
    from all [OF this] obtain x where "map_of (bw_needed ?w) i = Some x" by auto
    then obtain ep f where e: "map_of (bw_needed ?w) i = Some (ep, f)" by (cases x) auto
    have "f" if "pulled responses es provs i"
      using that fed [of _ i] all e unfolding pulled_def by fastforce
    with entry [OF e] True e show ?thesis by (auto simp: needed_endpoints_def)
  next
    case False
    with entry show ?thesis by (auto simp: needed_endpoints_def) (metis not_Some_eq prod.exhaust)
  qed
  show "sorted_wrt (<) (map fst (needed_endpoints responses (enumerate 0 es) provs))"
    using work_inv_sorted [OF w(1)] by (simp add: needed_endpoints_def)
qed

lemma needed_endpoints_list:
  assumes "places_ok es provs"
  shows "needed_endpoints responses (enumerate 0 es) provs =
    map (\<lambda>i. (i, fst (snd (es ! i)), pulled responses es provs i)) (filter (needed responses es provs) [0..<length es])"
    (is "?l = map ?f ?is")
proof -
  note l = needed_endpoints_map [OF assms, of responses]
  have "set (map fst ?l) = dom (map_of ?l)" by (simp add: dom_map_of_conv_image_fst)
  also have "\<dots> = set ?is" using needed_bound [OF assms] by (auto simp: l(1) split: if_splits)
  finally have "map fst ?l = ?is"
    using l(2) by (intro sorted_distinct_set_unique) (simp_all add: strict_sorted_iff sorted_wrt_filter)
  moreover have "distinct (map fst ?l)" using l(2) by (simp add: strict_sorted_iff)
  then have "x = ?f (fst x)" if "x \<in> set ?l" for x
    using that l(1) [of "fst x"] by (cases x) (auto split: if_splits)
  then have "?l = map ?f (map fst ?l)" by (simp add: map_idI)
  ultimately show ?thesis by simp
qed

subsection \<open>The endpoints of a configuration\<close>

text \<open>In the terms of the configuration: what an endpoint requires and what it provides to others.\<close>

definition wants :: "string set \<Rightarrow> endpoint \<Rightarrow> string \<Rightarrow> bool" where
  "wants responses e p \<longleftrightarrow> p \<in> responses \<and> rp_contains (e_required_providers e) p"

definition offers :: "endpoint \<Rightarrow> string \<Rightarrow> bool" where
  "offers e p \<longleftrightarrow> p \<in> fst ` set (e_provides e) \<and> \<not> rp_contains (e_required_providers e) p"

definition serves :: "string set \<Rightarrow> endpoint list \<Rightarrow> nat \<Rightarrow> nat \<Rightarrow> bool" where
  "serves responses es j i \<longleftrightarrow> j < length es \<and> (\<exists>p. wants responses (es ! i) p \<and> offers (es ! j) p)"

inductive takes_part :: "(endpoint \<Rightarrow> bool) \<Rightarrow> string set \<Rightarrow> endpoint list \<Rightarrow> nat \<Rightarrow> bool" for inc responses es where
  matching: "i < length es \<Longrightarrow> inc (es ! i) \<Longrightarrow> takes_part inc responses es i"
| serving: "takes_part inc responses es i \<Longrightarrow> serves responses es j i \<Longrightarrow> takes_part inc responses es j"

lemma btree_set_set [simp]: "set (btree_set ks) = set ks"
proof -
  have "bt_keys (fold (\<lambda>k. bt_insert k ()) ks m) = set ks \<union> bt_keys m" for m :: "(string \<times> unit) list"
    by (induction ks arbitrary: m) auto
  then show ?thesis by (simp add: btree_set_def)
qed

lemma provides_set_offers: "p \<in> set (provides_set e) \<longleftrightarrow> offers e p"
  by (auto simp: provides_set_def offers_def image_iff) 

lemma unique_providers_contains: "p \<in> set (unique_providers rp) \<longleftrightarrow> rp_contains rp p"
  by (auto simp: unique_providers_def rp_contains_def map_of_eq_None_iff)

lemma push_providers:
  "map_of (fold (push_provider i) ps m) p =
     (if p \<in> set ps then Some ((case map_of m p of Some is \<Rightarrow> is | None \<Rightarrow> []) @ replicate (count_list ps p) i) else map_of m p)"
  by (induction ps arbitrary: m) (auto simp: push_provider_def replicate_app_Cons_same split: option.split)

lemma push_providers_places:
  "(\<exists>is. map_of (fold (push_provider i) ps m) p = Some is \<and> j \<in> set is) \<longleftrightarrow>
     (\<exists>is. map_of m p = Some is \<and> j \<in> set is) \<or> j = i \<and> p \<in> set ps"
  by (cases "map_of m p") (auto simp: push_providers count_list_0_iff)

text \<open>What \<open>collect_endpoints\<close> has of the endpoints before.\<close>

definition collected :: "expr_ext \<Rightarrow> endpoint list \<Rightarrow> (endpoint \<times> mod_stream option) endpoints \<Rightarrow> bool" where
  "collected X es en \<longleftrightarrow>
     list_all2 (\<lambda>e (tags, b, needs). static_tags X e = Inr tags \<and> b = (try_endpoint e, None) \<and>
       needs = unique_providers (e_required_providers e)) es (en_inner en) \<and>
     (\<forall>p j. (\<exists>is. map_of (en_providers en) p = Some is \<and> j \<in> set is) \<longleftrightarrow> j < length es \<and> offers (es ! j) p)"

lemma collected_append:
  assumes "collected X es en" "static_tags X e = Inr tags"
  shows "collected X (es @ [e]) (endpoints_append tags (try_endpoint e, None) (provides_set e) (e_required_providers e) en)"
proof -
  have len: "length (en_inner en) = length es" using assms(1) by (auto simp: collected_def dest: list_all2_lengthD)
  show ?thesis
    using assms unfolding collected_def endpoints_append_def Let_def len
    by (simp add: push_providers_places provides_set_offers list_all2_appendI less_Suc_eq nth_append) auto
qed

lemma collect_endpoints_collected:
  "collect_endpoints X es en = Inr en' \<Longrightarrow> collected X es0 en \<Longrightarrow> collected X (es0 @ es) en'"
proof (induction es arbitrary: es0 en)
  case (Cons e es)
  then obtain tags where t: "static_tags X e = Inr tags"
    and r: "collect_endpoints X es (endpoints_append tags (try_endpoint e, None) (provides_set e) (e_required_providers e) en) = Inr en'"
    by (auto simp: res_bind_eq_Inr or_exec_err_def split: sum.splits)
  from Cons.IH [OF r collected_append [OF Cons.prems(2) t]] show ?case by simp
qed simp

lemma all_some_eq: "all_some xs = Some ys \<longleftrightarrow> xs = map Some ys"
  by (induction xs arbitrary: ys) (auto simp: Option.bind_eq_Some_conv Cons_eq_map_conv)

definition included_by :: "expr_ext \<Rightarrow> ((string \<times> string) list \<Rightarrow> bool) \<Rightarrow> endpoint \<Rightarrow> bool" where
  "included_by X incl e = (case static_tags X e of Inr tags \<Rightarrow> incl tags | Inl _ \<Rightarrow> False)"

lemma needed_takes_part:
  assumes len: "length items = length es" and fst: "\<And>i. i < length es \<Longrightarrow> fst (items ! i) = inc (es ! i)"
    and feeds: "\<And>i j. i < length es \<Longrightarrow> feeds responses items provs j i \<longleftrightarrow> serves responses es j i"
    and ok: "places_ok items provs"
  shows "needed responses items provs i \<longleftrightarrow> takes_part inc responses es i"
proof
  show "takes_part inc responses es i" if "needed responses items provs i"
    using that
  proof (induction rule: needed.induct)
    case (feeding i j)
    then show ?case using feeds needed_bound [OF ok] len by (metis serving)
  qed (simp add: len fst matching)
  have bound: "k < length es" if "takes_part inc responses es k" for k
    using that by cases (auto simp: serves_def)
  show "needed responses items provs i" if "takes_part inc responses es i"
    using that
  proof (induction rule: takes_part.induct)
    case (serving i j)
    then show ?case using feeds bound needed.feeding by blast
  qed (simp add: len fst needed.included)
qed

text \<open>
  C2. The endpoints of a try run are exactly those that the filter includes and those that provide a response provider
  which one of them requires, and so on; each once, in the order of the configuration. An endpoint keeps what it sends
  to its providers if one that takes part requires it; the others send nothing and make one request.
\<close>

theorem try_run_endpoints:
  assumes "collect_endpoints X es endpoints_new = Inr en" "endpoints_build incl ctx responses en = Some bs"
    and "takes = takes_part (included_by X incl) responses es"
  shows "\<exists>b. (\<forall>i<length es. builder_build ctx (try_endpoint (es ! i), None) = Some (b i)) \<and>
    bs = map (\<lambda>i. finish_endpoint (b i, \<exists>k. takes k \<and> serves responses es i k)) (filter takes [0..<length es])"
proof -
  have "collected X [] endpoints_new" by (simp add: collected_def endpoints_new_def)
  from collect_endpoints_collected [OF assms(1) this] have en: "collected X es en" by simp
  let ?provs = "en_providers en"
  have inner: "static_tags X (es ! i) = Inr (fst (en_inner en ! i)) \<and> fst (snd (en_inner en ! i)) = (try_endpoint (es ! i), None) \<and>
      snd (snd (en_inner en ! i)) = unique_providers (e_required_providers (es ! i))" if "i < length es" for i
    using en that by (auto simp: collected_def list_all2_conv_all_nth split: prod.splits)
      (metis fst_conv snd_conv prod.collapse)+
  have len: "length (en_inner en) = length es" using en by (auto simp: collected_def dest: list_all2_lengthD)
  from assms(2) obtain built where b: "map (\<lambda>(_, builder, _). builder_build ctx builder) (en_inner en) = map Some built"
    and bs: "bs = map (\<lambda>(_, e). finish_endpoint e) (needed_endpoints responses
      (enumerate 0 (map (\<lambda>((tags, _, needs), b). (incl tags, b, needs)) (zip (en_inner en) built))) ?provs)"
    by (auto simp: endpoints_build_def all_some_eq)
  let ?items = "map (\<lambda>((tags, _, needs), b). (incl tags, b, needs)) (zip (en_inner en) built)"
  have lb: "length built = length es" using b len by (metis length_map)
  have item: "?items ! i = (included_by X incl (es ! i), built ! i, unique_providers (e_required_providers (es ! i)))"
    if "i < length es" for i
    using that inner [OF that] len lb by (simp add: included_by_def case_prod_beta)
  have build: "builder_build ctx (try_endpoint (es ! i), None) = Some (built ! i)" if "i < length es" for i
    using arg_cong [OF b, of "\<lambda>xs. xs ! i"] that inner [OF that] len lb by (simp add: case_prod_beta)
  have places: "(\<exists>is. map_of ?provs p = Some is \<and> j \<in> set is) \<longleftrightarrow> j < length es \<and> offers (es ! j) p" for p j
    using en by (simp add: collected_def)
  have ok: "places_ok ?items ?provs" using places lb len by (fastforce simp: places_ok_def)
  have feeds: "feeds responses ?items ?provs j i \<longleftrightarrow> serves responses es j i" if "i < length es" for i j
    using item [OF that] places by (auto simp: feeds_def serves_def wants_def unique_providers_contains)
  have takes: "needed responses ?items ?provs i = takes i" for i
    unfolding assms(3) by (rule needed_takes_part [OF _ _ feeds ok]) (simp_all add: len lb item del: nth_map)
  have bound: "i < length es" if "takes i" for i
    using needed_bound [OF ok] that len lb unfolding takes [symmetric] by simp
  have "pulled responses ?items ?provs i \<longleftrightarrow> (\<exists>k. takes k \<and> serves responses es i k)" for i
    using feeds bound by (auto simp: pulled_def takes)
  then have "bs = map (\<lambda>i. finish_endpoint (built ! i, \<exists>k. takes k \<and> serves responses es i k)) (filter takes [0..<length es])"
    unfolding bs needed_endpoints_list [OF ok] by (simp add: len lb takes [abs_def] item del: nth_map)
  with build show ?thesis by blast
qed

text \<open>Two endpoints, of which the second provides what the first requires, and a filter that includes the first.\<close>

definition bare_endpoint :: "string \<Rightarrow> string list \<Rightarrow> required_providers \<Rightarrow> endpoint" where
  "bare_endpoint name provides needs =
     \<lparr>e_body = TemplateNone, e_declare = [], e_headers = [], e_load_pattern = None, e_logs = [], e_max_parallel_requests = None,
      e_method = GET, e_no_auto_returns = False, e_on_demand = False, e_peak_load = None,
      e_provides = map (\<lambda>p. (p, \<lparr>sel_join = [], sel_references_for_each = False, sel_where_references_for_each = False,
        sel_send_behavior = Force, sel_select = SelNull, sel_where_clause = None, sel_nre = True\<rparr>)) provides,
      e_providers_to_stream = needs, e_required_providers = needs, e_request_timeout = None,
      e_tags = [(''_id'', text_template name)], e_url = text_template ''http://h/''\<rparr>"

definition login_and_page :: "marker \<Rightarrow> endpoint list" where
  "login_and_page m = [bare_endpoint ''0'' [] (rp_new\<lparr>rp_inner := [(''p'', m)]\<rparr>), bare_endpoint ''1'' [''p''] rp_new]"

definition page_context :: builder_context where
  "page_context = \<lparr>bc_request_timeout = 0, bc_providers = [(''p'', None)], bc_loggers = []\<rparr>"

theorem try_run_endpoints_witness:
  "\<forall>m. \<exists>en (b :: nat \<Rightarrow> built_endpoint). collect_endpoints ref_expr_ext (login_and_page m) endpoints_new = Inr en \<and>
    endpoints_build (\<lambda>tags. map_of tags ''_id'' = Some ''0'') page_context {''p''} en =
      Some [finish_endpoint (b 0, False), finish_endpoint (b 1, True)]"
proof
  fix m
  let ?es = "login_and_page m" and ?incl = "\<lambda>tags. map_of tags ''_id'' = Some ''0''"
  let ?takes = "takes_part (included_by ref_expr_ext ?incl) {''p''} ?es"
  have tags: "static_tags ref_expr_ext (bare_endpoint n ps rp) = Inr [(''_id'', n)]" for n ps rp
    by (simp add: static_tags_def bare_endpoint_def text_template_def)
  have two: "length ?es = 2" by (simp add: login_and_page_def)
  obtain en where en: "collect_endpoints ref_expr_ext ?es endpoints_new = Inr en" "length (en_inner en) = 2"
    "map (\<lambda>x. fst (snd x)) (en_inner en) = map (\<lambda>e. (try_endpoint e, None)) ?es"
    by (simp add: login_and_page_def tags or_exec_err_def endpoints_append_def Let_def endpoints_new_def)
  have "\<exists>b. builder_build page_context (try_endpoint e, None) = Some b" if "e \<in> set ?es" for e
    using that by (auto simp: login_and_page_def builder_build_def endpoint_build_def try_endpoint_def bare_endpoint_def page_context_def)
  then obtain b0 b1 where "builder_build page_context (try_endpoint (?es ! 0), None) = Some b0"
    "builder_build page_context (try_endpoint (?es ! 1), None) = Some b1"
    by (metis two nth_mem zero_less_numeral one_less_numeral_iff semiring_norm(76))
  then have "all_some (map (\<lambda>(_, builder, _). builder_build page_context builder) (en_inner en)) \<noteq> None"
    using en(2,3) by (auto simp: login_and_page_def numeral_2_eq_2 length_Suc_conv split: prod.splits)
  then obtain bs where bs: "endpoints_build ?incl page_context {''p''} en = Some bs" by (auto simp: endpoints_build_def)
  have "wants {''p''} (?es ! 0) ''p''" "\<And>q. \<not> wants {''p''} (?es ! 1) q" "offers (?es ! 1) ''p''" "\<And>q. \<not> offers (?es ! 0) q"
    by (simp_all add: login_and_page_def bare_endpoint_def wants_def offers_def rp_contains_def rp_new_def)
  then have serves: "serves {''p''} ?es 1 0" "\<And>k. \<not> serves {''p''} ?es 0 k"
    using two by (auto simp: serves_def)
  have "?takes 0" by (rule matching) (simp_all add: two, simp add: login_and_page_def included_by_def tags)
  moreover from this serves(1) have "?takes 1" by (rule serving)
  ultimately have takes: "filter ?takes [0..<length ?es] = [0, 1]" "(\<exists>k. ?takes k \<and> serves {''p''} ?es 1 k) = True"
    "(\<exists>k. ?takes k \<and> serves {''p''} ?es 0 k) = False"
    using serves by (auto simp: two numeral_2_eq_2)
  from try_run_endpoints [OF en(1) bs refl] obtain b where
    "bs = map (\<lambda>i. finish_endpoint (b i, \<exists>k. ?takes k \<and> serves {''p''} ?es i k)) (filter ?takes [0..<length ?es])" by blast
  then have "bs = [finish_endpoint (b 0, False), finish_endpoint (b 1, True)]" by (simp only: takes list.map)
  with en(1) bs show "\<exists>en (b :: nat \<Rightarrow> built_endpoint). collect_endpoints ref_expr_ext ?es endpoints_new = Inr en \<and>
      endpoints_build ?incl page_context {''p''} en = Some [finish_endpoint (b 0, False), finish_endpoint (b 1, True)]"
    by blast
qed

end
