(* ===== verification/Run.thy ===== *)
theory Run
  imports TryRun
begin

text \<open>
  A test from the command line to its end (\<open>src/lib.rs\<close> and the arguments of \<open>src/bin/pewpew.rs\<close>): how it starts, the
  task that watches the configuration file, which signal ends it, and what is printed then. Files, the time, the colours
  of \<open>yansi\<close> (\<open>paint\<close>) and the environment are arguments. What is spawned is a result. \<open>None\<close> is a panic.
\<close>

subsection \<open>Messages\<close>

datatype colour = Red | Yellow

type_synonym painter = "colour \<Rightarrow> bool \<Rightarrow> string \<Rightarrow> string"   \<comment> \<open>bold or not\<close>

definition nl :: string where
  "nl = [CHR 0x0A]"

definition json_message :: "expr_ext \<Rightarrow> string \<Rightarrow> string \<Rightarrow> string" where
  "json_message X kind msg = x_display X (JObject [(''msg'', JString msg), (''type'', JString kind)]) @ nl"

definition fatal_message :: "painter \<Rightarrow> expr_ext \<Rightarrow> run_output_format \<Rightarrow> test_error \<Rightarrow> string" where
  "fatal_message paint X f e =
     (case f of
        Human \<Rightarrow> nl @ paint Red True ''Fatal error'' @ '' '' @ test_error_message e @ nl
      | JsonOutput \<Rightarrow> json_message X ''fatal'' (test_error_message e))"

definition end_text :: "string \<Rightarrow> string" where
  "end_text msg = ''{'' @ [CHR 0x22] @ ''type'' @ [CHR 0x22, CHR 0x3A, CHR 0x22] @ ''end'' @ [CHR 0x22, CHR 0x2C, CHR 0x22] @ ''msg'' @
     [CHR 0x22, CHR 0x3A, CHR 0x22] @ msg @ [CHR 0x22] @ ''}'' @ nl"

definition end_message :: "painter \<Rightarrow> bool \<Rightarrow> run_output_format \<Rightarrow> string \<Rightarrow> string" where
  "end_message paint bold f msg = (case f of Human \<Rightarrow> nl @ paint Yellow bold msg @ nl | JsonOutput \<Rightarrow> end_text msg)"

definition reload_warning :: "painter \<Rightarrow> expr_ext \<Rightarrow> run_output_format \<Rightarrow> string \<Rightarrow> string" where
  "reload_warning paint X f e =
     (case f of
        Human \<Rightarrow> nl @ paint Yellow False ''Could not reload config file'' @ '' '' @ e @ nl
      | JsonOutput \<Rightarrow> json_message X ''warn'' (''could not reload config file '' @ e))"

subsection \<open>The end of a test\<close>

text \<open>
  What the receiver of the signals gets: \<open>Inl\<close> stands for signals that were lost, as the channel keeps one only. A test
  goes on with a new configuration.
\<close>

fun run_result :: "(unit + 'p test_signal) list \<Rightarrow> 'p test_signal" where
  "run_result [] = Inr Completed"
| "run_result (Inr (Inr (ConfigUpdate p)) # signals) = run_result signals"
| "run_result (Inr v # signals) = v"
| "run_result (Inl _ # signals) = Inr Completed"

text \<open>What \<open>create_run\<close> returns, the signal it sends first, and the last message on stderr.\<close>

definition run_end :: "painter \<Rightarrow> expr_ext \<Rightarrow> run_output_format \<Rightarrow> 'p test_signal \<Rightarrow>
    (unit + unit) \<times> 'p test_signal list \<times> msg_type option" where
  "run_end paint X f r =
     (case r of
        Inl e \<Rightarrow> (Inl (), [Inr Completed], Some (Final (fatal_message paint X f e)))
      | Inr KilledByLogger \<Rightarrow> (Inr (), [], Some (Final (end_message paint True f ''Test killed early by logger'')))
      | Inr CtrlC \<Rightarrow> (Inr (), [], Some (Final (end_message paint True f ''Test killed early by Ctrl-c'')))
      | Inr ProviderEnded \<Rightarrow>
          (Inr (), [], Some (Final (end_message paint False f ''Test ended early because one or more providers ended'')))
      | Inr _ \<Rightarrow> (Inr (), [], None))"

definition ctrlc_poll :: "unit option poll \<Rightarrow> bool \<Rightarrow> unit poll \<times> 'p test_signal list" where
  "ctrlc_poll ctrlc ended =
     (case ctrlc of
        Ready r \<Rightarrow> (Ready (), if r \<noteq> None then [Inr CtrlC] else [])
      | Pending \<Rightarrow> (if ended then Ready () else Pending, []))"

subsection \<open>The configuration watcher\<close>

definition file_provider_eq :: "file_provider \<Rightarrow> file_provider \<Rightarrow> bool" where
  "file_provider_eq f g \<longleftrightarrow>
     fi_csv f = fi_csv g \<and> fi_auto_return f = fi_auto_return g \<and> buffer_limit_eq (fi_buffer f) (fi_buffer g) \<and>
     fi_format f = fi_format g \<and> fi_path f = fi_path g \<and> fi_random f = fi_random g \<and> fi_repeat f = fi_repeat g \<and>
     fi_unique f = fi_unique g"

fun list_provider_eq :: "list_provider \<Rightarrow> list_provider \<Rightarrow> bool" where
  "list_provider_eq (WithOptions a) (WithOptions b) \<longleftrightarrow>
     list_random a = list_random b \<and> list_repeat a = list_repeat b \<and> json_list_eq (list_values a) (list_values b) \<and>
     list_unique a = list_unique b"
| "list_provider_eq (DefaultOptions a) (DefaultOptions b) \<longleftrightarrow> json_list_eq a b"
| "list_provider_eq _ _ \<longleftrightarrow> False"

fun provider_eq :: "provider \<Rightarrow> provider \<Rightarrow> bool" where
  "provider_eq (FileProvider f) (FileProvider g) \<longleftrightarrow> file_provider_eq f g"
| "provider_eq (RangeProvider r) (RangeProvider s) \<longleftrightarrow> r = s"
| "provider_eq (ResponseProvider r) (ResponseProvider s) \<longleftrightarrow>
     resp_auto_return r = resp_auto_return s \<and> buffer_limit_eq (resp_buffer r) (resp_buffer s) \<and> resp_unique r = resp_unique s"
| "provider_eq (ListProvider l) (ListProvider k) \<longleftrightarrow> list_provider_eq l k"
| "provider_eq _ _ \<longleftrightarrow> False"

text \<open>A provider whose configuration has not changed is kept, with the values in its channel.\<close>

definition reuse_providers ::
    "(string \<times> provider) list \<Rightarrow> (string \<times> 'p) list \<Rightarrow> (string \<times> provider) list \<Rightarrow> (string \<times> 'p) list \<Rightarrow> (string \<times> 'p) list" where
  "reuse_providers previous_config previous config providers =
     fold (\<lambda>(name, p) providers.
         case map_of previous_config name of
           Some p2 \<Rightarrow>
             if provider_eq p p2
             then (case map_of previous name of Some old \<Rightarrow> bt_insert name old providers | None \<Rightarrow> providers)
             else providers
         | None \<Rightarrow> providers) config providers"

definition watch_poll :: "bool \<Rightarrow> (unit + 'p test_signal) option poll \<Rightarrow> unit option poll" where
  "watch_poll tick signal =
     (if tick then Ready (Some ())
      else case signal of
        Ready (Some (Inr (Inr (ConfigUpdate _)))) \<Rightarrow> Pending
      | Pending \<Rightarrow> Pending
      | Ready _ \<Rightarrow> Ready None)"

record 'p watch_state =
  wa_last_modified :: "system_time option"
  wa_config_providers :: "(string \<times> provider) list"
  wa_providers :: "(string \<times> 'p) list"

text \<open>The surroundings of the watcher: what does not change, and what it finds at one tick.\<close>

record ('h, 'd, 'q, 'ev, 'a, 'b, 'c) run_env =
  re_config_ext :: config_ext
  re_fuel :: nat
  re_env_vars :: "(string \<times> string) list"
  re_create :: "string \<Rightarrow> io_error option"
  re_tls :: "string option"
  re_escape :: "string \<Rightarrow> string"
  re_providers :: "('h, 'd, 'q, 'ev, 'a, 'b, 'c) provider_env"
  re_paint :: painter

record watch_input =
  wi_modified :: "system_time option"
  wi_contents :: "string option"
  wi_since_start :: duration
  wi_listening :: bool

text \<open>A configuration that was read: the signal to the old test goes out before the new one is known to start.\<close>

definition watch_reload ::
    "('h, 'd, 'q, 'ev, 'a, 'b, 'c) run_env \<Rightarrow> run_config \<Rightarrow> watch_input \<Rightarrow> load_test \<Rightarrow>
     ('h, 'd, 'q, 'ev, 'a, 'b, 'c) made_provider watch_state \<Rightarrow>
     (('h, 'd, 'q, 'ev, 'a, 'b, 'c) made_provider watch_state \<times> msg_type list \<times>
      (string \<times> ('h, 'd, 'q, 'ev, 'a, 'b, 'c) made_provider) list test_signal list \<times> load_run option \<times> bool) option" where
  "watch_reload R rc wi lt st =
     (let warn = (\<lambda>e. [Other (reload_warning (re_paint R) (cx_ext (re_config_ext R)) (rc_output_format rc) (test_error_message e))])
      in Option.bind (get_providers_from_config (re_providers R) (gc_auto_buffer_start_size (cs_general (l_config lt)))
            (rc_config_file rc) (l_providers lt)) (\<lambda>r. case r of
        Inl e \<Rightarrow> Some (st, warn e, [], None, False)
      | Inr (providers, _) \<Rightarrow>
          (let providers = reuse_providers (wa_config_providers st) (wa_providers st) (l_providers lt) providers;
               st = st\<lparr>wa_config_providers := l_providers lt, wa_providers := providers\<rparr>;
               signal = Inr (ConfigUpdate providers)
           in if \<not> wi_listening wi then Some (st, [], [], None, True)
              else
                map_option (\<lambda>r. case r of
                    Inl e \<Rightarrow> (st, warn e, [signal], None, False)
                  | Inr f \<Rightarrow> (st, [], [signal], Some f, False))
                  (create_load_test (re_create R) (re_tls R) (rc\<lparr>rc_start_at := Some (wi_since_start wi)\<rparr>) lt providers))))"

definition watch_turn ::
    "('h, 'd, 'q, 'ev, 'a, 'b, 'c) run_env \<Rightarrow> run_config \<Rightarrow> watch_input \<Rightarrow>
     ('h, 'd, 'q, 'ev, 'a, 'b, 'c) made_provider watch_state \<Rightarrow>
     (('h, 'd, 'q, 'ev, 'a, 'b, 'c) made_provider watch_state \<times> msg_type list \<times>
      (string \<times> ('h, 'd, 'q, 'ev, 'a, 'b, 'c) made_provider) list test_signal list \<times> load_run option \<times> bool) option" where
  "watch_turn R rc wi st =
     (case wi_modified wi of
        None \<Rightarrow> Some (st, [], [], None, False)
      | Some modified \<Rightarrow>
          if wa_last_modified st = Some modified then Some (st, [], [], None, False)
          else if wa_last_modified st = None then Some (st\<lparr>wa_last_modified := Some modified\<rparr>, [], [], None, False)
          else
            (let st = st\<lparr>wa_last_modified := Some modified\<rparr> in
             case wi_contents wi of
               None \<Rightarrow> Some (st, [], [], None, False)
             | Some bytes \<Rightarrow>
                 (case load_test_from_config (re_config_ext R) (re_fuel R) (rc_config_file rc) (re_env_vars R) bytes of
                    Inl (Error e) \<Rightarrow>
                      Some (st, [Other (reload_warning (re_paint R) (cx_ext (re_config_ext R)) (rc_output_format rc) (config_error_message e))],
                        [], None, False)
                  | Inl _ \<Rightarrow> None
                  | Inr lt \<Rightarrow> watch_reload R rc wi lt st)))"

subsection \<open>The start of a test\<close>

text \<open>A file that cannot be opened is no configuration file; one that cannot be read is another error.\<close>

definition read_config_file :: "string \<Rightarrow> io_error + (io_error + string) \<Rightarrow> test_error + string" where
  "read_config_file path opened =
     (case opened of
        Inl _ \<Rightarrow> Inl (InvalidConfigFilePath path)
      | Inr (Inl e) \<Rightarrow> Inl (CannotOpenFile path (io_error_text e))
      | Inr (Inr bytes) \<Rightarrow> Inr bytes)"

record ('h, 'd, 'q, 'ev, 'a, 'b, 'c, 'hist) started_run =
  sr_load_run :: load_run
  sr_stats :: "'hist stats"
  sr_watch :: "('h, 'd, 'q, 'ev, 'a, 'b, 'c) made_provider watch_state option"

definition start_load_run ::
    "('h, 'd, 'q, 'ev, 'a, 'b, 'c) run_env \<Rightarrow> nat \<Rightarrow> (string \<times> ('h, 'd, 'q, 'ev, 'a, 'b, 'c) made_provider \<Rightarrow> nat \<Rightarrow> channel_stats) \<Rightarrow>
     run_config \<Rightarrow> load_test \<Rightarrow> (test_error + ('h, 'd, 'q, 'ev, 'a, 'b, 'c, 'hist) started_run) option" where
  "start_load_run R now reader rc lt =
     (let general = cs_general (l_config lt) in
      Option.bind (get_providers_from_config (re_providers R) (gc_auto_buffer_start_size general) (rc_config_file rc) (l_providers lt))
        (\<lambda>r. case r of Inl e \<Rightarrow> Some (Inl e) | Inr (providers, _) \<Rightarrow>
      Option.bind (stats_new now (as_secs (gc_bucket_size general))
          (if gc_log_provider_stats general then map reader providers else [])) (\<lambda>stats.
      case re_create R (rc_stats_file rc) of
        Some e \<Rightarrow> Some (Inl (CannotCreateStatsFile (rc_stats_file rc) (io_error_text e)))
      | None \<Rightarrow>
          map_option (res_map (\<lambda>f. \<lparr>sr_load_run = f, sr_stats = stats,
              sr_watch = (if rc_watch_config_file rc
                then Some \<lparr>wa_last_modified = None, wa_config_providers = l_providers lt, wa_providers = providers\<rparr> else None)\<rparr>))
            (create_load_test (re_create R) (re_tls R) rc lt providers))))"

definition start_test ::
    "('h, 'd, 'q, 'ev, 'a, 'b, 'c) run_env \<Rightarrow> nat \<Rightarrow> (string \<times> ('h, 'd, 'q, 'ev, 'a, 'b, 'c) made_provider \<Rightarrow> nat \<Rightarrow> channel_stats) \<Rightarrow>
     (string \<Rightarrow> io_error + (io_error + string)) \<Rightarrow> exec_config \<Rightarrow>
     (test_error + (built_endpoint list, ('h, 'd, 'q, 'ev, 'a, 'b, 'c, 'hist) started_run) either) option" where
  "start_test R now reader open_file exec =
     (let path = get_config_file exec in
      case read_config_file path (open_file path) of
        Inl e \<Rightarrow> Some (Inl e)
      | Inr bytes \<Rightarrow>
          Option.bind (config_result (load_test_from_config (re_config_ext R) (re_fuel R) path (re_env_vars R) bytes)) (\<lambda>r.
          case r of Inl e \<Rightarrow> Some (Inl e) | Inr lt \<Rightarrow>
            (case exec of
               ExecTry tc \<Rightarrow> map_option (res_map A)
                 (create_try_run (re_config_ext R) (re_fuel R) (re_escape R) (re_create R) (re_tls R) (re_providers R) lt tc)
             | ExecRun rc \<Rightarrow> map_option (res_map B) (start_load_run R now reader rc lt))))"

text \<open>\<open>create_run\<close>: a test that does not start ends with its error, any other with what its signals say.\<close>

definition create_run ::
    "('h, 'd, 'q, 'ev, 'a, 'b, 'c) run_env \<Rightarrow> nat \<Rightarrow> (string \<times> ('h, 'd, 'q, 'ev, 'a, 'b, 'c) made_provider \<Rightarrow> nat \<Rightarrow> channel_stats) \<Rightarrow>
     (string \<Rightarrow> io_error + (io_error + string)) \<Rightarrow> exec_config \<Rightarrow> (unit + 'p test_signal) list \<Rightarrow>
     ((unit + unit) \<times> 'p test_signal list \<times> msg_type option) option" where
  "create_run R now reader open_file exec signals =
     map_option (\<lambda>r. run_end (re_paint R) (cx_ext (re_config_ext R)) (get_output_format exec)
         (case r :: test_error + (built_endpoint list, ('h, 'd, 'q, 'ev, 'a, 'b, 'c, unit) started_run) either of
            Inl e \<Rightarrow> Inl e | Inr _ \<Rightarrow> run_result signals))
       (start_test R now reader open_file exec)"

subsection \<open>The command line\<close>

text \<open>The three groups of the filter's expression; any other text was refused before.\<close>

definition try_filter_of :: "expr_ext \<Rightarrow> string \<Rightarrow> try_filter option" where
  "try_filter_of X s =
     Option.bind (x_regex_new X ''^(.*?)(!=|=)(.*)'') (\<lambda>re.
     case x_captures X re s of
       Some [_, Some left, Some comparator, Some right] \<Rightarrow>
         if comparator = ''='' then Some (FilterEq left right)
         else if comparator = ''!='' then Some (FilterNe left right) else None
     | _ \<Rightarrow> None)"

text \<open>\<open>Path::file_stem\<close>: the name up to its last dot, a dot at its start not counted.\<close>

definition path_file_stem :: "string \<Rightarrow> string option" where
  "path_file_stem p =
     map_option (\<lambda>name.
         let before = rev (dropWhile (\<lambda>c. c \<noteq> CHR 0x2E) (rev name))
         in if length before \<le> 1 then name else butlast before)
       (path_file_name p)"

definition stats_file_path :: "nat \<Rightarrow> string option \<Rightarrow> string option \<Rightarrow> string \<Rightarrow> string" where
  "stats_file_path start_sec stats_file results_dir config_file =
     (let file = (case stats_file of
          Some f \<Rightarrow> f
        | None \<Rightarrow>
            (case path_file_stem config_file of
               Some name \<Rightarrow> ''stats-'' @ name @ ''-'' @ nat_to_string start_sec @ ''.json''
             | None \<Rightarrow> ''stats-'' @ nat_to_string start_sec @ ''.json''))
      in case results_dir of Some d \<Rightarrow> path_push d file | None \<Rightarrow> file)"

end
