(* ===== verification/RunProps.thy ===== *)
theory RunProps
  imports Run TryRunProps LoadTestProps
begin

text \<open>
  An accepted configuration starts: what the configuration checks (theory \<open>LoadTestProps\<close>) is what building the endpoints
  and their load patterns needs. And what a reload of the configuration keeps.
\<close>

subsection \<open>Load patterns\<close>

definition pattern_ok :: "linear_builder \<Rightarrow> bool" where
  "pattern_ok lb \<longleftrightarrow> sum_list (map pc_duration (lb_pieces lb)) < duration_limit"

lemma evaluated_pattern_ok:
  assumes "pre_load_pattern_evaluate X F vars p = Inr lb"
  shows "pattern_ok lb"
proof -
  have "load_pattern_pieces X F vars (fst p) (f64_zero False) None = Inr (Some lb)"
    using assms by (auto simp: pre_load_pattern_evaluate_def res_bind_eq_Inr split: option.splits)
  from load_pattern_pieces_follow [OF this] show ?thesis
    by (auto simp: pattern_ok_def builder_pieces_def builder_duration_def duration_limit_def nanos_per_sec_def)
qed

definition patterns_ok :: "linear_builder option \<Rightarrow> bool" where
  "patterns_ok l = (case l of Some lb \<Rightarrow> pattern_ok lb | None \<Rightarrow> True)"

lemma optional_pattern_ok: "optional (pre_load_pattern_evaluate X F vars) p = Inr l \<Longrightarrow> patterns_ok l"
  by (auto simp: optional_def patterns_ok_def res_map_eq_Inr dest: evaluated_pattern_ok split: option.splits)

lemma append_logs_pattern: "append_logs X F vars ls e = Inr e' \<Longrightarrow> e_load_pattern e' = e_load_pattern e"
  by (induction X F vars ls e rule: append_logs.induct)
    (auto simp: res_bind_eq_Inr append_logger_def res_map_eq_Inr append_processed_logger_def)

lemma endpoint_pattern_ok:
  assumes "endpoint_from_preprocessed X F ep i vars global hs path = Inr e" "patterns_ok global"
  shows "patterns_ok (e_load_pattern e)"
proof -
  from assms(1) obtain l e0 where l: "optional (pre_load_pattern_evaluate X F vars) (ep_load_pattern ep) = Inr l"
    and e: "append_logs X F vars (ep_logs ep) e0 = Inr e" "e_load_pattern e0 = (case l of Some l \<Rightarrow> Some l | None \<Rightarrow> global)"
    by (fastforce simp: endpoint_from_preprocessed_def res_bind_eq_Inr Let_def case_prod_beta)
  from append_logs_pattern [OF e(1)] e(2) optional_pattern_ok [OF l] assms(2) show ?thesis by (auto split: option.splits)
qed

lemma build_endpoints_patterns:
  "build_endpoints X F ps eps i vars global hs path = Inr (es, errs) \<Longrightarrow> patterns_ok global \<Longrightarrow>
    list_all (\<lambda>e. patterns_ok (e_load_pattern e)) es"
  by (induction eps arbitrary: i es errs) (auto simp: res_bind_eq_Inr res_map_eq_Inr endpoint_pattern_ok)

lemma add_logger_patterns: "add_logger X F k l lt = Inr lt' \<Longrightarrow> map e_load_pattern (l_endpoints lt') = map e_load_pattern (l_endpoints lt)"
  by (auto simp: add_logger_def res_bind_eq_Inr res_map_eq_Inr Let_def append_processed_logger_def comp_def split: option.splits)

lemma add_loggers_patterns: "add_loggers X F ls lt = Inr lt' \<Longrightarrow> map e_load_pattern (l_endpoints lt') = map e_load_pattern (l_endpoints lt)"
  by (induction X F ls lt rule: add_loggers.induct) (auto simp: res_bind_eq_Inr dest: add_logger_patterns)

lemma accepted_patterns:
  assumes "load_test_from_preprocessed X F path env c = Inr lt" "e \<in> set (l_endpoints lt)"
  shows "patterns_ok (e_load_pattern e)"
proof -
  from assms(1) obtain vars lp hs cfg es errs ps where
    lp: "optional (pre_load_pattern_evaluate X F vars) (lt_load_pattern c) = Inr lp"
    and es: "build_endpoints X F (lt_providers c) (lt_endpoints c) 0 vars lp hs path = Inr (es, errs)"
    and lt: "add_loggers X F (lt_loggers c) \<lparr>l_config = cfg, l_endpoints = es, l_providers = ps, l_loggers = [],
      l_vars = vars, l_errors = errs\<rparr> = Inr lt"
    by (auto simp: load_test_from_preprocessed_def Let_def res_bind_eq_Inr res_map_eq_Inr)
  have "set (map e_load_pattern (l_endpoints lt)) = set (map e_load_pattern es)" using add_loggers_patterns [OF lt] by simp
  with build_endpoints_patterns [OF es optional_pattern_ok [OF lp]] assms(2) show ?thesis
    by (auto simp: list_all_iff) (metis (mono_tags, lifting) imageE imageI)
qed

lemma append_pieces_some:
  "mi_duration mi + sum_list (map pc_duration ps) < duration_limit \<Longrightarrow> \<exists>mi'. append_pieces peak ps mi = Some mi'"
  by (induction ps arbitrary: mi) (auto simp: append_segment_def dur_add_def)

lemma endpoint_builder_some:
  assumes "patterns_ok (e_load_pattern e)"
  shows "\<exists>start. endpoint_builder e = Some (e\<lparr>e_load_pattern := None\<rparr>, start) \<and>
    (start \<noteq> None \<longleftrightarrow> e_peak_load e \<noteq> None \<and> e_load_pattern e \<noteq> None)"
proof (cases "e_peak_load e = None \<or> e_load_pattern e = None")
  case True
  then show ?thesis by (auto simp: endpoint_builder_def endpoint_interval_def split: option.split)
next
  case False
  then obtain peak lb where "e_peak_load e = Some peak" "e_load_pattern e = Some lb" by auto
  moreover from this assms obtain mi where "append_pieces peak (lb_pieces lb) mod_interval_new = Some mi"
    using append_pieces_some [of mod_interval_new "lb_pieces lb" peak]
    by (auto simp: patterns_ok_def pattern_ok_def mod_interval_new_def)
  ultimately show ?thesis by (simp add: endpoint_builder_def endpoint_interval_def)
qed

subsection \<open>Names\<close>

lemma build_targets_some: "list_all (\<lambda>(k, _). known k) ts \<Longrightarrow> \<exists>os. build_targets known target ts = Some os"
  by (induction known target ts rule: build_targets.induct) auto

lemma endpoint_build_some:
  assumes "fst ` set (e_provides e) \<subseteq> dom (map_of (bc_providers ctx))" "fst ` set (e_logs e) \<subseteq> set (bc_loggers ctx)"
  shows "\<exists>b. endpoint_build e start ctx = Some b"
proof -
  have "list_all (\<lambda>(k, _). map_of (bc_providers ctx) k \<noteq> None) (e_provides e)"
    "list_all (\<lambda>(k, _). k \<in> set (bc_loggers ctx)) (e_logs e)"
    using assms by (auto simp: list_all_iff)
  from this [THEN build_targets_some] obtain ps ls where
    "build_targets (\<lambda>k. map_of (bc_providers ctx) k \<noteq> None) ToProvider (e_provides e) = Some ps"
    "build_targets (\<lambda>k. k \<in> set (bc_loggers ctx)) ToLogger (e_logs e) = Some ls" by metis
  then show ?thesis by (simp add: endpoint_build_def)
qed

lemma providers_names:
  "get_providers_from_config V n path ps = Some (Inr (made_ps, rs)) \<Longrightarrow> map fst made_ps = map fst ps"
  by (induction V n path ps arbitrary: made_ps rs rule: get_providers_from_config.induct)
    (auto simp: res_map_eq_Inr split: option.splits sum.splits)

lemma loggers_names: "get_loggers_from_config create dir ls = Inr made_ls \<Longrightarrow> map fst made_ls = map fst ls"
  unfolding get_loggers_from_config_def
  by (induction ls arbitrary: made_ls) (auto simp: res_bind_eq_Inr res_map_eq_Inr)

lemma loggers_error:
  "get_loggers_from_config create dir ls = Inl e \<Longrightarrow> \<exists>name m. e = CannotCreateLoggerFile name m \<and> name \<in> fst ` set ls"
  unfolding get_loggers_from_config_def
proof (induction ls)
  case (Cons x ls)
  obtain name l where x: "x = (name, l)" by (cases x)
  with Cons.prems consider "logger_writer create dir name (lg_to' l) = Inl e"
    | "collect_res (map (\<lambda>(name, l). res_map (\<lambda>w. (name, logger_of_config l w)) (logger_writer create dir name (lg_to' l))) ls) = Inl e"
    by (auto simp: res_bind_eq_Inl)
  then show ?case
    by cases (use Cons.IH x in \<open>auto simp: logger_writer_def Let_def split: if_splits option.splits\<close>)
qed simp

subsection \<open>An accepted configuration starts\<close>

lemma builders_some:
  assumes "load_test_from_preprocessed X F path env c = Inr lt"
  shows "\<exists>starts. all_some (map endpoint_builder (l_endpoints lt)) =
      Some (map2 (\<lambda>e start. (e\<lparr>e_load_pattern := None\<rparr>, start)) (l_endpoints lt) starts) \<and>
    list_all2 (\<lambda>e start. start \<noteq> None \<longleftrightarrow> e_peak_load e \<noteq> None \<and> e_load_pattern e \<noteq> None) (l_endpoints lt) starts"
proof -
  have "\<exists>starts. all_some (map endpoint_builder es) = Some (map2 (\<lambda>e start. (e\<lparr>e_load_pattern := None\<rparr>, start)) es starts) \<and>
    list_all2 (\<lambda>e start. start \<noteq> None \<longleftrightarrow> e_peak_load e \<noteq> None \<and> e_load_pattern e \<noteq> None) es starts"
    if "\<forall>e\<in>set es. patterns_ok (e_load_pattern e)" for es
    using that
  proof (induction es)
    case (Cons e es)
    then obtain start starts where "endpoint_builder e = Some (e\<lparr>e_load_pattern := None\<rparr>, start)"
      "start \<noteq> None \<longleftrightarrow> e_peak_load e \<noteq> None \<and> e_load_pattern e \<noteq> None"
      "all_some (map endpoint_builder es) = Some (map2 (\<lambda>e start. (e\<lparr>e_load_pattern := None\<rparr>, start)) es starts)"
      "list_all2 (\<lambda>e start. start \<noteq> None \<longleftrightarrow> e_peak_load e \<noteq> None \<and> e_load_pattern e \<noteq> None) es starts"
      using endpoint_builder_some [of e] by auto
    then show ?case by (intro exI [of _ "start # starts"]) simp
  qed simp
  with accepted_patterns [OF assms] show ?thesis by blast
qed

lemma built_some:
  assumes "length es = length starts"
    "\<forall>e\<in>set es. fst ` set (e_provides e) \<subseteq> dom (map_of (bc_providers ctx)) \<and> fst ` set (e_logs e) \<subseteq> set (bc_loggers ctx)"
  shows "\<exists>built. all_some (map (builder_build ctx) (map2 (\<lambda>e start. (e\<lparr>e_load_pattern := None\<rparr>, start)) es starts)) = Some built \<and>
    list_all2 (\<lambda>e b. b_url b = e_url e) es built"
  using assms
proof (induction es starts rule: list_induct2)
  case (Cons e es start starts)
  let ?start = "map_option (\<lambda>_. StartPattern) start"
  from Cons.prems obtain b where b: "endpoint_build (e\<lparr>e_load_pattern := None\<rparr>) ?start ctx = Some b"
    using endpoint_build_some [of "e\<lparr>e_load_pattern := None\<rparr>" ctx ?start] by auto
  then have "b_url b = e_url e" by (auto simp: endpoint_build_def Option.bind_eq_Some_conv)
  moreover from Cons obtain built where
    "all_some (map (builder_build ctx) (map2 (\<lambda>e start. (e\<lparr>e_load_pattern := None\<rparr>, start)) es starts)) = Some built"
    "list_all2 (\<lambda>e b. b_url b = e_url e) es built" by auto
  ultimately show ?case using b by (intro exI [of _ "b # built"]) (simp add: builder_build_def)
qed simp


lemma ref_file_providers:
  assumes "load_test_from_preprocessed ref_config_ext F path [] ref_file = Inr lt"
  shows "l_providers lt = [(''p'', ResponseProvider \<lparr>resp_auto_return = None, resp_buffer = buffer_limit_dynamic, resp_unique = False\<rparr>)]"
  using assms by (auto simp: load_test_from_preprocessed_def ref_file_def Let_def res_bind_eq_Inr res_map_eq_Inr provider_of_def
      dest!: add_logger_keeps)


subsection \<open>Reloading\<close>

lemma reuse_providers_map:
  "distinct (map fst cfg) \<Longrightarrow> map_of (reuse_providers pc pv cfg ps) name =
    (case (map_of cfg name, map_of pc name, map_of pv name) of
       (Some p, Some p2, Some old) \<Rightarrow> if provider_eq p p2 then Some old else map_of ps name
     | _ \<Rightarrow> map_of ps name)"
proof (induction cfg arbitrary: ps)
  case Nil
  then show ?case by (simp add: reuse_providers_def)
next
  case (Cons x cfg)
  obtain k p where x: "x = (k, p)" by (cases x)
  let ?ps = "reuse_providers pc pv [x] ps"
  have step: "reuse_providers pc pv (x # cfg) ps = reuse_providers pc pv cfg ?ps" by (simp add: reuse_providers_def)
  have one: "map_of ?ps name =
    (if name = k then (case (map_of pc name, map_of pv name) of
       (Some p2, Some old) \<Rightarrow> if provider_eq p p2 then Some old else map_of ps name | _ \<Rightarrow> map_of ps name) else map_of ps name)"
    by (simp add: reuse_providers_def x split: option.splits)
  have "map_of cfg k = None" using Cons.prems x by (simp add: map_of_eq_None_iff)
  with Cons.IH [of ?ps] Cons.prems one show ?case by (auto simp: step [unfolded x] x split: option.splits)
qed

text \<open>
  C20. A reload announces the providers of the new configuration before it starts a test on them. A provider whose
  configuration is the one it had keeps its channel and so its values; every other one is new. A configuration that
  cannot be read or whose providers cannot be made changes nothing: the test that runs goes on with what it has.
\<close>

theorem reload_keeps_providers:
  assumes "watch_reload R rc wi lt st = Some (st', msgs, signals, started, stops)" "distinct (map fst (l_providers lt))"
  shows "(st' = st \<and> signals = [] \<and> started = None \<and> \<not> stops) \<or>
    ((\<exists>fresh responses. get_providers_from_config (re_providers R) (gc_auto_buffer_start_size (cs_general (l_config lt)))
          (rc_config_file rc) (l_providers lt) = Some (Inr (fresh, responses)) \<and>
       (\<forall>name. map_of (wa_providers st') name =
          (case (map_of (l_providers lt) name, map_of (wa_config_providers st) name, map_of (wa_providers st) name) of
             (Some p, Some p2, Some old) \<Rightarrow> if provider_eq p p2 then Some old else map_of fresh name
           | _ \<Rightarrow> map_of fresh name))) \<and>
     wa_config_providers st' = l_providers lt \<and>
     (if wi_listening wi then signals = [Inr (ConfigUpdate (wa_providers st'))] \<and> \<not> stops
      else signals = [] \<and> started = None \<and> stops))"
proof (cases "get_providers_from_config (re_providers R) (gc_auto_buffer_start_size (cs_general (l_config lt))) (rc_config_file rc)
    (l_providers lt)")
  case (Some r)
  show ?thesis
  proof (cases r)
    case (Inl e)
    with Some assms(1) show ?thesis by (simp add: watch_reload_def Let_def)
  next
    case (Inr x)
    obtain fresh responses where x: "x = (fresh, responses)" by (cases x)
    let ?ps = "reuse_providers (wa_config_providers st) (wa_providers st) (l_providers lt) fresh"
    let ?st = "st\<lparr>wa_config_providers := l_providers lt, wa_providers := ?ps\<rparr>"
    have st': "st' = ?st \<and> (if wi_listening wi then signals = [Inr (ConfigUpdate ?ps)] \<and> \<not> stops
        else signals = [] \<and> started = None \<and> stops)"
    proof (cases "wi_listening wi")
      case True
      with assms(1) Some Inr x obtain z where
        "(case z of Inl e \<Rightarrow> (?st, [Other (reload_warning (re_paint R) (cx_ext (re_config_ext R)) (rc_output_format rc) (test_error_message e))],
            [Inr (ConfigUpdate ?ps)], None, False)
          | Inr f \<Rightarrow> (?st, [], [Inr (ConfigUpdate ?ps)], Some f, False)) = (st', msgs, signals, started, stops)"
        by (auto simp: watch_reload_def Let_def)
      with True show ?thesis by (cases z) auto
    qed (use assms(1) Some Inr x in \<open>auto simp: watch_reload_def Let_def\<close>)
    with Some Inr x reuse_providers_map [OF assms(2), of "wa_config_providers st" "wa_providers st" fresh] show ?thesis by simp
  qed
qed (use assms(1) in \<open>simp add: watch_reload_def Let_def\<close>)

theorem reload_keeps_providers_witness:
  "\<forall>(R :: ('h, 'd, 'q, 'ev, 'a, 'b, 'c) run_env) rc (old :: ('h, 'd, 'q, 'ev, 'a, 'b, 'c) made_provider) t. \<exists>lt st'.
    load_test_from_preprocessed ref_config_ext 2 ''/'' [] ref_file = Inr lt \<and>
    watch_reload R rc \<lparr>wi_modified = None, wi_contents = None, wi_since_start = 0, wi_listening = False\<rparr> lt
      \<lparr>wa_last_modified = t, wa_config_providers = l_providers lt, wa_providers = [(''p'', old)]\<rparr> = Some (st', [], [], None, True) \<and>
    map_of (wa_providers st') ''p'' = Some old"
proof (intro allI)
  fix R :: "('h, 'd, 'q, 'ev, 'a, 'b, 'c) run_env" and rc and old :: "('h, 'd, 'q, 'ev, 'a, 'b, 'c) made_provider" and t
  obtain lt where lt: "load_test_from_preprocessed ref_config_ext 2 ''/'' [] ref_file = Inr lt"
    using ref_file_accepted [of 1] by (auto simp: numeral_2_eq_2)
  note ps = ref_file_providers [OF lt]
  let ?wi = "\<lparr>wi_modified = None, wi_contents = None, wi_since_start = 0, wi_listening = False\<rparr>"
  let ?st = "\<lparr>wa_last_modified = t, wa_config_providers = l_providers lt, wa_providers = [(''p'', old)]\<rparr>"
  obtain st' where st': "watch_reload R rc ?wi lt ?st = Some (st', [], [], None, True)"
    by (simp add: watch_reload_def Let_def ps provider_from_config_def is_response_def)
  have "distinct (map fst (l_providers lt))" by (simp add: ps)
  from reload_keeps_providers [OF st' this] have "map_of (wa_providers st') ''p'' = Some old"
    by (auto simp: ps buffer_limit_dynamic_def)
  with lt st' show "\<exists>lt st'. load_test_from_preprocessed ref_config_ext 2 ''/'' [] ref_file = Inr lt \<and>
      watch_reload R rc ?wi lt \<lparr>wa_last_modified = t, wa_config_providers = l_providers lt, wa_providers = [(''p'', old)]\<rparr> =
        Some (st', [], [], None, True) \<and> map_of (wa_providers st') ''p'' = Some old"
    by blast
qed

text \<open>
  The old test stops at the signal whether or not the new one starts: a configuration that cannot run as a load test
  leaves no test at all, and the watcher waits on.
\<close>

lemma reload_may_stop_test:
  assumes "get_providers_from_config (re_providers R) (gc_auto_buffer_start_size (cs_general (l_config lt))) (rc_config_file rc)
      (l_providers lt) = Some (Inr (fresh, responses))"
    and "l_errors lt = ce # es" "wi_listening wi"
  shows "\<exists>st' w ps. watch_reload R rc wi lt st = Some (st', [w], [Inr (ConfigUpdate ps)], None, False)"
  using assms by (simp add: watch_reload_def Let_def create_load_test_def ok_for_loadtest_def config_result_def)

text \<open>A signal that was lost counts as the end of the test, even when it was an error.\<close>

lemma lost_error_completes: "run_result [Inl (), Inr (Inr Completed)] = Inr Completed"
  by simp

end
