(* ===== verification/Spec2Isabelle.thy ===== *)
theory Spec2Isabelle
  imports Prelude HashSet Channel ChannelEnv ChannelSpec ChannelPoll ChannelSystem ChannelProps Streams StreamsProps
    F64 Json RequiredProviders ExprFunctions Expr ExprEval Select ExprParse ExprEnv ExprOps ExprPrec ExprFold ExprStream F64Real Time LoadPattern LoadProps LoadPanic Yaml YamlProps ConfigParse Config LoadTest ConfigReads LoadTestProps FileIo Readers LineReader LineProps JsonReader CsvReader ReaderProps Errors Stats StatsProps
    LineWriter Providers ProviderProps Sending SendingProps Endpoint EndpointProps RequestBody RequestBodyProps Multipart
    ResponseHandler ResponseProps BodyHandler BodyProps RequestMaker RequestProps LoadRun TryRun TryRunProps Run RunProps
begin

text \<open>
  A verification development for pewpew, an HTTP load tester in Rust.

  \<^bold>\<open>The program.\<close> A configuration file (\<open>lib/config\<close>) describes \<^emph>\<open>endpoints\<close> (requests to be made), \<^emph>\<open>providers\<close>
  (sources of values: files, lists, ranges, responses), \<^emph>\<open>loggers\<close>, and \<^emph>\<open>load patterns\<close> (how many requests at which
  time). Everything an endpoint sends is a template over values of providers, in a small expression language. At run time
  (\<open>src/\<close>) every provider is a bounded channel (\<open>lib/channel\<close>) that a task fills. An endpoint takes a value of each provider
  it needs (\<open>lib/zip_all\<close>, or \<open>lib/select_any\<close> where it works on demand), at the times the load pattern gives
  (\<open>lib/mod_interval\<close>), makes a bounded number of requests at once (\<open>lib/for_each_parallel\<close>), reads the response
  (\<open>lib/body_reader\<close>), and sends what its selects make of the response to other providers and to loggers. A statistics
  task counts responses and errors in buckets of time; a watcher reloads the configuration; a message of the first
  \<open>TestEndReason\<close> ends the test.

  \<^bold>\<open>Foundations.\<close>
    \<^item> \<open>Prelude\<close>: the machine integers, results (\<open>Inl\<close> the error), polls and the combinators of Rust's \<open>?\<close> and \<open>map\<close>.
    \<^item> \<open>F64\<close>: \<open>f64\<close> as in IEEE 754, with exact values rounded to the nearest, ties to even; \<open>F64Real\<close> relates the rounding
      to the reals.
    \<^item> \<open>Time\<close>: \<open>Duration\<close> and \<open>Instant\<close> in nanoseconds, with the panics of their arithmetic.
    \<^item> \<open>FileIo\<close>: an open file, whose reads may be short or fail.

  \<^bold>\<open>Channels and streams\<close> (\<open>lib/channel\<close>, \<open>lib/zip_all\<close>, \<open>lib/select_any\<close>, \<open>lib/for_each_parallel\<close>, \<open>lib/either\<close>).
    \<^item> \<open>HashSet\<close>: the set of fingerprints of a unique channel; the locale \<open>fingerprint_set\<close> is its contract, \<open>dash_set\<close> that
      of the concurrent set below it.
    \<^item> \<open>Channel\<close>: the operations, one definition each. The locale \<open>chan_env\<close> (\<open>ChannelEnv\<close>) is the contract of the third-party
      queue and events. \<open>ChannelSpec\<close> has the abstract bounded queue and the simulation, \<open>ChannelPoll\<close> the polls and their
      termination, \<open>ChannelSystem\<close> the step relations: one with atomic operations, in which no wake-up is lost, and
      one in which another thread runs in the middle of a poll, in which some are. \<open>ChannelProps\<close> states the properties.
    \<^item> \<open>Streams\<close>: the combinators over any stream that keeps the contract \<open>polled_stream\<close>, \<open>StreamsProps\<close> their properties.

  \<^bold>\<open>Expressions\<close> (\<open>lib/config/src/select_parser.rs\<close>, \<open>expression_functions.rs\<close>).
    \<^item> \<open>Json\<close>, \<open>RequiredProviders\<close>: values, their coercions, and what an expression needs.
    \<^item> \<open>ExprFunctions\<close>: the fourteen functions; \<open>Expr\<close>, \<open>ExprEval\<close>, \<open>ExprStream\<close>: the tree, its evaluation to a value or an
      iterator, and the stream of its values; \<open>Select\<close>: what an endpoint sends.
    \<^item> \<open>ExprParse\<close>: from the pairs of the generated parser to the tree. \<open>ExprPrec\<close> compares the precedences with a reference,
      \<open>ExprFold\<close> shows that constant folding is sound, \<open>ExprOps\<close> has the operators on integers. \<open>ExprEnv\<close> is for examples.

  \<^bold>\<open>Load patterns\<close> (\<open>lib/mod_interval\<close>). \<open>LoadPattern\<close> is the code; \<open>LoadProps\<close> bounds the start times and gives those of a constant
  rate; \<open>LoadPanic\<close> is a pattern whose stream panics.

  \<^bold>\<open>The configuration\<close> (\<open>lib/config/src/lib.rs\<close>, \<open>from_yaml.rs\<close>, \<open>error.rs\<close>).
    \<^item> \<open>Yaml\<close>: the decoder with its anchors and aliases, and the collections; \<open>YamlProps\<close> shows that it expands aliases, and
      the round trip of JSON values.
    \<^item> \<open>ConfigParse\<close>: \<open>FromYaml\<close> of every part. \<open>ConfigReads\<close> shows with the contract \<open>reading_key\<close> of the keys of a struct
      that it always returns.
    \<^item> \<open>Config\<close>, \<open>LoadTest\<close>: from the parts to a \<open>LoadTest\<close>. \<open>LoadTestProps\<close> says what is true of an accepted one.

  \<^bold>\<open>The run\<close> (\<open>src/\<close>).
    \<^item> \<open>Errors\<close> (\<open>error.rs\<close>), \<open>LineWriter\<close> (\<open>line_writer.rs\<close>, \<open>TestEndReason\<close>).
    \<^item> \<open>Readers\<close>, \<open>LineReader\<close>, \<open>JsonReader\<close>, \<open>CsvReader\<close> (\<open>providers/\<close>): the file readers. The locale \<open>value_source\<close> is the contract
      of an iterator of values; \<open>LineProps\<close> and \<open>ReaderProps\<close> show which values are yielded.
    \<^item> \<open>Providers\<close> (\<open>providers.rs\<close>, \<open>util.rs\<close>): the providers, their tasks, and loggers; \<open>ProviderProps\<close> the limit of a logger.
    \<^item> \<open>Sending\<close>, \<open>Endpoint\<close>, \<open>RequestBody\<close> (\<open>request.rs\<close>): how values are sent, how an endpoint is built and how many requests
      it makes, and the body of a request. \<open>SendingProps\<close> has the contract \<open>room_sink\<close> of a target, which the channel of
      a provider keeps (\<open>json_channel\<close>, on top of \<open>chan_env\<close>). \<open>Multipart\<close> is a parser of multipart bodies.
    \<^item> \<open>RequestMaker\<close>, \<open>ResponseHandler\<close>, \<open>BodyHandler\<close> (\<open>request/\<close>, \<open>lib/body_reader\<close>): a request from its values to
      what it leaves in the statistics, in the providers and to be waited for.
    \<^item> \<open>Stats\<close> (\<open>stats.rs\<close>): groups, buckets, and the statistics task; \<open>StatsProps\<close> shows that the file accounts for every response.
    \<^item> \<open>LoadRun\<close>, \<open>TryRun\<close>, \<open>Run\<close> (\<open>lib.rs\<close>, \<open>bin/pewpew.rs\<close>): what a test is made of, a try run and its endpoints, and a test
      from the command line to its last message. \<open>RunProps\<close> connects the two halves of the program: what the configuration
      checks is what building the endpoints relies on.
\<close>

text \<open>
  \<^bold>\<open>What the lemmas show.\<close> Refinement: a channel is a bounded FIFO queue, a blocking sender puts as many values as there is room, the
  decoder is the expansion of aliases. Equivalence with references: operator precedence, constant folding, the endpoints
  of a try run as a least set. Round trips: JSON through YAML, pieces through a multipart body, responses through the
  statistics file. Invariants and safety: distinct items of a unique channel, channel limits, names of an accepted
  configuration, start times, content length, the gate of an endpoint on demand, what a reload keeps. Termination: the
  polls, reading a configuration, the readers. Errors: which errors end a test and which are counted or dropped.
  Where the code does not do what it means to, the theorem says what it does: wake-ups lost between a check and a
  listener, negative results that become zero, values split at a read boundary, a CSV file without records, a bucket of
  statistics without a tick, a panic in a load pattern, errors that nobody hears of.

  \<^bold>\<open>Parameters.\<close> Code outside the repository is an argument of the definitions: records of functions
  (\<open>chan_ext\<close> for the queue and the events, \<open>hash_ext\<close> for hashing and the concurrent set, \<open>expr_ext\<close> and \<open>parse_ctx\<close> for regular
  expressions, text segmentation, encodings, the generated parser, \<open>config_ext\<close>, \<open>http_ext\<close> and \<open>request_ext\<close> for \<open>serde_json\<close>, \<open>http\<close>, \<open>url\<close> and others), the streams
  a combinator polls, what a decompressor, the HTTP client or the file system answers. What is relied on is
  stated by the locales above or as a premise, and every locale is interpreted on concrete functions (\<open>ref\<close>, \<open>ref_hash\<close>, \<open>script\<close>,
  \<open>json_ref\<close>) or on the model's own (\<open>plain\<close> for the line reader, \<open>json\<close> for the JSON parser, \<open>either\<close>, \<open>sender\<close>).
  A task that is spawned is a value that says what it does; tasks that share state are interleaved by
  lists of operations or step relations. Time and randomness are arguments.

  \<^bold>\<open>Fuel and bounds.\<close> Recursion that is not structural has a measure, or fuel with an error \<open>OutOfFuel\<close> of its own.
    \<^item> The loops of \<open>ConfigParse\<close> take the number of events, which is enough (\<open>ConfigReads\<close>).
    \<^item> Templates inside strings of templates: the fuel bounds the depth of the nesting.
    \<^item> Loops of polls and readers that may not end run by \<open>loop_run\<close> (\<open>Prelude\<close>), a \<open>partial_function\<close> whose \<open>None\<close> is not
      returning; that they return is a theorem.
    \<^item> The indexes of the line and JSON readers, the chunks of a file and the multipart parser take the length of the text,
      since each step consumes some (\<open>line_index_positions\<close>).
    \<^item> Machine integers are words of their width where the code can overflow, \<open>nat\<close> where it only counts what is in memory.

  \<^bold>\<open>Not modelled.\<close> The layout of a statistics summary and the encoding of a histogram (a summary is the data it is written from);
  names, logging and \<open>Display\<close> for debugging; the declarations of the command line for \<open>clap\<close> and the start of the \<open>tokio\<close>
  runtime, which only call what is modelled; \<open>lib/config-wasm\<close> and \<open>lib/hdr-histogram-wasm\<close>, bindings that pass values on
  to JavaScript; the test server, \<open>lib/test_common\<close> and the integration tests; the viewer of results in the guide,
  which is not part of the tester. Where a poll registers its waker is modelled only for channels; elsewhere a stream is
  what it yields. There are no data races in the model beyond the interleavings written out in \<open>ChannelSystem\<close>.
\<close>

end
